(* ===== verification/Prelude.thy ===== *)
theory Prelude
  imports Main "HOL-Library.Word" "HOL-Library.List_Lexorder" "HOL-Library.Char_ord"
begin

text \<open>
  The shared base of the development: the machine integers of the program and Rust's
  saturating arithmetic on them, fallible values (\<open>'e + 'a\<close>) and stateful actions that may
  fail, the decimal printing and parsing of unsigned integers, and the collections of rules the component
  theories register their facts in.
\<close>

named_theorems sat_simps \<open>values of the saturating operations, read with unat\<close>
named_theorems act_simps \<open>unfolding of the combinators of actions\<close>
named_theorems keeps_intro \<open>introduction rules: an action keeps an invariant\<close>

section \<open>Machine integers\<close>

type_synonym u8 = "8 word"
type_synonym u32 = "32 word"
type_synonym u64 = "64 word"

text \<open>\<^verbatim>\<open>saturating_add\<close>, \<^verbatim>\<open>saturating_sub\<close>, \<^verbatim>\<open>saturating_mul\<close> of Rust's unsigned integers.\<close>

definition sat_add :: "'a::len word \<Rightarrow> 'a word \<Rightarrow> 'a word" where
  "sat_add a b = (if a + b < a then - 1 else a + b)"

definition sat_sub :: "'a::len word \<Rightarrow> 'a word \<Rightarrow> 'a word" where
  "sat_sub a b = (if a < b then 0 else a - b)"

definition sat_mul :: "'a::len word \<Rightarrow> 'a word \<Rightarrow> 'a word" where
  "sat_mul a b = (if a = 0 then 0 else if (- 1) div a < b then - 1 else a * b)"

text \<open>\<^verbatim>\<open>1_u64 << shift\<close>; the program only shifts by at most 16.\<close>

definition shl_one :: "u32 \<Rightarrow> u64" where
  "shl_one k = push_bit (unat k) 1"

lemma unat_max_word: "unat (- 1 :: 'a::len word) = 2 ^ LENGTH('a) - 1"
proof -
  have "uint (- 1 :: 'a word) = int (2 ^ LENGTH('a) - 1)"
    by (simp add: uint_word_ariths zmod_minus1)
  then show ?thesis by (simp only: unat_eq_nat_uint nat_int)
qed

lemma unat_bound: "unat a \<le> 2 ^ LENGTH('a) - 1" for a :: "'a::len word"
proof -
  have "unat a < 2 ^ LENGTH('a)" by (rule unsigned_less)
  then show ?thesis by linarith
qed

lemma unat_sat_add [sat_simps]:
  "unat (sat_add a b) = min (unat a + unat b) (2 ^ LENGTH('a) - 1)" for a b :: "'a::len word"
proof (cases "unat a + unat b < 2 ^ LENGTH('a)")
  case True
  then have "unat (a + b) = unat a + unat b" by (simp add: unat_word_ariths)
  then show ?thesis using True by (simp add: sat_add_def word_less_nat_alt)
next
  case False
  have bounds: "unat a < 2 ^ LENGTH('a)" "unat b < 2 ^ LENGTH('a)" by simp_all
  with False have "(unat a + unat b) mod 2 ^ LENGTH('a) = unat a + unat b - 2 ^ LENGTH('a)"
    by (subst le_mod_geq) (simp, rule mod_less, arith)
  then have "unat (a + b) = unat a + unat b - 2 ^ LENGTH('a)"
    by (simp add: unat_word_ariths)
  moreover have "unat a + unat b - 2 ^ LENGTH('a) < unat a"
    using bounds False by arith
  ultimately show ?thesis using False by (simp add: sat_add_def word_less_nat_alt unat_max_word)
qed

lemma unat_sat_sub [sat_simps]: "unat (sat_sub a b) = unat a - unat b"
  by (simp add: sat_sub_def word_less_nat_alt unat_sub word_le_nat_alt)

lemma unat_sat_mul [sat_simps]:
  "unat (sat_mul a b) = min (unat a * unat b) (2 ^ LENGTH('a) - 1)" for a b :: "'a::len word"
proof (cases "a = 0")
  case True
  then show ?thesis by (simp add: sat_mul_def)
next
  case False
  then have pos: "0 < unat a" by (simp add: unat_gt_0)
  have iff: "(- 1) div a < b \<longleftrightarrow> \<not> unat a * unat b < 2 ^ LENGTH('a)"
  proof -
    have "(- 1) div a < b \<longleftrightarrow> \<not> unat b \<le> (2 ^ LENGTH('a) - 1) div unat a"
      by (simp add: word_less_nat_alt unat_div unat_max_word not_le)
    also have "\<dots> \<longleftrightarrow> \<not> unat b * unat a \<le> 2 ^ LENGTH('a) - 1"
      using pos by (simp add: less_eq_div_iff_mult_less_eq)
    also have "\<dots> \<longleftrightarrow> \<not> unat a * unat b < 2 ^ LENGTH('a)"
      by (simp add: mult.commute less_Suc_eq_le [symmetric])
    finally show ?thesis .
  qed
  show ?thesis
  proof (cases "unat a * unat b < 2 ^ LENGTH('a)")
    case True
    then have "unat (a * b) = unat a * unat b" using unat_mult_lem by blast
    with True False iff show ?thesis by (simp add: sat_mul_def)
  next
    case wide: False
    with False iff show ?thesis by (simp add: sat_mul_def unat_max_word)
  qed
qed

lemma unat_shl_one: "unat k \<le> 16 \<Longrightarrow> unat (shl_one k) = 2 ^ unat k"
proof -
  assume "unat k \<le> 16"
  then have "take_bit 64 ((2::nat) ^ unat k) = 2 ^ unat k"
    by (simp add: take_bit_nat_eq_self)
  then show ?thesis
    unfolding shl_one_def by (simp only: unsigned_push_bit_eq) (simp add: push_bit_eq_mult)
qed

lemma sat_sub_self [simp]: "sat_sub a a = 0"
  by (simp add: sat_sub_def)

lemma sat_sub_zero [simp]: "sat_sub a 0 = a"
  by (simp add: sat_sub_def)

lemma sat_add_zero [simp]: "sat_add a 0 = a"
  by (simp add: sat_add_def)

lemma sat_add_mono: "b \<le> c \<Longrightarrow> sat_add a b \<le> sat_add a c"
  by (simp add: word_le_nat_alt sat_simps)

lemma le_sat_add: "a \<le> sat_add a b"
  using unat_bound [of a] by (simp add: word_le_nat_alt sat_simps)

lemma sat_sub_le_iff: "sat_sub a b \<le> c \<longleftrightarrow> a \<le> sat_add b c"
  using unat_bound [of a] by (auto simp: word_le_nat_alt sat_simps)

section \<open>Fallible values\<close>

text \<open>
  A Rust \<^verbatim>\<open>Result\<close> is a sum, the error on the left. \<open>ensure\<close> is the macro
  \<^verbatim>\<open>anyhow::ensure!\<close>, \<open>res_bind\<close> the operator \<^verbatim>\<open>?\<close>.
\<close>

definition ensure :: "bool \<Rightarrow> 'e \<Rightarrow> 'e + unit" where
  "ensure c e = (if c then Inr () else Inl e)"

definition res_bind :: "'e + 'a \<Rightarrow> ('a \<Rightarrow> 'e + 'b) \<Rightarrow> 'e + 'b" where
  "res_bind r k = (case r of Inl e \<Rightarrow> Inl e | Inr x \<Rightarrow> k x)"

abbreviation res_seq :: "'e + unit \<Rightarrow> 'e + 'b \<Rightarrow> 'e + 'b" where
  "res_seq r k \<equiv> res_bind r (\<lambda>_. k)"

definition ok_or :: "'a option \<Rightarrow> 'e \<Rightarrow> 'e + 'a" where
  "ok_or x e = (case x of None \<Rightarrow> Inl e | Some v \<Rightarrow> Inr v)"

fun is_ok :: "'e + 'a \<Rightarrow> bool" where
  "is_ok (Inl _) = False"
| "is_ok (Inr _) = True"

lemma res_bind_simps [simp]:
  "res_bind (Inl e) k = Inl e"
  "res_bind (Inr x) k = k x"
  by (simp_all add: res_bind_def)

lemma ensure_simps [simp]:
  "ensure True e = Inr ()"
  "ensure False e = Inl e"
  by (simp_all add: ensure_def)

lemma ok_or_simps [simp]:
  "ok_or None e = Inl e"
  "ok_or (Some x) e = Inr x"
  by (simp_all add: ok_or_def)

lemma res_bind_eq_Inr:
  "res_bind r k = Inr y \<longleftrightarrow> (\<exists>x. r = Inr x \<and> k x = Inr y)"
  by (cases r) simp_all

lemma ensure_eq_Inr [simp]: "ensure c e = Inr u \<longleftrightarrow> c"
  by (simp add: ensure_def)

lemma ok_or_eq_Inr [simp]: "ok_or x e = Inr v \<longleftrightarrow> x = Some v"
  by (cases x) simp_all

text \<open>A \<^verbatim>\<open>for\<close> loop whose body may return early with an error.\<close>

primrec res_fold :: "('a \<Rightarrow> 's \<Rightarrow> 'e + 's) \<Rightarrow> 'a list \<Rightarrow> 's \<Rightarrow> 'e + 's" where
  "res_fold f [] s = Inr s"
| "res_fold f (x # xs) s = res_bind (f x s) (res_fold f xs)"

primrec res_map :: "('a \<Rightarrow> 'e + 'b) \<Rightarrow> 'a list \<Rightarrow> 'e + 'b list" where
  "res_map f [] = Inr []"
| "res_map f (x # xs) = res_bind (f x) (\<lambda>y. res_bind (res_map f xs) (\<lambda>ys. Inr (y # ys)))"

lemma res_map_eq_Inr: "res_map f xs = Inr ys \<longleftrightarrow> list_all2 (\<lambda>x y. f x = Inr y) xs ys"
  by (induction xs arbitrary: ys) (auto simp: res_bind_eq_Inr list_all2_Cons1)

lemma res_map_total: "(\<And>x. x \<in> set xs \<Longrightarrow> f x = Inr (g x)) \<Longrightarrow> res_map f xs = Inr (map g xs)"
  by (induction xs) simp_all

lemma res_fold_induct:
  assumes "res_fold f xs s = Inr s'"
    and "P [] s"
    and "\<And>ys x s1 s2. set (ys @ [x]) \<subseteq> set xs \<Longrightarrow> P ys s1 \<Longrightarrow> f x s1 = Inr s2 \<Longrightarrow> P (ys @ [x]) s2"
  shows "P xs s'"
proof -
  have "P (ys @ xs) s'" if "res_fold f xs s = Inr s'" "P ys s"
    and step: "\<And>ys x s1 s2. set (ys @ [x]) \<subseteq> A \<Longrightarrow> P ys s1 \<Longrightarrow> f x s1 = Inr s2 \<Longrightarrow> P (ys @ [x]) s2"
    and "set (ys @ xs) \<subseteq> A" for ys A
    using that(1,2,4)
  proof (induction xs arbitrary: ys s)
    case (Cons x xs)
    then obtain s1 where "f x s = Inr s1" "res_fold f xs s1 = Inr s'" by (auto simp: res_bind_eq_Inr)
    then show ?case using Cons.IH [of s1 "ys @ [x]"] Cons.prems step by simp
  qed simp
  from this [of "[]" "set xs"] show ?thesis using assms by simp
qed

lemma res_fold_Inl:
  assumes "res_fold f xs s = Inl e"
  obtains ys x zs s1 where "xs = ys @ x # zs" "res_fold f ys s = Inr s1" "f x s1 = Inl e"
  using assms
proof (induction xs arbitrary: s thesis)
  case (Cons x xs)
  show ?case
  proof (cases "f x s")
    case (Inl e')
    then show ?thesis using Cons.prems(1) [of "[]" x xs s] Cons.prems(2) by simp
  next
    case (Inr s1)
    then have "res_fold f xs s1 = Inl e" using Cons.prems(2) by simp
    then obtain ys y zs s2 where "xs = ys @ y # zs" "res_fold f ys s1 = Inr s2" "f y s2 = Inl e"
      by (rule Cons.IH [rotated])
    then show ?thesis using Cons.prems(1) [of "x # ys" y zs s2] Inr by simp
  qed
qed simp

lemma is_ok_iff: "is_ok r \<longleftrightarrow> (\<exists>x. r = Inr x)"
  by (cases r) simp_all

section \<open>Actions: state passing with early return\<close>

text \<open>
  An asynchronous method of the program is an action on an explicit world: it returns its
  \<^verbatim>\<open>Result\<close> together with the world it leaves, also when it fails, since the
  effects before a \<^verbatim>\<open>?\<close> are not undone.
\<close>

type_synonym ('w, 'e, 'a) act = "'w \<Rightarrow> ('e + 'a) \<times> 'w"

definition ok :: "'a \<Rightarrow> ('w, 'e, 'a) act" where
  "ok x w = (Inr x, w)"

definition fail :: "'e \<Rightarrow> ('w, 'e, 'a) act" where
  "fail e w = (Inl e, w)"

definition lift_res :: "'e + 'a \<Rightarrow> ('w, 'e, 'a) act" where
  "lift_res r w = (r, w)"

definition then_ok :: "('w, 'e, 'a) act \<Rightarrow> ('a \<Rightarrow> ('w, 'e, 'b) act) \<Rightarrow> ('w, 'e, 'b) act" where
  "then_ok m k w = (case m w of (Inl e, w') \<Rightarrow> (Inl e, w') | (Inr x, w') \<Rightarrow> k x w')"

text \<open>\<open>catch m k\<close> hands the whole result of \<open>m\<close> to \<open>k\<close>: a \<^verbatim>\<open>match\<close> on a \<^verbatim>\<open>Result\<close>.\<close>

definition catch :: "('w, 'e, 'a) act \<Rightarrow> ('e + 'a \<Rightarrow> ('w, 'e, 'b) act) \<Rightarrow> ('w, 'e, 'b) act" where
  "catch m k w = (case m w of (r, w') \<Rightarrow> k r w')"

lemma ok_apply [simp]: "ok x w = (Inr x, w)"
  by (simp add: ok_def)

lemma fail_apply [simp]: "fail e w = (Inl e, w)"
  by (simp add: fail_def)

lemma lift_res_apply [simp]: "lift_res r w = (r, w)"
  by (simp add: lift_res_def)

lemma then_ok_eq:
  "m w = (Inr x, w') \<Longrightarrow> then_ok m k w = k x w'"
  "m w = (Inl e, w') \<Longrightarrow> then_ok m k w = (Inl e, w')"
  by (simp_all add: then_ok_def)

lemma then_ok_ok [simp]: "then_ok (ok x) k = k x"
  by (rule ext) (simp add: then_ok_def)

lemma then_ok_fail [simp]: "then_ok (fail e) k = fail e"
  by (rule ext) (simp add: then_ok_def)

lemma then_ok_lift_Inr [simp]: "then_ok (lift_res (Inr x)) k = k x"
  by (rule ext) (simp add: then_ok_def)

lemma then_ok_lift_Inl [simp]: "then_ok (lift_res (Inl e)) k = fail e"
  by (rule ext) (simp add: then_ok_def)

declare then_ok_def [act_simps] catch_def [act_simps]

subsection \<open>Pre- and postconditions of actions\<close>

text \<open>
  \<open>hoare P m Q E\<close>: started in a world that satisfies \<open>P\<close>, the action either returns a value and a
  world that satisfy \<open>Q\<close>, or fails in a world that satisfies \<open>E\<close>. \<open>keeps I m Q\<close> is the
  special case of an invariant \<open>I\<close>, kept also by a failing run, with \<open>Q\<close> a property of the value. The rules follow
  the structure of an action, so that the proof about a whole handler reduces to its atomic
  steps.
\<close>

fun res_post :: "('a \<Rightarrow> 'w \<Rightarrow> bool) \<Rightarrow> ('w \<Rightarrow> bool) \<Rightarrow> ('e + 'a) \<times> 'w \<Rightarrow> bool" where
  "res_post Q E (Inr x, w) = Q x w"
| "res_post Q E (Inl e, w) = E w"

definition hoare ::
  "('w \<Rightarrow> bool) \<Rightarrow> ('w, 'e, 'a) act \<Rightarrow> ('a \<Rightarrow> 'w \<Rightarrow> bool) \<Rightarrow> ('w \<Rightarrow> bool) \<Rightarrow> bool" where
  "hoare P m Q E \<longleftrightarrow> (\<forall>w. P w \<longrightarrow> res_post Q E (m w))"

definition keeps :: "('w \<Rightarrow> bool) \<Rightarrow> ('w, 'e, 'a) act \<Rightarrow> ('a \<Rightarrow> bool) \<Rightarrow> bool" where
  "keeps I m Q = hoare I m (\<lambda>x w. I w \<and> Q x) I"

lemma res_post_cases [case_names returned failed]:
  obtains x w' where "m w = (Inr x, w')" "res_post Q E (m w) = Q x w'"
  | e w' where "m w = (Inl e, w')" "res_post Q E (m w) = E w'"
proof -
  obtain r w' where "m w = (r, w')" by fastforce
  then show thesis using that by (cases r) simp_all
qed

lemma hoareD: "hoare P m Q E \<Longrightarrow> P w \<Longrightarrow> res_post Q E (m w)"
  by (simp add: hoare_def)

lemma hoareI:
  assumes "\<And>w x w'. P w \<Longrightarrow> m w = (Inr x, w') \<Longrightarrow> Q x w'"
    and "\<And>w e w'. P w \<Longrightarrow> m w = (Inl e, w') \<Longrightarrow> E w'"
  shows "hoare P m Q E"
  unfolding hoare_def
proof (intro allI impI)
  fix w assume "P w"
  with assms [of w] show "res_post Q E (m w)" by (cases rule: res_post_cases [of m w Q E]) auto
qed

lemma hoare_Inr: "hoare P m Q E \<Longrightarrow> P w \<Longrightarrow> m w = (Inr x, w') \<Longrightarrow> Q x w'"
  using hoareD [of P m Q E w] by simp

lemma hoare_Inl: "hoare P m Q E \<Longrightarrow> P w \<Longrightarrow> m w = (Inl e, w') \<Longrightarrow> E w'"
  using hoareD [of P m Q E w] by simp

lemma hoare_ok: "(\<And>w. P w \<Longrightarrow> Q x w) \<Longrightarrow> hoare P (ok x) Q E"
  by (simp add: hoare_def)

lemma hoare_fail: "(\<And>w. P w \<Longrightarrow> E w) \<Longrightarrow> hoare P (fail e) Q E"
  by (simp add: hoare_def)

lemma hoare_lift_res:
  "(\<And>w x. P w \<Longrightarrow> r = Inr x \<Longrightarrow> Q x w) \<Longrightarrow> (\<And>w. P w \<Longrightarrow> E w) \<Longrightarrow> hoare P (lift_res r) Q E"
  by (cases r) (simp_all add: hoare_def)

lemma hoare_then_ok:
  assumes "hoare P m R E" and "\<And>x. hoare (R x) (k x) Q E"
  shows "hoare P (then_ok m k) Q E"
  unfolding hoare_def
proof (intro allI impI)
  fix w assume w: "P w"
  show "res_post Q E (then_ok m k w)"
  proof (cases rule: res_post_cases [of m w R E])
    case (returned x w')
    with hoareD [OF assms(1) w] hoareD [OF assms(2)] show ?thesis by (simp add: then_ok_def)
  next
    case (failed e w')
    with hoareD [OF assms(1) w] show ?thesis by (simp add: then_ok_def)
  qed
qed

lemma hoare_weaken:
  assumes "hoare P' m Q' E'" and "\<And>w. P w \<Longrightarrow> P' w" and "\<And>x w. Q' x w \<Longrightarrow> Q x w" and "\<And>w. E' w \<Longrightarrow> E w"
  shows "hoare P m Q E"
  using assms(2-4) hoare_Inr [OF assms(1)] hoare_Inl [OF assms(1)] by (intro hoareI) blast+

lemma hoare_pure: "(P \<Longrightarrow> hoare I m Q E) \<Longrightarrow> hoare (\<lambda>w. I w \<and> P) m Q E"
  by (simp add: hoare_def)

lemma keepsI:
  "(\<And>w x w'. I w \<Longrightarrow> m w = (Inr x, w') \<Longrightarrow> I w' \<and> Q x) \<Longrightarrow>
   (\<And>w e w'. I w \<Longrightarrow> m w = (Inl e, w') \<Longrightarrow> I w') \<Longrightarrow> keeps I m Q"
  unfolding keeps_def by (rule hoareI)

lemma keepsD: "keeps I m Q \<Longrightarrow> I w \<Longrightarrow> res_post (\<lambda>x w. I w \<and> Q x) I (m w)"
  unfolding keeps_def by (rule hoareD)

lemma keeps_ok [keeps_intro]: "Q x \<Longrightarrow> keeps I (ok x) Q"
  unfolding keeps_def by (rule hoare_ok) simp

lemma keeps_fail [keeps_intro]: "keeps I (fail e) Q"
  unfolding keeps_def by (rule hoare_fail)

lemma keeps_lift_res [keeps_intro]: "(\<And>x. r = Inr x \<Longrightarrow> Q x) \<Longrightarrow> keeps I (lift_res r) Q"
  unfolding keeps_def by (rule hoare_lift_res) simp_all

lemma keeps_then_ok: "keeps I m R \<Longrightarrow> (\<And>x. R x \<Longrightarrow> keeps I (k x) Q) \<Longrightarrow> keeps I (then_ok m k) Q"
  unfolding keeps_def by (erule hoare_then_ok) (rule hoare_pure)

lemma keeps_catch:
  assumes "keeps I m R" and "\<And>r. (\<And>x. r = Inr x \<Longrightarrow> R x) \<Longrightarrow> keeps I (k r) Q"
  shows "keeps I (catch m k) Q"
  unfolding keeps_def hoare_def
proof (intro allI impI)
  fix w assume w: "I w"
  show "res_post (\<lambda>x w. I w \<and> Q x) I (catch m k w)"
  proof (cases rule: res_post_cases [of m w "\<lambda>x w. I w \<and> R x" I])
    case (returned x w')
    with keepsD [OF assms(1) w] have "I w'" "R x" by simp_all
    with keepsD [OF assms(2) [of "Inr x"]] returned show ?thesis by (simp add: catch_def)
  next
    case (failed e w')
    with keepsD [OF assms(1) w] have "I w'" by simp
    with keepsD [OF assms(2) [of "Inl e"]] failed show ?thesis by (simp add: catch_def)
  qed
qed

lemma keeps_conseq: "keeps I m R \<Longrightarrow> (\<And>x. R x \<Longrightarrow> Q x) \<Longrightarrow> keeps I m Q"
  unfolding keeps_def by (erule hoare_weaken) auto

lemma keeps_if [keeps_intro]: "(c \<Longrightarrow> keeps I m Q) \<Longrightarrow> (\<not> c \<Longrightarrow> keeps I m' Q) \<Longrightarrow> keeps I (if c then m else m') Q"
  by simp

lemma keeps_final: "keeps I m Q \<Longrightarrow> I w \<Longrightarrow> I (snd (m w))"
  using keepsD [of I m Q w]
  by (cases rule: res_post_cases [of m w "\<lambda>x w. I w \<and> Q x" I]) auto

declare ok_apply [simp del] fail_apply [simp del] lift_res_apply [simp del]
  ok_apply [act_simps] fail_apply [act_simps] lift_res_apply [act_simps]

section \<open>Strings\<close>

text \<open>
  A Rust string is its sequence of UTF-8 bytes, and \<^verbatim>\<open>len\<close> counts bytes: a HOL
  \<^typ>\<open>string\<close>, whose characters are bytes, has the same length and the same order.
\<close>

definition strip_prefix :: "string \<Rightarrow> string \<Rightarrow> string option" where
  "strip_prefix p s = (if take (length p) s = p then Some (drop (length p) s) else None)"

definition starts_with :: "string \<Rightarrow> string \<Rightarrow> bool" where
  "starts_with p s \<longleftrightarrow> take (length p) s = p"

definition ends_with :: "string \<Rightarrow> string \<Rightarrow> bool" where
  "ends_with p s \<longleftrightarrow> length p \<le> length s \<and> drop (length s - length p) s = p"

text \<open>
  \<^verbatim>\<open>str::trim\<close>: the characters with the Unicode property White-Space, by their
  UTF-8 encodings. No encoding is a suffix of another character's, so that the last bytes decide.
\<close>

definition white_spaces :: "string list" where
  "white_spaces =
     [[CHR 0x09], [CHR 0x0A], [CHR 0x0B], [CHR 0x0C], [CHR 0x0D], [CHR 0x20],
      [CHR 0xC2, CHR 0x85], [CHR 0xC2, CHR 0xA0], [CHR 0xE1, CHR 0x9A, CHR 0x80],
      [CHR 0xE2, CHR 0x80, CHR 0x80], [CHR 0xE2, CHR 0x80, CHR 0x81], [CHR 0xE2, CHR 0x80, CHR 0x82],
      [CHR 0xE2, CHR 0x80, CHR 0x83], [CHR 0xE2, CHR 0x80, CHR 0x84], [CHR 0xE2, CHR 0x80, CHR 0x85],
      [CHR 0xE2, CHR 0x80, CHR 0x86], [CHR 0xE2, CHR 0x80, CHR 0x87], [CHR 0xE2, CHR 0x80, CHR 0x88],
      [CHR 0xE2, CHR 0x80, CHR 0x89], [CHR 0xE2, CHR 0x80, CHR 0x8A], [CHR 0xE2, CHR 0x80, CHR 0xA8],
      [CHR 0xE2, CHR 0x80, CHR 0xA9], [CHR 0xE2, CHR 0x80, CHR 0xAF], [CHR 0xE2, CHR 0x81, CHR 0x9F],
      [CHR 0xE3, CHR 0x80, CHR 0x80]]"

lemma find_white_space: "find P white_spaces = Some w \<Longrightarrow> w \<noteq> []"
proof
  assume found: "find P white_spaces = Some w" and "w = []"
  then have "[] \<in> set white_spaces" by (auto simp: find_Some_iff dest: nth_mem)
  then show False by (simp add: white_spaces_def)
qed

function trim_start :: "string \<Rightarrow> string" where
  "trim_start s =
     (case find (\<lambda>w. starts_with w s) white_spaces of None \<Rightarrow> s | Some w \<Rightarrow> trim_start (drop (length w) s))"
  by auto
termination
proof (relation "measure length")
  fix s w assume *: "find (\<lambda>w. starts_with w s) white_spaces = Some w"
  then have "w \<noteq> []" "starts_with w s" by (simp_all add: find_white_space) (auto simp: find_Some_iff)
  then show "(drop (length w) s, s) \<in> measure length" by (cases s) (auto simp: starts_with_def)
qed simp

function trim_end :: "string \<Rightarrow> string" where
  "trim_end s =
     (case find (\<lambda>w. ends_with w s) white_spaces of None \<Rightarrow> s | Some w \<Rightarrow> trim_end (take (length s - length w) s))"
  by auto
termination
proof (relation "measure length")
  fix s w assume *: "find (\<lambda>w. ends_with w s) white_spaces = Some w"
  then have "w \<noteq> []" "ends_with w s" by (simp_all add: find_white_space) (auto simp: find_Some_iff)
  then show "(take (length s - length w) s, s) \<in> measure length" by (cases s) (auto simp: ends_with_def)
qed simp

declare trim_start.simps [simp del] trim_end.simps [simp del]

definition trim :: "string \<Rightarrow> string" where
  "trim s = trim_end (trim_start s)"

lemma strip_prefix_eq_Some [simp]: "strip_prefix p s = Some r \<longleftrightarrow> s = p @ r"
  by (auto simp: strip_prefix_def) (metis append_take_drop_id)

subsection \<open>Decimal numbers\<close>

text \<open>\<^verbatim>\<open>to_string\<close> of an unsigned integer and \<^verbatim>\<open>str::parse\<close>, which takes an optional plus sign.\<close>

definition digit_char :: "nat \<Rightarrow> char" where
  "digit_char d = char_of (48 + d)"

definition char_digit :: "char \<Rightarrow> nat option" where
  "char_digit c = (if 48 \<le> (of_char c :: nat) \<and> (of_char c :: nat) \<le> 57 then Some (of_char c - 48) else None)"

fun show_nat :: "nat \<Rightarrow> string" where
  "show_nat n = (if n < 10 then [digit_char n] else show_nat (n div 10) @ [digit_char (n mod 10)])"

declare show_nat.simps [simp del]

fun parse_digits :: "nat \<Rightarrow> string \<Rightarrow> nat option" where
  "parse_digits acc [] = Some acc"
| "parse_digits acc (c # cs) =
     (case char_digit c of None \<Rightarrow> None | Some d \<Rightarrow> parse_digits (10 * acc + d) cs)"

definition parse_uint :: "string \<Rightarrow> nat option" where
  "parse_uint s =
     (case s of [] \<Rightarrow> None
      | c # cs \<Rightarrow> if c = CHR ''+'' \<and> cs \<noteq> [] then parse_digits 0 cs else parse_digits 0 s)"

definition show_word :: "'a::len word \<Rightarrow> string" where
  "show_word w = show_nat (unat w)"

definition parse_word :: "string \<Rightarrow> 'a::len word option" where
  "parse_word s =
     (case parse_uint s of None \<Rightarrow> None
      | Some n \<Rightarrow> if n < 2 ^ LENGTH('a) then Some (word_of_nat n) else None)"

lemma of_char_digit: "d < 10 \<Longrightarrow> (of_char (digit_char d) :: nat) = 48 + d"
  by (simp add: digit_char_def)

lemma char_digit_digit [simp]: "d < 10 \<Longrightarrow> char_digit (digit_char d) = Some d"
  by (simp add: char_digit_def of_char_digit)

lemma parse_digits_append:
  "parse_digits acc (s @ t) = (case parse_digits acc s of None \<Rightarrow> None | Some n \<Rightarrow> parse_digits n t)"
  by (induction s arbitrary: acc) (auto split: option.splits)

lemma parse_digits_show_nat: "parse_digits 0 (show_nat n) = Some n"
proof (induction n rule: show_nat.induct)
  case (1 n)
  show ?case
  proof (cases "n < 10")
    case True
    then show ?thesis by (subst show_nat.simps) simp
  next
    case False
    with "1.IH" have "parse_digits 0 (show_nat (n div 10)) = Some (n div 10)" by simp
    with False show ?thesis by (subst show_nat.simps) (simp add: parse_digits_append)
  qed
qed

lemma hd_show_nat: "\<exists>c cs. show_nat n = c # cs \<and> c \<noteq> CHR ''+''"
proof (induction n rule: show_nat.induct)
  case (1 n)
  show ?case
  proof (cases "n < 10")
    case True
    then have "(of_char (digit_char n) :: nat) \<noteq> of_char (CHR ''+'')"
      by (simp add: of_char_digit)
    with True show ?thesis by (subst show_nat.simps) auto
  next
    case False
    with "1.IH" obtain c cs where "show_nat (n div 10) = c # cs" "c \<noteq> CHR ''+''" by auto
    with False show ?thesis by (subst show_nat.simps) simp
  qed
qed

lemma parse_uint_show_nat: "parse_uint (show_nat n) = Some n"
proof -
  obtain c cs where "show_nat n = c # cs" "c \<noteq> CHR ''+''" using hd_show_nat by blast
  then show ?thesis using parse_digits_show_nat [of n] by (simp add: parse_uint_def)
qed

lemma parse_show_word [simp]: "parse_word (show_word w) = Some w"
  using unsigned_less [of w] by (simp add: parse_word_def show_word_def parse_uint_show_nat)

end
