(* ===== verification/Dtm_Types.thy ===== *)
theory Dtm_Types
  imports Ordered_Map
begin

text \<open>
  The data of the coordinator (\<^verbatim>\<open>src/lib.rs\<close>, lines 42--540): the enumerations
  of transaction and branch states, the records of branches, transactions, options,
  retention policies, branch barriers and recovery leases, their constructors and their
  validation. The third-party libraries the code calls (JSON, URLs, HTTP headers, base64)
  enter as the record \<open>libs\<close> of functions, an argument of the definitions that use them.
\<close>

section \<open>Values of third-party libraries\<close>

text \<open>
  \<^verbatim>\<open>serde_json::Value\<close>: a number is an integer or, in its text form, a float.
\<close>

datatype json =
    JNull
  | JBool bool
  | JInt int
  | JFloat string
  | JString string
  | JArray "json list"
  | JObject "(string \<times> json) list"

text \<open>The parts of a parsed URL (\<^verbatim>\<open>reqwest::Url\<close>) that the program reads.\<close>

record url =
  scheme :: string
  host :: "string option"
  username :: string
  password :: "string option"
  path :: string
  query :: "(string \<times> string) list option"
  fragment :: "string option"
  origin :: string

text \<open>A subscriber of a topic (\<^verbatim>\<open>src/kv.rs\<close>); lists of them are stored as JSON text.\<close>

record topic_subscriber =
  sub_url :: string
  sub_remark :: string

record libs =
  header_name_ok :: "string \<Rightarrow> bool"
  header_value_ok :: "string \<Rightarrow> bool"
  parse_url :: "string \<Rightarrow> url option"
  print_url :: "url \<Rightarrow> string"
  parse_json :: "string \<Rightarrow> json option"
  base64_decode :: "string \<Rightarrow> u8 list option"
  encode_subscribers :: "topic_subscriber list \<Rightarrow> string"
  decode_subscribers :: "string \<Rightarrow> topic_subscriber list option"

section \<open>Enumerations\<close>

datatype transaction_kind = Saga | Workflow | Message | Xa | Tcc

datatype transaction_status =
  Submitted | Trying | Prepared | Succeeding | Succeeded | Aborting | Aborted | Failed

fun is_terminal :: "transaction_status \<Rightarrow> bool" where
  "is_terminal s = (s = Succeeded \<or> s = Aborted \<or> s = Failed)"

datatype branch_kind =
  SagaAction | SagaCompensate | TccTry | TccConfirm | TccCancel
  | WorkflowAction | MessageAction | XaAction

datatype branch_status =
  BPending | BRunning | BCompensating | BSucceeded | BFailed | BSkipped

datatype workflow_progress_status = ProgressSucceeded | ProgressFailed

datatype workflow_callback_protocol = Http | JsonRpc | Grpc

datatype workflow_callback_result =
  Completed | CallbackFailed "string option" | Ongoing

datatype barrier_decision = Execute | SkipDuplicate | SkipNullCompensation | SkipCancelledTry

section \<open>Errors\<close>

text \<open>
  The program reports every failure as an \<^verbatim>\<open>anyhow::Error\<close> with a message; the
  model has one constructor per message, with the values the message prints, grouped by the
  part of the program that reports it. \<open>Panicked\<close> stands for an \<^verbatim>\<open>expect\<close> that fails.
  \<open>OutOfFuel\<close> is no error of the program: it marks a
  bounded model of a loop that ran out of its bound, and is proved never to be returned.
\<close>

datatype graph_error =
    DuplicateBranchId
  | SelfDependency string
  | UnknownDependency string string
  | RepeatedDependency string string
  | DependencyCycle
  | ConcurrentUnsupported
  | DependenciesUnsupported
  | DependenciesNeedConcurrent

datatype workflow_error =
    NotAWorkflow string
  | NotACallbackWorkflow string
  | InvalidProgress string
  | ProgressConflict string string
  | ProgressCountExceeded
  | ProgressSizeOverflow
  | ProgressSizeExceeded
  | InvalidCompletionStatus
  | RollbackReasonTooLong
  | ResultTooLong
  | CompletionConflict string
  | InvalidRetryInterval
  | InvalidOutcome
  | CallbackMustFinish
  | CallbackDriven
  | InvalidCallback string

datatype topic_error =
    TopicNotFound string
  | TopicWithoutSubscribers string
  | DuplicateExpandedBranch
  | InvalidTopic
  | InvalidSubscriberUrl
  | RemarkTooLong
  | SubscriberExists
  | NoSuchTopic
  | NoSuchUrl

datatype store_error =
    Contended string
  | InvalidKvVersion
  | InvalidPayload
  | InvalidLease string
  | FenceLost
  | RevisionConflict
  | StoreFault

datatype dtm_error =
    TransactionNotFound string
  | TransactionAlreadyExists string
  | WrongKind string transaction_kind transaction_kind
  | NonReplayable string transaction_status
  | AlreadyTerminal string
  | NoDynamicBranches string
  | NotAcceptingBranches string
  | BranchConflict string
  | InvalidOptions string
  | DelayOnlyForMessage
  | InvalidRetention string
  | UnresolvedDependencies string
  | UnresolvedCompensation string
  | MissingUrl string
  | InvalidUrl
  | InvalidXaOperation
  | GraphError graph_error
  | WorkflowError workflow_error
  | TopicError topic_error
  | StoreError store_error
  | Panicked
  | OutOfFuel

type_synonym 'a res = "dtm_error + 'a"

section \<open>Branches\<close>

record branch =
  bid :: string
  bkind :: branch_kind
  action :: string
  compensate :: "string option"
  confirm :: "string option"
  cancel :: "string option"
  payload :: json
  bstatus :: branch_status
  attempts :: u32
  last_error :: "string option"
  next_retry_millis :: "u64 option"
  dependencies :: "string list"

definition branch_saga :: "string \<Rightarrow> string \<Rightarrow> string \<Rightarrow> json \<Rightarrow> branch" where
  "branch_saga i act cmp pl =
     \<lparr>bid = i, bkind = SagaAction, action = act, compensate = Some cmp, confirm = None,
      cancel = None, payload = pl, bstatus = BPending, attempts = 0, last_error = None,
      next_retry_millis = None, dependencies = []\<rparr>"

definition branch_saga_with_dependencies ::
  "string \<Rightarrow> string \<Rightarrow> string \<Rightarrow> string list \<Rightarrow> json \<Rightarrow> branch" where
  "branch_saga_with_dependencies i act cmp deps pl =
     (branch_saga i act cmp pl)\<lparr>dependencies := deps\<rparr>"

definition branch_tcc_try :: "string \<Rightarrow> string \<Rightarrow> string \<Rightarrow> string \<Rightarrow> json \<Rightarrow> branch" where
  "branch_tcc_try i try_action confirm_action cancel_action pl =
     \<lparr>bid = i, bkind = TccTry, action = try_action, compensate = None,
      confirm = Some confirm_action, cancel = Some cancel_action, payload = pl,
      bstatus = BPending, attempts = 0, last_error = None, next_retry_millis = None,
      dependencies = []\<rparr>"

definition branch_message :: "string \<Rightarrow> string \<Rightarrow> json \<Rightarrow> branch" where
  "branch_message i act pl = (branch_saga i act [] pl)\<lparr>bkind := MessageAction, compensate := None\<rparr>"

definition branch_xa :: "string \<Rightarrow> string \<Rightarrow> string \<Rightarrow> json \<Rightarrow> branch" where
  "branch_xa i commit rollback pl =
     (branch_tcc_try i [] commit rollback pl)\<lparr>bkind := XaAction, action := []\<rparr>"

definition branch_workflow :: "string \<Rightarrow> string \<Rightarrow> string \<Rightarrow> string list \<Rightarrow> json \<Rightarrow> branch" where
  "branch_workflow i act cmp deps pl =
     (branch_saga i act cmp pl)\<lparr>bkind := WorkflowAction, dependencies := deps\<rparr>"

section \<open>Workflow progress and callbacks\<close>

record workflow_progress =
  wp_branch_id :: string
  wp_operation :: string
  wp_status :: workflow_progress_status
  wp_data :: "u8 list"

definition two_mib :: nat where
  "two_mib = 2 * 1024 * 1024"

definition progress_validate :: "workflow_progress \<Rightarrow> unit res" where
  "progress_validate p =
     res_seq (ensure (wp_branch_id p \<noteq> [] \<and> length (wp_branch_id p) \<le> 128)
        (WorkflowError (InvalidProgress ''branch id'')))
     (res_seq (ensure (wp_operation p \<noteq> [] \<and> length (wp_operation p) \<le> 64)
        (WorkflowError (InvalidProgress ''operation'')))
     (ensure (length (wp_data p) \<le> two_mib) (WorkflowError (InvalidProgress ''data''))))"

record workflow_callback_request =
  cb_gid :: string
  cb_url :: string
  cb_operation :: string
  cb_data :: "u8 list"
  cb_protocol :: workflow_callback_protocol

record workflow_recovery_delay =
  attempted_at_millis :: u64
  wd_retry_interval_millis :: u64
  max_retry_interval_millis :: u64
  backoff :: bool
  outcome :: string

definition is_lower_or_underscore :: "char \<Rightarrow> bool" where
  "is_lower_or_underscore c \<longleftrightarrow>
     (97 \<le> (of_char c :: nat) \<and> (of_char c :: nat) \<le> 122) \<or> c = CHR ''_''"

definition delay_validate :: "workflow_recovery_delay \<Rightarrow> unit res" where
  "delay_validate d =
     res_seq (ensure (0 < wd_retry_interval_millis d
          \<and> wd_retry_interval_millis d \<le> max_retry_interval_millis d
          \<and> max_retry_interval_millis d \<le> 86400000)
        (WorkflowError InvalidRetryInterval))
     (ensure (outcome d \<noteq> [] \<and> length (outcome d) \<le> 64 \<and> list_all is_lower_or_underscore (outcome d))
        (WorkflowError InvalidOutcome))"

section \<open>Transactions\<close>

record transaction_options =
  wait_result :: bool
  concurrent :: bool
  delay_millis :: "u64 option"
  retry_interval_millis :: "u64 option"
  request_timeout_millis :: "u64 option"
  retry_limit :: "u32 option"
  branch_headers :: "(string, string) btree_map"

definition default_transaction_options :: transaction_options where
  "default_transaction_options =
     \<lparr>wait_result = False, concurrent = False, delay_millis = None,
      retry_interval_millis = None, request_timeout_millis = None, retry_limit = None,
      branch_headers = []\<rparr>"

fun opt_all :: "('a \<Rightarrow> bool) \<Rightarrow> 'a option \<Rightarrow> bool" where
  "opt_all P None = True"
| "opt_all P (Some x) = P x"

definition options_validate :: "libs \<Rightarrow> transaction_options \<Rightarrow> unit res" where
  "options_validate L opts =
     res_seq (ensure (opt_all (\<lambda>v. 1 \<le> v \<and> v \<le> 31536000000) (delay_millis opts))
        (InvalidOptions ''message delay''))
     (res_seq (ensure (opt_all (\<lambda>v. 1 \<le> v \<and> v \<le> 86400000) (retry_interval_millis opts))
        (InvalidOptions ''retry interval''))
     (res_seq (ensure (opt_all (\<lambda>v. 1 \<le> v \<and> v \<le> 86400000) (request_timeout_millis opts))
        (InvalidOptions ''request timeout''))
     (res_seq (ensure (opt_all (\<lambda>v. v \<le> 10000) (retry_limit opts))
        (InvalidOptions ''retry limit''))
     (ensure (length (branch_headers opts) \<le> 32
          \<and> list_all (\<lambda>(name, val). name \<noteq> [] \<and> length name \<le> 64 \<and> length val \<le> 1024
               \<and> header_name_ok L name \<and> header_value_ok L val) (branch_headers opts))
        (InvalidOptions ''branch headers'')))))"

record transaction =
  gid :: string
  tkind :: transaction_kind
  tstatus :: transaction_status
  branches :: "branch list"
  created_at_millis :: u64
  updated_at_millis :: u64
  revision :: u64
  timeout_millis :: "u64 option"
  toptions :: transaction_options
  workflow_progresses :: "workflow_progress list"
  metadata :: "(string, string) btree_map"

definition transaction_new :: "u64 \<Rightarrow> string \<Rightarrow> transaction_kind \<Rightarrow> branch list \<Rightarrow> transaction" where
  "transaction_new now g k bs =
     \<lparr>gid = g, tkind = k, tstatus = Submitted, branches = bs, created_at_millis = now,
      updated_at_millis = now, revision = 1, timeout_millis = None,
      toptions = default_transaction_options, workflow_progresses = [], metadata = []\<rparr>"

definition transaction_saga :: "u64 \<Rightarrow> string \<Rightarrow> branch list \<Rightarrow> transaction" where
  "transaction_saga now g bs = transaction_new now g Saga bs"

definition transaction_concurrent_saga :: "u64 \<Rightarrow> string \<Rightarrow> branch list \<Rightarrow> transaction" where
  "transaction_concurrent_saga now g bs =
     (let tx = transaction_saga now g bs in tx\<lparr>toptions := (toptions tx)\<lparr>concurrent := True\<rparr>\<rparr>)"

definition transaction_tcc :: "u64 \<Rightarrow> string \<Rightarrow> branch list \<Rightarrow> transaction" where
  "transaction_tcc now g bs = transaction_new now g Tcc bs"

definition transaction_workflow :: "u64 \<Rightarrow> string \<Rightarrow> branch list \<Rightarrow> transaction" where
  "transaction_workflow now g bs = transaction_new now g Workflow bs"

definition transaction_message :: "u64 \<Rightarrow> string \<Rightarrow> branch list \<Rightarrow> transaction" where
  "transaction_message now g bs = transaction_new now g Message bs"

definition transaction_xa :: "u64 \<Rightarrow> string \<Rightarrow> branch list \<Rightarrow> transaction" where
  "transaction_xa now g bs = transaction_new now g Xa bs"

section \<open>Coordinator options, retention, barriers and leases\<close>

record dtm_options =
  opt_max_attempts :: u32
  retry_backoff_millis :: u64
  max_retry_backoff_millis :: u64
  branch_call_timeout_millis :: u64
  transaction_timeout_millis :: u64

definition default_dtm_options :: dtm_options where
  "default_dtm_options =
     \<lparr>opt_max_attempts = 5, retry_backoff_millis = 1000, max_retry_backoff_millis = 30000,
      branch_call_timeout_millis = 5000, transaction_timeout_millis = 60000\<rparr>"

record retention_policy =
  data_expire_millis :: u64
  finished_data_expire_millis :: u64
  batch_size :: nat

definition retention_validate :: "retention_policy \<Rightarrow> retention_policy res" where
  "retention_validate p =
     res_seq (ensure (0 < data_expire_millis p) (InvalidRetention ''data expiry''))
     (res_seq (ensure (0 < finished_data_expire_millis p) (InvalidRetention ''finished data expiry''))
     (res_seq (ensure (finished_data_expire_millis p \<le> data_expire_millis p)
        (InvalidRetention ''finished data expiry exceeds data expiry''))
     (res_seq (ensure (1 \<le> batch_size p \<and> batch_size p \<le> 10000) (InvalidRetention ''batch size''))
     (Inr p))))"

record retention_report =
  scanned :: nat
  eligible :: nat
  deleted :: nat
  conflicts :: nat

record branch_barrier =
  bb_gid :: string
  bb_branch_id :: string
  bb_op :: string

definition barrier_new :: "string \<Rightarrow> string \<Rightarrow> string \<Rightarrow> branch_barrier" where
  "barrier_new g b oper = \<lparr>bb_gid = g, bb_branch_id = b, bb_op = oper\<rparr>"

text \<open>\<^verbatim>\<open>BranchBarrier::key\<close>: the text key of the relational stores.\<close>

definition barrier_key :: "branch_barrier \<Rightarrow> string" where
  "barrier_key b = bb_gid b @ '':'' @ bb_branch_id b @ '':'' @ bb_op b"

record recovery_lease_fence =
  fence_name :: string
  fence_owner :: string
  fence_epoch :: u64

record branch_failure_alert =
  alert_gid :: string
  alert_status :: string
  alert_branch :: string
  alert_error :: string
  alert_retry_count :: u32

record kv_entry =
  kv_category :: string
  kv_key :: string
  kv_value :: string
  kv_version :: u64
  kv_created_at_millis :: u64
  kv_updated_at_millis :: u64

definition kv_entry_new :: "u64 \<Rightarrow> string \<Rightarrow> string \<Rightarrow> string \<Rightarrow> kv_entry" where
  "kv_entry_new now cat k v =
     \<lparr>kv_category = cat, kv_key = k, kv_value = v, kv_version = 1,
      kv_created_at_millis = now, kv_updated_at_millis = now\<rparr>"

section \<open>Facts about the data\<close>

lemmas branch_constructor_defs =
  branch_saga_def branch_saga_with_dependencies_def branch_tcc_try_def branch_message_def
  branch_xa_def branch_workflow_def

lemma branch_constructors_pending [simp]:
  "bstatus (branch_saga i a c p) = BPending"
  "bstatus (branch_tcc_try i a c k p) = BPending"
  "bstatus (branch_message i a p) = BPending"
  "bstatus (branch_xa i c r p) = BPending"
  "bstatus (branch_workflow i a c ds p) = BPending"
  by (simp_all add: branch_constructor_defs)

lemma progress_validate_ok:
  "progress_validate p = Inr u \<longleftrightarrow>
     1 \<le> length (wp_branch_id p) \<and> length (wp_branch_id p) \<le> 128
     \<and> 1 \<le> length (wp_operation p) \<and> length (wp_operation p) \<le> 64
     \<and> length (wp_data p) \<le> two_mib"
  by (auto simp: progress_validate_def res_bind_eq_Inr Suc_le_eq)

lemma retention_validate_ok:
  "retention_validate p = Inr q \<longleftrightarrow>
     q = p \<and> 0 < data_expire_millis p \<and> 0 < finished_data_expire_millis p
     \<and> finished_data_expire_millis p \<le> data_expire_millis p
     \<and> 1 \<le> batch_size p \<and> batch_size p \<le> 10000"
  by (auto simp: retention_validate_def res_bind_eq_Inr)

lemma is_terminal_cases:
  "is_terminal s \<Longrightarrow> s = Succeeded \<or> s = Aborted \<or> s = Failed"
  by simp

end
