(* ===== verification/Transitions.thy ===== *)
theory Transitions
  imports Dtm_Types
begin

text \<open>
  The pure transitions of one transaction record (\<^verbatim>\<open>src/lib.rs\<close>, lines 5161--5815):
  what every store applies under its lock, row lock or compare-and-swap (dynamic branch
  registration, workflow progress, workflow completion, deferral of a callback), and the
  predicates on time that recovery consults. A function that reads the clock takes the
  reading as its argument \<open>now\<close>.
\<close>

section \<open>Guards and the revision counter\<close>

definition ensure_kind :: "transaction \<Rightarrow> transaction_kind \<Rightarrow> unit res" where
  "ensure_kind tx expected =
     (if tkind tx \<noteq> expected then Inl (WrongKind (gid tx) (tkind tx) expected) else Inr ())"

definition ensure_status :: "transaction \<Rightarrow> transaction_status list \<Rightarrow> unit res" where
  "ensure_status tx allowed = ensure (tstatus tx \<in> set allowed) (NonReplayable (gid tx) (tstatus tx))"

definition bump_transaction_revision :: "u64 \<Rightarrow> transaction \<Rightarrow> transaction" where
  "bump_transaction_revision now tx =
     tx\<lparr>revision := sat_add (revision tx) 1, updated_at_millis := now\<rparr>"

definition is_callback_workflow :: "transaction \<Rightarrow> bool" where
  "is_callback_workflow tx \<longleftrightarrow>
     tkind tx = Workflow \<and> branches tx = []
     \<and> (case bt_get (metadata tx) ''dtm.query_prepared'' of None \<Rightarrow> False | Some v \<Rightarrow> v \<noteq> [])"

definition ensure_callback_workflow :: "transaction \<Rightarrow> unit res" where
  "ensure_callback_workflow tx =
     res_seq (ensure (tkind tx = Workflow) (WorkflowError (NotAWorkflow (gid tx))))
       (ensure (is_callback_workflow tx) (WorkflowError (NotACallbackWorkflow (gid tx))))"

section \<open>Dynamic branches\<close>

definition append_dynamic_branch :: "u64 \<Rightarrow> transaction \<Rightarrow> branch \<Rightarrow> transaction res" where
  "append_dynamic_branch now tx b =
     res_seq (ensure (tkind tx \<in> {Tcc, Xa, Workflow}) (NoDynamicBranches (gid tx)))
     (res_seq (ensure (tstatus tx \<in> {Submitted, Prepared}) (NotAcceptingBranches (gid tx)))
     (case find (\<lambda>existing. bid existing = bid b) (branches tx) of
        Some existing \<Rightarrow> res_seq (ensure (existing = b) (BranchConflict (bid b))) (Inr tx)
      | None \<Rightarrow> Inr (bump_transaction_revision now (tx\<lparr>branches := branches tx @ [b]\<rparr>))))"

section \<open>Callback workflows\<close>

text \<open>\<^verbatim>\<open>try_fold\<close> with \<^verbatim>\<open>checked_add\<close> on \<^verbatim>\<open>usize\<close>: \<open>None\<close> when the sum leaves 64 bits.\<close>

fun checked_total :: "nat \<Rightarrow> workflow_progress list \<Rightarrow> nat option" where
  "checked_total acc [] = Some acc"
| "checked_total acc (item # items) =
     (if acc + length (wp_data item) < 2 ^ 64
      then checked_total (acc + length (wp_data item)) items else None)"

definition same_progress_key :: "workflow_progress \<Rightarrow> workflow_progress \<Rightarrow> bool" where
  "same_progress_key p q \<longleftrightarrow> wp_branch_id q = wp_branch_id p \<and> wp_operation q = wp_operation p"

definition append_workflow_progress :: "u64 \<Rightarrow> transaction \<Rightarrow> workflow_progress \<Rightarrow> transaction res" where
  "append_workflow_progress now tx p =
     res_seq (ensure_callback_workflow tx)
     (res_seq (ensure_status tx [Prepared])
     (res_seq (progress_validate p)
     (case find (same_progress_key p) (workflow_progresses tx) of
        Some existing \<Rightarrow>
          res_seq (ensure (existing = p)
            (WorkflowError (ProgressConflict (wp_branch_id p) (wp_operation p)))) (Inr tx)
      | None \<Rightarrow>
          res_seq (ensure (length (workflow_progresses tx) < 1000) (WorkflowError ProgressCountExceeded))
          (res_bind (ok_or (checked_total (length (wp_data p)) (workflow_progresses tx))
             (WorkflowError ProgressSizeOverflow)) (\<lambda>total_bytes.
          res_seq (ensure (total_bytes \<le> two_mib) (WorkflowError ProgressSizeExceeded))
          (Inr (bump_transaction_revision now
             (tx\<lparr>workflow_progresses := workflow_progresses tx @ [p]\<rparr>))))))))"

fun unwrap_or_default :: "string option \<Rightarrow> string" where
  "unwrap_or_default None = []"
| "unwrap_or_default (Some v) = v"

definition meta_or_empty :: "transaction \<Rightarrow> string \<Rightarrow> string" where
  "meta_or_empty tx k = unwrap_or_default (bt_get (metadata tx) k)"

definition set_or_remove :: "string \<Rightarrow> string \<Rightarrow> (string, string) btree_map \<Rightarrow> (string, string) btree_map" where
  "set_or_remove k v m = (if v = [] then bt_remove k m else bt_insert k v m)"

definition apply_workflow_completion ::
  "u64 \<Rightarrow> transaction \<Rightarrow> transaction_status \<Rightarrow> string option \<Rightarrow> string option \<Rightarrow> transaction res" where
  "apply_workflow_completion now tx st rollback_reason result =
     res_seq (ensure_callback_workflow tx)
     (res_seq (ensure (st \<in> {Succeeded, Failed}) (WorkflowError InvalidCompletionStatus))
     (let rr = unwrap_or_default rollback_reason;
          rs = unwrap_or_default result in
      res_seq (ensure (length rr \<le> 4096) (WorkflowError RollbackReasonTooLong))
      (res_seq (ensure (length rs \<le> two_mib) (WorkflowError ResultTooLong))
      (if is_terminal (tstatus tx) then
         res_seq (ensure (tstatus tx = st
              \<and> meta_or_empty tx ''rollback_reason'' = rr
              \<and> meta_or_empty tx ''dtm.workflow.result'' = rs)
            (WorkflowError (CompletionConflict (gid tx)))) (Inr tx)
       else
         res_seq (ensure_status tx [Prepared])
         (Inr (bump_transaction_revision now
            (tx\<lparr>tstatus := st,
                metadata := set_or_remove ''dtm.workflow.result'' rs
                              (set_or_remove ''rollback_reason'' rr (metadata tx))\<rparr>)))))))"

definition callback_attempts :: "transaction \<Rightarrow> u32" where
  "callback_attempts tx =
     (case bt_get (metadata tx) ''dtm.callback.attempts'' of None \<Rightarrow> 0
      | Some v \<Rightarrow> (case parse_word v of None \<Rightarrow> 0 | Some a \<Rightarrow> a))"

definition retry_after :: "workflow_recovery_delay \<Rightarrow> u32 \<Rightarrow> u64" where
  "retry_after d tries =
     (let shift = (if backoff d then min (sat_sub tries 1) 16 else 0)
      in min (sat_mul (wd_retry_interval_millis d) (shl_one shift)) (max_retry_interval_millis d))"

definition defer_workflow_recovery ::
  "u64 \<Rightarrow> transaction \<Rightarrow> workflow_recovery_delay \<Rightarrow> transaction res" where
  "defer_workflow_recovery now tx d =
     res_seq (ensure_callback_workflow tx)
     (res_seq (ensure_status tx [Prepared])
     (res_seq (delay_validate d)
     (let tries = sat_add (callback_attempts tx) 1;
          m1 = bt_insert ''dtm.callback.attempts'' (show_word tries) (metadata tx);
          m2 = bt_insert ''dtm.callback.last_attempt_millis'' (show_word (attempted_at_millis d)) m1;
          m3 = bt_insert ''dtm.callback.next_retry_millis''
                 (show_word (sat_add (attempted_at_millis d) (retry_after d tries))) m2;
          m4 = bt_insert ''dtm.callback.last_outcome'' (outcome d) m3
      in Inr (bump_transaction_revision now (tx\<lparr>metadata := m4\<rparr>)))))"

section \<open>Time\<close>

definition retrying :: "branch \<Rightarrow> bool" where
  "retrying b \<longleftrightarrow> bstatus b \<in> {BFailed, BRunning, BCompensating}"

definition message_dispatch_at_millis :: "transaction \<Rightarrow> u64 option" where
  "message_dispatch_at_millis tx =
     map_option (sat_add (created_at_millis tx)) (delay_millis (toptions tx))"

definition message_dispatch_due :: "transaction \<Rightarrow> u64 \<Rightarrow> bool" where
  "message_dispatch_due tx now = opt_all (\<lambda>dispatch_at. dispatch_at \<le> now) (message_dispatch_at_millis tx)"

definition transaction_due :: "transaction \<Rightarrow> u64 \<Rightarrow> bool" where
  "transaction_due tx now =
     (if tkind tx = Message \<and> tstatus tx = Succeeding \<and> \<not> message_dispatch_due tx now then False
      else list_all (\<lambda>b. opt_all (\<lambda>nxt. nxt \<le> now) (next_retry_millis b)) (filter retrying (branches tx)))"

definition is_expired :: "transaction \<Rightarrow> u64 \<Rightarrow> bool" where
  "is_expired tx now =
     (case timeout_millis tx of None \<Rightarrow> False
      | Some timeout \<Rightarrow> timeout \<le> sat_sub now (created_at_millis tx))"

definition transaction_expired :: "transaction \<Rightarrow> u64 \<Rightarrow> retention_policy \<Rightarrow> bool" where
  "transaction_expired tx now policy =
     (let retention = (if is_terminal (tstatus tx) then finished_data_expire_millis policy
                       else data_expire_millis policy)
      in updated_at_millis tx \<le> sat_sub now retention)"

definition callback_next_retry :: "transaction \<Rightarrow> u64 option" where
  "callback_next_retry tx =
     Option.bind (bt_get (metadata tx) ''dtm.callback.next_retry_millis'') parse_word"

definition callback_workflow_due :: "transaction \<Rightarrow> u64 \<Rightarrow> bool" where
  "callback_workflow_due tx now = opt_all (\<lambda>nxt. nxt \<le> now) (callback_next_retry tx)"

fun earliest_retry :: "u64 option \<Rightarrow> branch list \<Rightarrow> u64 option" where
  "earliest_retry nxt [] = nxt"
| "earliest_retry nxt (b # bs) =
     (if retrying b then
        (case next_retry_millis b of None \<Rightarrow> None
         | Some n \<Rightarrow> earliest_retry (Some (case nxt of None \<Rightarrow> n | Some current \<Rightarrow> min current n)) bs)
      else earliest_retry nxt bs)"

definition transaction_next_recovery_millis :: "transaction \<Rightarrow> u64 option" where
  "transaction_next_recovery_millis tx =
     (if is_terminal (tstatus tx) then None
      else if is_callback_workflow tx then callback_next_retry tx
      else earliest_retry
        (if tkind tx = Message \<and> tstatus tx = Succeeding \<and> list_all (\<lambda>b. attempts b = 0) (branches tx)
         then message_dispatch_at_millis tx else None)
        (branches tx))"

section \<open>Branch failures\<close>

definition failure_backoff :: "u32 \<Rightarrow> u64 \<Rightarrow> u64 \<Rightarrow> u64" where
  "failure_backoff tries backoff_millis max_backoff_millis =
     (let shift = min (sat_sub tries 1) 16
      in min (sat_mul backoff_millis (shl_one shift)) (max max_backoff_millis backoff_millis))"

definition record_branch_failure :: "u64 \<Rightarrow> branch \<Rightarrow> string \<Rightarrow> u64 \<Rightarrow> u64 \<Rightarrow> branch" where
  "record_branch_failure now b err backoff_millis max_backoff_millis =
     b\<lparr>last_error := Some err,
       next_retry_millis := Some (sat_add now (failure_backoff (attempts b) backoff_millis max_backoff_millis))\<rparr>"

fun transaction_status_name :: "transaction_status \<Rightarrow> string" where
  "transaction_status_name Submitted = ''submitted''"
| "transaction_status_name Trying = ''trying''"
| "transaction_status_name Prepared = ''prepared''"
| "transaction_status_name Succeeding = ''submitted''"
| "transaction_status_name Succeeded = ''succeed''"
| "transaction_status_name Aborting = ''aborting''"
| "transaction_status_name Aborted = ''failed''"
| "transaction_status_name Failed = ''failed''"

definition branch_alert_due :: "u32 \<Rightarrow> u32 \<Rightarrow> bool" where
  "branch_alert_due retry_count limit \<longleftrightarrow> limit \<le> retry_count"

section \<open>URLs and callback requests\<close>

definition parse_branch_url :: "libs \<Rightarrow> string \<Rightarrow> url res" where
  "parse_branch_url L value =
     res_seq (ensure (value \<noteq> [] \<and> length value \<le> 2048) InvalidUrl)
     (res_bind (ok_or (parse_url L value) InvalidUrl) (\<lambda>u.
      res_seq (ensure (scheme u \<in> {''http'', ''https''} \<and> host u \<noteq> None \<and> username u = []
                 \<and> password u = None \<and> fragment u = None) InvalidUrl)
      (Inr u)))"

definition alert_branch_url :: "libs \<Rightarrow> string \<Rightarrow> string" where
  "alert_branch_url L value =
     (case parse_branch_url L value of Inl _ \<Rightarrow> ''redacted''
      | Inr u \<Rightarrow> print_url L (u\<lparr>query := None\<rparr>))"

definition query_pairs :: "url \<Rightarrow> (string \<times> string) list" where
  "query_pairs u = (case query u of None \<Rightarrow> [] | Some ps \<Rightarrow> ps)"

definition xa_params :: "string list" where
  "xa_params = [''gid'', ''trans_type'', ''branch_id'', ''op'']"

definition xa_phase2_url :: "url \<Rightarrow> string \<Rightarrow> string \<Rightarrow> string \<Rightarrow> url" where
  "xa_phase2_url u g branch_id operation =
     u\<lparr>query := Some (filter (\<lambda>p. fst p \<notin> set xa_params) (query_pairs u)
        @ [(''gid'', g), (''trans_type'', ''xa''), (''branch_id'', branch_id), (''op'', operation)])\<rparr>"

definition xa_phase2_callback_url :: "libs \<Rightarrow> string \<Rightarrow> string \<Rightarrow> string \<Rightarrow> string \<Rightarrow> string res" where
  "xa_phase2_callback_url L value g branch_id operation =
     res_seq (ensure (operation \<in> {''commit'', ''rollback''}) InvalidXaOperation)
     (res_bind (parse_branch_url L value) (\<lambda>u.
      Inr (print_url L (xa_phase2_url u g branch_id operation))))"

fun json_byte :: "json \<Rightarrow> u8 option" where
  "json_byte (JInt n) = (if 0 \<le> n \<and> n \<le> 255 then Some (word_of_int n) else None)"
| "json_byte _ = None"

fun json_bytes :: "json list \<Rightarrow> u8 list option" where
  "json_bytes [] = Some []"
| "json_bytes (v # vs) =
     (case json_byte v of None \<Rightarrow> None
      | Some b \<Rightarrow> (case json_bytes vs of None \<Rightarrow> None | Some bs \<Rightarrow> Some (b # bs)))"

fun as_object :: "json \<Rightarrow> (string \<times> json) list option" where
  "as_object (JObject fs) = Some fs"
| "as_object _ = None"

fun as_str :: "json \<Rightarrow> string option" where
  "as_str (JString t) = Some t"
| "as_str _ = None"

definition callback_error :: "string \<Rightarrow> dtm_error" where
  "callback_error m = WorkflowError (InvalidCallback m)"

definition callback_data :: "libs \<Rightarrow> json option \<Rightarrow> u8 list res" where
  "callback_data L field =
     (case field of
        None \<Rightarrow> Inr []
      | Some v \<Rightarrow>
         (case v of
            JNull \<Rightarrow> Inr []
          | JString t \<Rightarrow> ok_or (base64_decode L t) (callback_error ''base64'')
          | JArray vs \<Rightarrow> ok_or (json_bytes vs) (callback_error ''byte array'')
          | _ \<Rightarrow> Inl (callback_error ''data'')))"

definition callback_protocol :: "libs \<Rightarrow> string option \<Rightarrow> string \<Rightarrow> workflow_callback_protocol res" where
  "callback_protocol L configured u =
     (if configured = Some ''grpc'' then Inr Grpc
      else if starts_with ''http://'' u \<or> starts_with ''https://'' u then
        res_bind (if configured = None
                  then res_bind (ok_or (parse_url L u) InvalidUrl)
                         (\<lambda>p. Inr (list_ex (\<lambda>(name, v). name = ''method'' \<and> v \<noteq> []) (query_pairs p)))
                  else Inr False)
          (\<lambda>legacy_json_rpc.
           Inr (if configured = Some ''json-rpc'' \<or> legacy_json_rpc then JsonRpc else Http))
      else Inr Grpc)"

definition workflow_callback_request_of :: "libs \<Rightarrow> transaction \<Rightarrow> workflow_callback_request res" where
  "workflow_callback_request_of L tx =
     res_seq (ensure_callback_workflow tx)
     (res_bind (ok_or (bt_get (metadata tx) ''dtm.query_prepared'') (callback_error ''query URL'')) (\<lambda>u.
      res_bind (ok_or (bt_get (metadata tx) ''dtm.custom_data'') (callback_error ''custom data'')) (\<lambda>custom_data.
      res_seq (ensure (length custom_data \<le> 3 * 1024 * 1024) (callback_error ''custom data size''))
      (res_bind (ok_or (parse_json L custom_data) (callback_error ''custom data JSON'')) (\<lambda>j.
      res_bind (ok_or (as_object j) (callback_error ''custom data object'')) (\<lambda>fields.
      res_bind (ok_or (case Option.bind (map_of fields ''name'') as_str of None \<Rightarrow> None
                        | Some n \<Rightarrow> if n \<noteq> [] \<and> length n \<le> 128 then Some n else None)
                 (callback_error ''name'')) (\<lambda>operation.
      res_bind (callback_data L (map_of fields ''data'')) (\<lambda>bytes.
      res_seq (ensure (length bytes \<le> two_mib) (callback_error ''data size''))
      (res_bind (callback_protocol L (bt_get (metadata tx) ''dtm.protocol'') u) (\<lambda>protocol.
       Inr \<lparr>cb_gid = gid tx, cb_url = u, cb_operation = operation, cb_data = bytes,
            cb_protocol = protocol\<rparr>))))))))))"

section \<open>Facts about the guards\<close>

lemma ensure_kind_ok [simp]: "ensure_kind tx k = Inr u \<longleftrightarrow> tkind tx = k"
  by (simp add: ensure_kind_def)

lemma ensure_status_ok [simp]: "ensure_status tx allowed = Inr u \<longleftrightarrow> tstatus tx \<in> set allowed"
  by (simp add: ensure_status_def)

lemma ensure_callback_workflow_ok [simp]:
  "ensure_callback_workflow tx = Inr u \<longleftrightarrow> is_callback_workflow tx"
  by (auto simp: ensure_callback_workflow_def res_bind_eq_Inr is_callback_workflow_def)

lemma ensure_guards [simp]:
  "tkind tx = k \<Longrightarrow> ensure_kind tx k = Inr ()"
  "tstatus tx \<in> set allowed \<Longrightarrow> ensure_status tx allowed = Inr ()"
  "is_callback_workflow tx \<Longrightarrow> ensure_callback_workflow tx = Inr ()"
  by simp_all

lemma bump_simps [simp]:
  "gid (bump_transaction_revision now tx) = gid tx"
  "tkind (bump_transaction_revision now tx) = tkind tx"
  "tstatus (bump_transaction_revision now tx) = tstatus tx"
  "branches (bump_transaction_revision now tx) = branches tx"
  "revision (bump_transaction_revision now tx) = sat_add (revision tx) 1"
  "updated_at_millis (bump_transaction_revision now tx) = now"
  "created_at_millis (bump_transaction_revision now tx) = created_at_millis tx"
  "toptions (bump_transaction_revision now tx) = toptions tx"
  "timeout_millis (bump_transaction_revision now tx) = timeout_millis tx"
  "metadata (bump_transaction_revision now tx) = metadata tx"
  "workflow_progresses (bump_transaction_revision now tx) = workflow_progresses tx"
  by (simp_all add: bump_transaction_revision_def)

lemma is_callback_workflow_cong:
  "tkind tx' = tkind tx \<Longrightarrow> branches tx' = branches tx \<Longrightarrow>
   bt_get (metadata tx') ''dtm.query_prepared'' = bt_get (metadata tx) ''dtm.query_prepared'' \<Longrightarrow>
   is_callback_workflow tx' = is_callback_workflow tx"
  by (simp add: is_callback_workflow_def)

lemma find_append_None: "find P xs = None \<Longrightarrow> find P (xs @ [x]) = (if P x then Some x else None)"
  by (induction xs) (auto split: if_splits)

lemma find_Some_mem: "find P xs = Some x \<Longrightarrow> x \<in> set xs"
  by (auto simp: find_Some_iff)

lemma find_None_notin: "find (\<lambda>e. f e = k) xs = None \<longleftrightarrow> k \<notin> f ` set xs"
  by (auto simp: find_None_iff)

section \<open>Registration of a dynamic branch\<close>

lemma append_dynamic_branch_cases:
  assumes "append_dynamic_branch now tx b = Inr tx'"
  obtains (known) "find (\<lambda>e. bid e = bid b) (branches tx) = Some b" "tx' = tx"
    | (new) "find (\<lambda>e. bid e = bid b) (branches tx) = None"
        "tx' = bump_transaction_revision now (tx\<lparr>branches := branches tx @ [b]\<rparr>)"
  using assms
  by (auto simp: append_dynamic_branch_def res_bind_eq_Inr split: option.splits)

lemma append_dynamic_branch_guards:
  "append_dynamic_branch now tx b = Inr tx' \<Longrightarrow>
     tkind tx \<in> {Tcc, Xa, Workflow} \<and> tstatus tx \<in> {Submitted, Prepared}"
  by (auto simp: append_dynamic_branch_def res_bind_eq_Inr)

lemma append_dynamic_branch_frame:
  assumes "append_dynamic_branch now tx b = Inr tx'"
  shows "gid tx' = gid tx \<and> tkind tx' = tkind tx \<and> tstatus tx' = tstatus tx"
  using assms by (cases rule: append_dynamic_branch_cases) auto

text \<open>
  Registering a branch is idempotent and never loses one. A successful registration keeps
  every branch already present, in its place, makes the branch the one found under its id,
  keeps the branch ids distinct, and registering the same branch again changes nothing; under
  an id that is already taken, a different branch is refused with a conflict.
\<close>

theorem register_branch_idempotent:
  assumes "append_dynamic_branch now tx b = Inr tx'"
    and "distinct (map bid (branches tx))"
  shows "take (length (branches tx)) (branches tx') = branches tx
    \<and> find (\<lambda>e. bid e = bid b) (branches tx') = Some b
    \<and> distinct (map bid (branches tx'))
    \<and> append_dynamic_branch now' tx' b = Inr tx'
    \<and> (\<forall>c. bid c = bid b \<and> c \<noteq> b \<longrightarrow> append_dynamic_branch now' tx' c = Inl (BranchConflict (bid b)))"
proof -
  have guards: "tkind tx' \<in> {Tcc, Xa, Workflow}" "tstatus tx' \<in> {Submitted, Prepared}"
    using append_dynamic_branch_guards [OF assms(1)] append_dynamic_branch_frame [OF assms(1)]
    by simp_all
  from assms(1) have "take (length (branches tx)) (branches tx') = branches tx
    \<and> find (\<lambda>e. bid e = bid b) (branches tx') = Some b \<and> distinct (map bid (branches tx'))"
  proof (cases rule: append_dynamic_branch_cases)
    case known
    then show ?thesis using assms(2) by simp
  next
    case new
    then show ?thesis using assms(2) by (simp add: find_append_None find_None_notin)
  qed
  then show ?thesis using guards by (auto simp: append_dynamic_branch_def ensure_def)
qed

definition sample_branch :: branch where
  "sample_branch = branch_tcc_try ''b1'' ''http://a/try'' ''http://a/confirm'' ''http://a/cancel'' JNull"

definition sample_tcc :: transaction where
  "sample_tcc = transaction_tcc 1000 ''g1'' []"

theorem register_branch_idempotent_witness:
  "append_dynamic_branch 1001 sample_tcc sample_branch
     = Inr (sample_tcc\<lparr>branches := [sample_branch], revision := 2, updated_at_millis := 1001\<rparr>)
   \<and> append_dynamic_branch 7 (sample_tcc\<lparr>branches := [sample_branch], revision := 2, updated_at_millis := 1001\<rparr>)
       sample_branch = Inr (sample_tcc\<lparr>branches := [sample_branch], revision := 2, updated_at_millis := 1001\<rparr>)"
proof -
  let ?tx' = "sample_tcc\<lparr>branches := [sample_branch], revision := 2, updated_at_millis := 1001\<rparr>"
  have run: "append_dynamic_branch 1001 sample_tcc sample_branch = Inr ?tx'"
    by (simp add: append_dynamic_branch_def ensure_def sample_tcc_def sample_branch_def
        transaction_tcc_def transaction_new_def bump_transaction_revision_def sat_add_def)
  have distinct: "distinct (map bid (branches sample_tcc))"
    by (simp add: sample_tcc_def transaction_tcc_def transaction_new_def)
  show ?thesis
    using run register_branch_idempotent [OF run distinct, of 7] by simp
qed

section \<open>Workflow progress\<close>

definition progress_key :: "workflow_progress \<Rightarrow> string \<times> string" where
  "progress_key p = (wp_branch_id p, wp_operation p)"

definition progress_bytes :: "workflow_progress list \<Rightarrow> nat" where
  "progress_bytes ps = sum_list (map (length \<circ> wp_data) ps)"

definition progress_wf :: "transaction \<Rightarrow> bool" where
  "progress_wf tx \<longleftrightarrow>
     length (workflow_progresses tx) \<le> 1000
     \<and> progress_bytes (workflow_progresses tx) \<le> two_mib
     \<and> distinct (map progress_key (workflow_progresses tx))"

lemma checked_total_sum: "checked_total acc ps = Some t \<Longrightarrow> t = acc + progress_bytes ps"
proof (induction ps arbitrary: acc)
  case (Cons p ps)
  then have "t = acc + length (wp_data p) + progress_bytes ps" by (auto split: if_splits)
  then show ?case by (simp add: progress_bytes_def)
qed (simp add: progress_bytes_def)

lemma same_progress_key_iff: "same_progress_key p = (\<lambda>q. progress_key q = progress_key p)"
  by (auto simp: same_progress_key_def progress_key_def)

lemma append_workflow_progress_cases:
  assumes "append_workflow_progress now tx p = Inr tx'"
  obtains (known) "find (same_progress_key p) (workflow_progresses tx) = Some p" "tx' = tx"
    | (new) "find (same_progress_key p) (workflow_progresses tx) = None"
        "length (workflow_progresses tx) < 1000"
        "length (wp_data p) + progress_bytes (workflow_progresses tx) \<le> two_mib"
        "tx' = bump_transaction_revision now (tx\<lparr>workflow_progresses := workflow_progresses tx @ [p]\<rparr>)"
  using assms
  by (auto simp: append_workflow_progress_def res_bind_eq_Inr dest!: checked_total_sum
      split: option.splits)

lemma append_workflow_progress_guards:
  "append_workflow_progress now tx p = Inr tx' \<Longrightarrow>
     is_callback_workflow tx \<and> tstatus tx = Prepared \<and> progress_validate p = Inr ()"
  by (auto simp: append_workflow_progress_def res_bind_eq_Inr)

lemma append_workflow_progress_frame:
  assumes "append_workflow_progress now tx p = Inr tx'"
  shows "gid tx' = gid tx \<and> tkind tx' = tkind tx \<and> tstatus tx' = tstatus tx
    \<and> branches tx' = branches tx \<and> metadata tx' = metadata tx"
  using assms by (cases rule: append_workflow_progress_cases) auto

text \<open>
  C26: Recorded workflow progress stays within its bounds. A successful append keeps at most
  1000 entries with distinct (branch, operation) keys and at most 2 MiB of data in total, keeps
  every entry already recorded in its place, and recording the same entry again changes
  nothing.
\<close>

theorem workflow_progress_bounded:
  assumes "append_workflow_progress now tx p = Inr tx'"
    and "progress_wf tx"
  shows "progress_wf tx'
    \<and> take (length (workflow_progresses tx)) (workflow_progresses tx') = workflow_progresses tx
    \<and> p \<in> set (workflow_progresses tx')
    \<and> append_workflow_progress now' tx' p = Inr tx'"
proof -
  have guards: "ensure_callback_workflow tx' = Inr ()" "ensure_status tx' [Prepared] = Inr ()"
    "progress_validate p = Inr ()"
    using append_workflow_progress_guards [OF assms(1)] append_workflow_progress_frame [OF assms(1)]
    by (simp_all add: is_callback_workflow_def)
  from assms(1) have "progress_wf tx'
    \<and> take (length (workflow_progresses tx)) (workflow_progresses tx') = workflow_progresses tx
    \<and> find (same_progress_key p) (workflow_progresses tx') = Some p"
  proof (cases rule: append_workflow_progress_cases)
    case known
    then show ?thesis using assms(2) by simp
  next
    case new
    then show ?thesis
      using assms(2)
      by (simp add: progress_wf_def progress_bytes_def find_append_None same_progress_key_iff
          find_None_notin)
  qed
  then show ?thesis using guards
    by (auto simp: append_workflow_progress_def intro: find_Some_mem)
qed

definition sample_progress :: workflow_progress where
  "sample_progress = \<lparr>wp_branch_id = ''01'', wp_operation = ''action'', wp_status = ProgressSucceeded, wp_data = [7]\<rparr>"

definition sample_callback :: transaction where
  "sample_callback = (transaction_workflow 1000 ''w1'' [])
     \<lparr>tstatus := Prepared, metadata := [(''dtm.query_prepared'', ''http://svc/cb'')]\<rparr>"

lemmas sample_defs = sample_tcc_def sample_branch_def sample_progress_def sample_callback_def
  transaction_tcc_def transaction_workflow_def transaction_new_def branch_constructor_defs

lemma sample_callback_is_callback: "is_callback_workflow sample_callback"
  by (simp add: is_callback_workflow_def sample_defs bt_get_def)

theorem workflow_progress_bounded_witness:
  "\<exists>tx'. append_workflow_progress 5 sample_callback sample_progress = Inr tx'
     \<and> progress_wf tx' \<and> sample_progress \<in> set (workflow_progresses tx')"
proof -
  have run: "append_workflow_progress 5 sample_callback sample_progress
    = Inr (bump_transaction_revision 5 (sample_callback\<lparr>workflow_progresses := [sample_progress]\<rparr>))"
    using sample_callback_is_callback
    by (simp add: append_workflow_progress_def sample_defs progress_validate_def two_mib_def
        ensure_callback_workflow_def ensure_status_def)
  have wf: "progress_wf sample_callback"
    by (simp add: progress_wf_def progress_bytes_def sample_defs)
  show ?thesis using run workflow_progress_bounded [OF run wf, of 0] by blast
qed

section \<open>Completion of a callback workflow\<close>

lemma bt_get_set_or_remove [simp]:
  "bt_get (set_or_remove k v m) k' = (if k' = k then (if v = [] then None else Some v) else bt_get m k')"
  by (simp add: set_or_remove_def)

lemma completion_cases:
  assumes "apply_workflow_completion now tx st rr rs = Inr tx'"
  obtains (replay) "is_terminal (tstatus tx)" "tx' = tx" "tstatus tx = st"
        "meta_or_empty tx ''rollback_reason'' = unwrap_or_default rr"
        "meta_or_empty tx ''dtm.workflow.result'' = unwrap_or_default rs"
    | (first) "tstatus tx = Prepared"
        "tx' = bump_transaction_revision now (tx\<lparr>tstatus := st,
           metadata := set_or_remove ''dtm.workflow.result'' (unwrap_or_default rs)
             (set_or_remove ''rollback_reason'' (unwrap_or_default rr) (metadata tx))\<rparr>)"
proof -
  let ?rr = "unwrap_or_default rr" and ?rs = "unwrap_or_default rs"
  from assms have guards: "length ?rr \<le> 4096" "length ?rs \<le> two_mib" "st \<in> {Succeeded, Failed}"
    "is_callback_workflow tx"
    by (simp_all add: apply_workflow_completion_def res_bind_eq_Inr Let_def)
  show thesis
  proof (cases "is_terminal (tstatus tx)")
    case True
    with assms guards have "tx' = tx \<and> tstatus tx = st \<and> meta_or_empty tx ''rollback_reason'' = ?rr
      \<and> meta_or_empty tx ''dtm.workflow.result'' = ?rs"
      by (auto simp: apply_workflow_completion_def res_bind_eq_Inr Let_def simp del: is_terminal.simps)
    with True show thesis using replay by blast
  next
    case False
    with assms guards show thesis
      by (intro first) (simp_all add: apply_workflow_completion_def res_bind_eq_Inr Let_def del: is_terminal.simps)
  qed
qed

lemma completion_guards:
  "apply_workflow_completion now tx st rr rs = Inr tx' \<Longrightarrow>
     is_callback_workflow tx \<and> st \<in> {Succeeded, Failed}
     \<and> length (unwrap_or_default rr) \<le> 4096
     \<and> length (unwrap_or_default rs) \<le> two_mib"
  unfolding apply_workflow_completion_def by (auto simp: res_bind_eq_Inr Let_def)

lemma completion_frame:
  assumes "apply_workflow_completion now tx st rr rs = Inr tx'"
  shows "gid tx' = gid tx \<and> tkind tx' = tkind tx \<and> branches tx' = branches tx
    \<and> is_callback_workflow tx' \<and> tstatus tx' = st"
  using assms
proof (cases rule: completion_cases)
  case replay
  then show ?thesis using completion_guards [OF assms] by simp
next
  case first
  then show ?thesis using completion_guards [OF assms] by (simp add: is_callback_workflow_def)
qed

lemma completion_records:
  assumes "apply_workflow_completion now tx st rr rs = Inr tx'"
  shows "meta_or_empty tx' ''rollback_reason'' = unwrap_or_default rr
    \<and> meta_or_empty tx' ''dtm.workflow.result'' = unwrap_or_default rs"
  using assms by (cases rule: completion_cases) (simp_all add: meta_or_empty_def)

text \<open>
  C25: A callback workflow is decided once. A successful completion leaves the requested
  terminal status, rollback reason and result on record; repeating it (an absent text and an
  empty one being the same) changes nothing, and any later completion that succeeds is that
  repetition: a different status, reason or result is refused.
\<close>

theorem workflow_completion_once:
  assumes "apply_workflow_completion now tx st rr rs = Inr tx'"
  shows "is_terminal (tstatus tx') \<and> tstatus tx' = st
    \<and> apply_workflow_completion now' tx' st rr rs = Inr tx'
    \<and> (\<forall>st2 rr2 rs2 tx2. apply_workflow_completion now' tx' st2 rr2 rs2 = Inr tx2 \<longrightarrow>
         tx2 = tx' \<and> st2 = st
         \<and> unwrap_or_default rr2 = unwrap_or_default rr
         \<and> unwrap_or_default rs2 = unwrap_or_default rs)"
proof -
  note frame = completion_frame [OF assms] and guards = completion_guards [OF assms]
    and records = completion_records [OF assms]
  have terminal: "is_terminal (tstatus tx')" using frame guards by auto
  have callback: "ensure_callback_workflow tx' = Inr ()" using frame by simp
  have "apply_workflow_completion now' tx' st rr rs = Inr tx'"
    using terminal callback guards records frame
    unfolding apply_workflow_completion_def by (simp add: Let_def)
  moreover have "tx2 = tx' \<and> st2 = st
         \<and> unwrap_or_default rr2 = unwrap_or_default rr
         \<and> unwrap_or_default rs2 = unwrap_or_default rs"
    if "apply_workflow_completion now' tx' st2 rr2 rs2 = Inr tx2" for st2 rr2 rs2 tx2
    using that
  proof (cases rule: completion_cases)
    case replay
    then show ?thesis using frame records by simp
  next
    case first
    then show ?thesis using terminal by simp
  qed
  ultimately show ?thesis using terminal frame by blast
qed

theorem workflow_completion_once_witness:
  "\<exists>tx'. apply_workflow_completion 9 sample_callback Failed (Some ''no funds'') None = Inr tx'
     \<and> tstatus tx' = Failed
     \<and> (\<forall>tx2. apply_workflow_completion 10 tx' Succeeded None None = Inr tx2 \<longrightarrow> Succeeded = Failed)"
proof -
  have "\<exists>tx'. apply_workflow_completion 9 sample_callback Failed (Some ''no funds'') None = Inr tx'"
    using sample_callback_is_callback
    by (simp add: apply_workflow_completion_def sample_defs two_mib_def ensure_callback_workflow_def
        ensure_status_def)
  then obtain tx' where run: "apply_workflow_completion 9 sample_callback Failed (Some ''no funds'') None = Inr tx'" ..
  from workflow_completion_once [OF run, of 10] run show ?thesis by blast
qed

section \<open>Backoff\<close>

lemma unat_min: "unat (min a b) = min (unat a) (unat b)"
  by (simp add: min_def word_le_nat_alt)

lemma unat_max: "unat (max a b) = max (unat a) (unat b)"
  by (simp add: max_def word_le_nat_alt)

lemma unat_capped_product:
  assumes "unat k \<le> 16"
  shows "unat (min (sat_mul b (shl_one k)) m) = min (unat b * 2 ^ unat k) (unat m)"
  using unat_bound [of m] unat_shl_one [OF assms] by (simp add: unat_min sat_simps)

lemma unat_capped_shift: "unat (min (sat_sub tries 1) 16) = min (unat tries - 1) 16" for tries :: u32
  by (simp add: unat_min sat_simps)

text \<open>
  The delay before a failed branch is tried again doubles with every attempt, from the
  configured interval up to the maximum (or the interval, if that is larger): after
  \<open>k\<close> attempts it is exactly \<open>min (b * 2 ^ min (k - 1) 16) (max m b)\<close>, with no
  wrap-around whatever the configured values, and the next retry is that long after now,
  unless that leaves 64 bits.
\<close>

theorem branch_backoff_exact:
  "unat (failure_backoff k b m) = min (unat b * 2 ^ min (unat k - 1) 16) (max (unat m) (unat b))
   \<and> record_branch_failure now br err b m
       = br\<lparr>last_error := Some err, next_retry_millis := Some (sat_add now (failure_backoff (attempts br) b m))\<rparr>
   \<and> unat (sat_add now (failure_backoff k b m))
       = min (unat now + unat (failure_backoff k b m)) (2 ^ 64 - 1)"
proof -
  have shift: "unat (min (sat_sub k 1) 16) \<le> 16" by (simp add: unat_capped_shift)
  have "unat (failure_backoff k b m) = min (unat b * 2 ^ min (unat k - 1) 16) (max (unat m) (unat b))"
    by (simp add: failure_backoff_def unat_capped_product [OF shift] unat_capped_shift unat_max Let_def)
  then show ?thesis by (simp add: record_branch_failure_def unat_sat_add)
qed

lemma retry_after_bounds:
  assumes "delay_validate d = Inr ()"
  shows "wd_retry_interval_millis d \<le> retry_after d tries
    \<and> retry_after d tries \<le> max_retry_interval_millis d"
proof -
  let ?shift = "if backoff d then min (sat_sub tries 1) 16 else 0 :: u32"
  have "unat ?shift \<le> 16" by (simp add: unat_capped_shift)
  then have "unat (retry_after d tries)
      = min (unat (wd_retry_interval_millis d) * 2 ^ unat ?shift) (unat (max_retry_interval_millis d))"
    unfolding retry_after_def Let_def by (rule unat_capped_product)
  moreover have "wd_retry_interval_millis d \<le> max_retry_interval_millis d"
    using assms by (auto simp: delay_validate_def res_bind_eq_Inr)
  ultimately show ?thesis by (simp add: word_le_nat_alt)
qed

lemma callback_workflow_due_iff:
  "callback_next_retry tx = Some t \<Longrightarrow> callback_workflow_due tx now \<longleftrightarrow> t \<le> now"
  by (simp add: callback_workflow_due_def)

text \<open>
  Deferring a callback workflow keeps it retrying, with bounded delay. The transaction
  stays a prepared callback workflow, the attempt counter rises by one, and what the metadata
  then says is what the recovery scan reads back: the workflow is due exactly from
  \<open>attempted_at + d\<close> on, for a delay \<open>d\<close> between the configured interval and the configured maximum.
\<close>

theorem defer_workflow_schedules_retry:
  assumes "defer_workflow_recovery now tx d = Inr tx'"
  shows "\<exists>wait. wd_retry_interval_millis d \<le> wait \<and> wait \<le> max_retry_interval_millis d
    \<and> transaction_next_recovery_millis tx' = Some (sat_add (attempted_at_millis d) wait)
    \<and> (\<forall>t. callback_workflow_due tx' t \<longleftrightarrow> sat_add (attempted_at_millis d) wait \<le> t)
    \<and> callback_attempts tx' = sat_add (callback_attempts tx) 1
    \<and> tstatus tx' = Prepared \<and> is_callback_workflow tx'
    \<and> revision tx' = sat_add (revision tx) 1"
proof -
  let ?tries = "sat_add (callback_attempts tx) 1"
  let ?next = "sat_add (attempted_at_millis d) (retry_after d ?tries)"
  from assms have guards: "is_callback_workflow tx" "tstatus tx = Prepared" "delay_validate d = Inr ()"
    by (auto simp: defer_workflow_recovery_def res_bind_eq_Inr)
  from assms guards have tx': "tx' = bump_transaction_revision now (tx\<lparr>metadata :=
      bt_insert ''dtm.callback.last_outcome'' (outcome d)
       (bt_insert ''dtm.callback.next_retry_millis'' (show_word ?next)
         (bt_insert ''dtm.callback.last_attempt_millis'' (show_word (attempted_at_millis d))
           (bt_insert ''dtm.callback.attempts'' (show_word ?tries) (metadata tx))))\<rparr>)"
    by (simp add: defer_workflow_recovery_def Let_def)
  have cb: "is_callback_workflow tx'" using guards(1) by (simp add: tx' is_callback_workflow_def)
  have nxt: "callback_next_retry tx' = Some ?next" by (simp add: tx' callback_next_retry_def)
  have st: "tstatus tx' = Prepared" using guards(2) by (simp add: tx')
  have tries: "callback_attempts tx' = ?tries" by (simp add: tx' callback_attempts_def)
  have rev: "revision tx' = sat_add (revision tx) 1" by (simp add: tx')
  have "transaction_next_recovery_millis tx' = Some ?next"
    using cb nxt st by (simp add: transaction_next_recovery_millis_def)
  moreover have "\<forall>t. callback_workflow_due tx' t \<longleftrightarrow> ?next \<le> t"
    using callback_workflow_due_iff [OF nxt] by blast
  ultimately show ?thesis
    using retry_after_bounds [OF guards(3), of ?tries] cb st tries rev by blast
qed

definition sample_delay :: workflow_recovery_delay where
  "sample_delay = \<lparr>attempted_at_millis = 5000, wd_retry_interval_millis = 1000,
     max_retry_interval_millis = 30000, backoff = True, outcome = ''ongoing''\<rparr>"

theorem defer_workflow_schedules_retry_witness:
  "\<exists>tx' wait. defer_workflow_recovery 5001 sample_callback sample_delay = Inr tx'
     \<and> 1000 \<le> wait \<and> wait \<le> (30000 :: u64)
     \<and> transaction_next_recovery_millis tx' = Some (sat_add 5000 wait)"
proof -
  have "\<exists>tx'. defer_workflow_recovery 5001 sample_callback sample_delay = Inr tx'"
    using sample_callback_is_callback
    by (simp add: defer_workflow_recovery_def sample_delay_def delay_validate_def is_lower_or_underscore_def
        Let_def) (simp add: sample_defs ensure_status_def)
  then obtain tx' where run: "defer_workflow_recovery 5001 sample_callback sample_delay = Inr tx'" ..
  show ?thesis
    using defer_workflow_schedules_retry [OF run] run by (auto simp: sample_delay_def)
qed

section \<open>Phase-two URLs of XA branches\<close>

lemma parse_branch_url_ok:
  "parse_branch_url L v = Inr u \<Longrightarrow> parse_url L v = Some u \<and> scheme u \<in> {''http'', ''https''}
     \<and> host u \<noteq> None \<and> username u = [] \<and> password u = None \<and> fragment u = None"
  by (auto simp: parse_branch_url_def res_bind_eq_Inr)

lemma filter_reserved:
  "filter (\<lambda>p. fst p = n) (filter (\<lambda>p. fst p \<notin> S) ps) = (if n \<in> S then [] else filter (\<lambda>p. fst p = n) ps)"
  by (induction ps) auto

lemma xa_phase2_params:
  "filter (\<lambda>p. fst p = n) (query_pairs (xa_phase2_url u g b oper)) =
     (if n \<in> set xa_params then []
      else filter (\<lambda>p. fst p = n) (query_pairs u))
     @ filter (\<lambda>p. fst p = n) [(''gid'', g), (''trans_type'', ''xa''), (''branch_id'', b), (''op'', oper)]"
  by (simp add: xa_phase2_url_def query_pairs_def [of "u\<lparr>query := _\<rparr>"] filter_reserved
      del: filter_filter)

text \<open>
  C29: The registered URL of an XA branch cannot forge the phase-two request. Whatever
  parameters it carries, the URL the coordinator calls, read back by a parser that reads what
  was printed, has exactly one \<open>gid\<close>, one \<open>branch_id\<close> and one \<open>op\<close> parameter, those of the
  coordinator, and keeps scheme, host, path and every other parameter.
\<close>

theorem xa_phase2_url_unforgeable:
  assumes "xa_phase2_callback_url L v g b oper = Inr r"
    and "\<And>u. parse_url L v = Some u \<Longrightarrow>
           parse_url L (print_url L (xa_phase2_url u g b oper)) = Some (xa_phase2_url u g b oper)"
  shows "\<exists>u u'. parse_url L v = Some u \<and> parse_url L r = Some u'
    \<and> scheme u' = scheme u \<and> host u' = host u \<and> path u' = path u
    \<and> filter (\<lambda>p. fst p = ''gid'') (query_pairs u') = [(''gid'', g)]
    \<and> filter (\<lambda>p. fst p = ''branch_id'') (query_pairs u') = [(''branch_id'', b)]
    \<and> filter (\<lambda>p. fst p = ''op'') (query_pairs u') = [(''op'', oper)]
    \<and> (\<forall>n. n \<notin> {''gid'', ''trans_type'', ''branch_id'', ''op''} \<longrightarrow>
         filter (\<lambda>p. fst p = n) (query_pairs u') = filter (\<lambda>p. fst p = n) (query_pairs u))
    \<and> oper \<in> {''commit'', ''rollback''}"
proof -
  from assms(1) obtain u where oper: "oper \<in> {''commit'', ''rollback''}"
    and u: "parse_branch_url L v = Inr u" and r: "r = print_url L (xa_phase2_url u g b oper)"
    by (auto simp: xa_phase2_callback_url_def res_bind_eq_Inr)
  let ?u' = "xa_phase2_url u g b oper"
  have parsed: "parse_url L v = Some u" using parse_branch_url_ok [OF u] by simp
  then have reread: "parse_url L r = Some ?u'" unfolding r by (rule assms(2))
  have same: "scheme ?u' = scheme u" "host ?u' = host u" "path ?u' = path u"
    by (simp_all add: xa_phase2_url_def)
  have own: "filter (\<lambda>p. fst p = ''gid'') (query_pairs ?u') = [(''gid'', g)]"
    "filter (\<lambda>p. fst p = ''branch_id'') (query_pairs ?u') = [(''branch_id'', b)]"
    "filter (\<lambda>p. fst p = ''op'') (query_pairs ?u') = [(''op'', oper)]"
    by (simp_all add: xa_phase2_params xa_params_def)
  have rest: "\<forall>n. n \<notin> {''gid'', ''trans_type'', ''branch_id'', ''op''} \<longrightarrow>
      filter (\<lambda>p. fst p = n) (query_pairs ?u') = filter (\<lambda>p. fst p = n) (query_pairs u)"
    by (auto simp: xa_phase2_params xa_params_def)
  show ?thesis using parsed reread same own rest oper by blast
qed

definition sample_url :: url where
  "sample_url = \<lparr>scheme = ''http'', host = Some ''h'', username = [], password = None, path = ''/xa'',
     query = Some [(''op'', ''rollback''), (''k'', ''v'')], fragment = None, origin = ''http://h''\<rparr>"

definition sample_phase2 :: string where
  "sample_phase2 = ''http://h/xa?k=v&gid=g1&trans_type=xa&branch_id=b1&op=commit''"

definition sample_url_libs :: libs where
  "sample_url_libs = \<lparr>header_name_ok = (\<lambda>_. True), header_value_ok = (\<lambda>_. True),
     parse_url = (\<lambda>s. if s = ''http://h/xa?op=rollback&k=v'' then Some sample_url
                     else if s = sample_phase2 then Some (xa_phase2_url sample_url ''g1'' ''b1'' ''commit'')
                     else None),
     print_url = (\<lambda>u. sample_phase2), parse_json = (\<lambda>_. None), base64_decode = (\<lambda>_. None),
     encode_subscribers = (\<lambda>_. []), decode_subscribers = (\<lambda>_. None)\<rparr>"

theorem xa_phase2_url_unforgeable_witness:
  "xa_phase2_callback_url sample_url_libs ''http://h/xa?op=rollback&k=v'' ''g1'' ''b1'' ''commit'' = Inr sample_phase2
   \<and> (\<exists>u'. parse_url sample_url_libs sample_phase2 = Some u'
        \<and> filter (\<lambda>p. fst p = ''op'') (query_pairs u') = [(''op'', ''commit'')]
        \<and> filter (\<lambda>p. fst p = ''k'') (query_pairs u') = [(''k'', ''v'')])"
proof -
  have run: "xa_phase2_callback_url sample_url_libs ''http://h/xa?op=rollback&k=v'' ''g1'' ''b1'' ''commit''
      = Inr sample_phase2"
    by (simp add: xa_phase2_callback_url_def parse_branch_url_def sample_url_libs_def sample_url_def)
  have reads: "parse_url sample_url_libs (print_url sample_url_libs (xa_phase2_url u ''g1'' ''b1'' ''commit''))
      = Some (xa_phase2_url u ''g1'' ''b1'' ''commit'')"
    if "parse_url sample_url_libs ''http://h/xa?op=rollback&k=v'' = Some u" for u
    using that by (simp add: sample_url_libs_def sample_phase2_def)
  have "filter (\<lambda>p. fst p = ''k'') (query_pairs sample_url) = [(''k'', ''v'')]"
    "parse_url sample_url_libs ''http://h/xa?op=rollback&k=v'' = Some sample_url"
    by (simp_all add: sample_url_def query_pairs_def sample_url_libs_def)
  then show ?thesis
    using run xa_phase2_url_unforgeable [OF run reads] by fastforce
qed

end
