(* ===== verification/Dependencies.thy ===== *)
theory Dependencies
  imports Transitions
begin

text \<open>
  Validation of the dependency graph of a concurrent Saga or a Workflow
  (\<^verbatim>\<open>validate_transaction_dependencies\<close> and \<^verbatim>\<open>validate_dependency_graph\<close> of
  \<^verbatim>\<open>src/lib.rs\<close>): unique branch ids, known and unrepeated dependencies, and a
  depth-first search that reports a cycle. The recursion of the search is bounded by
  fuel; one unit more than the number of branches is proved to be enough.
\<close>

section \<open>The definitions\<close>

fun positions_from :: "nat \<Rightarrow> branch list \<Rightarrow> (string, nat) btree_map \<Rightarrow> (string, nat) btree_map" where
  "positions_from i [] m = m"
| "positions_from i (b # bs) m = positions_from (Suc i) bs (bt_insert (bid b) i m)"

definition positions :: "branch list \<Rightarrow> (string, nat) btree_map" where
  "positions bs = positions_from 0 bs []"

definition check_dependency :: "(string, nat) btree_map \<Rightarrow> branch \<Rightarrow> string \<Rightarrow> string set \<Rightarrow> string set res" where
  "check_dependency pos b d seen =
     res_seq (ensure (d \<noteq> bid b) (GraphError (SelfDependency (bid b))))
     (res_seq (ensure (bt_get pos d \<noteq> None) (GraphError (UnknownDependency (bid b) d)))
     (res_seq (ensure (d \<notin> seen) (GraphError (RepeatedDependency (bid b) d)))
     (Inr (insert d seen))))"

definition check_branch :: "(string, nat) btree_map \<Rightarrow> branch \<Rightarrow> unit \<Rightarrow> unit res" where
  "check_branch pos b _ =
     res_bind (res_fold (check_dependency pos b) (dependencies b) {}) (\<lambda>_. Inr ())"

type_synonym visit_state = "nat set \<times> nat set"

primrec visit :: "nat \<Rightarrow> branch list \<Rightarrow> (string, nat) btree_map \<Rightarrow> nat \<Rightarrow> visit_state \<Rightarrow> visit_state res" where
  "visit 0 bs pos i s = Inl OutOfFuel"
| "visit (Suc n) bs pos i s =
     (case s of (visiting, visited) \<Rightarrow>
        if i \<in> visited then Inr (visiting, visited)
        else if i \<in> visiting then Inl (GraphError DependencyCycle)
        else res_bind
          (res_fold (\<lambda>d s. case bt_get pos d of None \<Rightarrow> Inl Panicked | Some j \<Rightarrow> visit n bs pos j s)
             (dependencies (bs ! i)) (insert i visiting, visited))
          (\<lambda>(visiting', visited'). Inr (visiting' - {i}, insert i visited')))"

definition validate_dependency_graph :: "branch list \<Rightarrow> unit res" where
  "validate_dependency_graph bs =
     (let pos = positions bs in
      res_seq (ensure (length pos = length bs) (GraphError DuplicateBranchId))
      (res_seq (res_fold (check_branch pos) bs ())
      (res_bind (res_fold (visit (Suc (length bs)) bs pos) [0..<length bs] ({}, {}))
        (\<lambda>_. Inr ()))))"

definition no_dependencies :: "transaction \<Rightarrow> bool" where
  "no_dependencies tx \<longleftrightarrow> list_all (\<lambda>b. dependencies b = []) (branches tx)"

definition validate_transaction_dependencies :: "transaction \<Rightarrow> unit res" where
  "validate_transaction_dependencies tx =
     (if tkind tx \<noteq> Saga then
        res_seq (ensure (tkind tx = Message \<or> \<not> concurrent (toptions tx)) (GraphError ConcurrentUnsupported))
        (if tkind tx = Workflow then validate_dependency_graph (branches tx)
         else ensure (no_dependencies tx) (GraphError DependenciesUnsupported))
      else if \<not> concurrent (toptions tx) then
        ensure (no_dependencies tx) (GraphError DependenciesNeedConcurrent)
      else validate_dependency_graph (branches tx))"

section \<open>Positions\<close>

lemma keys_positions_from: "fst ` set (positions_from i bs m) = bid ` set bs \<union> fst ` set m"
  by (induction bs arbitrary: i m) auto

lemma wf_positions_from: "bt_wf m \<Longrightarrow> bt_wf (positions_from i bs m)"
  by (induction bs arbitrary: i m) auto

lemma get_positions_from:
  "bt_get (positions_from i bs m) d = Some j \<Longrightarrow>
     (i \<le> j \<and> j < i + length bs \<and> bid (bs ! (j - i)) = d) \<or> bt_get m d = Some j"
proof (induction bs arbitrary: i m)
  case (Cons b bs)
  then have "(Suc i \<le> j \<and> j < Suc i + length bs \<and> bid (bs ! (j - Suc i)) = d)
      \<or> bt_get (bt_insert (bid b) i m) d = Some j" by (simp only: positions_from.simps)
  then show ?case by (auto simp: nth_Cons' split: if_splits)
qed simp

lemma get_positions: "bt_get (positions bs) d = Some j \<Longrightarrow> j < length bs \<and> bid (bs ! j) = d"
  using get_positions_from [of 0 bs "[]" d j] by (simp add: positions_def)

lemma known_position: "bt_get (positions bs) d = None \<longleftrightarrow> d \<notin> bid ` set bs"
  by (simp add: positions_def bt_get_None_notin keys_positions_from)

lemma length_positions: "length (positions bs) = length bs \<longleftrightarrow> distinct (map bid bs)"
proof -
  have "distinct (map fst (positions bs))"
    unfolding positions_def by (intro bt_wf_distinct wf_positions_from) simp
  then have "length (positions bs) = card (set (map fst (positions bs)))"
    by (metis distinct_card length_map)
  also have "set (map fst (positions bs)) = set (map bid bs)"
    by (simp add: positions_def keys_positions_from)
  finally show ?thesis by (metis card_distinct distinct_card length_map)
qed

section \<open>The checks of single dependencies\<close>

lemma check_dependencies_ok:
  "(\<exists>s'. res_fold (check_dependency pos b) ds seen = Inr s') \<longleftrightarrow>
     bid b \<notin> set ds \<and> (\<forall>d \<in> set ds. bt_get pos d \<noteq> None) \<and> distinct ds \<and> set ds \<inter> seen = {}"
proof (induction ds arbitrary: seen)
  case (Cons d ds)
  have "(\<exists>s'. res_fold (check_dependency pos b) (d # ds) seen = Inr s') \<longleftrightarrow>
      d \<noteq> bid b \<and> bt_get pos d \<noteq> None \<and> d \<notin> seen
      \<and> (\<exists>s'. res_fold (check_dependency pos b) ds (insert d seen) = Inr s')"
    by (auto simp: check_dependency_def res_bind_eq_Inr)
  then show ?case using Cons.IH [of "insert d seen"] by auto
qed simp

lemma check_branch_ok:
  "check_branch pos b u = Inr v \<longleftrightarrow>
     bid b \<notin> set (dependencies b) \<and> (\<forall>d \<in> set (dependencies b). bt_get pos d \<noteq> None)
     \<and> distinct (dependencies b)"
  using check_dependencies_ok [of pos b "dependencies b" "{}"]
  by (auto simp: check_branch_def res_bind_eq_Inr)

lemma check_branches_ok:
  "res_fold (check_branch pos) bs u = Inr v \<longleftrightarrow> (\<forall>b \<in> set bs. check_branch pos b () = Inr ())"
  by (induction bs arbitrary: u) (auto simp: res_bind_eq_Inr)

lemma check_branches_error:
  assumes "b \<in> set bs" and "check_branch pos b () \<noteq> Inr ()"
  shows "\<exists>g. res_fold (check_branch pos) bs () = Inl (GraphError g)"
proof -
  have dep: "\<exists>g. e = GraphError g" if "check_dependency pos b d seen = Inl e" for b d seen e
    using that by (auto simp: check_dependency_def ensure_def split: if_splits)
  have branch: "\<exists>g. e = GraphError g" if "check_branch pos b u = Inl e" for b u e
  proof -
    from that have "res_fold (check_dependency pos b) (dependencies b) {} = Inl e"
      by (simp add: check_branch_def res_bind_def split: sum.splits)
    then show ?thesis by (rule res_fold_Inl) (rule dep)
  qed
  from assms obtain e where "res_fold (check_branch pos) bs () = Inl e"
    using check_branches_ok [of pos bs "()" "()"] by (metis (full_types) old.unit.exhaust sum.exhaust)
  moreover from this have "\<exists>g. e = GraphError g" by (rule res_fold_Inl) (rule branch)
  ultimately show ?thesis by blast
qed

section \<open>The depth-first search\<close>

text \<open>The edges between positions, from a branch to what it depends on.\<close>

definition edges :: "branch list \<Rightarrow> (nat \<times> nat) set" where
  "edges bs = {(i, j). i < length bs \<and> (\<exists>d \<in> set (dependencies (bs ! i)). bt_get (positions bs) d = Some j)}"

definition resolved :: "branch list \<Rightarrow> bool" where
  "resolved bs \<longleftrightarrow> (\<forall>b \<in> set bs. \<forall>d \<in> set (dependencies b). bt_get (positions bs) d \<noteq> None)"

lemma edges_bound: "(i, j) \<in> edges bs \<Longrightarrow> i < length bs \<and> j < length bs"
  by (auto simp: edges_def dest: get_positions)

definition searched :: "branch list \<Rightarrow> nat set \<Rightarrow> bool" where
  "searched bs vd \<longleftrightarrow> edges bs `` vd \<subseteq> vd \<and> acyclic (edges bs \<inter> vd \<times> UNIV)"

lemma closed_trancl:
  "E `` A \<subseteq> A \<Longrightarrow> (x, y) \<in> (E \<inter> insert i A \<times> UNIV)\<^sup>+ \<Longrightarrow> x \<in> A \<Longrightarrow> y \<in> A \<and> (x, y) \<in> (E \<inter> A \<times> UNIV)\<^sup>+"
proof (erule trancl_induct)
  fix y assume "E `` A \<subseteq> A" "x \<in> A" "(x, y) \<in> E \<inter> insert i A \<times> UNIV"
  then show "y \<in> A \<and> (x, y) \<in> (E \<inter> A \<times> UNIV)\<^sup>+" by blast
next
  fix y z assume *: "E `` A \<subseteq> A" "x \<in> A" "(y, z) \<in> E \<inter> insert i A \<times> UNIV"
    "y \<in> A \<and> (x, y) \<in> (E \<inter> A \<times> UNIV)\<^sup>+"
  then have "z \<in> A" "(y, z) \<in> E \<inter> A \<times> UNIV" by auto
  then show "z \<in> A \<and> (x, z) \<in> (E \<inter> A \<times> UNIV)\<^sup>+" using * by (blast intro: trancl_into_trancl)
qed

lemma searched_insert:
  assumes "searched bs vd" and "edges bs `` {i} \<subseteq> vd"
  shows "searched bs (insert i vd)"
proof (cases "i \<in> vd")
  case True
  then show ?thesis using assms(1) by (simp add: insert_absorb)
next
  case False
  let ?E = "edges bs"
  have closed: "?E `` vd \<subseteq> vd" and acyc: "acyclic (?E \<inter> vd \<times> UNIV)"
    using assms(1) by (simp_all add: searched_def)
  have "(x, x) \<notin> (?E \<inter> insert i vd \<times> UNIV)\<^sup>+" for x
  proof
    assume cyc: "(x, x) \<in> (?E \<inter> insert i vd \<times> UNIV)\<^sup>+"
    then obtain y where y: "(x, y) \<in> ?E \<inter> insert i vd \<times> UNIV"
      and rest: "(y, x) \<in> (?E \<inter> insert i vd \<times> UNIV)\<^sup>*"
      by (auto dest: tranclD)
    have "y \<in> vd" using y assms(2) closed by blast
    then have "x \<in> vd"
      using rest closed_trancl [OF closed, of y x i] by (auto simp: rtrancl_eq_or_trancl)
    then have "(x, x) \<in> (?E \<inter> vd \<times> UNIV)\<^sup>+" using closed_trancl [OF closed cyc] by simp
    then show False using acyc by (simp add: acyclic_def)
  qed
  then show ?thesis using closed assms(2) by (auto simp: searched_def acyclic_def)
qed

lemma visit_sound:
  assumes "visit n bs (positions bs) i (vg, vd) = Inr (vg', vd')"
    and "searched bs vd" and "i < length bs"
  shows "vg' = vg \<and> vd \<subseteq> vd' \<and> i \<in> vd' \<and> searched bs vd'"
  using assms
proof (induction n arbitrary: i vg vd vg' vd')
  case (Suc n)
  let ?step = "\<lambda>d s. case bt_get (positions bs) d of None \<Rightarrow> Inl Panicked | Some j \<Rightarrow> visit n bs (positions bs) j s"
  show ?case
  proof (cases "i \<in> vd")
    case True
    then show ?thesis using Suc.prems by simp
  next
    case False
    with Suc.prems(1) obtain vg1 vd1 where new: "i \<notin> vg"
      and loop: "res_fold ?step (dependencies (bs ! i)) (insert i vg, vd) = Inr (vg1, vd1)"
      and res: "vg' = vg1 - {i}" "vd' = insert i vd1"
      by (auto simp: res_bind_eq_Inr split: if_splits)
    let ?P = "\<lambda>ds s. fst s = insert i vg \<and> vd \<subseteq> snd s \<and> searched bs (snd s)
      \<and> (\<forall>d \<in> set ds. \<forall>j. bt_get (positions bs) d = Some j \<longrightarrow> j \<in> snd s)"
    have "?P (dependencies (bs ! i)) (vg1, vd1)"
    proof (rule res_fold_induct [where P = ?P, OF loop])
      show "?P [] (insert i vg, vd)" using Suc.prems by simp
    next
      fix ds d s1 s2
      assume P: "?P ds s1" and run: "?step d s1 = Inr s2"
      from run obtain j where j: "bt_get (positions bs) d = Some j"
        and step: "visit n bs (positions bs) j (fst s1, snd s1) = Inr (fst s2, snd s2)"
        by (auto split: option.splits)
      have "fst s2 = fst s1 \<and> snd s1 \<subseteq> snd s2 \<and> j \<in> snd s2 \<and> searched bs (snd s2)"
        using Suc.IH [OF step] P get_positions [OF j] by blast
      then show "?P (ds @ [d]) s2" using P j by auto
    qed
    moreover from this have "edges bs `` {i} \<subseteq> vd1" by (auto simp: edges_def)
    ultimately show ?thesis using res new searched_insert [of bs vd1 i] by auto
  qed
qed simp

lemma visit_error:
  assumes "visit n bs (positions bs) i (vg, vd) = Inl e"
    and "resolved bs" and "searched bs vd" and "i < length bs"
    and "vg \<subseteq> {..<length bs}" and "length bs < n + card vg"
    and "\<forall>x \<in> vg. (x, i) \<in> (edges bs)\<^sup>+"
  shows "e = GraphError DependencyCycle \<and> \<not> acyclic (edges bs)"
  using assms
proof (induction n arbitrary: i vg vd)
  case 0
  then have "card vg \<le> length bs" using card_mono [of "{..<length bs}" vg] by simp
  then show ?case using 0 by simp
next
  case (Suc n)
  let ?step = "\<lambda>d s. case bt_get (positions bs) d of None \<Rightarrow> Inl Panicked | Some j \<Rightarrow> visit n bs (positions bs) j s"
  have notin: "i \<notin> vd" using Suc.prems(1) by auto
  show ?case
  proof (cases "i \<in> vg")
    case True
    then have "(i, i) \<in> (edges bs)\<^sup>+" using Suc.prems(7) by blast
    then show ?thesis using Suc.prems(1) True notin by (auto simp: acyclic_def)
  next
    case False
    with Suc.prems(1) notin have "res_fold ?step (dependencies (bs ! i)) (insert i vg, vd) = Inl e"
      by (auto simp: res_bind_def split: sum.splits)
    then obtain ds d ds' s1 where split: "dependencies (bs ! i) = ds @ d # ds'"
      and pre': "res_fold ?step ds (insert i vg, vd) = Inr s1" and err': "?step d s1 = Inl e"
      by (rule res_fold_Inl)
    obtain vg1 vd1 where s1: "s1 = (vg1, vd1)" by (cases s1)
    note pre = pre' [unfolded s1] and err = err' [unfolded s1]
    let ?P = "\<lambda>ds s. fst s = insert i vg \<and> searched bs (snd s)"
    have "?P ds (vg1, vd1)"
    proof (rule res_fold_induct [where P = ?P, OF pre])
      show "?P [] (insert i vg, vd)" using Suc.prems(3) by simp
    next
      fix ds d s1 s2
      assume P: "?P ds s1" and run: "?step d s1 = Inr s2"
      from run obtain j where j: "bt_get (positions bs) d = Some j"
        and step: "visit n bs (positions bs) j (fst s1, snd s1) = Inr (fst s2, snd s2)"
        by (auto split: option.splits)
      show "?P (ds @ [d]) s2"
        using visit_sound [OF step] P get_positions [OF j] by auto
    qed
    then have vg1: "vg1 = insert i vg" and vd1: "searched bs vd1" by simp_all
    have "d \<in> set (dependencies (bs ! i))" using split by simp
    then obtain j where j: "bt_get (positions bs) d = Some j" "(i, j) \<in> edges bs"
      using Suc.prems(2,4) nth_mem [OF Suc.prems(4)] unfolding resolved_def edges_def by blast
    have fin: "finite vg" using Suc.prems(5) finite_subset by blast
    have reach: "\<forall>x \<in> vg1. (x, j) \<in> (edges bs)\<^sup>+"
      using Suc.prems(7) j(2) by (auto simp: vg1 intro: trancl_into_trancl)
    show ?thesis
    proof (rule Suc.IH [OF _ Suc.prems(2) vd1 _ _ _ reach])
      show "visit n bs (positions bs) j (vg1, vd1) = Inl e" using err j(1) by simp
      show "j < length bs" using get_positions [OF j(1)] by simp
      show "vg1 \<subseteq> {..<length bs}" using Suc.prems(4,5) vg1 by auto
      show "length bs < n + card vg1" using Suc.prems(6) False fin by (simp add: vg1)
    qed
  qed
qed

lemma visit_all_result:
  assumes "resolved bs"
  shows "case res_fold (visit (Suc (length bs)) bs (positions bs)) [0..<length bs] ({}, {}) of
      Inr s \<Rightarrow> acyclic (edges bs)
    | Inl e \<Rightarrow> e = GraphError DependencyCycle \<and> \<not> acyclic (edges bs)"
proof -
  let ?f = "visit (Suc (length bs)) bs (positions bs)"
  let ?P = "\<lambda>is s. fst s = {} \<and> searched bs (snd s) \<and> set is \<subseteq> snd s"
  have start: "?P [] ({}, {})" by (simp add: searched_def acyclic_def)
  have step: "?P (is @ [i]) s2" if "i < length bs" "?P is s1" "?f i s1 = Inr s2" for i "is" s1 s2
  proof -
    have "?f i (fst s1, snd s1) = Inr (fst s2, snd s2)" using that(3) by simp
    from visit_sound [OF this] that(1,2) show ?thesis by auto
  qed
  show ?thesis
  proof (cases "res_fold ?f [0..<length bs] ({}, {})")
    case (Inr s)
    then have "?P [0..<length bs] s"
      by (rule res_fold_induct [where P = ?P]) (use start in simp, rule step, auto)
    then have "searched bs (snd s)" "{..<length bs} \<subseteq> snd s" by auto
    then have "edges bs \<inter> snd s \<times> UNIV = edges bs" using edges_bound by fastforce
    then show ?thesis using \<open>searched bs (snd s)\<close> Inr by (simp add: searched_def)
  next
    case (Inl e)
    then obtain "is" i is' s1 where split: "[0..<length bs] = is @ i # is'"
      and pre: "res_fold ?f is ({}, {}) = Inr s1" and err: "?f i s1 = Inl e"
      by (rule res_fold_Inl)
    have bound: "set (is @ [i]) \<subseteq> {..<length bs}"
    proof -
      have "set (is @ [i]) \<subseteq> set [0..<length bs]" unfolding split by auto
      then show ?thesis by auto
    qed
    have "?P is s1"
      by (rule res_fold_induct [where P = ?P, OF pre]) (use start in simp, rule step, use bound in auto)
    then have "fst s1 = {}" and vd: "searched bs (snd s1)" by simp_all
    then have "?f i ({}, snd s1) = Inl e" using err by (metis prod.collapse)
    from visit_error [OF this assms vd] bound Inl show ?thesis by simp
  qed
qed

section \<open>What validation decides\<close>

text \<open>The dependency relation between branch ids.\<close>

definition depends_on :: "branch list \<Rightarrow> (string \<times> string) set" where
  "depends_on bs = {(bid b, d) |b d. b \<in> set bs \<and> d \<in> set (dependencies b)}"

lemma edges_depends:
  "(i, j) \<in> (edges bs)\<^sup>+ \<Longrightarrow> (bid (bs ! i), bid (bs ! j)) \<in> (depends_on bs)\<^sup>+"
proof (induction rule: trancl_induct)
  case (base j)
  then have "(bid (bs ! i), bid (bs ! j)) \<in> depends_on bs"
    by (auto simp: edges_def depends_on_def dest!: get_positions)
  then show ?case ..
next
  case (step j k)
  then have "(bid (bs ! j), bid (bs ! k)) \<in> depends_on bs"
    by (auto simp: edges_def depends_on_def dest!: get_positions)
  then show ?case using step.IH by (rule trancl_into_trancl [rotated])
qed

lemma depends_edges:
  assumes "distinct (map bid bs)" and "resolved bs"
    and "(a, d) \<in> (depends_on bs)\<^sup>+" and "i < length bs" and "bid (bs ! i) = a"
  shows "\<exists>j. j < length bs \<and> bid (bs ! j) = d \<and> (i, j) \<in> (edges bs)\<^sup>+"
proof -
  have edge: "\<exists>j. j < length bs \<and> bid (bs ! j) = y \<and> (i, j) \<in> edges bs"
    if "(bid (bs ! i), y) \<in> depends_on bs" "i < length bs" for i y
  proof -
    from that obtain b where b: "b \<in> set bs" "bid b = bid (bs ! i)" "y \<in> set (dependencies b)"
      by (auto simp: depends_on_def)
    then have "b = bs ! i" using assms(1) that(2) by (metis distinct_map inj_onD nth_mem)
    then obtain j where "bt_get (positions bs) y = Some j" using assms(2) b by (auto simp: resolved_def)
    then show ?thesis using get_positions \<open>b = bs ! i\<close> b(3) that(2) by (auto simp: edges_def)
  qed
  from assms(3) show ?thesis
  proof (induction rule: trancl_induct)
    case (base y)
    then show ?case using edge [of i y] assms(4,5) by blast
  next
    case (step y z)
    then obtain j where j: "j < length bs" "bid (bs ! j) = y" "(i, j) \<in> (edges bs)\<^sup>+" by blast
    then show ?case using edge [of j z] step.hyps(2) by (blast intro: trancl_into_trancl)
  qed
qed

lemma acyclic_edges_iff:
  assumes "distinct (map bid bs)" and "resolved bs"
  shows "acyclic (edges bs) \<longleftrightarrow> acyclic (depends_on bs)"
proof
  assume acyc: "acyclic (edges bs)"
  have "(a, a) \<notin> (depends_on bs)\<^sup>+" for a
  proof
    assume cyc: "(a, a) \<in> (depends_on bs)\<^sup>+"
    then have "a \<in> bid ` set bs" by (auto simp: depends_on_def dest: tranclD)
    then obtain i where i: "i < length bs" "bid (bs ! i) = a" by (metis imageE in_set_conv_nth)
    from depends_edges [OF assms cyc i] obtain j where
      "j < length bs" "bid (bs ! j) = a" "(i, j) \<in> (edges bs)\<^sup>+" by blast
    moreover have "i = j"
      using assms(1) i calculation(1,2) by (metis distinct_conv_nth length_map nth_map)
    ultimately show False using acyc by (auto simp: acyclic_def)
  qed
  then show "acyclic (depends_on bs)" by (simp add: acyclic_def)
next
  assume "acyclic (depends_on bs)"
  then show "acyclic (edges bs)" unfolding acyclic_def using edges_depends by blast
qed

definition graph_ok :: "branch list \<Rightarrow> bool" where
  "graph_ok bs \<longleftrightarrow> distinct (map bid bs)
     \<and> (\<forall>b \<in> set bs. distinct (dependencies b) \<and> set (dependencies b) \<subseteq> bid ` set bs)
     \<and> acyclic (depends_on bs)"

text \<open>Whether a graph is well-formed depends on the ids and the dependencies of the branches only.\<close>

definition shape :: "branch list \<Rightarrow> (string \<times> string list) list" where
  "shape bs = map (\<lambda>b. (bid b, dependencies b)) bs"

lemma shape_ids: "map bid bs = map fst (shape bs)"
  by (simp add: shape_def)

lemma graph_ok_shape: "graph_ok bs \<longleftrightarrow> distinct (map fst (shape bs))
    \<and> (\<forall>(i, ds) \<in> set (shape bs). distinct ds \<and> set ds \<subseteq> fst ` set (shape bs))
    \<and> acyclic {(i, d). \<exists>ds. (i, ds) \<in> set (shape bs) \<and> d \<in> set ds}"
proof -
  have "{(i, d). \<exists>ds. (i, ds) \<in> set (shape bs) \<and> d \<in> set ds} = depends_on bs"
    by (auto simp: shape_def depends_on_def)
  moreover have "fst ` set (shape bs) = bid ` set bs" by (force simp: shape_def)
  ultimately show ?thesis by (auto simp: graph_ok_def shape_ids) (auto simp: shape_def)
qed

lemma graph_ok_cong: "shape bs = shape bs' \<Longrightarrow> graph_ok bs = graph_ok bs'"
  by (simp add: graph_ok_shape)

lemma graph_ok_checks:
  "graph_ok bs \<longleftrightarrow> distinct (map bid bs) \<and> (\<forall>b \<in> set bs. check_branch (positions bs) b () = Inr ())
     \<and> acyclic (depends_on bs)"
proof -
  have "bid b \<notin> set (dependencies b)" if "acyclic (depends_on bs)" "b \<in> set bs" for b
    using that by (auto simp: acyclic_def depends_on_def)
  then show ?thesis
    by (auto simp: graph_ok_def check_branch_ok known_position)
qed

lemma checks_resolved: "\<forall>b \<in> set bs. check_branch (positions bs) b () = Inr () \<Longrightarrow> resolved bs"
  by (auto simp: resolved_def check_branch_ok)

lemma graph_decision:
  "(validate_dependency_graph bs = Inr () \<longleftrightarrow> graph_ok bs)
   \<and> (\<forall>e. validate_dependency_graph bs = Inl e \<longrightarrow> (\<exists>ge. e = GraphError ge))"
proof (cases "distinct (map bid bs) \<and> (\<forall>b \<in> set bs. check_branch (positions bs) b () = Inr ())")
  case False
  then have "\<not> distinct (map bid bs) \<or> (\<exists>g. res_fold (check_branch (positions bs)) bs () = Inl (GraphError g))"
    using check_branches_error [of _ bs "positions bs"] by blast
  then have "\<exists>g. validate_dependency_graph bs = Inl (GraphError g)"
    by (auto simp: validate_dependency_graph_def Let_def length_positions ensure_def)
  then show ?thesis using False graph_ok_checks [of bs] by (auto simp: graph_ok_def depends_on_def)
next
  case True
  then have "validate_dependency_graph bs =
      res_bind (res_fold (visit (Suc (length bs)) bs (positions bs)) [0..<length bs] ({}, {})) (\<lambda>_. Inr ())"
    using check_branches_ok [of "positions bs" bs "()" "()"]
    by (simp add: validate_dependency_graph_def Let_def length_positions)
  moreover have "acyclic (edges bs) \<longleftrightarrow> graph_ok bs"
    using True acyclic_edges_iff checks_resolved graph_ok_checks by blast
  ultimately show ?thesis
    using visit_all_result [OF checks_resolved, of bs] True
    by (auto simp: graph_ok_def depends_on_def res_bind_def split: sum.splits)
qed

text \<open>
  C22: The dependency check decides exactly the well-formed graphs. It accepts a list of
  branches if and only if their ids are distinct, every dependency names a branch of the
  list, none is repeated and the dependency relation has no cycle; it never panics and the
  search never runs out of its bound.
\<close>

theorem dependency_graph_decided:
  "(validate_dependency_graph bs = Inr () \<longleftrightarrow>
      distinct (map bid bs)
      \<and> (\<forall>b \<in> set bs. distinct (dependencies b) \<and> set (dependencies b) \<subseteq> bid ` set bs)
      \<and> acyclic {(bid b, d) |b d. b \<in> set bs \<and> d \<in> set (dependencies b)})
   \<and> validate_dependency_graph bs \<notin> {Inl OutOfFuel, Inl Panicked}"
  using graph_decision [of bs] by (auto simp: graph_ok_def depends_on_def)

definition sample_graph :: "branch list" where
  "sample_graph =
     [branch_workflow ''ship'' ''http://a/ship'' ''http://a/unship'' [''pay'', ''pack''] JNull,
      branch_workflow ''pay'' ''http://a/pay'' ''http://a/refund'' [] JNull,
      branch_workflow ''pack'' ''http://a/pack'' ''http://a/unpack'' [''pay''] JNull]"

theorem dependency_graph_decided_witness:
  "validate_dependency_graph sample_graph = Inr ()
   \<and> acyclic {(bid b, d) |b d. b \<in> set sample_graph \<and> d \<in> set (dependencies b)}"
proof -
  have pos: "positions sample_graph = [(''pack'', 2), (''pay'', 1), (''ship'', 0)]"
    by (simp add: positions_def sample_graph_def branch_constructor_defs)
  have deps: "dependencies (sample_graph ! 0) = [''pay'', ''pack'']"
    "dependencies (sample_graph ! 1) = []" "dependencies (sample_graph ! Suc 0) = []"
    "dependencies (sample_graph ! 2) = [''pay'']"
    "length sample_graph = 3"
    by (simp_all add: sample_graph_def branch_constructor_defs)
  have "validate_dependency_graph sample_graph = Inr ()"
    using deps check_branches_ok [of "positions sample_graph" sample_graph "()" "()"]
    by (simp add: validate_dependency_graph_def pos upt_rec numeral_3_eq_3 bt_get_def check_branch_ok
        numeral_2_eq_2)
      (simp add: sample_graph_def branch_constructor_defs)
  then show ?thesis using dependency_graph_decided [of sample_graph] by blast
qed

end
