(* ===== verification/Store.thy ===== *)
theory Store
  imports Transitions "HOL-Library.Product_Lexorder"
begin

text \<open>
  The trait \<^verbatim>\<open>TransactionStore\<close> (\<^verbatim>\<open>src/lib.rs\<close>, lines 549--680) as a record of
  operations, the abstract store it promises, the contract between the two as a locale, and
  two implementations: the in-memory store and the wrapper \<^verbatim>\<open>RecoveryFencedStore\<close> that
  routes the writes of a recovery run through the fenced operations. An operation that reads
  the clock takes the reading as its first argument.
\<close>

section \<open>The interface\<close>

record 's store_ops =
  insert_transaction :: "transaction \<Rightarrow> ('s, dtm_error, unit) act"
  get_transaction :: "string \<Rightarrow> ('s, dtm_error, transaction option) act"
  update_transaction :: "u64 \<Rightarrow> transaction \<Rightarrow> ('s, dtm_error, unit) act"
  update_transaction_fenced :: "u64 \<Rightarrow> transaction \<Rightarrow> recovery_lease_fence \<Rightarrow> ('s, dtm_error, unit) act"
  register_branch :: "u64 \<Rightarrow> string \<Rightarrow> branch \<Rightarrow> ('s, dtm_error, transaction) act"
  record_progress :: "u64 \<Rightarrow> string \<Rightarrow> workflow_progress \<Rightarrow> ('s, dtm_error, transaction) act"
  record_progress_fenced ::
    "u64 \<Rightarrow> string \<Rightarrow> workflow_progress \<Rightarrow> recovery_lease_fence \<Rightarrow> ('s, dtm_error, transaction) act"
  finish_workflow ::
    "u64 \<Rightarrow> string \<Rightarrow> transaction_status \<Rightarrow> string option \<Rightarrow> string option \<Rightarrow> ('s, dtm_error, transaction) act"
  finish_workflow_fenced ::
    "u64 \<Rightarrow> string \<Rightarrow> transaction_status \<Rightarrow> string option \<Rightarrow> string option \<Rightarrow> recovery_lease_fence
       \<Rightarrow> ('s, dtm_error, transaction) act"
  defer_recovery :: "u64 \<Rightarrow> string \<Rightarrow> workflow_recovery_delay \<Rightarrow> ('s, dtm_error, transaction) act"
  defer_recovery_fenced ::
    "u64 \<Rightarrow> string \<Rightarrow> workflow_recovery_delay \<Rightarrow> recovery_lease_fence \<Rightarrow> ('s, dtm_error, transaction) act"
  list_transactions :: "('s, dtm_error, transaction list) act"
  delete_if_unchanged :: "transaction \<Rightarrow> ('s, dtm_error, bool) act"
  get_kv :: "string \<Rightarrow> string \<Rightarrow> ('s, dtm_error, kv_entry option) act"
  list_kv :: "string option \<Rightarrow> string option \<Rightarrow> nat \<Rightarrow> nat \<Rightarrow> ('s, dtm_error, kv_entry list) act"
  create_kv :: "kv_entry \<Rightarrow> ('s, dtm_error, bool) act"
  update_kv :: "kv_entry \<Rightarrow> u64 \<Rightarrow> ('s, dtm_error, bool) act"
  delete_kv :: "string \<Rightarrow> string \<Rightarrow> ('s, dtm_error, bool) act"
  barrier :: "u64 \<Rightarrow> branch_barrier \<Rightarrow> ('s, dtm_error, barrier_decision) act"
  barrier_fenced :: "u64 \<Rightarrow> branch_barrier \<Rightarrow> recovery_lease_fence \<Rightarrow> ('s, dtm_error, barrier_decision) act"
  release_barrier :: "branch_barrier \<Rightarrow> ('s, dtm_error, unit) act"
  release_barrier_fenced :: "branch_barrier \<Rightarrow> recovery_lease_fence \<Rightarrow> ('s, dtm_error, unit) act"
  try_acquire_lease :: "u64 \<Rightarrow> string \<Rightarrow> string \<Rightarrow> u64 \<Rightarrow> ('s, dtm_error, bool) act"
  acquire_lease :: "u64 \<Rightarrow> string \<Rightarrow> string \<Rightarrow> u64 \<Rightarrow> ('s, dtm_error, recovery_lease_fence option) act"

text \<open>The default method \<^verbatim>\<open>acquire_recovery_lease\<close>: every lease has epoch 1.\<close>

definition default_acquire_lease ::
  "(u64 \<Rightarrow> string \<Rightarrow> string \<Rightarrow> u64 \<Rightarrow> ('s, dtm_error, bool) act)
    \<Rightarrow> u64 \<Rightarrow> string \<Rightarrow> string \<Rightarrow> u64 \<Rightarrow> ('s, dtm_error, recovery_lease_fence option) act" where
  "default_acquire_lease try_acquire now name owner ttl_millis =
     then_ok (try_acquire now name owner ttl_millis) (\<lambda>acquired.
       ok (if acquired then Some \<lparr>fence_name = name, fence_owner = owner, fence_epoch = 1\<rparr> else None))"

section \<open>The abstract store\<close>

record abs_store =
  a_txs :: "string \<Rightarrow> transaction option"
  a_claims :: "branch_barrier set"

definition spec_insert :: "transaction \<Rightarrow> (abs_store, dtm_error, unit) act" where
  "spec_insert tx a =
     (if a_txs a (gid tx) \<noteq> None then (Inl (TransactionAlreadyExists (gid tx)), a)
      else (Inr (), a\<lparr>a_txs := (a_txs a)(gid tx \<mapsto> tx)\<rparr>))"

definition spec_get :: "string \<Rightarrow> (abs_store, dtm_error, transaction option) act" where
  "spec_get g a = (Inr (a_txs a g), a)"

definition spec_update :: "u64 \<Rightarrow> transaction \<Rightarrow> (abs_store, dtm_error, unit) act" where
  "spec_update now tx a =
     (Inr (), a\<lparr>a_txs := (a_txs a)(gid tx \<mapsto> bump_transaction_revision now tx)\<rparr>)"

definition spec_mutate :: "string \<Rightarrow> (transaction \<Rightarrow> transaction res) \<Rightarrow> (abs_store, dtm_error, transaction) act" where
  "spec_mutate g f a =
     (case a_txs a g of None \<Rightarrow> (Inl (TransactionNotFound g), a)
      | Some tx \<Rightarrow> (case f tx of Inl e \<Rightarrow> (Inl e, a)
                    | Inr tx' \<Rightarrow> (Inr tx', a\<lparr>a_txs := (a_txs a)(g \<mapsto> tx')\<rparr>)))"

text \<open>
  \<open>same\<close> tells which barriers the store cannot tell apart: equality for most stores.
  Claims of a deleted transaction may go with it; those of others stay, and nothing changes
  unless the transaction is deleted.
\<close>

definition spec_delete ::
  "(branch_barrier \<Rightarrow> branch_barrier \<Rightarrow> bool) \<Rightarrow> transaction \<Rightarrow> abs_store \<Rightarrow> (dtm_error + bool) \<Rightarrow> abs_store \<Rightarrow> bool" where
  "spec_delete same tx a r a' \<longleftrightarrow>
     r = Inr (a_txs a (gid tx) = Some tx)
     \<and> (if a_txs a (gid tx) = Some tx
        then a_txs a' = (a_txs a)(gid tx := None) \<and> a_claims a' \<subseteq> a_claims a
          \<and> (\<forall>b \<in> a_claims a - a_claims a'. \<exists>c. same c b \<and> bb_gid c = gid tx)
        else a' = a)"

definition sibling :: "branch_barrier \<Rightarrow> string \<Rightarrow> branch_barrier" where
  "sibling b oper = b\<lparr>bb_op := oper\<rparr>"

definition spec_barrier ::
  "(branch_barrier \<Rightarrow> branch_barrier \<Rightarrow> bool) \<Rightarrow> branch_barrier \<Rightarrow> (abs_store, dtm_error, barrier_decision) act" where
  "spec_barrier same b a =
     (let claim = a\<lparr>a_claims := a_claims a \<union> {c. same b c}\<rparr> in
      if b \<in> a_claims a then (Inr SkipDuplicate, a)
      else if bb_op b = ''try'' \<and> sibling b ''cancel'' \<in> a_claims a then (Inr SkipCancelledTry, a)
      else if bb_op b = ''cancel'' \<and> sibling b ''try'' \<notin> a_claims a then (Inr SkipNullCompensation, claim)
      else (Inr Execute, claim))"

definition spec_release ::
  "(branch_barrier \<Rightarrow> branch_barrier \<Rightarrow> bool) \<Rightarrow> branch_barrier \<Rightarrow> (abs_store, dtm_error, unit) act" where
  "spec_release same b a = (Inr (), a\<lparr>a_claims := a_claims a - {c. same b c}\<rparr>)"

section \<open>The contract\<close>

text \<open>
  An operation implements its specification if it keeps the invariant and either has exactly
  the specified result and effect or fails without any effect; it does so faithfully if it
  never takes the second way out.
\<close>

definition implements ::
  "('s \<Rightarrow> bool) \<Rightarrow> ('s \<Rightarrow> 't) \<Rightarrow> ('s, 'e, 'a) act \<Rightarrow> ('t, 'e, 'a) act \<Rightarrow> bool" where
  "implements good view m spec \<longleftrightarrow>
     (\<forall>s. good s \<longrightarrow> (case m s of (r, s') \<Rightarrow>
        good s' \<and> ((r, view s') = spec (view s) \<or> (\<exists>e. r = Inl e) \<and> view s' = view s)))"

definition faithful ::
  "('s \<Rightarrow> bool) \<Rightarrow> ('s \<Rightarrow> 't) \<Rightarrow> ('s, 'e, 'a) act \<Rightarrow> ('t, 'e, 'a) act \<Rightarrow> bool" where
  "faithful good view m spec \<longleftrightarrow>
     (\<forall>s. good s \<longrightarrow> (case m s of (r, s') \<Rightarrow> good s' \<and> (r, view s') = spec (view s)))"

lemma faithful_implements: "faithful good view m spec \<Longrightarrow> implements good view m spec"
  unfolding faithful_def implements_def by fastforce

lemma implements_cases:
  assumes "implements good view m spec" and "good s" and "m s = (r, s')"
  obtains (spec) "good s'" "spec (view s) = (r, view s')" | (failed) e where "good s'" "r = Inl e" "view s' = view s"
  using assms unfolding implements_def by fastforce

lemma faithful_run:
  "faithful good view m spec \<Longrightarrow> good s \<Longrightarrow> m s = (r, s') \<Longrightarrow> good s' \<and> spec (view s) = (r, view s')"
  unfolding faithful_def by fastforce

locale transaction_store =
  fixes ops :: "'s store_ops"
    and good :: "'s \<Rightarrow> bool"
    and view :: "'s \<Rightarrow> abs_store"
    and same :: "branch_barrier \<Rightarrow> branch_barrier \<Rightarrow> bool"
  assumes own_gid: "good s \<Longrightarrow> a_txs (view s) g = Some tx \<Longrightarrow> gid tx = g"
    and same_refl: "same b b"
    and same_gid: "same b c \<Longrightarrow> bb_gid b = bb_gid c \<Longrightarrow>
      CHR '':'' \<notin> set (bb_op b) \<Longrightarrow> CHR '':'' \<notin> set (bb_op c) \<Longrightarrow> b = c"
    and get_law: "faithful good view (get_transaction ops g) (spec_get g)"
    and insert_law: "implements good view (insert_transaction ops tx) (spec_insert tx)"
    and update_law: "implements good view (update_transaction ops now tx) (spec_update now tx)"
    and update_fenced_law: "implements good view (update_transaction_fenced ops now tx f) (spec_update now tx)"
    and register_law: "implements good view (register_branch ops now g br)
      (spec_mutate g (\<lambda>tx. append_dynamic_branch now tx br))"
    and progress_law: "implements good view (record_progress ops now g p)
      (spec_mutate g (\<lambda>tx. append_workflow_progress now tx p))"
    and progress_fenced_law: "implements good view (record_progress_fenced ops now g p f)
      (spec_mutate g (\<lambda>tx. append_workflow_progress now tx p))"
    and finish_law: "implements good view (finish_workflow ops now g st rr rs)
      (spec_mutate g (\<lambda>tx. apply_workflow_completion now tx st rr rs))"
    and finish_fenced_law: "implements good view (finish_workflow_fenced ops now g st rr rs f)
      (spec_mutate g (\<lambda>tx. apply_workflow_completion now tx st rr rs))"
    and defer_law: "implements good view (defer_recovery ops now g d)
      (spec_mutate g (\<lambda>tx. defer_workflow_recovery now tx d))"
    and defer_fenced_law: "implements good view (defer_recovery_fenced ops now g d f)
      (spec_mutate g (\<lambda>tx. defer_workflow_recovery now tx d))"
    and barrier_law: "implements good view (barrier ops now b) (spec_barrier same b)"
    and barrier_fenced_law: "implements good view (barrier_fenced ops now b f) (spec_barrier same b)"
    and release_law: "implements good view (release_barrier ops b) (spec_release same b)"
    and release_fenced_law: "implements good view (release_barrier_fenced ops b f) (spec_release same b)"
    and list_law: "good s \<Longrightarrow> \<exists>listed. list_transactions ops s = (listed, s)
      \<and> (\<forall>txs. listed = Inr txs \<longrightarrow> set txs = ran (a_txs (view s)) \<and> distinct (map gid txs))"
    and delete_law: "good s \<Longrightarrow> delete_if_unchanged ops tx s = (r, s') \<Longrightarrow>
      good s' \<and> spec_delete same tx (view s) r (view s')"
    and get_kv_law: "good s \<Longrightarrow> get_kv ops cat key s = (kr, s') \<Longrightarrow> good s' \<and> view s' = view s"
    and list_kv_law: "good s \<Longrightarrow> list_kv ops cato keyo offset limit s = (ke, s') \<Longrightarrow> good s' \<and> view s' = view s"
    and create_kv_law: "good s \<Longrightarrow> create_kv ops e s = (kb, s') \<Longrightarrow> good s' \<and> view s' = view s"
    and update_kv_law: "good s \<Longrightarrow> update_kv ops e v s = (kb, s') \<Longrightarrow> good s' \<and> view s' = view s"
    and delete_kv_law: "good s \<Longrightarrow> delete_kv ops cat key s = (kb, s') \<Longrightarrow> good s' \<and> view s' = view s"
    and lease_law: "good s \<Longrightarrow> acquire_lease ops now name owner ttl s = (l, s') \<Longrightarrow>
      good s' \<and> view s' = view s"

text \<open>
  A reliable store never refuses an update of a transaction whose stored revision is the one
  the update was computed from, and never fails an insertion or a barrier.
\<close>

locale reliable_store = transaction_store +
  assumes update_reliable: "good s \<Longrightarrow> a_txs (view s) (gid tx) = Some old \<Longrightarrow> revision old = revision tx \<Longrightarrow>
      fst (update_transaction ops now tx s) = Inr ()"
    and insert_reliable: "faithful good view (insert_transaction ops tx) (spec_insert tx)"
    and barrier_reliable: "faithful good view (barrier ops now b) (spec_barrier same b)"
    and release_reliable: "faithful good view (release_barrier ops b) (spec_release same b)"

section \<open>Sequences of barrier calls\<close>

text \<open>
  Callers race for barriers; the store serialises them. A run is the sequence of decisions
  of a sequence of calls, the first component of a call being the clock at that moment.
\<close>

primrec barrier_run ::
  "'s store_ops \<Rightarrow> (u64 \<times> branch_barrier) list \<Rightarrow> 's \<Rightarrow> (dtm_error + barrier_decision) list" where
  "barrier_run ops [] s = []"
| "barrier_run ops (c # cs) s =
     (case barrier ops (fst c) (snd c) s of (r, s') \<Rightarrow> r # barrier_run ops cs s')"

lemma length_barrier_run [simp]: "length (barrier_run ops cs s) = length cs"
  by (induction cs arbitrary: s) (auto split: prod.split)

definition first_claim :: "dtm_error + barrier_decision \<Rightarrow> bool" where
  "first_claim r \<longleftrightarrow> r = Inr Execute \<or> r = Inr SkipNullCompensation"

lemma sibling_simps [simp]:
  "bb_gid (sibling b oper) = bb_gid b" "bb_branch_id (sibling b oper) = bb_branch_id b"
  "bb_op (sibling b oper) = oper"
  by (simp_all add: sibling_def)

lemma spec_barrier_effect:
  "spec_barrier same b a = (r, a') \<Longrightarrow>
   a_txs a' = a_txs a \<and> a_claims a' = a_claims a \<union> (if first_claim r then {c. same b c} else {})"
  by (auto simp: spec_barrier_def Let_def first_claim_def split: if_splits)

context reliable_store
begin

lemma barrier_step:
  assumes "good s" and "barrier ops now b s = (r, s')"
  shows "good s' \<and> spec_barrier same b (view s) = (r, view s')"
  using faithful_run [OF barrier_reliable assms] .

lemma claims_grow:
  "good s \<Longrightarrow> barrier ops now b s = (r, s') \<Longrightarrow> a_claims (view s) \<subseteq> a_claims (view s')"
  using barrier_step [of s now b r s'] spec_barrier_effect [of same b "view s" r "view s'"] by auto

lemma claimed_is_duplicate:
  "good s \<Longrightarrow> b \<in> a_claims (view s) \<Longrightarrow> j < length cs \<Longrightarrow> snd (cs ! j) = b \<Longrightarrow>
   barrier_run ops cs s ! j = Inr SkipDuplicate"
proof (induction cs arbitrary: s j)
  case (Cons c cs)
  obtain r s' where run: "barrier ops (fst c) (snd c) s = (r, s')" by fastforce
  note step = barrier_step [OF Cons.prems(1) run] and grow = claims_grow [OF Cons.prems(1) run]
  show ?case
  proof (cases j)
    case 0
    then show ?thesis using Cons.prems step run by (simp add: spec_barrier_def Let_def)
  next
    case (Suc i)
    then show ?thesis using Cons.IH [of s' i] Cons.prems step grow run by auto
  qed
qed simp

lemma cancelled_try_skipped:
  "good s \<Longrightarrow> sibling b ''cancel'' \<in> a_claims (view s) \<Longrightarrow> bb_op b = ''try'' \<Longrightarrow> j < length cs \<Longrightarrow>
   snd (cs ! j) = b \<Longrightarrow> barrier_run ops cs s ! j \<noteq> Inr Execute"
proof (induction cs arbitrary: s j)
  case (Cons c cs)
  obtain r s' where run: "barrier ops (fst c) (snd c) s = (r, s')" by fastforce
  note step = barrier_step [OF Cons.prems(1) run] and grow = claims_grow [OF Cons.prems(1) run]
  show ?case
  proof (cases j)
    case 0
    then show ?thesis using Cons.prems step run by (auto simp: spec_barrier_def Let_def split: if_splits)
  next
    case (Suc i)
    then show ?thesis using Cons.IH [of s' i] Cons.prems step grow run by auto
  qed
qed simp

lemma tried_cancel_not_null:
  "good s \<Longrightarrow> sibling b ''try'' \<in> a_claims (view s) \<Longrightarrow> bb_op b = ''cancel'' \<Longrightarrow> j < length cs \<Longrightarrow>
   snd (cs ! j) = b \<Longrightarrow> barrier_run ops cs s ! j \<noteq> Inr SkipNullCompensation"
proof (induction cs arbitrary: s j)
  case (Cons c cs)
  obtain r s' where run: "barrier ops (fst c) (snd c) s = (r, s')" by fastforce
  note step = barrier_step [OF Cons.prems(1) run] and grow = claims_grow [OF Cons.prems(1) run]
  show ?case
  proof (cases j)
    case 0
    then show ?thesis using Cons.prems step run by (auto simp: spec_barrier_def Let_def split: if_splits)
  next
    case (Suc i)
    then show ?thesis using Cons.IH [of s' i] Cons.prems step grow run by auto
  qed
qed simp

lemma run_after:
  "good s \<Longrightarrow> i < length cs \<Longrightarrow> first_claim (barrier_run ops cs s ! i) \<Longrightarrow>
   \<exists>s'. good s' \<and> snd (cs ! i) \<in> a_claims (view s') \<and> drop (Suc i) (barrier_run ops cs s) = barrier_run ops (drop (Suc i) cs) s'"
proof (induction cs arbitrary: s i)
  case (Cons c cs)
  obtain r s' where run: "barrier ops (fst c) (snd c) s = (r, s')" by fastforce
  note step = barrier_step [OF Cons.prems(1) run]
  show ?case
  proof (cases i)
    case 0
    then have "first_claim r" using Cons.prems(3) run by simp
    then have "snd c \<in> a_claims (view s')"
      using step same_refl spec_barrier_effect [of same "snd c" "view s" r "view s'"] by simp
    then show ?thesis using 0 step run by auto
  next
    case (Suc k)
    then show ?thesis using Cons.IH [of s' k] Cons.prems step run by auto
  qed
qed simp

lemma barrier_decisions:
  assumes "good s" and "i < j" and "j < length cs" and "first_claim (barrier_run ops cs s ! i)"
  shows "(snd (cs ! j) = snd (cs ! i) \<longrightarrow> barrier_run ops cs s ! j = Inr SkipDuplicate)
    \<and> (bb_op (snd (cs ! i)) = ''cancel'' \<and> snd (cs ! j) = sibling (snd (cs ! i)) ''try'' \<longrightarrow>
         barrier_run ops cs s ! j \<noteq> Inr Execute)
    \<and> (bb_op (snd (cs ! i)) = ''try'' \<and> snd (cs ! j) = sibling (snd (cs ! i)) ''cancel'' \<longrightarrow>
         barrier_run ops cs s ! j \<noteq> Inr SkipNullCompensation)"
proof -
  let ?b = "snd (cs ! i)" and ?k = "j - Suc i"
  obtain s' where s': "good s'" "?b \<in> a_claims (view s')"
    and rest: "drop (Suc i) (barrier_run ops cs s) = barrier_run ops (drop (Suc i) cs) s'"
    using run_after [OF assms(1) _ assms(4)] assms(2,3) by auto
  have k: "?k < length (drop (Suc i) cs)" "drop (Suc i) cs ! ?k = cs ! j"
    using assms(2,3) by auto
  have at: "barrier_run ops cs s ! j = barrier_run ops (drop (Suc i) cs) s' ! ?k"
    using assms(2,3) by (simp add: rest [symmetric])
  have sib: "sibling (sibling ?b oper) (bb_op ?b) = ?b" for oper by (simp add: sibling_def)
  show ?thesis
    using claimed_is_duplicate [OF s' k(1)] cancelled_try_skipped [OF s'(1) _ _ k(1), of "snd (cs ! j)"]
      tried_cancel_not_null [OF s'(1) _ _ k(1), of "snd (cs ! j)"] s'(2) sib [of "''try''"] sib [of "''cancel''"]
    unfolding at k(2) by (metis sibling_simps(3))
qed

end

section \<open>The in-memory store\<close>

record recovery_lease =
  lease_owner :: string
  expires_at_millis :: u64

record mem_store =
  txs :: "(string, transaction) btree_map"
  kv :: "(string \<times> string, kv_entry) btree_map"
  barriers :: "(string \<times> string \<times> string) set"
  leases :: "(string, recovery_lease) btree_map"

definition mem_new :: mem_store where
  "mem_new = \<lparr>txs = [], kv = [], barriers = {}, leases = []\<rparr>"

definition mem_insert_transaction :: "transaction \<Rightarrow> (mem_store, dtm_error, unit) act" where
  "mem_insert_transaction tx s =
     (if bt_get (txs s) (gid tx) \<noteq> None then (Inl (TransactionAlreadyExists (gid tx)), s)
      else (Inr (), s\<lparr>txs := bt_insert (gid tx) tx (txs s)\<rparr>))"

definition mem_get_transaction :: "string \<Rightarrow> (mem_store, dtm_error, transaction option) act" where
  "mem_get_transaction g s = (Inr (bt_get (txs s) g), s)"

definition mem_update_transaction :: "u64 \<Rightarrow> transaction \<Rightarrow> (mem_store, dtm_error, unit) act" where
  "mem_update_transaction now tx s =
     (let tx' = bump_transaction_revision now tx in (Inr (), s\<lparr>txs := bt_insert (gid tx') tx' (txs s)\<rparr>))"

definition mem_mutate :: "string \<Rightarrow> (transaction \<Rightarrow> transaction res) \<Rightarrow> (mem_store, dtm_error, transaction) act" where
  "mem_mutate g f s =
     (case bt_get (txs s) g of None \<Rightarrow> (Inl (TransactionNotFound g), s)
      | Some tx \<Rightarrow> (case f tx of Inl e \<Rightarrow> (Inl e, s)
                    | Inr tx' \<Rightarrow> (Inr tx', s\<lparr>txs := bt_insert g tx' (txs s)\<rparr>)))"

definition mem_register_branch :: "u64 \<Rightarrow> string \<Rightarrow> branch \<Rightarrow> (mem_store, dtm_error, transaction) act" where
  "mem_register_branch now g b = mem_mutate g (\<lambda>tx. append_dynamic_branch now tx b)"

definition mem_record_progress :: "u64 \<Rightarrow> string \<Rightarrow> workflow_progress \<Rightarrow> (mem_store, dtm_error, transaction) act" where
  "mem_record_progress now g p = mem_mutate g (\<lambda>tx. append_workflow_progress now tx p)"

definition mem_finish_workflow ::
  "u64 \<Rightarrow> string \<Rightarrow> transaction_status \<Rightarrow> string option \<Rightarrow> string option \<Rightarrow> (mem_store, dtm_error, transaction) act" where
  "mem_finish_workflow now g st rr rs = mem_mutate g (\<lambda>tx. apply_workflow_completion now tx st rr rs)"

definition mem_defer_recovery ::
  "u64 \<Rightarrow> string \<Rightarrow> workflow_recovery_delay \<Rightarrow> (mem_store, dtm_error, transaction) act" where
  "mem_defer_recovery now g d = mem_mutate g (\<lambda>tx. defer_workflow_recovery now tx d)"

definition mem_list_transactions :: "(mem_store, dtm_error, transaction list) act" where
  "mem_list_transactions s = (Inr (bt_values (txs s)), s)"

definition mem_delete_if_unchanged :: "transaction \<Rightarrow> (mem_store, dtm_error, bool) act" where
  "mem_delete_if_unchanged tx s =
     (if bt_get (txs s) (gid tx) \<noteq> Some tx then (Inr False, s)
      else (Inr True, s\<lparr>txs := bt_remove (gid tx) (txs s),
                        barriers := {(g, b, oper) \<in> barriers s. g \<noteq> gid tx}\<rparr>))"

definition mem_get_kv :: "string \<Rightarrow> string \<Rightarrow> (mem_store, dtm_error, kv_entry option) act" where
  "mem_get_kv cat k s = (Inr (bt_get (kv s) (cat, k)), s)"

definition kv_matches :: "string option \<Rightarrow> string option \<Rightarrow> kv_entry \<Rightarrow> bool" where
  "kv_matches cat k e \<longleftrightarrow> opt_all (\<lambda>c. kv_category e = c) cat \<and> opt_all (\<lambda>c. kv_key e = c) k"

definition mem_list_kv :: "string option \<Rightarrow> string option \<Rightarrow> nat \<Rightarrow> nat \<Rightarrow> (mem_store, dtm_error, kv_entry list) act" where
  "mem_list_kv cat k offset limit s =
     (Inr (take limit (drop offset (filter (kv_matches cat k) (bt_values (kv s))))), s)"

definition mem_create_kv :: "kv_entry \<Rightarrow> (mem_store, dtm_error, bool) act" where
  "mem_create_kv e s =
     (let entry_key = (kv_category e, kv_key e) in
      if bt_get (kv s) entry_key \<noteq> None then (Inr False, s)
      else (Inr True, s\<lparr>kv := bt_insert entry_key e (kv s)\<rparr>))"

definition mem_update_kv :: "kv_entry \<Rightarrow> u64 \<Rightarrow> (mem_store, dtm_error, bool) act" where
  "mem_update_kv e expected_version s =
     (let entry_key = (kv_category e, kv_key e) in
      case bt_get (kv s) entry_key of None \<Rightarrow> (Inr False, s)
      | Some existing \<Rightarrow>
          if kv_version existing \<noteq> expected_version \<or> kv_version e \<noteq> sat_add expected_version 1
          then (Inr False, s)
          else (Inr True, s\<lparr>kv := bt_insert entry_key e (kv s)\<rparr>))"

definition mem_delete_kv :: "string \<Rightarrow> string \<Rightarrow> (mem_store, dtm_error, bool) act" where
  "mem_delete_kv cat k s =
     (Inr (bt_get (kv s) (cat, k) \<noteq> None), s\<lparr>kv := bt_remove (cat, k) (kv s)\<rparr>)"

definition mem_barrier :: "branch_barrier \<Rightarrow> (mem_store, dtm_error, barrier_decision) act" where
  "mem_barrier b s =
     (let key = (bb_gid b, bb_branch_id b, bb_op b);
          cancel_key = (bb_gid b, bb_branch_id b, ''cancel'');
          try_key = (bb_gid b, bb_branch_id b, ''try'') in
      if key \<in> barriers s then (Inr SkipDuplicate, s)
      else if bb_op b = ''try'' \<and> cancel_key \<in> barriers s then (Inr SkipCancelledTry, s)
      else if bb_op b = ''cancel'' \<and> try_key \<notin> barriers s
        then (Inr SkipNullCompensation, s\<lparr>barriers := insert cancel_key (barriers s)\<rparr>)
      else (Inr Execute, s\<lparr>barriers := insert key (barriers s)\<rparr>))"

definition mem_release_barrier :: "branch_barrier \<Rightarrow> (mem_store, dtm_error, unit) act" where
  "mem_release_barrier b s =
     (Inr (), s\<lparr>barriers := barriers s - {(bb_gid b, bb_branch_id b, bb_op b)}\<rparr>)"

definition mem_try_acquire_lease :: "u64 \<Rightarrow> string \<Rightarrow> string \<Rightarrow> u64 \<Rightarrow> (mem_store, dtm_error, bool) act" where
  "mem_try_acquire_lease now name owner ttl_millis s =
     (let held = (case bt_get (leases s) name of None \<Rightarrow> False
                  | Some l \<Rightarrow> lease_owner l \<noteq> owner \<and> now < expires_at_millis l) in
      if held then (Inr False, s)
      else (Inr True, s\<lparr>leases := bt_insert name
              \<lparr>lease_owner = owner, expires_at_millis = sat_add now ttl_millis\<rparr> (leases s)\<rparr>))"

definition mem_ops :: "mem_store store_ops" where
  "mem_ops = \<lparr>
     insert_transaction = mem_insert_transaction,
     get_transaction = mem_get_transaction,
     update_transaction = mem_update_transaction,
     update_transaction_fenced = (\<lambda>now tx f. mem_update_transaction now tx),
     register_branch = mem_register_branch,
     record_progress = mem_record_progress,
     record_progress_fenced = (\<lambda>now g p f. mem_record_progress now g p),
     finish_workflow = mem_finish_workflow,
     finish_workflow_fenced = (\<lambda>now g st rr rs f. mem_finish_workflow now g st rr rs),
     defer_recovery = mem_defer_recovery,
     defer_recovery_fenced = (\<lambda>now g d f. mem_defer_recovery now g d),
     list_transactions = mem_list_transactions,
     delete_if_unchanged = mem_delete_if_unchanged,
     get_kv = mem_get_kv,
     list_kv = mem_list_kv,
     create_kv = mem_create_kv,
     update_kv = mem_update_kv,
     delete_kv = mem_delete_kv,
     barrier = (\<lambda>now. mem_barrier),
     barrier_fenced = (\<lambda>now b f. mem_barrier b),
     release_barrier = mem_release_barrier,
     release_barrier_fenced = (\<lambda>b f. mem_release_barrier b),
     try_acquire_lease = mem_try_acquire_lease,
     acquire_lease = default_acquire_lease mem_try_acquire_lease\<rparr>"

section \<open>The fenced store of a recovery run\<close>

definition fenced_ops :: "'s store_ops \<Rightarrow> recovery_lease_fence \<Rightarrow> 's store_ops" where
  "fenced_ops ops f = ops\<lparr>
     update_transaction := (\<lambda>now tx. update_transaction_fenced ops now tx f),
     update_transaction_fenced := (\<lambda>now tx _. update_transaction_fenced ops now tx f),
     record_progress := (\<lambda>now g p. record_progress_fenced ops now g p f),
     record_progress_fenced := (\<lambda>now g p _. record_progress_fenced ops now g p f),
     finish_workflow := (\<lambda>now g st rr rs. finish_workflow_fenced ops now g st rr rs f),
     finish_workflow_fenced := (\<lambda>now g st rr rs _. finish_workflow_fenced ops now g st rr rs f),
     defer_recovery := (\<lambda>now g d. defer_recovery_fenced ops now g d f),
     defer_recovery_fenced := (\<lambda>now g d _. defer_recovery_fenced ops now g d f),
     barrier := (\<lambda>now b. barrier_fenced ops now b f),
     barrier_fenced := (\<lambda>now b _. barrier_fenced ops now b f),
     release_barrier := (\<lambda>b. release_barrier_fenced ops b f),
     release_barrier_fenced := (\<lambda>b _. release_barrier_fenced ops b f)\<rparr>"

section \<open>The in-memory store keeps the contract\<close>

definition mem_view :: "mem_store \<Rightarrow> abs_store" where
  "mem_view s = \<lparr>a_txs = bt_get (txs s),
     a_claims = {b. (bb_gid b, bb_branch_id b, bb_op b) \<in> barriers s}\<rparr>"

definition mem_good :: "mem_store \<Rightarrow> bool" where
  "mem_good s \<longleftrightarrow> bt_wf (txs s) \<and> bt_wf (kv s) \<and> (\<forall>g tx. bt_get (txs s) g = Some tx \<longrightarrow> gid tx = g)"

lemma mem_new_good: "mem_good mem_new"
  by (simp add: mem_good_def mem_new_def)

lemma barrier_ext: "bb_gid b = bb_gid c \<Longrightarrow> bb_branch_id b = bb_branch_id c \<Longrightarrow> bb_op b = bb_op c \<Longrightarrow> b = c"
  for b c :: branch_barrier by simp

lemma faithfulI:
  assumes "\<And>s r s'. good s \<Longrightarrow> m s = (r, s') \<Longrightarrow> good s' \<and> spec (view s) = (r, view s')"
  shows "faithful good view m spec"
  using assms unfolding faithful_def by (auto split: prod.split)

lemma transitions_keep_gid:
  "append_dynamic_branch now tx b = Inr tx' \<Longrightarrow> gid tx' = gid tx"
  "append_workflow_progress now tx p = Inr tx' \<Longrightarrow> gid tx' = gid tx"
  "apply_workflow_completion now tx st rr rs = Inr tx' \<Longrightarrow> gid tx' = gid tx"
  "defer_workflow_recovery now tx d = Inr tx' \<Longrightarrow> gid tx' = gid tx"
proof -
  show "append_dynamic_branch now tx b = Inr tx' \<Longrightarrow> gid tx' = gid tx"
    by (erule append_dynamic_branch_cases) simp_all
  show "append_workflow_progress now tx p = Inr tx' \<Longrightarrow> gid tx' = gid tx"
    by (simp add: append_workflow_progress_frame)
  show "apply_workflow_completion now tx st rr rs = Inr tx' \<Longrightarrow> gid tx' = gid tx"
    by (simp add: completion_frame)
  show "defer_workflow_recovery now tx d = Inr tx' \<Longrightarrow> gid tx' = gid tx"
    by (auto simp: defer_workflow_recovery_def res_bind_eq_Inr Let_def)
qed

lemma mem_insert_faithful: "faithful mem_good mem_view (mem_insert_transaction tx) (spec_insert tx)"
  by (rule faithfulI)
    (auto simp: mem_insert_transaction_def spec_insert_def mem_view_def mem_good_def split: if_splits)

lemma mem_get_faithful: "faithful mem_good mem_view (mem_get_transaction g) (spec_get g)"
  by (rule faithfulI) (auto simp: mem_get_transaction_def spec_get_def mem_view_def)

lemma mem_update_faithful: "faithful mem_good mem_view (mem_update_transaction now tx) (spec_update now tx)"
  by (rule faithfulI)
    (auto simp: mem_update_transaction_def spec_update_def mem_view_def mem_good_def Let_def)

lemma mem_mutate_faithful:
  assumes "\<And>tx tx'. f tx = Inr tx' \<Longrightarrow> gid tx' = gid tx"
  shows "faithful mem_good mem_view (mem_mutate g f) (spec_mutate g f)"
  by (rule faithfulI)
    (auto simp: mem_mutate_def spec_mutate_def mem_view_def mem_good_def assms
      split: option.splits sum.splits if_splits)

lemma mem_barrier_faithful: "faithful mem_good mem_view (mem_barrier b) (spec_barrier (=) b)"
  by (rule faithfulI)
    (auto simp: mem_barrier_def spec_barrier_def mem_view_def mem_good_def Let_def
      split: if_splits intro!: barrier_ext)

lemma mem_release_faithful: "faithful mem_good mem_view (mem_release_barrier b) (spec_release (=) b)"
  by (rule faithfulI)
    (auto simp: mem_release_barrier_def spec_release_def mem_view_def mem_good_def intro!: barrier_ext)

lemma ran_bt_get: "bt_wf m \<Longrightarrow> ran (bt_get m) = set (bt_values m)"
  by (auto simp: ran_def bt_values_mem)

lemma mem_list_law:
  assumes "mem_good s"
  shows "\<exists>listed. mem_list_transactions s = (listed, s)
    \<and> (\<forall>txs. listed = Inr txs \<longrightarrow> set txs = ran (a_txs (mem_view s)) \<and> distinct (map gid txs))"
proof -
  have wf: "bt_wf (txs s)" using assms by (simp add: mem_good_def)
  then have "map gid (bt_values (txs s)) = map fst (txs s)"
    using assms by (auto simp: bt_values_def mem_good_def bt_get_eq_Some)
  then show ?thesis
    using wf bt_wf_distinct [OF wf] by (simp add: mem_list_transactions_def mem_view_def ran_bt_get)
qed

lemma mem_delete_law:
  assumes "mem_good s" and "mem_delete_if_unchanged tx s = (r, s')"
  shows "mem_good s' \<and> spec_delete (=) tx (mem_view s) r (mem_view s')"
proof (cases "bt_get (txs s) (gid tx) = Some tx")
  case True
  with assms(2) have r: "r = Inr True" and s': "txs s' = bt_remove (gid tx) (txs s)" "kv s' = kv s"
      "barriers s' = {(g, b, oper) \<in> barriers s. g \<noteq> gid tx}"
    unfolding mem_delete_if_unchanged_def by force+
  have "mem_good s'" using assms(1) unfolding mem_good_def s' by simp
  moreover have "a_txs (mem_view s') = (a_txs (mem_view s))(gid tx := None)"
    by (rule ext) (simp add: mem_view_def s')
  ultimately show ?thesis using True r by (auto simp: spec_delete_def mem_view_def s')
next
  case False
  with assms(2) have "r = Inr False" "s' = s" by (simp_all add: mem_delete_if_unchanged_def)
  with False assms(1) show ?thesis by (simp add: spec_delete_def mem_view_def)
qed

lemma mem_lease_law:
  "mem_good s \<Longrightarrow> default_acquire_lease mem_try_acquire_lease now name owner ttl s = (l, s') \<Longrightarrow>
   mem_good s' \<and> mem_view s' = mem_view s"
  by (auto simp: default_acquire_lease_def act_simps mem_try_acquire_lease_def Let_def mem_good_def
      mem_view_def split: if_splits)

lemma mem_kv_laws:
  "mem_good s \<Longrightarrow> mem_get_kv cat key s = (kr, s') \<Longrightarrow> mem_good s' \<and> mem_view s' = mem_view s"
  "mem_good s \<Longrightarrow> mem_list_kv cato keyo offset limit s = (ke, s') \<Longrightarrow> mem_good s' \<and> mem_view s' = mem_view s"
  "mem_good s \<Longrightarrow> mem_create_kv e s = (kb, s') \<Longrightarrow> mem_good s' \<and> mem_view s' = mem_view s"
  "mem_good s \<Longrightarrow> mem_update_kv e v s = (kb, s') \<Longrightarrow> mem_good s' \<and> mem_view s' = mem_view s"
  "mem_good s \<Longrightarrow> mem_delete_kv cat key s = (kb, s') \<Longrightarrow> mem_good s' \<and> mem_view s' = mem_view s"
  by (auto simp: mem_get_kv_def mem_list_kv_def mem_create_kv_def mem_update_kv_def mem_delete_kv_def mem_good_def
      mem_view_def Let_def split: if_splits option.splits)

lemma mem_own_gid: "mem_good s \<Longrightarrow> a_txs (mem_view s) g = Some tx \<Longrightarrow> gid tx = g"
  by (simp add: mem_good_def mem_view_def)

lemma mem_ops_simps [simp]:
  "insert_transaction mem_ops = mem_insert_transaction"
  "get_transaction mem_ops = mem_get_transaction"
  "update_transaction mem_ops = mem_update_transaction"
  "update_transaction_fenced mem_ops now tx f = mem_update_transaction now tx"
  "register_branch mem_ops = mem_register_branch"
  "record_progress mem_ops = mem_record_progress"
  "record_progress_fenced mem_ops now g p f = mem_record_progress now g p"
  "finish_workflow mem_ops = mem_finish_workflow"
  "finish_workflow_fenced mem_ops now g st rr rs f = mem_finish_workflow now g st rr rs"
  "defer_recovery mem_ops = mem_defer_recovery"
  "defer_recovery_fenced mem_ops now g d f = mem_defer_recovery now g d"
  "list_transactions mem_ops = mem_list_transactions"
  "delete_if_unchanged mem_ops = mem_delete_if_unchanged"
  "barrier mem_ops now = mem_barrier"
  "barrier_fenced mem_ops now b f = mem_barrier b"
  "release_barrier mem_ops = mem_release_barrier"
  "release_barrier_fenced mem_ops b f = mem_release_barrier b"
  "get_kv mem_ops = mem_get_kv"
  "list_kv mem_ops = mem_list_kv"
  "create_kv mem_ops = mem_create_kv"
  "update_kv mem_ops = mem_update_kv"
  "delete_kv mem_ops = mem_delete_kv"
  "acquire_lease mem_ops = default_acquire_lease mem_try_acquire_lease"
  by (simp_all add: mem_ops_def)

lemma mem_mutations_faithful:
  "faithful mem_good mem_view (mem_register_branch now g br) (spec_mutate g (\<lambda>tx. append_dynamic_branch now tx br))"
  "faithful mem_good mem_view (mem_record_progress now g p) (spec_mutate g (\<lambda>tx. append_workflow_progress now tx p))"
  "faithful mem_good mem_view (mem_finish_workflow now g st rr rs)
     (spec_mutate g (\<lambda>tx. apply_workflow_completion now tx st rr rs))"
  "faithful mem_good mem_view (mem_defer_recovery now g d) (spec_mutate g (\<lambda>tx. defer_workflow_recovery now tx d))"
  unfolding mem_register_branch_def mem_record_progress_def mem_finish_workflow_def mem_defer_recovery_def
  by (rule mem_mutate_faithful, erule transitions_keep_gid)+

lemmas mem_faithful = mem_insert_faithful mem_get_faithful mem_update_faithful mem_barrier_faithful
  mem_release_faithful mem_mutations_faithful

interpretation mem: reliable_store mem_ops mem_good mem_view "(=)"
proof unfold_locales
  show "fst (update_transaction mem_ops now tx s) = Inr ()" for now tx s
    by (simp add: mem_update_transaction_def Let_def)
qed (unfold mem_ops_simps, (assumption | rule refl mem_faithful mem_faithful [THEN faithful_implements]
  mem_list_law mem_delete_law mem_lease_law mem_own_gid mem_kv_laws)+)

lemma fenced_ops_simps [simp]:
  "insert_transaction (fenced_ops ops f) = insert_transaction ops"
  "get_transaction (fenced_ops ops f) = get_transaction ops"
  "update_transaction (fenced_ops ops f) now tx = update_transaction_fenced ops now tx f"
  "update_transaction_fenced (fenced_ops ops f) now tx f' = update_transaction_fenced ops now tx f"
  "register_branch (fenced_ops ops f) = register_branch ops"
  "record_progress (fenced_ops ops f) now g p = record_progress_fenced ops now g p f"
  "record_progress_fenced (fenced_ops ops f) now g p f' = record_progress_fenced ops now g p f"
  "finish_workflow (fenced_ops ops f) now g st rr rs = finish_workflow_fenced ops now g st rr rs f"
  "finish_workflow_fenced (fenced_ops ops f) now g st rr rs f' = finish_workflow_fenced ops now g st rr rs f"
  "defer_recovery (fenced_ops ops f) now g d = defer_recovery_fenced ops now g d f"
  "defer_recovery_fenced (fenced_ops ops f) now g d f' = defer_recovery_fenced ops now g d f"
  "list_transactions (fenced_ops ops f) = list_transactions ops"
  "delete_if_unchanged (fenced_ops ops f) = delete_if_unchanged ops"
  "barrier (fenced_ops ops f) now b = barrier_fenced ops now b f"
  "barrier_fenced (fenced_ops ops f) now b f' = barrier_fenced ops now b f"
  "release_barrier (fenced_ops ops f) b = release_barrier_fenced ops b f"
  "release_barrier_fenced (fenced_ops ops f) b f' = release_barrier_fenced ops b f"
  "acquire_lease (fenced_ops ops f) = acquire_lease ops"
  "get_kv (fenced_ops ops f) = get_kv ops"
  "list_kv (fenced_ops ops f) = list_kv ops"
  "create_kv (fenced_ops ops f) = create_kv ops"
  "update_kv (fenced_ops ops f) = update_kv ops"
  "delete_kv (fenced_ops ops f) = delete_kv ops"
  by (simp_all add: fenced_ops_def)

context transaction_store
begin

lemma fenced_store: "transaction_store (fenced_ops ops f) good view same"
  by unfold_locales (unfold fenced_ops_simps, (assumption | rule same_refl own_gid get_law insert_law
    update_fenced_law register_law progress_fenced_law finish_fenced_law defer_fenced_law
    barrier_fenced_law release_fenced_law list_law delete_law lease_law same_gid
    get_kv_law list_kv_law create_kv_law update_kv_law delete_kv_law)+)

end

interpretation mem_fenced: transaction_store "fenced_ops mem_ops f" mem_good mem_view "(=)" for f
  by (rule mem.fenced_store)

section \<open>Properties of the in-memory store\<close>

text \<open>
  C4: The branch barrier lets an operation run at most once. In any sequence of barrier calls
  against the in-memory store, once a call of a barrier has been decided \<open>Execute\<close> (or recorded
  as a null compensation), every later call of the same barrier is a duplicate; once a cancel
  has been decided, no later try of that branch is executed; and once a try has been
  executed, no later cancel of that branch is taken for a null compensation.
\<close>

theorem barrier_at_most_once:
  assumes "mem_good s" and "i < j" and "j < length cs"
    and "barrier_run mem_ops cs s ! i \<in> {Inr Execute, Inr SkipNullCompensation}"
  shows "(snd (cs ! j) = snd (cs ! i) \<longrightarrow> barrier_run mem_ops cs s ! j = Inr SkipDuplicate)
    \<and> (bb_op (snd (cs ! i)) = ''cancel'' \<and> snd (cs ! j) = (snd (cs ! i))\<lparr>bb_op := ''try''\<rparr> \<longrightarrow>
         barrier_run mem_ops cs s ! j \<noteq> Inr Execute)
    \<and> (bb_op (snd (cs ! i)) = ''try'' \<and> snd (cs ! j) = (snd (cs ! i))\<lparr>bb_op := ''cancel''\<rparr> \<longrightarrow>
         barrier_run mem_ops cs s ! j \<noteq> Inr SkipNullCompensation)"
  using mem.barrier_decisions [OF assms(1-3)] assms(4) by (simp add: first_claim_def sibling_def)

theorem barrier_at_most_once_witness:
  "barrier_run mem_ops [(1, barrier_new ''g'' ''b'' ''cancel''), (2, barrier_new ''g'' ''b'' ''try'')] mem_new ! 0
     = Inr SkipNullCompensation
   \<and> barrier_run mem_ops [(1, barrier_new ''g'' ''b'' ''cancel''), (2, barrier_new ''g'' ''b'' ''try'')] mem_new ! 1
     \<noteq> Inr Execute"
proof -
  let ?cs = "[(1, barrier_new ''g'' ''b'' ''cancel''), (2, barrier_new ''g'' ''b'' ''try'')]"
  have "barrier_run mem_ops ?cs mem_new ! 0 = Inr SkipNullCompensation"
    by (simp add: mem_barrier_def barrier_new_def mem_new_def Let_def)
  then show ?thesis
    using barrier_at_most_once [OF mem_new_good, of 0 1 ?cs] by (simp add: barrier_new_def)
qed

text \<open>
  A recovery lease is exclusive. Once an owner holds the lease of a name, no other owner
  acquires it before its expiry; the holder itself can always renew, and from the expiry on
  anybody can take it over.
\<close>

theorem lease_exclusive:
  assumes "mem_try_acquire_lease now name owner ttl s = (Inr True, s')"
  shows "(\<forall>now2 other ttl2. other \<noteq> owner \<and> now2 < sat_add now ttl \<longrightarrow>
            mem_try_acquire_lease now2 name other ttl2 s' = (Inr False, s'))
    \<and> (\<forall>now2 ttl2. fst (mem_try_acquire_lease now2 name owner ttl2 s') = Inr True)
    \<and> (\<forall>now2 other ttl2. sat_add now ttl \<le> now2 \<longrightarrow>
            fst (mem_try_acquire_lease now2 name other ttl2 s') = Inr True)"
proof -
  from assms have lease: "bt_get (leases s') name = Some \<lparr>lease_owner = owner, expires_at_millis = sat_add now ttl\<rparr>"
    by (auto simp: mem_try_acquire_lease_def Let_def split: if_splits)
  show ?thesis by (auto simp: mem_try_acquire_lease_def lease Let_def)
qed

theorem lease_exclusive_witness:
  "\<exists>s'. mem_try_acquire_lease 100 ''r'' ''a'' 50 mem_new = (Inr True, s')
     \<and> mem_try_acquire_lease 149 ''r'' ''b'' 50 s' = (Inr False, s')
     \<and> fst (mem_try_acquire_lease 150 ''r'' ''b'' 50 s') = Inr True"
proof -
  have "\<exists>s'. mem_try_acquire_lease 100 ''r'' ''a'' 50 mem_new = (Inr True, s')"
    by (simp add: mem_try_acquire_lease_def mem_new_def Let_def)
  then obtain s' where run: "mem_try_acquire_lease 100 ''r'' ''a'' 50 mem_new = (Inr True, s')" ..
  have "sat_add 100 50 = (150 :: u64)" by (simp add: sat_add_def)
  then show ?thesis using run lease_exclusive [OF run] by simp
qed

end
