(* ===== verification/Coordinator.thy ===== *)
theory Coordinator
  imports Dependencies Store
begin

text \<open>
  The coordinator \<^verbatim>\<open>Dtm\<close> (\<^verbatim>\<open>src/lib.rs\<close>): its environment, and the operations every
  handler is built from. The record \<open>dtm\<close> holds what the struct holds (store, invoker,
  options) and the behaviour of what is outside the program, each as a function of the
  number of the step at which it is consulted: the clock, the answers of the branch services,
  what other coordinators do to the shared store just before a store operation of this one,
  a fault of the connection to the store, and which of several concurrent branch calls finishes next.
  The world is the store, the step counter and the history of calls to the outside.
\<close>

section \<open>Environment and world\<close>

text \<open>
  An \<open>Invoked\<close> event records the URL and whether the call succeeded; the gid and the branch id are
  kept beside it to state properties, the service does not see them.
\<close>

datatype event =
    Invoked string string string bool
  | Alerted branch_failure_alert
  | Queried workflow_callback_request

datatype fault = NoFault | LostRequest | LostReply

record 's dtm =
  dtm_store :: "'s store_ops"
  dtm_options_of :: dtm_options
  dtm_libs :: libs
  invoke_ok :: "nat \<Rightarrow> string \<Rightarrow> json \<Rightarrow> transaction_options \<Rightarrow> bool"
  query_callback :: "nat \<Rightarrow> workflow_callback_request \<Rightarrow> transaction_options \<Rightarrow> workflow_callback_result option"
  clock :: "nat \<Rightarrow> u64"
  interfere :: "nat \<Rightarrow> 's \<Rightarrow> 's"
  faults :: "nat \<Rightarrow> fault"
  pick :: "nat \<Rightarrow> nat"

record 's world =
  w_store :: 's
  w_step :: nat
  w_events :: "event list"

type_synonym ('s, 'a) run = "('s world, dtm_error, 'a) act"

definition current_millis :: "'s dtm \<Rightarrow> ('s, u64) run" where
  "current_millis D w = (Inr (clock D (w_step w)), w\<lparr>w_step := Suc (w_step w)\<rparr>)"

definition emit :: "event \<Rightarrow> ('s, unit) run" where
  "emit e w = (Inr (), w\<lparr>w_events := w_events w @ [e], w_step := Suc (w_step w)\<rparr>)"

text \<open>
  One operation on the store: others act first, then the operation takes effect at the
  current time, unless the request is lost; if the reply is lost the effect stays.
\<close>

definition store_op :: "'s dtm \<Rightarrow> (u64 \<Rightarrow> ('s, dtm_error, 'a) act) \<Rightarrow> ('s, 'a) run" where
  "store_op D m w =
     (let n = w_step w; s = interfere D n (w_store w); out = m (clock D n) s in
      case faults D n of
        NoFault \<Rightarrow> (fst out, w\<lparr>w_store := snd out, w_step := Suc n\<rparr>)
      | LostRequest \<Rightarrow> (Inl (StoreError StoreFault), w\<lparr>w_store := s, w_step := Suc n\<rparr>)
      | LostReply \<Rightarrow> (Inl (StoreError StoreFault), w\<lparr>w_store := snd out, w_step := Suc n\<rparr>))"

section \<open>Operations shared by the handlers\<close>

definition fetch :: "'s dtm \<Rightarrow> string \<Rightarrow> ('s, transaction) run" where
  "fetch D g =
     then_ok (store_op D (\<lambda>_. get_transaction (dtm_store D) g)) (\<lambda>found.
       lift_res (ok_or found (TransactionNotFound g)))"

definition persist_transaction :: "'s dtm \<Rightarrow> transaction \<Rightarrow> ('s, transaction) run" where
  "persist_transaction D tx =
     then_ok (store_op D (\<lambda>now. update_transaction (dtm_store D) now tx)) (\<lambda>_.
       ok (tx\<lparr>revision := sat_add (revision tx) 1\<rparr>))"

definition claim :: "'s dtm \<Rightarrow> branch_barrier \<Rightarrow> ('s, barrier_decision) run" where
  "claim D b = store_op D (\<lambda>now. barrier (dtm_store D) now b)"

definition release :: "'s dtm \<Rightarrow> branch_barrier \<Rightarrow> ('s, unit) run" where
  "release D b = store_op D (\<lambda>_. release_barrier (dtm_store D) b)"

definition transaction_of_kind :: "'s dtm \<Rightarrow> string \<Rightarrow> transaction_kind \<Rightarrow> ('s, transaction) run" where
  "transaction_of_kind D g k =
     then_ok (fetch D g) (\<lambda>tx. then_ok (lift_res (ensure_kind tx k)) (\<lambda>_. ok tx))"

definition max_attempts :: "'s dtm \<Rightarrow> transaction_options \<Rightarrow> u32" where
  "max_attempts D opts =
     (case retry_limit opts of Some retries \<Rightarrow> sat_add retries 1
      | None \<Rightarrow> opt_max_attempts (dtm_options_of D))"

definition retry_backoff :: "'s dtm \<Rightarrow> transaction_options \<Rightarrow> u64" where
  "retry_backoff D opts =
     (case retry_interval_millis opts of Some v \<Rightarrow> v | None \<Rightarrow> retry_backoff_millis (dtm_options_of D))"

definition notify_branch_failure ::
  "'s dtm \<Rightarrow> string \<Rightarrow> transaction_status \<Rightarrow> branch \<Rightarrow> string \<Rightarrow> ('s, unit) run" where
  "notify_branch_failure D g st b u =
     emit (Alerted \<lparr>alert_gid = g, alert_status = transaction_status_name st,
       alert_branch = alert_branch_url (dtm_libs D) u, alert_error = ''branch_call_failed'',
       alert_retry_count = attempts b\<rparr>)"

text \<open>
  \<^verbatim>\<open>invoke_branch\<close> (and \<^verbatim>\<open>invoke_url\<close>, which only calls it): the result tells whether the call
  succeeded, and the branch as the call leaves it.
\<close>

definition invoke_branch ::
  "'s dtm \<Rightarrow> transaction_options \<Rightarrow> string \<Rightarrow> transaction_status \<Rightarrow> branch \<Rightarrow> string \<Rightarrow> ('s, bool \<times> branch) run" where
  "invoke_branch D opts g st b u w =
     (let succeeded = invoke_ok D (w_step w) u (payload b) opts in
      then_ok (emit (Invoked g (bid b) u succeeded)) (\<lambda>_.
        if succeeded then ok (True, b)
        else then_ok (current_millis D) (\<lambda>now.
          let backoff = retry_backoff D opts;
              b' = record_branch_failure now b ''branch_call_failed'' backoff
                     (max (max_retry_backoff_millis (dtm_options_of D)) backoff) in
          then_ok (notify_branch_failure D g st b' u) (\<lambda>_. ok (False, b')))) w)"

definition set_branch :: "nat \<Rightarrow> branch \<Rightarrow> transaction \<Rightarrow> transaction" where
  "set_branch i b tx = tx\<lparr>branches := (branches tx)[i := b]\<rparr>"

definition set_status :: "transaction_status \<Rightarrow> transaction \<Rightarrow> transaction" where
  "set_status st tx = tx\<lparr>tstatus := st\<rparr>"

definition map_branches :: "(branch \<Rightarrow> branch) \<Rightarrow> transaction \<Rightarrow> transaction" where
  "map_branches f tx = tx\<lparr>branches := map f (branches tx)\<rparr>"

definition started :: "branch \<Rightarrow> branch" where
  "started b = b\<lparr>bstatus := BRunning, attempts := sat_add (attempts b) 1\<rparr>"

definition attempted :: "branch \<Rightarrow> branch" where
  "attempted b = b\<lparr>attempts := sat_add (attempts b) 1\<rparr>"

definition settled :: "branch_status \<Rightarrow> branch \<Rightarrow> branch" where
  "settled st b = b\<lparr>bstatus := st, next_retry_millis := None\<rparr>"

definition marked :: "branch_status \<Rightarrow> branch \<Rightarrow> branch" where
  "marked st b = b\<lparr>bstatus := st\<rparr>"

definition branch_barrier_of :: "transaction \<Rightarrow> nat \<Rightarrow> string \<Rightarrow> branch_barrier" where
  "branch_barrier_of tx i oper = barrier_new (gid tx) (bid (branches tx ! i)) oper"

subsection \<open>Batches of concurrent branch calls\<close>

text \<open>
  Concurrent handlers claim the barriers of a whole batch first and give back what they
  claimed when one is taken; then they spawn one task per branch and handle the results in
  the order in which the tasks finish. A task touches nothing but its own copy of the branch,
  so the model runs each task at the moment its result is joined, although the program starts all of them before it joins the
  first: the calls of one batch are recorded in the order of their completion.
\<close>

primrec release_all :: "'s dtm \<Rightarrow> branch_barrier list \<Rightarrow> ('s, unit) run" where
  "release_all D [] = ok ()"
| "release_all D (b # bs) = then_ok (release D b) (\<lambda>_. release_all D bs)"

primrec claim_all ::
  "'s dtm \<Rightarrow> transaction \<Rightarrow> string \<Rightarrow> nat list \<Rightarrow> branch_barrier list \<Rightarrow> ('s, bool) run" where
  "claim_all D tx oper [] claimed = ok True"
| "claim_all D tx oper (i # is) claimed =
     (let b = branch_barrier_of tx i oper in
      then_ok (claim D b) (\<lambda>d.
        if d \<noteq> Execute then then_ok (release_all D claimed) (\<lambda>_. ok False)
        else claim_all D tx oper is (claimed @ [b])))"

function schedule :: "(nat \<Rightarrow> nat) \<Rightarrow> nat \<Rightarrow> 'a list \<Rightarrow> 'a list" where
  "schedule p n [] = []"
| "schedule p n (x # xs) =
     (let i = p n mod length (x # xs) in
      (x # xs) ! i # schedule p (Suc n) (take i (x # xs) @ drop (Suc i) (x # xs)))"
  by pat_completeness auto

termination
proof (relation "measure (\<lambda>(p, n, xs). length xs)")
  fix p :: "nat \<Rightarrow> nat" and n and x :: 'a and xs i
  assume "i = p n mod length (x # xs)"
  then have "i < length (x # xs)" by simp
  then show "((p, Suc n, take i (x # xs) @ drop (Suc i) (x # xs)), p, n, x # xs)
      \<in> measure (\<lambda>(p, n, xs). length xs)"
    by simp
qed simp

text \<open>
  \<open>join_tasks\<close> calls the URLs of the given branches, marks each branch with \<open>good\<close> or \<open>bad\<close> and gives back the
  barrier of a failed one; it returns the transaction and the indices that failed.
\<close>

primrec join_tasks ::
  "'s dtm \<Rightarrow> transaction_status \<Rightarrow> string \<Rightarrow> (branch \<Rightarrow> string) \<Rightarrow> branch_status \<Rightarrow> branch_status
    \<Rightarrow> nat list \<Rightarrow> transaction \<Rightarrow> nat list \<Rightarrow> ('s, transaction \<times> nat list) run" where
  "join_tasks D st oper url_of good bad [] tx failed = ok (tx, failed)"
| "join_tasks D st oper url_of good bad (i # is) tx failed =
     (let b = branches tx ! i in
      then_ok (invoke_branch D (toptions tx) (gid tx) st b (url_of b)) (\<lambda>(succeeded, b').
        if succeeded then
          join_tasks D st oper url_of good bad is (set_branch i (settled good b') tx) failed
        else
          then_ok (release D (branch_barrier_of tx i oper)) (\<lambda>_.
            join_tasks D st oper url_of good bad is (set_branch i (marked bad b') tx) (failed @ [i]))))"

definition run_batch ::
  "'s dtm \<Rightarrow> transaction_status \<Rightarrow> string \<Rightarrow> (branch \<Rightarrow> string) \<Rightarrow> branch_status \<Rightarrow> branch_status
    \<Rightarrow> nat list \<Rightarrow> transaction \<Rightarrow> ('s, transaction \<times> nat list) run" where
  "run_batch D st oper url_of good bad ready tx w =
     join_tasks D st oper url_of good bad (schedule (pick D) (w_step w) ready) tx [] w"

definition update_all :: "(branch \<Rightarrow> branch) \<Rightarrow> nat list \<Rightarrow> transaction \<Rightarrow> transaction" where
  "update_all f is tx = fold (\<lambda>i t. set_branch i (f (branches t ! i)) t) is tx"

end
