(* ===== verification/Saga_Handler.thy ===== *)
theory Saga_Handler
  imports Coordinator
begin

text \<open>
  The Saga handlers of the coordinator: \<^verbatim>\<open>start_saga\<close>, \<^verbatim>\<open>abort_saga\<close>,
  \<^verbatim>\<open>start_concurrent_saga\<close> and \<^verbatim>\<open>abort_concurrent_saga\<close> (\<^verbatim>\<open>src/lib.rs\<close>,
  lines 3738--4162). The sequential handlers are loops over branch positions; the two
  \<^verbatim>\<open>loop\<close>s of the concurrent ones take fuel, one unit more than there are branches.
\<close>

section \<open>Concurrent compensation\<close>

definition compensate_url :: "branch \<Rightarrow> string" where
  "compensate_url b = (case compensate b of None \<Rightarrow> [] | Some u \<Rightarrow> u)"

definition ready_compensations :: "transaction \<Rightarrow> nat list" where
  "ready_compensations tx =
     filter (\<lambda>i. bstatus (branches tx ! i) = BCompensating
               \<and> \<not> list_ex (\<lambda>dependent. bid (branches tx ! i) \<in> set (dependencies dependent)
                      \<and> bstatus dependent = BCompensating) (branches tx))
       [0..<length (branches tx)]"

definition start_compensation :: "branch \<Rightarrow> branch" where
  "start_compensation b =
     (case bstatus b of
        BSucceeded \<Rightarrow> marked BCompensating b
      | BPending \<Rightarrow> settled BSkipped b
      | BRunning \<Rightarrow> settled BSkipped b
      | BFailed \<Rightarrow> settled BSkipped b
      | _ \<Rightarrow> b)"

primrec compensate_loop :: "nat \<Rightarrow> 's dtm \<Rightarrow> transaction \<Rightarrow> ('s, transaction) run" where
  "compensate_loop 0 D tx = fail OutOfFuel"
| "compensate_loop (Suc n) D tx =
     (if list_all (\<lambda>b. bstatus b \<noteq> BCompensating) (branches tx)
      then persist_transaction D (set_status Aborted tx)
      else (let ready = ready_compensations tx in
        if ready = [] then fail (UnresolvedCompensation (gid tx))
        else then_ok (claim_all D tx ''compensate'' ready []) (\<lambda>claimed.
          if \<not> claimed then fetch D (gid tx)
          else then_ok (persist_transaction D (update_all attempted ready tx)) (\<lambda>tx.
            case find (\<lambda>i. compensate (branches tx ! i) = None) ready of
              Some i \<Rightarrow> fail (MissingUrl (bid (branches tx ! i)))
            | None \<Rightarrow>
                then_ok (run_batch D Aborting ''compensate'' compensate_url BSkipped BCompensating ready tx)
                  (\<lambda>(tx, failed). then_ok (persist_transaction D tx) (\<lambda>tx.
                     if failed \<noteq> [] then ok tx else compensate_loop n D tx))))))"

definition abort_concurrent_saga :: "'s dtm \<Rightarrow> transaction \<Rightarrow> ('s, transaction) run" where
  "abort_concurrent_saga D tx =
     then_ok (lift_res (validate_transaction_dependencies tx)) (\<lambda>_.
       then_ok (persist_transaction D (map_branches start_compensation (set_status Aborting tx))) (\<lambda>tx.
         compensate_loop (Suc (length (branches tx))) D tx))"

section \<open>Concurrent actions\<close>

definition succeeded_ids :: "transaction \<Rightarrow> string list" where
  "succeeded_ids tx = map bid (filter (\<lambda>b. bstatus b = BSucceeded) (branches tx))"

definition runnable :: "transaction \<Rightarrow> branch \<Rightarrow> bool" where
  "runnable tx b \<longleftrightarrow> bstatus b \<in> {BPending, BFailed} \<and> set (dependencies b) \<subseteq> set (succeeded_ids tx)"

definition ready_actions :: "transaction \<Rightarrow> nat list" where
  "ready_actions tx = filter (\<lambda>i. runnable tx (branches tx ! i)) [0..<length (branches tx)]"

definition give_up :: "branch \<Rightarrow> branch" where
  "give_up b = (if bstatus b = BSucceeded then marked BCompensating b else settled BSkipped b)"

definition saga_max_attempts :: "transaction_options \<Rightarrow> u32" where
  "saga_max_attempts opts = (case retry_limit opts of Some retries \<Rightarrow> sat_add retries 1 | None \<Rightarrow> 1)"

primrec concurrent_loop :: "nat \<Rightarrow> 's dtm \<Rightarrow> transaction \<Rightarrow> ('s, transaction) run" where
  "concurrent_loop 0 D tx = fail OutOfFuel"
| "concurrent_loop (Suc n) D tx =
     (if list_all (\<lambda>b. bstatus b = BSucceeded) (branches tx)
      then persist_transaction D (set_status Succeeded tx)
      else (let ready = ready_actions tx in
        if ready = [] then ok tx
        else then_ok (claim_all D tx ''action'' ready []) (\<lambda>claimed.
          if \<not> claimed then fetch D (gid tx)
          else then_ok (persist_transaction D (update_all started ready tx)) (\<lambda>tx.
            then_ok (run_batch D Succeeding ''action'' action BSucceeded BFailed ready tx) (\<lambda>(tx, failed).
              if list_ex (\<lambda>i. saga_max_attempts (toptions tx) \<le> attempts (branches tx ! i)) failed
              then then_ok (persist_transaction D (map_branches give_up (set_status Aborting tx)))
                     (abort_concurrent_saga D)
              else then_ok (persist_transaction D tx) (\<lambda>tx.
                if failed \<noteq> [] then ok tx else concurrent_loop n D tx))))))"

definition start_concurrent_saga :: "'s dtm \<Rightarrow> transaction \<Rightarrow> ('s, transaction) run" where
  "start_concurrent_saga D tx =
     then_ok (lift_res (validate_transaction_dependencies tx)) (\<lambda>_.
       then_ok (persist_transaction D (set_status Succeeding tx)) (\<lambda>tx.
         concurrent_loop (Suc (length (branches tx))) D tx))"

section \<open>Sequential compensation\<close>

primrec abort_loop :: "'s dtm \<Rightarrow> nat list \<Rightarrow> transaction \<Rightarrow> ('s, transaction) run" where
  "abort_loop D [] tx = persist_transaction D (set_status Aborted tx)"
| "abort_loop D (i # is) tx =
     (let b = branches tx ! i in
      if bstatus b = BPending then abort_loop D is (set_branch i (marked BSkipped b) tx)
      else if bstatus b \<notin> {BSucceeded, BCompensating} then abort_loop D is tx
      else (let b = marked BCompensating b; tx = set_branch i b tx; bar = branch_barrier_of tx i ''compensate'' in
        then_ok (claim D bar) (\<lambda>d. case d of
          Execute \<Rightarrow>
            (case compensate b of
               None \<Rightarrow> abort_loop D is (set_branch i (settled BSkipped b) tx)
             | Some u \<Rightarrow>
                 then_ok (invoke_branch D (toptions tx) (gid tx) (tstatus tx) (attempted b) u)
                   (\<lambda>(succeeded, b').
                     if succeeded then abort_loop D is (set_branch i (settled BSkipped b') tx)
                     else then_ok (release D bar) (\<lambda>_.
                       persist_transaction D (set_branch i (marked BCompensating b') tx))))
        | SkipDuplicate \<Rightarrow> persist_transaction D tx
        | SkipNullCompensation \<Rightarrow> fail Panicked
        | SkipCancelledTry \<Rightarrow> fail Panicked)))"

definition abort_saga :: "'s dtm \<Rightarrow> string \<Rightarrow> ('s, transaction) run" where
  "abort_saga D g =
     then_ok (fetch D g) (\<lambda>tx.
     then_ok (lift_res (ensure_kind tx Saga)) (\<lambda>_.
     if tstatus tx = Aborted then ok tx
     else then_ok (lift_res (ensure_status tx [Submitted, Succeeding, Aborting])) (\<lambda>_.
       if concurrent (toptions tx) then abort_concurrent_saga D tx
       else abort_loop D (rev [0..<length (branches tx)]) (set_status Aborting tx))))"

section \<open>Sequential actions\<close>

definition compensate_succeeded :: "branch \<Rightarrow> branch" where
  "compensate_succeeded b = (if bstatus b = BSucceeded then marked BCompensating b else b)"

primrec saga_loop :: "'s dtm \<Rightarrow> string \<Rightarrow> nat list \<Rightarrow> transaction \<Rightarrow> ('s, transaction) run" where
  "saga_loop D g [] tx = persist_transaction D (set_status Succeeded tx)"
| "saga_loop D g (i # is) tx =
     (let b = branches tx ! i; bar = branch_barrier_of tx i ''action'' in
      if bstatus b = BSucceeded then saga_loop D g is tx
      else then_ok (claim D bar) (\<lambda>d.
        if d \<noteq> Execute then fetch D g
        else then_ok (invoke_branch D (toptions tx) (gid tx) (tstatus tx) (started b) (action b))
          (\<lambda>(succeeded, b').
            if succeeded then
              then_ok (persist_transaction D (set_branch i (settled BSucceeded b') tx)) (saga_loop D g is)
            else if attempts b' < saga_max_attempts (toptions tx) then
              then_ok (release D bar) (\<lambda>_. persist_transaction D (set_branch i (marked BFailed b') tx))
            else
              then_ok (persist_transaction D
                (map_branches compensate_succeeded
                  (set_status Aborting (set_branch i (marked BCompensating b') tx))))
                (\<lambda>_. abort_saga D g))))"

definition start_saga :: "'s dtm \<Rightarrow> string \<Rightarrow> ('s, transaction) run" where
  "start_saga D g =
     then_ok (fetch D g) (\<lambda>tx.
     then_ok (lift_res (ensure_kind tx Saga)) (\<lambda>_.
     if tstatus tx = Succeeded then ok tx
     else then_ok (lift_res (ensure_status tx [Submitted, Succeeding])) (\<lambda>_.
       if concurrent (toptions tx) then start_concurrent_saga D tx
       else then_ok (persist_transaction D (set_status Succeeding tx)) (\<lambda>tx.
         saga_loop D g [0..<length (branches tx)] tx))))"

end
