(* ===== verification/Tcc_Handler.thy ===== *)
theory Tcc_Handler
  imports Coordinator
begin

text \<open>
  The two-phase handlers of the coordinator: TCC (\<^verbatim>\<open>prepare_tcc\<close>, \<^verbatim>\<open>confirm_tcc\<close>,
  \<^verbatim>\<open>cancel_tcc\<close>, \<^verbatim>\<open>src/lib.rs\<close> lines 4164--4350) and XA (\<^verbatim>\<open>prepare_xa\<close>,
  \<^verbatim>\<open>commit_xa\<close>, \<^verbatim>\<open>rollback_xa\<close>, lines 4675--4770). Each is a guard on kind and
  status and a loop over the branches under a branch barrier.
\<close>

section \<open>TCC\<close>

primrec try_loop :: "'s dtm \<Rightarrow> nat list \<Rightarrow> transaction \<Rightarrow> ('s, transaction) run" where
  "try_loop D [] tx = persist_transaction D (set_status Prepared tx)"
| "try_loop D (i # is) tx =
     (let b = branches tx ! i; bar = branch_barrier_of tx i ''try'' in
      if bstatus b = BSucceeded then try_loop D is tx
      else then_ok (claim D bar) (\<lambda>d. case d of
        Execute \<Rightarrow>
          then_ok (invoke_branch D (toptions tx) (gid tx) (tstatus tx) (started b) (action b))
            (\<lambda>(succeeded, b').
              if succeeded then try_loop D is (set_branch i (settled BSucceeded b') tx)
              else then_ok (release D bar) (\<lambda>_.
                let tx = set_branch i (marked BFailed b') tx in
                persist_transaction D
                  (if max_attempts D (toptions tx) \<le> attempts b' then set_status Aborting tx else tx)))
      | SkipCancelledTry \<Rightarrow>
          persist_transaction D (set_status Aborting (set_branch i (settled BSkipped b) tx))
      | SkipDuplicate \<Rightarrow> try_loop D is tx
      | SkipNullCompensation \<Rightarrow> fail Panicked))"

definition prepare_tcc :: "'s dtm \<Rightarrow> string \<Rightarrow> ('s, transaction) run" where
  "prepare_tcc D g =
     then_ok (transaction_of_kind D g Tcc) (\<lambda>tx.
     if tstatus tx = Prepared then ok tx
     else then_ok (lift_res (ensure_status tx [Submitted, Trying])) (\<lambda>_.
       try_loop D [0..<length (branches tx)] (set_status Trying tx)))"

primrec confirm_loop :: "'s dtm \<Rightarrow> nat list \<Rightarrow> transaction \<Rightarrow> ('s, transaction) run" where
  "confirm_loop D [] tx = persist_transaction D (set_status Succeeded tx)"
| "confirm_loop D (i # is) tx =
     (let b = branches tx ! i; bar = branch_barrier_of tx i ''confirm'' in
      then_ok (claim D bar) (\<lambda>d.
        if d \<noteq> Execute then confirm_loop D is tx
        else (case confirm b of
          None \<Rightarrow> fail (MissingUrl (bid b))
        | Some u \<Rightarrow>
            then_ok (invoke_branch D (toptions tx) (gid tx) (tstatus tx) (attempted b) u) (\<lambda>(succeeded, b').
              if succeeded then confirm_loop D is (set_branch i (settled BSucceeded b') tx)
              else then_ok (release D bar) (\<lambda>_.
                persist_transaction D (set_branch i (marked BFailed b') tx))))))"

definition confirm_tcc :: "'s dtm \<Rightarrow> string \<Rightarrow> ('s, transaction) run" where
  "confirm_tcc D g =
     then_ok (transaction_of_kind D g Tcc) (\<lambda>tx.
     if tstatus tx = Succeeded then ok tx
     else then_ok (lift_res (ensure_status tx [Prepared, Succeeding])) (\<lambda>_.
       confirm_loop D [0..<length (branches tx)] (set_status Succeeding tx)))"

definition cancel_url :: "branch \<Rightarrow> string option" where
  "cancel_url b = (case cancel b of Some u \<Rightarrow> Some u | None \<Rightarrow> compensate b)"

primrec cancel_loop :: "'s dtm \<Rightarrow> nat list \<Rightarrow> transaction \<Rightarrow> ('s, transaction) run" where
  "cancel_loop D [] tx = persist_transaction D (set_status Aborted tx)"
| "cancel_loop D (i # is) tx =
     (let b = branches tx ! i; bar = branch_barrier_of tx i ''cancel'' in
      then_ok (claim D bar) (\<lambda>d.
        if d = Execute \<or> action b = [] \<and> d = SkipNullCompensation then
          (case cancel_url b of
             None \<Rightarrow> fail (MissingUrl (bid b))
           | Some u \<Rightarrow>
               then_ok (invoke_branch D (toptions tx) (gid tx) (tstatus tx) (attempted b) u) (\<lambda>(succeeded, b').
                 if succeeded then cancel_loop D is (set_branch i (settled BSkipped b') tx)
                 else then_ok (release D bar) (\<lambda>_.
                   persist_transaction D (set_branch i (marked BFailed b') tx))))
        else (case d of
          SkipNullCompensation \<Rightarrow> cancel_loop D is (set_branch i (settled BSkipped b) tx)
        | SkipDuplicate \<Rightarrow> cancel_loop D is tx
        | _ \<Rightarrow> fail Panicked)))"

definition cancel_tcc :: "'s dtm \<Rightarrow> string \<Rightarrow> ('s, transaction) run" where
  "cancel_tcc D g =
     then_ok (transaction_of_kind D g Tcc) (\<lambda>tx.
     if tstatus tx = Aborted then ok tx
     else then_ok (lift_res (ensure_status tx [Submitted, Trying, Prepared, Aborting])) (\<lambda>_.
       cancel_loop D [0..<length (branches tx)] (set_status Aborting tx)))"

section \<open>XA\<close>

definition prepare_xa :: "'s dtm \<Rightarrow> string \<Rightarrow> ('s, transaction) run" where
  "prepare_xa D g =
     then_ok (transaction_of_kind D g Xa) (\<lambda>tx.
     if tstatus tx = Prepared then ok tx
     else then_ok (lift_res (ensure_status tx [Submitted])) (\<lambda>_.
       persist_transaction D (set_status Prepared tx)))"

text \<open>
  \<^verbatim>\<open>commit_xa\<close> and \<^verbatim>\<open>rollback_xa\<close> run the same loop: the operation, the URL of the
  branch, the status of a finished branch and of the finished transaction differ.
\<close>

primrec xa_loop ::
  "'s dtm \<Rightarrow> string \<Rightarrow> (branch \<Rightarrow> string option) \<Rightarrow> branch_status \<Rightarrow> transaction_status
    \<Rightarrow> nat list \<Rightarrow> transaction \<Rightarrow> ('s, transaction) run" where
  "xa_loop D oper url_of done_branch done_tx [] tx = persist_transaction D (set_status done_tx tx)"
| "xa_loop D oper url_of done_branch done_tx (i # is) tx =
     (let b = branches tx ! i; bar = branch_barrier_of tx i oper in
      then_ok (claim D bar) (\<lambda>d.
        if d \<noteq> Execute then xa_loop D oper url_of done_branch done_tx is tx
        else (case url_of b of
          None \<Rightarrow> fail (MissingUrl (bid b))
        | Some v \<Rightarrow>
            then_ok (lift_res (xa_phase2_callback_url (dtm_libs D) v (gid tx) (bid b) oper)) (\<lambda>u.
            then_ok (invoke_branch D (toptions tx) (gid tx) (tstatus tx) (attempted b) u) (\<lambda>(succeeded, b').
              if succeeded then
                xa_loop D oper url_of done_branch done_tx is (set_branch i (settled done_branch b') tx)
              else then_ok (release D bar) (\<lambda>_.
                persist_transaction D (set_branch i (marked BFailed b') tx)))))))"

definition commit_xa :: "'s dtm \<Rightarrow> string \<Rightarrow> ('s, transaction) run" where
  "commit_xa D g =
     then_ok (transaction_of_kind D g Xa) (\<lambda>tx.
     if tstatus tx = Succeeded then ok tx
     else then_ok (lift_res (ensure_status tx [Prepared, Succeeding])) (\<lambda>_.
       xa_loop D ''commit'' confirm BSucceeded Succeeded [0..<length (branches tx)] (set_status Succeeding tx)))"

definition rollback_xa :: "'s dtm \<Rightarrow> string \<Rightarrow> ('s, transaction) run" where
  "rollback_xa D g =
     then_ok (transaction_of_kind D g Xa) (\<lambda>tx.
     if tstatus tx = Aborted then ok tx
     else then_ok (lift_res (ensure_status tx [Submitted, Prepared, Aborting])) (\<lambda>_.
       xa_loop D ''rollback'' cancel BSkipped Aborted [0..<length (branches tx)] (set_status Aborting tx)))"

end
