(* ===== verification/Workflow_Handler.thy ===== *)
theory Workflow_Handler
  imports Saga_Handler
begin

text \<open>
  The handlers of Message and Workflow transactions (\<^verbatim>\<open>src/lib.rs\<close>, lines 4352--4675):
  preparation, the Workflow engine \<^verbatim>\<open>start_workflow\<close> with its rollback
  \<^verbatim>\<open>abort_workflow\<close>, delivery of a Message and its abort; and the callback workflows
  (lines 3455--3640), which the coordinator drives by querying the initiator.
\<close>

section \<open>Message\<close>

definition prepare_message :: "'s dtm \<Rightarrow> string \<Rightarrow> ('s, transaction) run" where
  "prepare_message D g =
     then_ok (transaction_of_kind D g Message) (\<lambda>tx.
     if tstatus tx = Prepared then ok tx
     else then_ok (lift_res (ensure_status tx [Submitted])) (\<lambda>_.
       persist_transaction D (set_status Prepared tx)))"

primrec message_loop :: "'s dtm \<Rightarrow> nat list \<Rightarrow> transaction \<Rightarrow> ('s, transaction) run" where
  "message_loop D [] tx = persist_transaction D (set_status Succeeded tx)"
| "message_loop D (i # is) tx =
     (let b = branches tx ! i; bar = branch_barrier_of tx i ''message'' in
      if bstatus b = BSucceeded then message_loop D is tx
      else then_ok (claim D bar) (\<lambda>d.
        if d \<noteq> Execute then message_loop D is tx
        else then_ok (invoke_branch D (toptions tx) (gid tx) (tstatus tx) (started b) (action b))
          (\<lambda>(succeeded, b').
            if succeeded then message_loop D is (set_branch i (settled BSucceeded b') tx)
            else then_ok (release D bar) (\<lambda>_.
              persist_transaction D (set_branch i (marked BFailed b') tx)))))"

definition dispatch_concurrently :: "'s dtm \<Rightarrow> transaction \<Rightarrow> ('s, transaction) run" where
  "dispatch_concurrently D tx =
     (let ready = filter (\<lambda>i. bstatus (branches tx ! i) \<noteq> BSucceeded) [0..<length (branches tx)] in
      if ready = [] then persist_transaction D (set_status Succeeded tx)
      else then_ok (claim_all D tx ''message'' ready []) (\<lambda>claimed.
        if \<not> claimed then fetch D (gid tx)
        else then_ok (persist_transaction D (update_all started ready tx)) (\<lambda>tx.
          then_ok (run_batch D Succeeding ''message'' action BSucceeded BFailed ready tx) (\<lambda>(tx, failed).
            persist_transaction D (set_status (if failed \<noteq> [] then Succeeding else Succeeded) tx)))))"

definition dispatch_message :: "'s dtm \<Rightarrow> string \<Rightarrow> ('s, transaction) run" where
  "dispatch_message D g =
     then_ok (transaction_of_kind D g Message) (\<lambda>tx.
     if tstatus tx = Succeeded then ok tx
     else then_ok (lift_res (ensure_status tx [Submitted, Prepared, Succeeding])) (\<lambda>_.
       then_ok (if tstatus tx \<noteq> Succeeding then persist_transaction D (set_status Succeeding tx) else ok tx) (\<lambda>tx.
       then_ok (current_millis D) (\<lambda>now.
       if \<not> message_dispatch_due tx now then ok tx
       else if concurrent (toptions tx) then dispatch_concurrently D tx
       else message_loop D [0..<length (branches tx)] tx))))"

definition abort_message :: "'s dtm \<Rightarrow> string \<Rightarrow> ('s, transaction) run" where
  "abort_message D g =
     then_ok (transaction_of_kind D g Message) (\<lambda>tx.
     if tstatus tx = Aborted then ok tx
     else then_ok (lift_res (ensure_status tx [Submitted, Prepared])) (\<lambda>_.
       persist_transaction D (map_branches (settled BSkipped) (set_status Aborted tx))))"

section \<open>Workflow\<close>

definition prepare_workflow :: "'s dtm \<Rightarrow> string \<Rightarrow> ('s, transaction) run" where
  "prepare_workflow D g =
     then_ok (transaction_of_kind D g Workflow) (\<lambda>tx.
     if tstatus tx = Prepared \<or> is_terminal (tstatus tx) then ok tx
     else then_ok (lift_res (ensure_status tx [Submitted])) (\<lambda>_.
       persist_transaction D (set_status Prepared tx)))"

primrec workflow_abort_loop :: "'s dtm \<Rightarrow> nat list \<Rightarrow> transaction \<Rightarrow> ('s, transaction) run" where
  "workflow_abort_loop D [] tx = persist_transaction D (set_status Aborted tx)"
| "workflow_abort_loop D (i # is) tx =
     (let b = branches tx ! i; bar = branch_barrier_of tx i ''workflow_rollback'' in
      if bstatus b \<noteq> BSucceeded then
        workflow_abort_loop D is (if bstatus b = BPending then set_branch i (marked BSkipped b) tx else tx)
      else then_ok (claim D bar) (\<lambda>d.
        if d \<noteq> Execute then workflow_abort_loop D is (set_branch i (settled BSkipped b) tx)
        else (case compensate b of
          None \<Rightarrow> fail (MissingUrl (bid b))
        | Some u \<Rightarrow>
            then_ok (invoke_branch D (toptions tx) (gid tx) (tstatus tx) (attempted b) u) (\<lambda>(succeeded, b').
              if succeeded then workflow_abort_loop D is (set_branch i (settled BSkipped b') tx)
              else then_ok (release D bar) (\<lambda>_.
                persist_transaction D (set_branch i (marked BCompensating b') tx))))))"

definition abort_workflow :: "'s dtm \<Rightarrow> string \<Rightarrow> ('s, transaction) run" where
  "abort_workflow D g =
     then_ok (transaction_of_kind D g Workflow) (\<lambda>tx.
     if tstatus tx = Aborted then ok tx
     else then_ok (lift_res (ensure_status tx [Submitted, Prepared, Succeeding, Aborting])) (\<lambda>_.
       workflow_abort_loop D (rev [0..<length (branches tx)]) (set_status Aborting tx)))"

primrec workflow_loop :: "nat \<Rightarrow> 's dtm \<Rightarrow> string \<Rightarrow> transaction \<Rightarrow> ('s, transaction) run" where
  "workflow_loop 0 D g tx = fail OutOfFuel"
| "workflow_loop (Suc n) D g tx =
     (case find (\<lambda>i. runnable tx (branches tx ! i)) [0..<length (branches tx)] of
        None \<Rightarrow>
          if list_all (\<lambda>b. bstatus b = BSucceeded) (branches tx)
          then persist_transaction D (set_status Succeeded tx)
          else fail (UnresolvedDependencies (gid tx))
      | Some i \<Rightarrow>
          (let b = branches tx ! i; bar = branch_barrier_of tx i ''workflow'' in
           then_ok (claim D bar) (\<lambda>d.
             if d \<noteq> Execute then fetch D g
             else then_ok (invoke_branch D (toptions tx) (gid tx) (tstatus tx) (started b) (action b))
               (\<lambda>(succeeded, b').
                 if succeeded then
                   then_ok (persist_transaction D (set_branch i (settled BSucceeded b') tx))
                     (workflow_loop n D g)
                 else then_ok (release D bar) (\<lambda>_.
                   then_ok (persist_transaction D (set_status Aborting (set_branch i (marked BFailed b') tx)))
                     (\<lambda>_. abort_workflow D g))))))"

definition start_workflow :: "'s dtm \<Rightarrow> string \<Rightarrow> ('s, transaction) run" where
  "start_workflow D g =
     then_ok (transaction_of_kind D g Workflow) (\<lambda>tx.
     if tstatus tx = Succeeded then ok tx
     else then_ok (lift_res (ensure (\<not> is_callback_workflow tx) (WorkflowError CallbackDriven))) (\<lambda>_.
       then_ok (lift_res (ensure_status tx [Submitted, Prepared, Succeeding])) (\<lambda>_.
         workflow_loop (Suc (length (branches tx))) D g (set_status Succeeding tx))))"

section \<open>Callback workflows\<close>

definition terminal_after_conflict :: "'s dtm \<Rightarrow> string \<Rightarrow> dtm_error \<Rightarrow> ('s, transaction) run" where
  "terminal_after_conflict D g e =
     then_ok (fetch D g) (\<lambda>latest. if is_terminal (tstatus latest) then ok latest else fail e)"

definition or_terminal :: "'s dtm \<Rightarrow> string \<Rightarrow> ('s, transaction) run \<Rightarrow> ('s, transaction) run" where
  "or_terminal D g m =
     catch m (\<lambda>r. case r of Inr tx \<Rightarrow> ok tx | Inl e \<Rightarrow> terminal_after_conflict D g e)"

definition finish_callback_workflow ::
  "'s dtm \<Rightarrow> string \<Rightarrow> transaction_status \<Rightarrow> string option \<Rightarrow> string option \<Rightarrow> ('s, transaction) run" where
  "finish_callback_workflow D g st rollback_reason result =
     store_op D (\<lambda>now. finish_workflow (dtm_store D) now g st rollback_reason result)"

definition defer_callback_workflow ::
  "'s dtm \<Rightarrow> transaction \<Rightarrow> u64 \<Rightarrow> bool \<Rightarrow> string \<Rightarrow> ('s, transaction) run" where
  "defer_callback_workflow D tx attempted_at back out =
     (let interval = max (retry_backoff D (toptions tx)) 1;
          d = \<lparr>attempted_at_millis = attempted_at, wd_retry_interval_millis = interval,
               max_retry_interval_millis = max (max_retry_backoff_millis (dtm_options_of D)) interval,
               backoff = back, outcome = out\<rparr> in
      or_terminal D (gid tx) (store_op D (\<lambda>now. defer_recovery (dtm_store D) now (gid tx) d)))"

definition query_workflow_callback ::
  "'s dtm \<Rightarrow> workflow_callback_request \<Rightarrow> transaction_options \<Rightarrow> ('s, workflow_callback_result option) run" where
  "query_workflow_callback D req opts w =
     then_ok (emit (Queried req)) (\<lambda>_. ok (query_callback D (w_step w) req opts)) w"

definition recover_callback_workflow :: "'s dtm \<Rightarrow> string \<Rightarrow> ('s, transaction) run" where
  "recover_callback_workflow D g =
     then_ok (transaction_of_kind D g Workflow) (\<lambda>tx.
     if is_terminal (tstatus tx) then ok tx
     else then_ok (lift_res (ensure_callback_workflow tx)) (\<lambda>_.
       then_ok (lift_res (ensure_status tx [Prepared])) (\<lambda>_.
       then_ok (current_millis D) (\<lambda>attempted_at.
       case workflow_callback_request_of (dtm_libs D) tx of
         Inl _ \<Rightarrow> defer_callback_workflow D tx attempted_at True ''invalid_callback''
       | Inr req \<Rightarrow>
           then_ok (query_workflow_callback D req (toptions tx)) (\<lambda>answer.
           then_ok (fetch D g) (\<lambda>latest.
           if is_terminal (tstatus latest) then ok latest
           else then_ok (lift_res (ensure_callback_workflow latest)) (\<lambda>_.
             then_ok (lift_res (ensure_status latest [Prepared])) (\<lambda>_.
             case answer of
               Some (CallbackFailed reason) \<Rightarrow>
                 or_terminal D g (finish_callback_workflow D g Failed
                   (case reason of Some r \<Rightarrow> Some r | None \<Rightarrow> Some ''workflow callback reported failure'') None)
             | Some Ongoing \<Rightarrow> defer_callback_workflow D latest attempted_at False ''ongoing''
             | Some Completed \<Rightarrow>
                 defer_callback_workflow D latest attempted_at True ''completed_without_terminal''
             | None \<Rightarrow> defer_callback_workflow D latest attempted_at True ''transport_error''))))))))"

definition expire_callback_workflow :: "'s dtm \<Rightarrow> transaction \<Rightarrow> ('s, transaction) run" where
  "expire_callback_workflow D tx =
     then_ok (if tstatus tx = Submitted then prepare_workflow D (gid tx) else ok tx) (\<lambda>tx.
     then_ok (lift_res (ensure_status tx [Prepared])) (\<lambda>_.
       or_terminal D (gid tx)
         (finish_callback_workflow D (gid tx) Failed (Some ''workflow callback timed out'') None)))"

end
