(* ===== verification/Topics.thy ===== *)
theory Topics
  imports Coordinator
begin

text \<open>
  Topics (\<^verbatim>\<open>src/kv.rs\<close>): subscription lists kept in the versioned key-value part of the
  store and updated by compare-and-swap with at most 64 attempts, and the expansion of the
  topics of a Message into one branch per subscriber (\<^verbatim>\<open>expand_message_topics\<close> of
  \<^verbatim>\<open>src/lib.rs\<close>). The JSON text of a subscription list is a parameter of the model.
\<close>

section \<open>Definitions\<close>

record topic =
  topic_name :: string
  subscribers :: "topic_subscriber list"
  topic_version :: u64

definition validate_topic :: "string \<Rightarrow> unit res" where
  "validate_topic t = ensure (t \<noteq> [] \<and> length t \<le> 191) (TopicError InvalidTopic)"

definition validate_subscriber_url :: "libs \<Rightarrow> string \<Rightarrow> unit res" where
  "validate_subscriber_url L value =
     res_bind (ok_or (parse_url L value) (TopicError InvalidSubscriberUrl)) (\<lambda>u.
       ensure (length value \<le> 2048 \<and> scheme u \<in> {''http'', ''https''} \<and> host u \<noteq> None
           \<and> username u = [] \<and> password u = None \<and> fragment u = None)
         (TopicError InvalidSubscriberUrl))"

definition decode_entry :: "libs \<Rightarrow> kv_entry \<Rightarrow> topic_subscriber list res" where
  "decode_entry L e = ok_or (decode_subscribers L (kv_value e)) (StoreError InvalidPayload)"

definition bump_entry :: "libs \<Rightarrow> u64 \<Rightarrow> topic_subscriber list \<Rightarrow> kv_entry \<Rightarrow> kv_entry" where
  "bump_entry L now subs e =
     e\<lparr>kv_version := sat_add (kv_version e) 1, kv_updated_at_millis := now,
       kv_value := encode_subscribers L subs\<rparr>"

primrec subscribe_loop :: "nat \<Rightarrow> 's dtm \<Rightarrow> string \<Rightarrow> topic_subscriber \<Rightarrow> ('s, topic) run" where
  "subscribe_loop 0 D t sub = fail (StoreError (Contended t))"
| "subscribe_loop (Suc n) D t sub =
     then_ok (store_op D (\<lambda>_. get_kv (dtm_store D) ''topics'' t)) (\<lambda>found.
       case found of
         None \<Rightarrow>
           then_ok (current_millis D) (\<lambda>now.
           then_ok (store_op D (\<lambda>_. create_kv (dtm_store D)
               (kv_entry_new now ''topics'' t (encode_subscribers (dtm_libs D) [sub])))) (\<lambda>created.
             if created then ok \<lparr>topic_name = t, subscribers = [sub], topic_version = 1\<rparr>
             else subscribe_loop n D t sub))
       | Some e \<Rightarrow>
           then_ok (lift_res (decode_entry (dtm_libs D) e)) (\<lambda>subs.
           then_ok (lift_res (ensure (\<not> list_ex (\<lambda>x. sub_url x = sub_url sub) subs)
               (TopicError SubscriberExists))) (\<lambda>_.
           then_ok (current_millis D) (\<lambda>now.
           then_ok (store_op D (\<lambda>_. update_kv (dtm_store D)
               (bump_entry (dtm_libs D) now (subs @ [sub]) e) (kv_version e))) (\<lambda>updated.
             if updated then
               ok \<lparr>topic_name = t, subscribers = subs @ [sub], topic_version = sat_add (kv_version e) 1\<rparr>
             else subscribe_loop n D t sub)))))"

definition subscribe :: "'s dtm \<Rightarrow> string \<Rightarrow> string \<Rightarrow> string \<Rightarrow> ('s, topic) run" where
  "subscribe D t u remark =
     then_ok (lift_res (validate_topic t)) (\<lambda>_.
     then_ok (lift_res (validate_subscriber_url (dtm_libs D) u)) (\<lambda>_.
     then_ok (lift_res (ensure (length remark \<le> 1024) (TopicError RemarkTooLong))) (\<lambda>_.
       subscribe_loop 64 D t \<lparr>sub_url = u, sub_remark = remark\<rparr>)))"

primrec unsubscribe_loop :: "nat \<Rightarrow> 's dtm \<Rightarrow> string \<Rightarrow> string \<Rightarrow> ('s, topic) run" where
  "unsubscribe_loop 0 D t u = fail (StoreError (Contended t))"
| "unsubscribe_loop (Suc n) D t u =
     then_ok (store_op D (\<lambda>_. get_kv (dtm_store D) ''topics'' t)) (\<lambda>found.
     then_ok (lift_res (ok_or found (TopicError NoSuchTopic))) (\<lambda>e.
     then_ok (lift_res (decode_entry (dtm_libs D) e)) (\<lambda>subs.
       let rest = filter (\<lambda>x. sub_url x \<noteq> u) subs in
     then_ok (lift_res (ensure (length rest \<noteq> length subs) (TopicError NoSuchUrl))) (\<lambda>_.
     then_ok (current_millis D) (\<lambda>now.
     then_ok (store_op D (\<lambda>_. update_kv (dtm_store D)
         (bump_entry (dtm_libs D) now rest e) (kv_version e))) (\<lambda>updated.
       if updated then
         ok \<lparr>topic_name = t, subscribers = rest, topic_version = sat_add (kv_version e) 1\<rparr>
       else unsubscribe_loop n D t u))))))"

definition unsubscribe :: "'s dtm \<Rightarrow> string \<Rightarrow> string \<Rightarrow> ('s, topic) run" where
  "unsubscribe D t u =
     then_ok (lift_res (validate_topic t)) (\<lambda>_.
     then_ok (lift_res (validate_subscriber_url (dtm_libs D) u)) (\<lambda>_. unsubscribe_loop 64 D t u))"

definition get_topic :: "'s dtm \<Rightarrow> string \<Rightarrow> ('s, topic option) run" where
  "get_topic D t =
     then_ok (lift_res (validate_topic t)) (\<lambda>_.
     then_ok (store_op D (\<lambda>_. get_kv (dtm_store D) ''topics'' t)) (\<lambda>found.
       case found of None \<Rightarrow> ok None
       | Some e \<Rightarrow> then_ok (lift_res (decode_entry (dtm_libs D) e)) (\<lambda>subs.
           ok (Some \<lparr>topic_name = kv_key e, subscribers = subs, topic_version = kv_version e\<rparr>))))"

definition delete_topic :: "'s dtm \<Rightarrow> string \<Rightarrow> ('s, bool) run" where
  "delete_topic D t =
     then_ok (lift_res (validate_topic t)) (\<lambda>_. store_op D (\<lambda>_. delete_kv (dtm_store D) ''topics'' t))"

section \<open>Topics of a Message\<close>

definition show_nat_02 :: "nat \<Rightarrow> string" where
  "show_nat_02 n = (if n < 10 then ''0'' else []) @ show_nat n"

definition subscriber_branch :: "branch \<Rightarrow> nat \<Rightarrow> nat \<Rightarrow> topic_subscriber \<Rightarrow> branch" where
  "subscriber_branch b count index sub =
     (if 1 < count then b\<lparr>bid := bid b @ ''-'' @ show_nat_02 (index + 1)\<rparr> else b)\<lparr>action := sub_url sub\<rparr>"

definition expand_branch :: "branch \<Rightarrow> topic_subscriber list \<Rightarrow> branch list" where
  "expand_branch b subs =
     map (\<lambda>(index, sub). subscriber_branch b (length subs) index sub) (enumerate 0 subs)"

primrec expand_loop :: "'s dtm \<Rightarrow> branch list \<Rightarrow> branch list \<Rightarrow> ('s, branch list) run" where
  "expand_loop D [] expanded = ok expanded"
| "expand_loop D (b # bs) expanded =
     (case strip_prefix ''topic://'' (action b) of
        None \<Rightarrow> expand_loop D bs (expanded @ [b])
      | Some t \<Rightarrow>
          then_ok (get_topic D t) (\<lambda>found.
          then_ok (lift_res (ok_or found (TopicError (TopicNotFound t)))) (\<lambda>tp.
          then_ok (lift_res (ensure (subscribers tp \<noteq> []) (TopicError (TopicWithoutSubscribers t)))) (\<lambda>_.
            expand_loop D bs (expanded @ expand_branch b (subscribers tp))))))"

definition expand_message_topics :: "'s dtm \<Rightarrow> transaction \<Rightarrow> ('s, transaction) run" where
  "expand_message_topics D tx =
     then_ok (expand_loop D (branches tx) []) (\<lambda>expanded.
     then_ok (lift_res (ensure (distinct (map bid expanded)) (TopicError DuplicateExpandedBranch))) (\<lambda>_.
       ok (tx\<lparr>branches := expanded\<rparr>)))"

end
