(* ===== verification/Recovery.thy ===== *)
theory Recovery
  imports Saga_Handler Tcc_Handler Workflow_Handler Topics
begin

text \<open>
  The entry points of the coordinator (\<^verbatim>\<open>src/lib.rs\<close>): submission, scheduling of a submit or an
  abort, the operator's commands (\<^verbatim>\<open>force_stop\<close>, \<^verbatim>\<open>reset_retry\<close> and its batches,
  \<^verbatim>\<open>recover\<close>), the recovery scan \<^verbatim>\<open>tick_recover_once\<close> with and without a lease, and
  retention.
\<close>

section \<open>Submission\<close>

definition submit :: "'s dtm \<Rightarrow> transaction \<Rightarrow> ('s, transaction) run" where
  "submit D tx =
     (let tx = tx\<lparr>revision := 1\<rparr> in
      then_ok (lift_res (options_validate (dtm_libs D) (toptions tx))) (\<lambda>_.
      then_ok (lift_res (ensure (tkind tx = Message \<or> delay_millis (toptions tx) = None) DelayOnlyForMessage)) (\<lambda>_.
      then_ok (lift_res (validate_transaction_dependencies tx)) (\<lambda>_.
      then_ok (if tkind tx = Message then expand_message_topics D tx else ok tx) (\<lambda>tx.
        let tx = (if \<not> is_callback_workflow tx \<and> timeout_millis tx = None
                  then tx\<lparr>timeout_millis := Some (transaction_timeout_millis (dtm_options_of D))\<rparr> else tx) in
      then_ok (store_op D (\<lambda>_. insert_transaction (dtm_store D) tx)) (\<lambda>_. ok tx))))))"

definition register_dynamic_branch :: "'s dtm \<Rightarrow> string \<Rightarrow> branch \<Rightarrow> ('s, transaction) run" where
  "register_dynamic_branch D g b = store_op D (\<lambda>now. register_branch (dtm_store D) now g b)"

definition record_workflow_progress :: "'s dtm \<Rightarrow> string \<Rightarrow> workflow_progress \<Rightarrow> ('s, transaction) run" where
  "record_workflow_progress D g p = store_op D (\<lambda>now. record_progress (dtm_store D) now g p)"

fun submit_allowed :: "transaction_kind \<Rightarrow> transaction_status list" where
  "submit_allowed Tcc = [Prepared, Succeeding]"
| "submit_allowed Xa = [Prepared, Succeeding]"
| "submit_allowed Saga = [Submitted, Succeeding]"
| "submit_allowed Workflow = [Submitted, Prepared, Succeeding]"
| "submit_allowed Message = [Submitted, Prepared, Succeeding]"

definition schedule_submit :: "'s dtm \<Rightarrow> string \<Rightarrow> ('s, transaction) run" where
  "schedule_submit D g =
     then_ok (fetch D g) (\<lambda>tx.
     if tstatus tx = Succeeded then ok tx
     else then_ok (lift_res (ensure (\<not> is_callback_workflow tx) (WorkflowError CallbackMustFinish))) (\<lambda>_.
       then_ok (lift_res (ensure_status tx (submit_allowed (tkind tx)))) (\<lambda>_.
       if tkind tx \<in> {Tcc, Xa} \<and> tstatus tx = Prepared
          \<or> tkind tx = Message \<and> tstatus tx \<in> {Submitted, Prepared}
       then persist_transaction D (set_status Succeeding tx)
       else if tkind tx = Workflow \<and> tstatus tx = Prepared
       then persist_transaction D (set_status Submitted tx)
       else ok tx)))"

fun abort_allowed :: "transaction_kind \<Rightarrow> transaction_status list" where
  "abort_allowed Tcc = [Submitted, Trying, Prepared, Aborting]"
| "abort_allowed Saga = [Submitted, Succeeding, Aborting]"
| "abort_allowed Workflow = [Submitted, Prepared, Succeeding, Aborting]"
| "abort_allowed Xa = [Submitted, Prepared, Aborting]"
| "abort_allowed Message = []"

definition clear_retry :: "branch \<Rightarrow> branch" where
  "clear_retry b = b\<lparr>next_retry_millis := None\<rparr>"

definition schedule_abort :: "'s dtm \<Rightarrow> string \<Rightarrow> ('s, transaction) run" where
  "schedule_abort D g =
     then_ok (fetch D g) (\<lambda>tx.
     if tstatus tx = Aborted then ok tx
     else if tkind tx = Message then abort_message D g
     else then_ok (lift_res (ensure_status tx (abort_allowed (tkind tx)))) (\<lambda>_.
       persist_transaction D (map_branches clear_retry (set_status Aborting tx))))"

section \<open>Operator commands\<close>

definition force_stop :: "'s dtm \<Rightarrow> string \<Rightarrow> ('s, transaction) run" where
  "force_stop D g =
     then_ok (fetch D g) (\<lambda>tx.
     then_ok (lift_res (ensure (\<not> is_terminal (tstatus tx)) (AlreadyTerminal g))) (\<lambda>_.
       persist_transaction D (map_branches clear_retry (set_status Failed tx))))"

definition retry_now :: "u64 \<Rightarrow> transaction \<Rightarrow> transaction" where
  "retry_now now tx =
     (let tx1 = map_branches (\<lambda>b. if retrying b then b\<lparr>next_retry_millis := Some now\<rparr> else b) tx in
      if is_callback_workflow tx1
      then tx1\<lparr>metadata := bt_insert ''dtm.callback.last_outcome'' ''manual_reset''
                 (bt_insert ''dtm.callback.next_retry_millis'' (show_word now) (metadata tx1))\<rparr>
      else tx1)"

definition reset_retry :: "'s dtm \<Rightarrow> string \<Rightarrow> ('s, transaction) run" where
  "reset_retry D g =
     then_ok (fetch D g) (\<lambda>tx.
     then_ok (lift_res (ensure (\<not> is_terminal (tstatus tx)) (AlreadyTerminal g))) (\<lambda>_.
     then_ok (current_millis D) (\<lambda>now. persist_transaction D (retry_now now tx))))"

primrec reset_each :: "'s dtm \<Rightarrow> string list \<Rightarrow> transaction list \<Rightarrow> ('s, transaction list) run" where
  "reset_each D [] reset = ok reset"
| "reset_each D (g # gs) reset = then_ok (reset_retry D g) (\<lambda>tx. reset_each D gs (reset @ [tx]))"

definition reset_retry_batch :: "'s dtm \<Rightarrow> nat \<Rightarrow> ('s, transaction list) run" where
  "reset_retry_batch D limit =
     then_ok (store_op D (\<lambda>_. list_transactions (dtm_store D))) (\<lambda>ts.
       reset_each D (take (max limit 1) (map gid (filter (\<lambda>tx. \<not> is_terminal (tstatus tx)) ts))) [])"

definition retry_candidate :: "u64 \<Rightarrow> transaction \<Rightarrow> (u64 \<times> string) option" where
  "retry_candidate cutoff tx =
     (case transaction_next_recovery_millis tx of None \<Rightarrow> None
      | Some nxt \<Rightarrow> if cutoff < nxt then Some (nxt, gid tx) else None)"

definition reset_retry_batch_after :: "'s dtm \<Rightarrow> u64 \<Rightarrow> nat \<Rightarrow> ('s, transaction list \<times> bool) run" where
  "reset_retry_batch_after D after limit =
     (let limit = max limit 1 in
      then_ok (current_millis D) (\<lambda>now.
      then_ok (store_op D (\<lambda>_. list_transactions (dtm_store D))) (\<lambda>ts.
        let candidates = sort (List.map_filter (retry_candidate (sat_add now after)) ts) in
        then_ok (reset_each D (map snd (take limit candidates)) []) (\<lambda>reset.
          ok (reset, limit < length candidates)))))"

section \<open>Recovery of one transaction\<close>

text \<open>The branch for an expired transaction, the same in \<^verbatim>\<open>recover\<close> and in the scan.\<close>

definition recover_expired :: "'s dtm \<Rightarrow> string \<Rightarrow> transaction \<Rightarrow> ('s, transaction) run" where
  "recover_expired D g tx =
     (case tkind tx of
        Tcc \<Rightarrow> cancel_tcc D g
      | Saga \<Rightarrow> abort_saga D g
      | Workflow \<Rightarrow>
          if is_callback_workflow tx then expire_callback_workflow D tx else abort_workflow D g
      | Message \<Rightarrow>
          if tstatus tx = Succeeding then dispatch_message D g else abort_message D g
      | Xa \<Rightarrow> if tstatus tx = Succeeding then commit_xa D g else rollback_xa D g)"

definition recover_callback :: "'s dtm \<Rightarrow> string \<Rightarrow> transaction \<Rightarrow> ('s, transaction) run" where
  "recover_callback D g tx =
     (case tstatus tx of
        Submitted \<Rightarrow> prepare_workflow D g
      | Prepared \<Rightarrow> recover_callback_workflow D g
      | st \<Rightarrow> fail (NonReplayable g st))"

definition recover_step :: "'s dtm \<Rightarrow> string \<Rightarrow> transaction \<Rightarrow> ('s, transaction) run" where
  "recover_step D g tx =
     (case tkind tx of
        Tcc \<Rightarrow> if tstatus tx \<in> {Submitted, Trying} then prepare_tcc D g
               else if tstatus tx \<in> {Prepared, Succeeding} then confirm_tcc D g
               else if tstatus tx = Aborting then cancel_tcc D g
               else fail (NonReplayable g (tstatus tx))
      | Saga \<Rightarrow> if tstatus tx \<in> {Submitted, Succeeding} then start_saga D g
               else if tstatus tx = Aborting then abort_saga D g
               else fail (NonReplayable g (tstatus tx))
      | Workflow \<Rightarrow> if tstatus tx \<in> {Submitted, Succeeding} then start_workflow D g
               else if tstatus tx = Aborting then abort_workflow D g
               else fail (NonReplayable g (tstatus tx))
      | Message \<Rightarrow> if tstatus tx = Submitted then prepare_message D g
               else if tstatus tx \<in> {Prepared, Succeeding} then dispatch_message D g
               else fail (NonReplayable g (tstatus tx))
      | Xa \<Rightarrow> if tstatus tx = Submitted then prepare_xa D g
               else if tstatus tx \<in> {Prepared, Succeeding} then commit_xa D g
               else if tstatus tx = Aborting then rollback_xa D g
               else fail (NonReplayable g (tstatus tx)))"

definition recover :: "'s dtm \<Rightarrow> string \<Rightarrow> ('s, transaction) run" where
  "recover D g =
     then_ok (fetch D g) (\<lambda>tx.
     if is_terminal (tstatus tx) then ok tx
     else then_ok (if tkind tx = Message \<and> tstatus tx = Succeeding
                   then then_ok (current_millis D) (\<lambda>now. ok (\<not> message_dispatch_due tx now)) else ok False)
       (\<lambda>waiting.
       if waiting then ok tx
       else then_ok (current_millis D) (\<lambda>now.
         if is_expired tx now then recover_expired D g tx
         else if is_callback_workflow tx then recover_callback D g tx
         else recover_step D g tx)))"

section \<open>The recovery scan\<close>

text \<open>What the scan does to one transaction of its list: nothing, or a handler.\<close>

definition scan_callback :: "'s dtm \<Rightarrow> u64 \<Rightarrow> transaction \<Rightarrow> ('s, transaction) run option" where
  "scan_callback D now tx =
     (case tstatus tx of
        Submitted \<Rightarrow> Some (prepare_workflow D (gid tx))
      | Prepared \<Rightarrow> if callback_workflow_due tx now then Some (recover_callback_workflow D (gid tx)) else None
      | _ \<Rightarrow> None)"

definition scan_step :: "'s dtm \<Rightarrow> transaction \<Rightarrow> ('s, transaction) run option" where
  "scan_step D tx =
     (case tkind tx of
        Tcc \<Rightarrow> if tstatus tx \<in> {Submitted, Trying} then Some (prepare_tcc D (gid tx))
               else if tstatus tx = Succeeding then Some (confirm_tcc D (gid tx))
               else if tstatus tx = Aborting then Some (cancel_tcc D (gid tx)) else None
      | Saga \<Rightarrow> if tstatus tx \<in> {Submitted, Succeeding} then Some (start_saga D (gid tx))
               else if tstatus tx = Aborting then Some (abort_saga D (gid tx)) else None
      | Workflow \<Rightarrow> if tstatus tx \<in> {Submitted, Succeeding} then Some (start_workflow D (gid tx))
               else if tstatus tx = Aborting then Some (abort_workflow D (gid tx)) else None
      | Message \<Rightarrow> if tstatus tx = Submitted then Some (prepare_message D (gid tx))
               else if tstatus tx = Succeeding then Some (dispatch_message D (gid tx)) else None
      | Xa \<Rightarrow> if tstatus tx = Submitted then Some (prepare_xa D (gid tx))
               else if tstatus tx = Succeeding then Some (commit_xa D (gid tx))
               else if tstatus tx = Aborting then Some (rollback_xa D (gid tx)) else None)"

definition scan_one :: "'s dtm \<Rightarrow> u64 \<Rightarrow> transaction \<Rightarrow> ('s, transaction) run option" where
  "scan_one D now tx =
     (if is_terminal (tstatus tx) then None
      else if tkind tx = Message \<and> tstatus tx = Succeeding \<and> \<not> message_dispatch_due tx now then None
      else if is_expired tx now then Some (recover_expired D (gid tx) tx)
      else if is_callback_workflow tx then scan_callback D now tx
      else if \<not> transaction_due tx now then None
      else scan_step D tx)"

primrec scan_loop :: "'s dtm \<Rightarrow> u64 \<Rightarrow> transaction list \<Rightarrow> transaction list \<Rightarrow> ('s, transaction list) run" where
  "scan_loop D now [] changed = ok changed"
| "scan_loop D now (tx # rest) changed =
     (case scan_one D now tx of
        None \<Rightarrow> scan_loop D now rest changed
      | Some m \<Rightarrow> then_ok m (\<lambda>tx'. scan_loop D now rest (changed @ [tx'])))"

definition tick_recover_once :: "'s dtm \<Rightarrow> ('s, transaction list) run" where
  "tick_recover_once D =
     then_ok (current_millis D) (\<lambda>now.
     then_ok (store_op D (\<lambda>_. list_transactions (dtm_store D))) (\<lambda>ts. scan_loop D now ts []))"

definition fenced_dtm :: "'s dtm \<Rightarrow> recovery_lease_fence \<Rightarrow> 's dtm" where
  "fenced_dtm D f = D\<lparr>dtm_store := fenced_ops (dtm_store D) f\<rparr>"

definition tick_recover_once_with_lease :: "'s dtm \<Rightarrow> string \<Rightarrow> u64 \<Rightarrow> ('s, transaction list) run" where
  "tick_recover_once_with_lease D owner ttl_millis =
     then_ok (store_op D (\<lambda>now. acquire_lease (dtm_store D) now ''roze-dtm-recovery'' owner ttl_millis)) (\<lambda>lease.
       case lease of None \<Rightarrow> ok [] | Some f \<Rightarrow> tick_recover_once (fenced_dtm D f))"

section \<open>Retention\<close>

primrec purge_loop :: "'s dtm \<Rightarrow> transaction list \<Rightarrow> retention_report \<Rightarrow> ('s, retention_report) run" where
  "purge_loop D [] report = ok report"
| "purge_loop D (tx # rest) report =
     then_ok (store_op D (\<lambda>_. delete_if_unchanged (dtm_store D) tx)) (\<lambda>gone.
       purge_loop D rest
         (if gone then report\<lparr>eligible := eligible report + 1, deleted := deleted report + 1\<rparr>
          else report\<lparr>eligible := eligible report + 1, conflicts := conflicts report + 1\<rparr>))"

definition purge_expired_transactions :: "'s dtm \<Rightarrow> retention_policy \<Rightarrow> ('s, retention_report) run" where
  "purge_expired_transactions D policy =
     then_ok (lift_res (retention_validate policy)) (\<lambda>policy.
     then_ok (current_millis D) (\<lambda>now.
     then_ok (store_op D (\<lambda>_. list_transactions (dtm_store D))) (\<lambda>ts.
       let ordered = sort_key (\<lambda>tx. (updated_at_millis tx, gid tx)) ts in
       purge_loop D (take (batch_size policy) (filter (\<lambda>tx. transaction_expired tx now policy) ordered))
         \<lparr>scanned = length ordered, eligible = 0, deleted = 0, conflicts = 0\<rparr>)))"

section \<open>Requests\<close>

text \<open>
  Everything a client, an operator or the recovery worker can ask of the coordinator, except
  retention, and the worlds that can be reached by any sequence of such requests.
\<close>

datatype handler =
    StartSaga | AbortSaga | PrepareTcc | ConfirmTcc | CancelTcc | PrepareXa | CommitXa | RollbackXa
  | PrepareMessage | DispatchMessage | AbortMessage | PrepareWorkflow | StartWorkflow | AbortWorkflow
  | RecoverCallback | ScheduleSubmit | ScheduleAbort | ForceStop | ResetRetry | Recover

fun handle :: "'s dtm \<Rightarrow> handler \<Rightarrow> string \<Rightarrow> ('s, transaction) run" where
  "handle D StartSaga g = start_saga D g"
| "handle D AbortSaga g = abort_saga D g"
| "handle D PrepareTcc g = prepare_tcc D g"
| "handle D ConfirmTcc g = confirm_tcc D g"
| "handle D CancelTcc g = cancel_tcc D g"
| "handle D PrepareXa g = prepare_xa D g"
| "handle D CommitXa g = commit_xa D g"
| "handle D RollbackXa g = rollback_xa D g"
| "handle D PrepareMessage g = prepare_message D g"
| "handle D DispatchMessage g = dispatch_message D g"
| "handle D AbortMessage g = abort_message D g"
| "handle D PrepareWorkflow g = prepare_workflow D g"
| "handle D StartWorkflow g = start_workflow D g"
| "handle D AbortWorkflow g = abort_workflow D g"
| "handle D RecoverCallback g = recover_callback_workflow D g"
| "handle D ScheduleSubmit g = schedule_submit D g"
| "handle D ScheduleAbort g = schedule_abort D g"
| "handle D ForceStop g = force_stop D g"
| "handle D ResetRetry g = reset_retry D g"
| "handle D Recover g = recover D g"

datatype request =
    Handle handler string
  | Submit transaction
  | RegisterBranch string branch
  | RecordProgress string workflow_progress
  | FinishWorkflow string transaction_status "string option" "string option"
  | ResetBatch nat
  | ResetBatchAfter u64 nat
  | Tick
  | TickWithLease string u64
  | Subscribe string string string
  | Unsubscribe string string
  | DeleteTopic string
  | Lookup string
  | ListAll
  | ListKv "string option" "string option" nat nat
  | Elapse

definition void :: "('s, 'a) run \<Rightarrow> ('s, unit) run" where
  "void m = then_ok m (\<lambda>_. ok ())"

fun perform :: "'s dtm \<Rightarrow> request \<Rightarrow> ('s, unit) run" where
  "perform D (Handle h g) = void (handle D h g)"
| "perform D (Submit tx) = void (submit D tx)"
| "perform D (RegisterBranch g b) = void (register_dynamic_branch D g b)"
| "perform D (RecordProgress g p) = void (record_workflow_progress D g p)"
| "perform D (FinishWorkflow g s rr rs) = void (finish_callback_workflow D g s rr rs)"
| "perform D (ResetBatch n) = void (reset_retry_batch D n)"
| "perform D (ResetBatchAfter after n) = void (reset_retry_batch_after D after n)"
| "perform D Tick = void (tick_recover_once D)"
| "perform D (TickWithLease owner ttl) = void (tick_recover_once_with_lease D owner ttl)"
| "perform D (Subscribe t u r) = void (subscribe D t u r)"
| "perform D (Unsubscribe t u) = void (unsubscribe D t u)"
| "perform D (DeleteTopic t) = void (delete_topic D t)"
| "perform D (Lookup g) = void (store_op D (\<lambda>_. get_transaction (dtm_store D) g))"
| "perform D ListAll = void (store_op D (\<lambda>_. list_transactions (dtm_store D)))"
| "perform D (ListKv cat k offset limit) = void (store_op D (\<lambda>_. list_kv (dtm_store D) cat k offset limit))"
| "perform D Elapse = void (current_millis D)"

inductive reaches :: "'s dtm \<Rightarrow> 's world \<Rightarrow> 's world \<Rightarrow> bool" for D where
  here: "reaches D w w"
| request: "reaches D w w1 \<Longrightarrow> reaches D w (snd (perform D r w1))"

end
