(* ===== verification/Lifecycle.thy ===== *)
theory Lifecycle
  imports Recovery
begin

text \<open>
  The life cycle of a transaction: which status may follow which, as an abstract state
  machine per transaction kind, and the proof that every operation of the coordinator
  refines it, for every store that keeps the contract of \<open>transaction_store\<close>, whatever the
  services answer, whenever a store request or its reply is lost, and whatever happens meanwhile to other
  transactions.
\<close>

section \<open>The state machine\<close>

fun next_statuses :: "transaction_kind \<Rightarrow> transaction_status \<Rightarrow> transaction_status list" where
  "next_statuses Tcc Submitted = [Trying, Prepared, Aborting, Aborted, Failed]"
| "next_statuses Tcc Trying = [Prepared, Aborting, Aborted, Failed]"
| "next_statuses Tcc Prepared = [Succeeding, Succeeded, Aborting, Aborted, Failed]"
| "next_statuses Saga Submitted = [Succeeding, Aborting, Aborted, Failed]"
| "next_statuses Saga Succeeding = [Succeeded, Aborting, Aborted, Failed]"
| "next_statuses Workflow Submitted = [Prepared, Succeeding, Succeeded, Aborting, Aborted, Failed]"
| "next_statuses Workflow Prepared = [Submitted, Succeeding, Succeeded, Aborting, Aborted, Failed]"
| "next_statuses Workflow Succeeding = [Succeeded, Aborting, Aborted, Failed]"
| "next_statuses Message Submitted = [Prepared, Succeeding, Aborted, Failed]"
| "next_statuses Message Prepared = [Succeeding, Aborted, Failed]"
| "next_statuses Xa Submitted = [Prepared, Aborting, Aborted, Failed]"
| "next_statuses Xa Prepared = [Succeeding, Succeeded, Aborting, Aborted, Failed]"
| "next_statuses k Succeeding = [Succeeded, Failed]"
| "next_statuses k Aborting = [Aborted, Failed]"
| "next_statuses k st = (if is_terminal st then [] else [Failed])"

inductive lifecycle :: "transaction_kind \<Rightarrow> transaction_status \<Rightarrow> transaction_status \<Rightarrow> bool" for k where
  stay: "lifecycle k st st"
| move: "lifecycle k st st1 \<Longrightarrow> st2 \<in> set (next_statuses k st1) \<Longrightarrow> lifecycle k st st2"

lemma lifecycle_trans: "lifecycle k b c \<Longrightarrow> lifecycle k a b \<Longrightarrow> lifecycle k a c"
  by (induction rule: lifecycle.induct) (auto intro: lifecycle.intros)

lemma lifecycle_next: "st2 \<in> set (next_statuses k st1) \<Longrightarrow> lifecycle k st1 st2"
  by (rule lifecycle.move [OF lifecycle.stay])

lemma lifecycle_closed:
  assumes "lifecycle k st st'" and "st \<in> S" and "\<And>a b. a \<in> S \<Longrightarrow> b \<in> set (next_statuses k a) \<Longrightarrow> b \<in> S"
  shows "st' \<in> S"
  using assms by (induction rule: lifecycle.induct) auto

lemma next_terminal: "is_terminal st \<Longrightarrow> next_statuses k st = []"
  by (cases k; cases st) simp_all

lemma next_aborting: "next_statuses k Aborting = [Aborted, Failed]"
  by (cases k) simp_all

lemma next_succeeding: "k \<in> {Tcc, Xa, Message} \<Longrightarrow> next_statuses k Succeeding = [Succeeded, Failed]"
  by (cases k) simp_all

lemma next_failed: "\<not> is_terminal st \<Longrightarrow> Failed \<in> set (next_statuses k st)"
  by (cases k; cases st) simp_all

lemma lifecycle_terminal: "lifecycle k st st' \<Longrightarrow> is_terminal st \<Longrightarrow> st' = st"
  using lifecycle_closed [of k st st' "{st}"] next_terminal [of st k] by auto

lemma lifecycle_aborting: "lifecycle k Aborting st' \<Longrightarrow> st' \<in> {Aborting, Aborted, Failed}"
  by (erule lifecycle_closed) (auto simp: next_aborting next_terminal)

lemma lifecycle_succeeding:
  "k \<in> {Tcc, Xa, Message} \<Longrightarrow> lifecycle k Succeeding st' \<Longrightarrow> st' \<in> {Succeeding, Succeeded, Failed}"
  by (erule lifecycle_closed) (auto simp: next_terminal dest: next_succeeding)

section \<open>What a run keeps\<close>

definition on_track :: "string \<Rightarrow> transaction_kind \<Rightarrow> transaction_status \<Rightarrow> abs_store \<Rightarrow> bool" where
  "on_track g k st a \<longleftrightarrow> (\<exists>tx. a_txs a g = Some tx \<and> tkind tx = k \<and> lifecycle k st (tstatus tx))"

definition tracks ::
  "('s \<Rightarrow> bool) \<Rightarrow> ('s \<Rightarrow> abs_store) \<Rightarrow> string \<Rightarrow> transaction_kind \<Rightarrow> transaction_status \<Rightarrow> 's \<Rightarrow> bool" where
  "tracks good view g k st s \<longleftrightarrow> good s \<and> on_track g k st (view s)"

text \<open>A transaction value fits if writing it respects the life cycle of transaction \<open>g\<close>.\<close>

definition fits :: "string \<Rightarrow> transaction_kind \<Rightarrow> transaction_status \<Rightarrow> transaction \<Rightarrow> bool" where
  "fits g k st tx \<longleftrightarrow> (gid tx = g \<longrightarrow> tkind tx = k \<and> lifecycle k st (tstatus tx))"

lemma transaction_edits [simp]:
  "gid (set_branch i b tx) = gid tx" "tkind (set_branch i b tx) = tkind tx"
  "tstatus (set_branch i b tx) = tstatus tx" "toptions (set_branch i b tx) = toptions tx"
  "branches (set_branch i b tx) = (branches tx)[i := b]"
  "gid (set_status s tx) = gid tx" "tkind (set_status s tx) = tkind tx"
  "tstatus (set_status s tx) = s" "branches (set_status s tx) = branches tx"
  "toptions (set_status s tx) = toptions tx"
  "gid (map_branches f tx) = gid tx" "tkind (map_branches f tx) = tkind tx"
  "tstatus (map_branches f tx) = tstatus tx" "branches (map_branches f tx) = map f (branches tx)"
  "toptions (map_branches f tx) = toptions tx"
  by (simp_all add: set_branch_def set_status_def map_branches_def)

lemma update_all_simps [simp]:
  "gid (update_all f is tx) = gid tx" "tkind (update_all f is tx) = tkind tx"
  "tstatus (update_all f is tx) = tstatus tx" "toptions (update_all f is tx) = toptions tx"
  "length (branches (update_all f is tx)) = length (branches tx)"
  unfolding update_all_def by (induction "is" arbitrary: tx) simp_all

lemma set_status_set_status [simp]: "set_status s (set_status s' tx) = set_status s tx"
  by (simp add: set_status_def)

lemma fits_simps [simp]:
  "fits g k st (set_branch i b tx) = fits g k st tx"
  "fits g k st (map_branches f tx) = fits g k st tx"
  "fits g k st (update_all f is tx) = fits g k st tx"
  "fits g k st (tx\<lparr>revision := r\<rparr>) = fits g k st tx"
  "fits g k st (set_status s (set_branch i b tx)) = fits g k st (set_status s tx)"
  "fits g k st (set_status s (map_branches f tx)) = fits g k st (set_status s tx)"
  "fits g k st (set_status s (update_all f is tx)) = fits g k st (set_status s tx)"
  "fits g k st (set_status s (tx\<lparr>revision := r\<rparr>)) = fits g k st (set_status s tx)"
  by (simp_all add: fits_def)

lemma fits_step:
  "fits g k st tx \<Longrightarrow> lifecycle (tkind tx) (tstatus tx) s \<Longrightarrow> fits g k st (set_status s tx)"
  by (auto simp: fits_def intro: lifecycle_trans)

lemma fits_next:
  assumes "fits g k st tx" and "s = tstatus tx \<or> s \<in> set (next_statuses (tkind tx) (tstatus tx))
      \<or> (\<exists>t \<in> set (next_statuses (tkind tx) (tstatus tx)). s \<in> set (next_statuses (tkind tx) t))"
  shows "fits g k st (set_status s tx)"
  using assms(2) by (intro fits_step [OF assms(1)]) (auto intro: lifecycle.stay lifecycle_next lifecycle.move)

locale undisturbed_run = transaction_store ops good view same
  for ops :: "'s store_ops" and good view same +
  fixes D :: "'s dtm" and g :: string and k :: transaction_kind and st :: transaction_status
  assumes store: "dtm_store D = ops"
    and undisturbed: "good s \<Longrightarrow>
      good (interfere D n s) \<and> a_txs (view (interfere D n s)) g = a_txs (view s) g"
begin

abbreviation "T \<equiv> tracks good view g k st"
abbreviation I :: "'s world \<Rightarrow> bool" where "I \<equiv> \<lambda>w. T (w_store w)"
abbreviation "fit \<equiv> fits g k st"

lemma undisturbed_T: "T s \<Longrightarrow> T (interfere D n s)"
  using undisturbed [of s n] by (simp add: tracks_def on_track_def)

lemma store_op_keeps:
  assumes "\<And>now s r s'. T s \<Longrightarrow> m now s = (r, s') \<Longrightarrow> T s' \<and> (\<forall>x. r = Inr x \<longrightarrow> Q x)"
  shows "keeps I (store_op D m) Q"
  unfolding keeps_def hoare_def
proof (intro allI impI)
  fix w assume "I w"
  then have start: "T (interfere D (w_step w) (w_store w))" (is "T ?s") by (rule undisturbed_T)
  obtain r s' where run: "m (clock D (w_step w)) ?s = (r, s')" by fastforce
  from assms [OF start run] have "T s'" "\<forall>x. r = Inr x \<longrightarrow> Q x" by auto
  with start run show "res_post (\<lambda>x w. I w \<and> Q x) I (store_op D m w)"
    by (cases "faults D (w_step w)"; cases r) (simp_all add: store_op_def Let_def)
qed

lemma implements_T:
  assumes "implements good view m spec" and "T s" and "m s = (r, s')"
    and "\<And>a r a'. on_track g k st a \<Longrightarrow> spec a = (r, a') \<Longrightarrow> on_track g k st a'"
  shows "T s'"
  using assms(2) by (cases rule: implements_cases [OF assms(1) _ assms(3)])
    (auto simp: tracks_def dest: assms(4))

lemma update_on_track:
  "fit tx \<Longrightarrow> on_track g k st a \<Longrightarrow> spec_update now tx a = (r, a') \<Longrightarrow> on_track g k st a'"
  by (auto simp: spec_update_def on_track_def fits_def)

lemma insert_on_track: "on_track g k st a \<Longrightarrow> spec_insert tx a = (r, a') \<Longrightarrow> on_track g k st a'"
  by (auto simp: spec_insert_def on_track_def split: if_splits)

lemma barrier_on_track: "on_track g k st a \<Longrightarrow> spec_barrier same b a = (r, a') \<Longrightarrow> on_track g k st a'"
  by (auto simp: on_track_def dest: spec_barrier_effect)

lemma release_on_track: "on_track g k st a \<Longrightarrow> spec_release same b a = (r, a') \<Longrightarrow> on_track g k st a'"
  by (auto simp: on_track_def spec_release_def)

lemma mutate_on_track:
  assumes "\<And>tx tx'. f tx = Inr tx' \<Longrightarrow> tkind tx' = tkind tx \<and> lifecycle (tkind tx) (tstatus tx) (tstatus tx')"
    and "on_track g k st a" and "spec_mutate g' f a = (r, a')"
  shows "on_track g k st a'"
proof -
  obtain tx where tx: "a_txs a g = Some tx" "tkind tx = k" "lifecycle k st (tstatus tx)"
    using assms(2) by (auto simp: on_track_def)
  show ?thesis
  proof (cases "a_txs a' g = a_txs a g")
    case True
    then show ?thesis using tx by (simp add: on_track_def)
  next
    case False
    then have "g' = g" using assms(3) by (auto simp: spec_mutate_def split: option.splits sum.splits if_splits)
    then obtain tx' where "f tx = Inr tx'" "a_txs a' g = Some tx'"
      using assms(3) tx(1) False by (auto simp: spec_mutate_def split: sum.splits)
    then show ?thesis using assms(1) [of tx tx'] tx by (auto simp: on_track_def intro: lifecycle_trans)
  qed
qed

subsection \<open>Rules for the atomic steps\<close>

lemma keeps_now_then [keeps_intro]:
  assumes "\<And>now. keeps I (kk now) Q"
  shows "keeps I (then_ok (current_millis D) kk) Q"
proof (rule keeps_then_ok [where R = "\<lambda>_. True"])
  show "keeps I (current_millis D) (\<lambda>_. True)" by (simp add: keeps_def hoare_def current_millis_def)
qed (rule assms)

lemma emit_keeps: "keeps I (emit e) (\<lambda>_. True)"
  by (simp add: keeps_def hoare_def emit_def)

lemma get_keeps:
  "keeps I (store_op D (\<lambda>_. get_transaction (dtm_store D) g')) (\<lambda>found. \<forall>tx. found = Some tx \<longrightarrow> gid tx = g' \<and> fit tx)"
proof (rule store_op_keeps)
  fix s r s' assume "T s" and run: "get_transaction (dtm_store D) g' s = (r, s')"
  then have T: "good s" "on_track g k st (view s)" by (simp_all add: tracks_def)
  have "good s'" and "spec_get g' (view s) = (r, view s')"
    using faithful_run [OF get_law T(1)] run store by auto
  then show "T s' \<and> (\<forall>x. r = Inr x \<longrightarrow> (\<forall>tx. x = Some tx \<longrightarrow> gid tx = g' \<and> fit tx))"
    using T own_gid by (auto simp: spec_get_def tracks_def on_track_def fits_def)
qed

lemma fetch_keeps: "keeps I (fetch D g') (\<lambda>tx. gid tx = g' \<and> fit tx)"
  unfolding fetch_def
proof (rule keeps_then_ok [OF get_keeps])
  show "keeps I (lift_res (ok_or found (TransactionNotFound g'))) (\<lambda>tx. gid tx = g' \<and> fit tx)"
    if "\<forall>tx. found = Some tx \<longrightarrow> gid tx = g' \<and> fit tx" for found
    using that by (intro keeps_lift_res) simp
qed

lemma persist_keeps:
  assumes "fit tx"
  shows "keeps I (persist_transaction D tx) (\<lambda>tx'. tx' = tx\<lparr>revision := sat_add (revision tx) 1\<rparr>)"
  unfolding persist_transaction_def
proof (rule keeps_then_ok [where R = "\<lambda>_. True"])
  show "keeps I (store_op D (\<lambda>now. update_transaction (dtm_store D) now tx)) (\<lambda>_. True)"
    using implements_T [OF update_law] update_on_track [OF assms] store
    by (intro store_op_keeps) (metis (full_types))
qed (rule keeps_ok, simp)

lemma claim_keeps: "keeps I (claim D b) (\<lambda>_. True)"
  unfolding claim_def using implements_T [OF barrier_law] barrier_on_track store
  by (intro store_op_keeps) (metis (full_types))

lemma release_keeps: "keeps I (release D b) (\<lambda>_. True)"
  unfolding release_def using implements_T [OF release_law] release_on_track store
  by (intro store_op_keeps) (metis (full_types))

text \<open>The same steps followed by the rest of a handler.\<close>

lemma keeps_fetch_then [keeps_intro]:
  "(\<And>tx. gid tx = g' \<Longrightarrow> fit tx \<Longrightarrow> keeps I (kk tx) Q) \<Longrightarrow> keeps I (then_ok (fetch D g') kk) Q"
  by (rule keeps_then_ok [OF fetch_keeps]) blast

lemma keeps_fetch_last [keeps_intro]: "keeps I (fetch D g') fit"
  by (rule keeps_conseq [OF fetch_keeps]) blast

lemma keeps_kind_then [keeps_intro]:
  assumes "\<And>tx. gid tx = g' \<Longrightarrow> tkind tx = kd \<Longrightarrow> fit tx \<Longrightarrow> keeps I (kk tx) Q"
  shows "keeps I (then_ok (transaction_of_kind D g' kd) kk) Q"
proof (rule keeps_then_ok [where R = "\<lambda>tx. gid tx = g' \<and> tkind tx = kd \<and> fit tx"])
  show "keeps I (transaction_of_kind D g' kd) (\<lambda>tx. gid tx = g' \<and> tkind tx = kd \<and> fit tx)"
    unfolding transaction_of_kind_def
    by (rule keeps_then_ok [OF fetch_keeps], rule keeps_then_ok [OF keeps_lift_res keeps_ok])
      (auto simp: ensure_kind_ok)
qed (use assms in blast)

lemma keeps_persist_then [keeps_intro]:
  "fit tx \<Longrightarrow> keeps I (kk (tx\<lparr>revision := sat_add (revision tx) 1\<rparr>)) Q \<Longrightarrow>
   keeps I (then_ok (persist_transaction D tx) kk) Q"
  by (rule keeps_then_ok [OF persist_keeps]) simp_all

lemma keeps_persist_last [keeps_intro]: "fit tx \<Longrightarrow> keeps I (persist_transaction D tx) fit"
  by (rule keeps_conseq [OF persist_keeps]) (simp_all add: fits_def)

lemma keeps_claim_then [keeps_intro]:
  "(\<And>d. keeps I (kk d) Q) \<Longrightarrow> keeps I (then_ok (claim D b) kk) Q"
  by (rule keeps_then_ok [OF claim_keeps])

lemma keeps_release_then [keeps_intro]:
  "(\<And>u. keeps I (kk u) Q) \<Longrightarrow> keeps I (then_ok (release D b) kk) Q"
  by (rule keeps_then_ok [OF release_keeps])

lemma invoke_keeps: "keeps I (invoke_branch D opts g' s b u) (\<lambda>_. True)"
proof -
  have "invoke_branch D opts g' s b u w = (r, w') \<Longrightarrow> w_store w' = w_store w \<and> (\<exists>x. r = Inr x)" for w r w'
    by (auto simp: invoke_branch_def Let_def act_simps emit_def current_millis_def
        notify_branch_failure_def split: if_splits)
  then show ?thesis by (intro keepsI) auto
qed

lemma keeps_invoke_then [keeps_intro]:
  "(\<And>res. keeps I (kk res) Q) \<Longrightarrow> keeps I (then_ok (invoke_branch D opts g' s b u) kk) Q"
  by (rule keeps_then_ok [OF invoke_keeps])

lemma keeps_lift_then [keeps_intro]:
  "(\<And>x. r = Inr x \<Longrightarrow> keeps I (kk x) Q) \<Longrightarrow> keeps I (then_ok (lift_res r) kk) Q"
  by (cases r) (simp_all add: keeps_fail)

lemma keeps_case_decision [keeps_intro]:
  "(d = Execute \<Longrightarrow> keeps I m1 Q) \<Longrightarrow> (d = SkipDuplicate \<Longrightarrow> keeps I m2 Q) \<Longrightarrow>
   (d = SkipNullCompensation \<Longrightarrow> keeps I m3 Q) \<Longrightarrow> (d = SkipCancelledTry \<Longrightarrow> keeps I m4 Q) \<Longrightarrow>
   keeps I (case d of Execute \<Rightarrow> m1 | SkipDuplicate \<Rightarrow> m2 | SkipNullCompensation \<Rightarrow> m3
     | SkipCancelledTry \<Rightarrow> m4) Q"
  by (cases d) simp_all

lemma keeps_case_sum [keeps_intro]:
  "(\<And>e. x = Inl e \<Longrightarrow> keeps I (m e) Q) \<Longrightarrow> (\<And>y. x = Inr y \<Longrightarrow> keeps I (m' y) Q) \<Longrightarrow>
   keeps I (case x of Inl e \<Rightarrow> m e | Inr y \<Rightarrow> m' y) Q"
  by (cases x) simp_all

lemma keeps_case_option [keeps_intro]:
  "(x = None \<Longrightarrow> keeps I m Q) \<Longrightarrow> (\<And>y. x = Some y \<Longrightarrow> keeps I (m' y) Q) \<Longrightarrow>
   keeps I (case x of None \<Rightarrow> m | Some y \<Rightarrow> m' y) Q"
  by (cases x) simp_all

lemma release_all_keeps: "keeps I (release_all D bs) (\<lambda>_. True)"
  by (induction bs) (auto intro!: keeps_intro)

lemma claim_all_keeps: "keeps I (claim_all D tx oper is claimed) (\<lambda>_. True)"
proof (induction "is" arbitrary: claimed)
  case (Cons i "is")
  have "keeps I (then_ok (release_all D bs) (\<lambda>_. ok False)) (\<lambda>_. True)" for bs
    by (rule keeps_then_ok [OF release_all_keeps keeps_ok]) simp
  then show ?case using Cons.IH by (auto simp: Let_def intro!: keeps_intro)
qed (auto intro: keeps_intro)

lemma keeps_claim_all_then [keeps_intro]:
  "(\<And>d. keeps I (kk d) Q) \<Longrightarrow> keeps I (then_ok (claim_all D tx oper is claimed) kk) Q"
  by (rule keeps_then_ok [OF claim_all_keeps])

lemma join_tasks_keeps:
  "keeps I (join_tasks D s oper url_of good_st bad_st is tx failed)
     (\<lambda>(tx', failed'). gid tx' = gid tx \<and> tkind tx' = tkind tx \<and> tstatus tx' = tstatus tx)"
proof (induction "is" arbitrary: tx failed)
  case (Cons i "is")
  then show ?case
    by (auto simp: Let_def intro!: keeps_intro split: prod.split)
      (rule keeps_conseq [OF Cons.IH], auto)+
qed (auto intro: keeps_intro)

lemma keeps_batch_then [keeps_intro]:
  assumes "\<And>tx' failed. fit tx' = fit tx \<Longrightarrow> (\<And>s. fit (set_status s tx') = fit (set_status s tx)) \<Longrightarrow>
      keeps I (kk (tx', failed)) Q"
  shows "keeps I (then_ok (run_batch D s oper url_of good_st bad_st is tx) kk) Q"
proof (rule keeps_then_ok [where R = "\<lambda>(tx', failed). gid tx' = gid tx \<and> tkind tx' = tkind tx \<and> tstatus tx' = tstatus tx"])
  show "keeps I (run_batch D s oper url_of good_st bad_st is tx)
      (\<lambda>(tx', failed). gid tx' = gid tx \<and> tkind tx' = tkind tx \<and> tstatus tx' = tstatus tx)"
    unfolding keeps_def hoare_def run_batch_def using keepsD [OF join_tasks_keeps] by fast
  fix res :: "transaction \<times> nat list"
  assume "case res of (tx', failed) \<Rightarrow> gid tx' = gid tx \<and> tkind tx' = tkind tx \<and> tstatus tx' = tstatus tx"
  then show "keeps I (kk res) Q" by (cases res) (auto simp: fits_def intro: assms)
qed

subsection \<open>Saga\<close>

text \<open>The statuses a loop writes: the one of its transaction, and those of its ends.\<close>

lemma abort_loop_keeps: "fit tx \<Longrightarrow> fit (set_status Aborted tx) \<Longrightarrow> keeps I (abort_loop D is tx) fit"
  by (induction "is" arbitrary: tx)
    (auto simp: Let_def intro!: keeps_intro split: option.split barrier_decision.split)

lemma compensate_loop_keeps:
  "fit tx \<Longrightarrow> fit (set_status Aborted tx) \<Longrightarrow> keeps I (compensate_loop n D tx) fit"
proof (induction n arbitrary: tx)
  case (Suc n)
  then show ?case by (auto simp: Let_def intro!: keeps_intro split: option.split)
qed (auto intro: keeps_intro)

lemma abort_concurrent_saga_keeps:
  "fit (set_status Aborting tx) \<Longrightarrow> fit (set_status Aborted tx) \<Longrightarrow> keeps I (abort_concurrent_saga D tx) fit"
  unfolding abort_concurrent_saga_def
  by (auto intro!: keeps_intro compensate_loop_keeps simp del: compensate_loop.simps)

lemma abort_saga_keeps: "keeps I (abort_saga D g') fit"
  unfolding abort_saga_def
  by (auto intro!: keeps_intro abort_concurrent_saga_keeps abort_loop_keeps fits_next)

lemma concurrent_loop_keeps:
  "fit tx \<Longrightarrow> fit (set_status Succeeded tx) \<Longrightarrow> fit (set_status Aborting tx) \<Longrightarrow> fit (set_status Aborted tx) \<Longrightarrow>
   keeps I (concurrent_loop n D tx) fit"
proof (induction n arbitrary: tx)
  case (Suc n)
  then show ?case
    by (auto simp: Let_def intro!: keeps_intro abort_concurrent_saga_keeps)
qed (auto intro: keeps_intro)

lemma saga_loop_keeps:
  "fit tx \<Longrightarrow> fit (set_status Succeeded tx) \<Longrightarrow> fit (set_status Aborting tx) \<Longrightarrow>
   keeps I (saga_loop D g' is tx) fit"
  by (induction "is" arbitrary: tx) (auto simp: Let_def intro!: keeps_intro abort_saga_keeps)

lemma start_saga_keeps: "keeps I (start_saga D g') fit"
  unfolding start_saga_def start_concurrent_saga_def
  by (auto intro!: keeps_intro concurrent_loop_keeps saga_loop_keeps fits_next simp del: concurrent_loop.simps)

subsection \<open>TCC and XA\<close>

lemma try_loop_keeps:
  "fit tx \<Longrightarrow> fit (set_status Prepared tx) \<Longrightarrow> fit (set_status Aborting tx) \<Longrightarrow> keeps I (try_loop D is tx) fit"
  by (induction "is" arbitrary: tx)
    (auto simp: Let_def intro!: keeps_intro split: barrier_decision.split)

lemma prepare_tcc_keeps: "keeps I (prepare_tcc D g') fit"
  unfolding prepare_tcc_def by (auto intro!: keeps_intro try_loop_keeps fits_next)

lemma confirm_loop_keeps:
  "fit tx \<Longrightarrow> fit (set_status Succeeded tx) \<Longrightarrow> keeps I (confirm_loop D is tx) fit"
  by (induction "is" arbitrary: tx) (auto simp: Let_def intro!: keeps_intro split: option.split)

lemma confirm_tcc_keeps: "keeps I (confirm_tcc D g') fit"
  unfolding confirm_tcc_def by (auto intro!: keeps_intro confirm_loop_keeps fits_next)

lemma cancel_loop_keeps:
  "fit tx \<Longrightarrow> fit (set_status Aborted tx) \<Longrightarrow> keeps I (cancel_loop D is tx) fit"
  by (induction "is" arbitrary: tx) (auto simp: Let_def intro!: keeps_intro)

lemma cancel_tcc_keeps: "keeps I (cancel_tcc D g') fit"
  unfolding cancel_tcc_def by (auto intro!: keeps_intro cancel_loop_keeps fits_next)

lemma xa_loop_keeps:
  "fit tx \<Longrightarrow> fit (set_status dn tx) \<Longrightarrow> keeps I (xa_loop D oper url_of db dn is tx) fit"
  by (induction "is" arbitrary: tx) (auto simp: Let_def intro!: keeps_intro split: option.split)

lemma prepare_xa_keeps: "keeps I (prepare_xa D g') fit"
  unfolding prepare_xa_def by (auto intro!: keeps_intro fits_next)

lemma commit_xa_keeps: "keeps I (commit_xa D g') fit"
  unfolding commit_xa_def by (auto intro!: keeps_intro xa_loop_keeps fits_next)

lemma rollback_xa_keeps: "keeps I (rollback_xa D g') fit"
  unfolding rollback_xa_def by (auto intro!: keeps_intro xa_loop_keeps fits_next)

subsection \<open>Message and Workflow\<close>

lemma prepare_message_keeps: "keeps I (prepare_message D g') fit"
  unfolding prepare_message_def by (auto intro!: keeps_intro fits_next)

lemma message_loop_keeps:
  "fit tx \<Longrightarrow> fit (set_status Succeeded tx) \<Longrightarrow> keeps I (message_loop D is tx) fit"
  by (induction "is" arbitrary: tx) (auto simp: Let_def intro!: keeps_intro)

lemma dispatch_concurrently_keeps:
  "fit tx \<Longrightarrow> fit (set_status Succeeded tx) \<Longrightarrow> fit (set_status Succeeding tx) \<Longrightarrow>
   keeps I (dispatch_concurrently D tx) fit"
  unfolding dispatch_concurrently_def Let_def by (intro keeps_intro) (auto intro!: keeps_intro)

lemma dispatch_message_keeps: "keeps I (dispatch_message D g') fit"
proof -
  have rest: "keeps I (then_ok (current_millis D) (\<lambda>now.
       if \<not> message_dispatch_due tx now then ok tx
       else if concurrent (toptions tx) then dispatch_concurrently D tx
       else message_loop D [0..<length (branches tx)] tx)) fit"
    if "fit tx" "fit (set_status Succeeded tx)" "fit (set_status Succeeding tx)" for tx
    using that by (intro keeps_intro dispatch_concurrently_keeps message_loop_keeps)
  have first: "keeps I (if tstatus tx \<noteq> Succeeding then persist_transaction D (set_status Succeeding tx) else ok tx)
      (\<lambda>tx'. fit tx' \<and> fit (set_status Succeeded tx') \<and> fit (set_status Succeeding tx'))"
    if "fit tx" "tkind tx = Message" "tstatus tx \<in> {Submitted, Prepared, Succeeding}" for tx
  proof -
    have "fit (set_status Succeeded tx)" "fit (set_status Succeeding tx)"
      using that by (auto intro!: fits_next)
    then show ?thesis
      using that(1) by (auto intro!: keeps_intro keeps_conseq [OF persist_keeps])
  qed
  show ?thesis
    unfolding dispatch_message_def
    by (auto intro!: keeps_kind_then keeps_if keeps_ok keeps_lift_then keeps_then_ok [OF first] rest)
qed

lemma abort_message_keeps: "keeps I (abort_message D g') fit"
  unfolding abort_message_def by (auto intro!: keeps_intro fits_next)

lemma prepare_workflow_keeps: "keeps I (prepare_workflow D g') (\<lambda>tx. gid tx = g' \<and> fit tx)"
  unfolding prepare_workflow_def
  by (auto intro!: keeps_intro keeps_conseq [OF persist_keeps] fits_next)

lemma workflow_abort_loop_keeps:
  "fit tx \<Longrightarrow> fit (set_status Aborted tx) \<Longrightarrow> keeps I (workflow_abort_loop D is tx) fit"
  by (induction "is" arbitrary: tx) (auto simp: Let_def intro!: keeps_intro split: option.split)

lemma abort_workflow_keeps: "keeps I (abort_workflow D g') fit"
  unfolding abort_workflow_def by (auto intro!: keeps_intro workflow_abort_loop_keeps fits_next)

lemma workflow_loop_keeps:
  "fit tx \<Longrightarrow> fit (set_status Succeeded tx) \<Longrightarrow> fit (set_status Aborting tx) \<Longrightarrow>
   keeps I (workflow_loop n D g' tx) fit"
  by (induction n arbitrary: tx)
    (auto simp: Let_def intro!: keeps_intro abort_workflow_keeps split: option.split)

lemma start_workflow_keeps: "keeps I (start_workflow D g') fit"
  unfolding start_workflow_def
  by (auto intro!: keeps_intro workflow_loop_keeps fits_next simp del: workflow_loop.simps)

subsection \<open>Callback workflows\<close>

lemma mutation_keeps:
  assumes "\<And>now. implements good view (m now) (spec_mutate g' (f now))"
    and "\<And>now tx tx'. f now tx = Inr tx' \<Longrightarrow>
      gid tx' = gid tx \<and> tkind tx' = tkind tx \<and> lifecycle (tkind tx) (tstatus tx) (tstatus tx')"
  shows "keeps I (store_op D m) fit"
proof (rule store_op_keeps)
  fix now s r s' assume T: "T s" and run: "m now s = (r, s')"
  have T': "T s'"
    by (rule implements_T [OF assms(1) T run], rule mutate_on_track [OF _ _ , rotated]) (use assms(2) in blast)+
  have "fit tx'" if "r = Inr tx'" for tx'
  proof -
    have good: "good s" using T by (simp add: tracks_def)
    have "spec_mutate g' (f now) (view s) = (Inr tx', view s')"
      using implements_cases [OF assms(1) good run] that by blast
    then obtain tx where "a_txs (view s) g' = Some tx" "f now tx = Inr tx'"
      by (auto simp: spec_mutate_def split: option.splits sum.splits)
    moreover from this have "gid tx = g'" using own_gid good by blast
    ultimately show ?thesis
      using T assms(2) [of now tx tx'] by (auto simp: tracks_def on_track_def fits_def intro: lifecycle_trans)
  qed
  with T' show "T s' \<and> (\<forall>x. r = Inr x \<longrightarrow> fit x)" by blast
qed

lemma register_keeps: "keeps I (register_dynamic_branch D g' b) fit"
  unfolding register_dynamic_branch_def store
  by (rule mutation_keeps [OF register_law]) (erule append_dynamic_branch_cases, auto intro: lifecycle.stay)

lemma progress_keeps: "keeps I (record_workflow_progress D g' p) fit"
  unfolding record_workflow_progress_def store
  by (rule mutation_keeps [OF progress_law])
    (drule append_workflow_progress_frame, auto intro: lifecycle.stay)

lemma completion_lifecycle:
  assumes "apply_workflow_completion now tx s rr rs = Inr tx'"
  shows "gid tx' = gid tx \<and> tkind tx' = tkind tx \<and> lifecycle (tkind tx) (tstatus tx) (tstatus tx')"
proof -
  have kind: "tkind tx = Workflow" "s \<in> {Succeeded, Failed}"
    using completion_guards [OF assms] by (auto simp: is_callback_workflow_def)
  from assms show ?thesis
  proof (cases rule: completion_cases)
    case replay
    then show ?thesis by (simp add: lifecycle.stay)
  next
    case first
    then show ?thesis using kind by (auto intro!: lifecycle_next)
  qed
qed

lemma finish_keeps: "keeps I (finish_callback_workflow D g' s rr rs) fit"
  unfolding finish_callback_workflow_def store
  by (rule mutation_keeps [OF finish_law]) (rule completion_lifecycle)

lemma or_terminal_keeps: "keeps I m fit \<Longrightarrow> keeps I (or_terminal D g' m) fit"
  unfolding or_terminal_def terminal_after_conflict_def
  by (erule keeps_catch) (auto intro!: keeps_intro split: sum.split)

lemma defer_keeps: "keeps I (defer_callback_workflow D tx at b out) fit"
proof -
  have "keeps I (store_op D (\<lambda>now. defer_recovery (dtm_store D) now g' d)) fit" for g' d
    unfolding store
    by (rule mutation_keeps [OF defer_law])
      (auto simp: defer_workflow_recovery_def res_bind_eq_Inr Let_def intro: lifecycle.stay)
  then show ?thesis unfolding defer_callback_workflow_def Let_def by (rule or_terminal_keeps)
qed

lemma query_keeps: "keeps I (query_workflow_callback D req opts) (\<lambda>_. True)"
  by (rule keepsI) (auto simp: query_workflow_callback_def act_simps emit_def)

lemma recover_callback_workflow_keeps: "keeps I (recover_callback_workflow D g') fit"
proof -
  have answer: "keeps I (case r of Completed \<Rightarrow> m1 | CallbackFailed reason \<Rightarrow> m2 reason | Ongoing \<Rightarrow> m3) fit"
    if "keeps I m1 fit" "\<And>reason. keeps I (m2 reason) fit" "keeps I m3 fit" for r m1 m2 m3
    using that by (cases r) simp_all
  show ?thesis
    unfolding recover_callback_workflow_def
    by (intro keeps_kind_then keeps_if keeps_ok keeps_lift_then keeps_now_then keeps_fetch_then
        keeps_case_sum keeps_case_option defer_keeps keeps_then_ok [OF query_keeps] answer
        or_terminal_keeps finish_keeps)
qed

lemma expire_callback_workflow_keeps:
  assumes "fit tx"
  shows "keeps I (expire_callback_workflow D tx) fit"
proof -
  have "keeps I (if tstatus tx = Submitted then prepare_workflow D (gid tx) else ok tx) fit"
    using assms by (auto intro!: keeps_ok keeps_conseq [OF prepare_workflow_keeps])
  then show ?thesis
    unfolding expire_callback_workflow_def
    by (rule keeps_then_ok) (auto intro!: keeps_lift_then or_terminal_keeps finish_keeps)
qed

subsection \<open>Entry points\<close>

lemma list_keeps: "keeps I (store_op D (\<lambda>_. list_transactions (dtm_store D))) (\<lambda>txs. \<forall>tx \<in> set txs. fit tx)"
proof (rule store_op_keeps)
  fix s r s' assume T: "T s" and run: "list_transactions (dtm_store D) s = (r, s')"
  then have "s' = s" "\<And>txs. r = Inr txs \<Longrightarrow> set txs = ran (a_txs (view s))"
    using list_law [of s] store by (auto simp: tracks_def)
  moreover have "fit tx" if "a_txs (view s) g' = Some tx" for g' tx
    using that T own_gid [of s g' tx] by (auto simp: tracks_def on_track_def fits_def)
  ultimately show "T s' \<and> (\<forall>x. r = Inr x \<longrightarrow> (\<forall>tx \<in> set x. fit tx))"
    using T by (auto simp: ran_def)
qed

lemma frame_keeps:
  assumes "\<And>s r s'. good s \<Longrightarrow> m s = (r, s') \<Longrightarrow> good s' \<and> view s' = view s"
  shows "keeps I (store_op D (\<lambda>_. m)) (\<lambda>_. True)"
  by (rule store_op_keeps) (metis assms tracks_def)

lemma kv_keeps:
  "keeps I (store_op D (\<lambda>_. get_kv (dtm_store D) cat key)) (\<lambda>_. True)"
  "keeps I (store_op D (\<lambda>_. create_kv (dtm_store D) e)) (\<lambda>_. True)"
  "keeps I (store_op D (\<lambda>_. update_kv (dtm_store D) e v)) (\<lambda>_. True)"
  "keeps I (store_op D (\<lambda>_. delete_kv (dtm_store D) cat key)) (\<lambda>_. True)"
  "keeps I (store_op D (\<lambda>_. list_kv (dtm_store D) cato keyo offset limit)) (\<lambda>_. True)"
  unfolding store
  by (rule frame_keeps, erule (1) get_kv_law create_kv_law update_kv_law delete_kv_law list_kv_law)+

lemma get_topic_keeps: "keeps I (get_topic D t) (\<lambda>_. True)"
  unfolding get_topic_def by (intro keeps_intro keeps_then_ok [OF kv_keeps(1)]) simp_all

lemma subscribe_keeps: "keeps I (subscribe D t u r) (\<lambda>_. True)"
proof -
  have "keeps I (subscribe_loop n D t sub) (\<lambda>_. True)" for n sub
    by (induction n)
      (auto intro!: keeps_intro keeps_then_ok [OF kv_keeps(1)] keeps_then_ok [OF kv_keeps(2)] keeps_then_ok [OF kv_keeps(3)])
  then show ?thesis unfolding subscribe_def by (auto intro!: keeps_intro)
qed

lemma unsubscribe_keeps: "keeps I (unsubscribe D t u) (\<lambda>_. True)"
proof -
  have "keeps I (unsubscribe_loop n D t u) (\<lambda>_. True)" for n
    by (induction n)
      (auto simp: Let_def intro!: keeps_intro keeps_then_ok [OF kv_keeps(1)] keeps_then_ok [OF kv_keeps(3)])
  then show ?thesis unfolding unsubscribe_def by (auto intro!: keeps_intro)
qed

lemma expand_keeps: "keeps I (expand_message_topics D tx) (\<lambda>_. True)"
proof -
  have "keeps I (expand_loop D bs acc) (\<lambda>_. True)" for bs acc
    by (induction bs arbitrary: acc) (auto intro!: keeps_intro keeps_then_ok [OF get_topic_keeps])
  then show ?thesis
    unfolding expand_message_topics_def by (rule keeps_then_ok) (auto intro!: keeps_intro)
qed

lemma submit_keeps: "keeps I (submit D tx) (\<lambda>_. True)"
proof -
  have insert: "keeps I (store_op D (\<lambda>_. insert_transaction (dtm_store D) tx)) (\<lambda>_. True)" for tx
    using implements_T [OF insert_law] insert_on_track store by (intro store_op_keeps) (metis (full_types))
  have expand: "keeps I (if tkind tx = Message then expand_message_topics D tx else ok tx) (\<lambda>_. True)" for tx
    by (auto intro!: keeps_ok expand_keeps)
  show ?thesis
    unfolding submit_def Let_def
    by (intro keeps_lift_then) (rule keeps_then_ok [OF expand], rule keeps_then_ok [OF insert keeps_ok], simp)
qed

lemma schedule_submit_keeps: "keeps I (schedule_submit D g') fit"
proof -
  have "fit (set_status Succeeding tx)"
    if "fit tx" "tkind tx \<in> {Tcc, Xa} \<and> tstatus tx = Prepared \<or> tkind tx = Message \<and> tstatus tx \<in> {Submitted, Prepared}" for tx
    using that by (auto intro!: fits_next)
  moreover have "fit (set_status Submitted tx)" if "fit tx" "tkind tx = Workflow \<and> tstatus tx = Prepared" for tx
    using that by (auto intro!: fits_next)
  ultimately show ?thesis
    unfolding schedule_submit_def by (intro keeps_intro) blast+
qed

lemma schedule_abort_keeps: "keeps I (schedule_abort D g') fit"
proof -
  have "fit (set_status Aborting tx)" if "fit tx" "tkind tx \<noteq> Message" "ensure_status tx (abort_allowed (tkind tx)) = Inr x" for tx x
    using that by (cases "tkind tx") (auto intro!: fits_next)
  then show ?thesis
    unfolding schedule_abort_def by (intro keeps_intro abort_message_keeps) (simp_all add: fits_simps)
qed

lemma force_stop_keeps: "keeps I (force_stop D g') fit"
proof -
  have "fit (set_status Failed tx)" if "fit tx" "\<not> is_terminal (tstatus tx)" for tx
    using that next_failed by (intro fits_next) auto
  then show ?thesis unfolding force_stop_def by (intro keeps_intro) (simp_all add: fits_simps)
qed

lemma retry_now_fits [simp]: "fit (retry_now now tx) = fit tx"
  by (simp add: retry_now_def fits_def Let_def)

lemma reset_retry_keeps: "keeps I (reset_retry D g') fit"
  unfolding reset_retry_def by (intro keeps_intro) simp_all

lemma reset_each_keeps: "keeps I (reset_each D gs acc) (\<lambda>_. True)"
  by (induction gs arbitrary: acc) (auto intro!: keeps_intro keeps_then_ok [OF reset_retry_keeps])

lemma recover_expired_keeps: "fit tx \<Longrightarrow> keeps I (recover_expired D g' tx) fit"
  unfolding recover_expired_def
  by (cases "tkind tx") (auto intro: cancel_tcc_keeps abort_saga_keeps expire_callback_workflow_keeps
      abort_workflow_keeps dispatch_message_keeps abort_message_keeps commit_xa_keeps rollback_xa_keeps)

lemmas handlers_keep = start_saga_keeps abort_saga_keeps prepare_tcc_keeps confirm_tcc_keeps cancel_tcc_keeps
  prepare_xa_keeps commit_xa_keeps rollback_xa_keeps prepare_message_keeps dispatch_message_keeps
  abort_message_keeps start_workflow_keeps abort_workflow_keeps recover_callback_workflow_keeps
  keeps_conseq [OF prepare_workflow_keeps conjunct2]

lemma recover_keeps: "keeps I (recover D g') fit"
proof -
  have step: "keeps I (recover_step D g' tx) fit" for tx
    unfolding recover_step_def by (cases "tkind tx") (auto intro!: keeps_fail handlers_keep)
  have callback: "keeps I (recover_callback D g' tx) fit" for tx
    unfolding recover_callback_def by (cases "tstatus tx") (auto intro!: keeps_fail handlers_keep)
  have wait: "keeps I (if c then then_ok (current_millis D) (\<lambda>now. ok (p now)) else ok False) (\<lambda>_. True)" for c p
    by (intro keeps_intro) simp_all
  show ?thesis
    unfolding recover_def
    by (intro keeps_fetch_then keeps_if keeps_ok keeps_then_ok [OF wait] keeps_now_then
        recover_expired_keeps callback step)
qed

lemma scan_one_keeps: "fit tx \<Longrightarrow> scan_one D now tx = Some m \<Longrightarrow> keeps I m fit"
  unfolding scan_one_def scan_callback_def scan_step_def
  by (auto intro: recover_expired_keeps handlers_keep
      split: if_splits transaction_status.splits transaction_kind.splits)

lemma scan_loop_keeps: "\<forall>tx \<in> set ts. fit tx \<Longrightarrow> keeps I (scan_loop D now ts acc) (\<lambda>_. True)"
proof (induction ts arbitrary: acc)
  case (Cons tx ts)
  then show ?case
    using scan_one_keeps [of tx now] by (cases "scan_one D now tx") (auto intro!: keeps_then_ok)
qed (auto intro: keeps_ok)

lemma tick_keeps: "keeps I (tick_recover_once D) (\<lambda>_. True)"
  unfolding tick_recover_once_def
  by (intro keeps_now_then keeps_then_ok [OF list_keeps] scan_loop_keeps)

lemma fenced_run: "undisturbed_run (fenced_ops ops f) good view same (fenced_dtm D f) g"
  using undisturbed by (intro undisturbed_run.intro fenced_store undisturbed_run_axioms.intro)
    (simp_all add: fenced_dtm_def store)

lemma handle_keeps: "keeps I (handle D h g') fit"
  by (cases h) (auto intro: handlers_keep schedule_submit_keeps schedule_abort_keeps force_stop_keeps
      reset_retry_keeps recover_keeps)

lemma void_keeps: "keeps I m Q \<Longrightarrow> keeps I (void m) (\<lambda>_. True)"
  unfolding void_def by (erule keeps_then_ok) (rule keeps_ok, simp)

lemma lease_tick_keeps: "keeps I (tick_recover_once_with_lease D owner ttl) (\<lambda>_. True)"
proof -
  have lease: "keeps I (store_op D (\<lambda>now. acquire_lease (dtm_store D) now nm owner ttl)) (\<lambda>_. True)" for nm
    unfolding store by (rule store_op_keeps) (metis lease_law tracks_def)
  show ?thesis
    unfolding tick_recover_once_with_lease_def
    by (intro keeps_then_ok [OF lease] keeps_case_option keeps_ok undisturbed_run.tick_keeps [OF fenced_run]) simp
qed

lemma reset_batch_keeps:
  "keeps I (reset_retry_batch D n) (\<lambda>_. True)"
  "keeps I (reset_retry_batch_after D after n) (\<lambda>_. True)"
  unfolding reset_retry_batch_def reset_retry_batch_after_def Let_def
  by (intro keeps_now_then keeps_then_ok [OF list_keeps] reset_each_keeps keeps_then_ok [OF reset_each_keeps]
      keeps_ok; simp)+

lemma millis_keeps: "keeps I (current_millis D) (\<lambda>_. True)"
  by (simp add: keeps_def hoare_def current_millis_def)

lemma perform_keeps: "keeps I (perform D r) (\<lambda>_. True)"
proof (cases r)
  case (DeleteTopic t)
  have "keeps I (delete_topic D t) (\<lambda>_. True)"
    unfolding delete_topic_def by (intro keeps_lift_then kv_keeps)
  then show ?thesis using DeleteTopic by (simp add: void_keeps)
qed (simp_all add: void_keeps [OF handle_keeps] void_keeps [OF submit_keeps] void_keeps [OF register_keeps]
  void_keeps [OF progress_keeps] void_keeps [OF finish_keeps] void_keeps [OF reset_batch_keeps(1)]
  void_keeps [OF reset_batch_keeps(2)] void_keeps [OF tick_keeps] void_keeps [OF lease_tick_keeps]
  void_keeps [OF subscribe_keeps] void_keeps [OF unsubscribe_keeps] void_keeps [OF kv_keeps(5)] void_keeps [OF get_keeps]
  void_keeps [OF list_keeps] void_keeps [OF millis_keeps])

lemma reaches_tracks: "reaches D w w' \<Longrightarrow> I w \<Longrightarrow> I w'"
  by (induction rule: reaches.induct) (auto intro: keeps_final [OF perform_keeps])

end

lemma on_track_start: "a_txs a g = Some tx \<Longrightarrow> on_track g (tkind tx) (tstatus tx) a"
  by (simp add: on_track_def lifecycle.stay)

section \<open>The life cycle on the in-memory store\<close>

text \<open>An environment with no other coordinator beside this one.\<close>

definition alone :: "'s dtm \<Rightarrow> 's store_ops \<Rightarrow> 's dtm" where
  "alone D ops = D\<lparr>dtm_store := ops, interfere := (\<lambda>_ s. s)\<rparr>"

interpretation mem_alone: undisturbed_run mem_ops mem_good mem_view "(=)" "alone D mem_ops" g k st
  for D g k st
  by unfold_locales (simp_all add: alone_def)

lemma mem_run:
  assumes "dtm_store D = mem_ops"
    and "\<And>n s. mem_good s \<Longrightarrow> mem_good (interfere D n s) \<and> bt_get (txs (interfere D n s)) g = bt_get (txs s) g"
  shows "undisturbed_run mem_ops mem_good mem_view (=) D g"
  using assms by unfold_locales (simp_all add: mem_view_def)

text \<open>
  C3: Decisions are irrevocable. Whatever sequence of requests clients, operators and the
  recovery worker make, whatever the services answer, and whatever store requests or replies
  are lost, a stored transaction that others leave alone stays stored with its kind, and its
  status moves only along the life cycle of its kind: a terminal status never changes; once
  aborting, it never succeeds; once a TCC, XA or Message transaction is succeeding, it is
  never aborted (an operator may still stop it).
\<close>

theorem decisions_irrevocable:
  assumes "dtm_store D = mem_ops"
    and "\<And>n s. mem_good s \<Longrightarrow> mem_good (interfere D n s) \<and> bt_get (txs (interfere D n s)) g = bt_get (txs s) g"
    and "mem_good (w_store w)" and "bt_get (txs (w_store w)) g = Some tx"
    and "reaches D w w'"
  shows "\<exists>tx'. bt_get (txs (w_store w')) g = Some tx' \<and> tkind tx' = tkind tx
    \<and> lifecycle (tkind tx) (tstatus tx) (tstatus tx')
    \<and> (is_terminal (tstatus tx) \<longrightarrow> tstatus tx' = tstatus tx)
    \<and> (tstatus tx = Aborting \<longrightarrow> tstatus tx' \<in> {Aborting, Aborted, Failed})
    \<and> (tstatus tx = Succeeding \<and> tkind tx \<in> {Tcc, Xa, Message} \<longrightarrow>
         tstatus tx' \<in> {Succeeding, Succeeded, Failed})"
proof -
  have "tracks mem_good mem_view g (tkind tx) (tstatus tx) (w_store w')"
    using undisturbed_run.reaches_tracks [OF mem_run [OF assms(1,2)] assms(5), of "tkind tx" "tstatus tx"]
      on_track_start [of "mem_view (w_store w)" g tx] assms(3,4)
    by (simp add: tracks_def mem_view_def)
  then obtain tx' where tx': "bt_get (txs (w_store w')) g = Some tx'" "tkind tx' = tkind tx"
      "lifecycle (tkind tx) (tstatus tx) (tstatus tx')"
    by (auto simp: tracks_def on_track_def mem_view_def)
  then show ?thesis
    using lifecycle_terminal [OF tx'(3)] lifecycle_aborting [of "tkind tx" "tstatus tx'"]
      lifecycle_succeeding [of "tkind tx" "tstatus tx'"] by auto
qed

text \<open>A coordinator on the in-memory store whose services all answer, and a world for it.\<close>

definition sample_dtm :: "mem_store dtm" where
  "sample_dtm = \<lparr>dtm_store = mem_ops, dtm_options_of = default_dtm_options, dtm_libs = sample_url_libs,
     invoke_ok = (\<lambda>_ _ _ _. True), query_callback = (\<lambda>_ _ _. None), clock = (\<lambda>n. 2000),
     interfere = (\<lambda>_ s. s), faults = (\<lambda>_. NoFault), pick = (\<lambda>_. 0)\<rparr>"

definition sample_world :: "transaction \<Rightarrow> mem_store world" where
  "sample_world tx = \<lparr>w_store = mem_new\<lparr>txs := [(gid tx, tx)]\<rparr>, w_step = 0, w_events = []\<rparr>"

lemma sample_world_good: "mem_good (w_store (sample_world tx))"
  by (simp add: sample_world_def mem_good_def mem_new_def bt_wf_def bt_get_singleton)

lemma sample_world_get: "bt_get (txs (w_store (sample_world tx))) (gid tx) = Some tx"
  by (simp add: sample_world_def bt_get_singleton)

definition committed_tcc :: transaction where
  "committed_tcc = set_status Succeeding (sample_tcc\<lparr>branches := [sample_branch]\<rparr>)"

theorem decisions_irrevocable_witness:
  "\<exists>tx'. bt_get (txs (w_store (snd (perform sample_dtm (Handle CancelTcc ''g1'') (sample_world committed_tcc))))) ''g1''
       = Some tx' \<and> tstatus tx' \<in> {Succeeding, Succeeded, Failed}"
proof -
  let ?w = "sample_world committed_tcc"
  have g: "gid committed_tcc = ''g1''" "tstatus committed_tcc = Succeeding" "tkind committed_tcc = Tcc"
    by (simp_all add: committed_tcc_def sample_defs)
  have "reaches sample_dtm ?w (snd (perform sample_dtm (Handle CancelTcc ''g1'') ?w))"
    by (rule reaches.request [OF reaches.here])
  from decisions_irrevocable [OF _ _ sample_world_good sample_world_get this]
  show ?thesis using g by (auto simp: sample_dtm_def)
qed

end
