(* ===== verification/Saga_Trace.thy ===== *)
theory Saga_Trace
  imports Lifecycle
begin

text \<open>
  What a Saga does, call by call. On a reliable store that nobody else writes to, with no
  lost requests, a sequential Saga calls the actions of its branches in order; when an action
  fails for good, it calls the compensations of that branch and of all before it in reverse
  order. The steps are proved once for every reliable store.
\<close>

section \<open>Single steps on a quiet store\<close>

text \<open>
  \<open>holds D view w tx C es\<close>: the store of world \<open>w\<close> holds transaction \<open>tx\<close> (up to its time
  stamp), the claims \<open>C\<close> are taken and the calls \<open>es\<close> have been made.
\<close>

definition holds ::
  "('s \<Rightarrow> bool) \<Rightarrow> ('s \<Rightarrow> abs_store) \<Rightarrow> 's world \<Rightarrow> transaction \<Rightarrow> branch_barrier set \<Rightarrow> event list \<Rightarrow> bool" where
  "holds good view w tx C es \<longleftrightarrow> good (w_store w)
     \<and> (\<exists>t. a_txs (view (w_store w)) (gid tx) = Some (tx\<lparr>updated_at_millis := t\<rparr>))
     \<and> a_claims (view (w_store w)) = C \<and> w_events w = es"

definition next_revision :: "transaction \<Rightarrow> transaction" where
  "next_revision tx = tx\<lparr>revision := sat_add (revision tx) 1\<rparr>"

lemma next_revision_simps [simp]:
  "gid (next_revision tx) = gid tx" "tkind (next_revision tx) = tkind tx"
  "tstatus (next_revision tx) = tstatus tx" "branches (next_revision tx) = branches tx"
  "toptions (next_revision tx) = toptions tx"
  by (simp_all add: next_revision_def)

lemma distinct_map_nth:
  "distinct (map f xs) \<Longrightarrow> i < length xs \<Longrightarrow> j < length xs \<Longrightarrow> f (xs ! i) = f (xs ! j) \<longleftrightarrow> i = j"
  using nth_eq_iff_index_eq [of "map f xs" i j] by simp

lemma map_rev_nth: "map (\<lambda>i. f (xs ! i)) (rev [0..<length xs]) = map f (rev xs)"
proof -
  have "map (\<lambda>i. f (xs ! i)) [0..<length xs] = map f xs" by (rule nth_equalityI) simp_all
  then show ?thesis by (metis rev_map)
qed

text \<open>How a service answers: always, or never.\<close>

definition answers :: "'s dtm \<Rightarrow> string \<Rightarrow> bool" where
  "answers D u \<longleftrightarrow> (\<forall>n p opts. invoke_ok D n u p opts)"

definition refuses :: "'s dtm \<Rightarrow> string \<Rightarrow> bool" where
  "refuses D u \<longleftrightarrow> (\<forall>n p opts. \<not> invoke_ok D n u p opts)"

definition action_event :: "string \<Rightarrow> branch \<Rightarrow> event" where
  "action_event g b = Invoked g (bid b) (action b) True"

definition done_branch :: "branch \<Rightarrow> branch" where
  "done_branch b = settled BSucceeded (started b)"

lemma branch_edits [simp]:
  "bid (started b) = bid b" "bid (attempted b) = bid b" "bid (settled s b) = bid b" "bid (marked s b) = bid b"
  "bstatus (settled s b) = s" "bstatus (marked s b) = s" "bid (done_branch b) = bid b"
  "payload (started b) = payload b" "action (started b) = action b"
  "compensate (marked s b) = compensate b" "compensate (settled s b) = compensate b"
  "compensate (started b) = compensate b" "compensate (attempted b) = compensate b"
  "attempts (started b) = sat_add (attempts b) 1" "bstatus (done_branch b) = BSucceeded"
  "compensate (done_branch b) = compensate b"
  by (simp_all add: started_def attempted_def settled_def marked_def done_branch_def)

text \<open>The transaction after its first \<open>m\<close> actions, and the claims taken by then.\<close>

definition done_upto :: "nat \<Rightarrow> transaction \<Rightarrow> transaction" where
  "done_upto m tx = (next_revision ^^ m)
     (tx\<lparr>branches := map done_branch (take m (branches tx)) @ drop m (branches tx)\<rparr>)"

definition claimed_upto ::
  "(branch_barrier \<Rightarrow> branch_barrier \<Rightarrow> bool) \<Rightarrow> transaction \<Rightarrow> string \<Rightarrow> nat \<Rightarrow> branch_barrier set \<Rightarrow> branch_barrier set" where
  "claimed_upto same tx oper m C = C \<union> {c. \<exists>j < m. same (branch_barrier_of tx j oper) c}"

lemma next_revision_pow [simp]:
  "gid ((next_revision ^^ m) tx) = gid tx" "tkind ((next_revision ^^ m) tx) = tkind tx"
  "tstatus ((next_revision ^^ m) tx) = tstatus tx" "branches ((next_revision ^^ m) tx) = branches tx"
  "toptions ((next_revision ^^ m) tx) = toptions tx"
  by (induction m) simp_all

lemma done_upto_simps [simp]:
  "gid (done_upto m tx) = gid tx" "tkind (done_upto m tx) = tkind tx" "tstatus (done_upto m tx) = tstatus tx"
  "toptions (done_upto m tx) = toptions tx"
  "branches (done_upto m tx) = map done_branch (take m (branches tx)) @ drop m (branches tx)"
  by (simp_all add: done_upto_def)

lemma done_upto_nth: "m < length (branches tx) \<Longrightarrow> branches (done_upto m tx) ! m = branches tx ! m"
  by (simp add: nth_append)

lemma next_revision_pow_update:
  "(next_revision ^^ m) (tx\<lparr>branches := bs\<rparr>) = ((next_revision ^^ m) tx)\<lparr>branches := bs\<rparr>"
  by (induction m) (simp_all add: next_revision_def)

lemma done_upto_Suc:
  assumes "m < length (branches tx)"
  shows "next_revision (set_branch m (done_branch (branches (done_upto m tx) ! m)) (done_upto m tx)) = done_upto (Suc m) tx"
proof -
  let ?bs = "branches tx"
  have upd: "(map done_branch (take m ?bs) @ drop m ?bs)[m := done_branch (?bs ! m)]
      = map done_branch (take (Suc m) ?bs) @ drop (Suc m) ?bs"
    using assms by (simp add: list_update_append take_Suc_conv_app_nth flip: Cons_nth_drop_Suc)
  show ?thesis
    unfolding done_upto_nth [OF assms] using upd
    by (simp add: set_branch_def) (simp add: done_upto_def next_revision_pow_update next_revision_def)
qed

lemma claimed_upto_Suc:
  "claimed_upto same tx oper m C \<union> {c. same (branch_barrier_of tx m oper) c} = claimed_upto same tx oper (Suc m) C"
  by (auto simp: claimed_upto_def less_Suc_eq)

text \<open>
  Compensation: a branch whose action succeeded, or was tried for the last time, has its
  compensation called, if it has one; a pending branch is skipped.
\<close>

definition undo_needed :: "branch \<Rightarrow> bool" where
  "undo_needed b \<longleftrightarrow> bstatus b \<in> {BSucceeded, BCompensating}"

definition compensation_event :: "string \<Rightarrow> branch \<Rightarrow> event list" where
  "compensation_event g b = (case compensate b of None \<Rightarrow> [] | Some u \<Rightarrow> [Invoked g (bid b) u True])"

definition undo_event :: "string \<Rightarrow> branch \<Rightarrow> event list" where
  "undo_event g b = (if undo_needed b then compensation_event g b else [])"

definition undone :: "branch_status \<Rightarrow> branch_status" where
  "undone st = (if st \<in> {BPending, BSucceeded, BCompensating} then BSkipped else st)"

definition undoable :: "'s dtm \<Rightarrow> branch_barrier set \<Rightarrow> transaction \<Rightarrow> nat \<Rightarrow> bool" where
  "undoable D C tx i \<longleftrightarrow> (undo_needed (branches tx ! i) \<longrightarrow> branch_barrier_of tx i ''compensate'' \<notin> C
     \<and> (\<forall>u. compensate (branches tx ! i) = Some u \<longrightarrow> answers D u))"

lemma edit_revision [simp]:
  "revision (set_branch i b tx) = revision tx" "revision (set_status st tx) = revision tx"
  "revision (map_branches f tx) = revision tx"
  "set_branch i b' (set_branch i b tx) = set_branch i b' tx"
  by (simp_all add: set_branch_def set_status_def map_branches_def)

lemma ids_kept: "bid b = bid (bs ! i) \<Longrightarrow> map bid (bs[i := b]) = map bid bs"
  by (metis list_update_id map_update nth_map list_update_beyond not_le_imp_less length_map)

text \<open>The branches when an action at position \<open>i\<close> has failed for good.\<close>

definition doomed_branches :: "nat \<Rightarrow> branch \<Rightarrow> branch list \<Rightarrow> branch list" where
  "doomed_branches i b bs = map (compensate_succeeded \<circ> done_branch) (take i bs) @ compensate_succeeded b # map compensate_succeeded (drop (Suc i) bs)"

lemma doomed_upto:
  assumes "i < length (branches tx)"
  shows "map compensate_succeeded ((branches (done_upto i tx))[i := b]) = doomed_branches i b (branches tx)"
  using assms by (simp add: doomed_branches_def list_update_append flip: Cons_nth_drop_Suc)

lemma compensate_succeeded_simps [simp]:
  "bid (compensate_succeeded b) = bid b" "compensate (compensate_succeeded b) = compensate b"
  "bstatus (compensate_succeeded b) = (if bstatus b = BSucceeded then BCompensating else bstatus b)"
  by (simp_all add: compensate_succeeded_def)

lemma doomed_ids: "i < length bs \<Longrightarrow> bid b = bid (bs ! i) \<Longrightarrow> map bid (doomed_branches i b bs) = map bid bs"
  using arg_cong [OF id_take_nth_drop, of i bs "map bid"] by (simp add: doomed_branches_def comp_def)

lemma doomed_compensate:
  "i < length bs \<Longrightarrow> compensate b = compensate (bs ! i) \<Longrightarrow> map compensate (doomed_branches i b bs) = map compensate bs"
  using arg_cong [OF id_take_nth_drop, of i bs "map compensate"] by (simp add: doomed_branches_def comp_def)

lemma doomed_events:
  assumes "i < length bs" and "bid b = bid (bs ! i)" and "compensate b = compensate (bs ! i)"
    and "bstatus b = BCompensating" and "\<forall>b \<in> set bs. bstatus b = BPending"
  shows "concat (map (undo_event g) (rev (doomed_branches i b bs))) = concat (map (compensation_event g) (rev (take (Suc i) bs)))"
proof -
  have "undo_event g (compensate_succeeded c) = []" if "c \<in> set (drop (Suc i) bs)" for c
    using assms(5) in_set_dropD [OF that] by (auto simp: undo_event_def undo_needed_def)
  then have later: "concat (map (undo_event g) (rev (map compensate_succeeded (drop (Suc i) bs)))) = []"
    by auto
  have earlier: "undo_event g \<circ> (compensate_succeeded \<circ> done_branch) = compensation_event g"
    by (auto simp: undo_event_def undo_needed_def compensation_event_def fun_eq_iff split: option.splits)
  have "undo_event g (compensate_succeeded b) = compensation_event g (bs ! i)"
    using assms(2-4) by (simp add: undo_event_def undo_needed_def compensation_event_def split: option.split)
  then show ?thesis
    using assms(1) later earlier by (simp add: doomed_branches_def take_Suc_conv_app_nth rev_map)
qed

lemma doomed_undone:
  assumes "bstatus b = BCompensating" and "\<forall>b \<in> set bs. bstatus b = BPending" and "i < length bs"
  shows "map (undone \<circ> bstatus) (doomed_branches i b bs) = replicate (length bs) BSkipped"
proof -
  have "\<forall>c \<in> set (doomed_branches i b bs). (undone \<circ> bstatus) c = BSkipped"
    using assms(1,2) by (auto simp: doomed_branches_def undone_def dest: in_set_dropD)
  then have "map (undone \<circ> bstatus) (doomed_branches i b bs) = replicate (length (doomed_branches i b bs)) BSkipped"
    by (metis map_eq_conv map_replicate_const)
  moreover have "length (doomed_branches i b bs) = length bs" using assms(3) by (simp add: doomed_branches_def)
  ultimately show ?thesis by simp
qed

locale quiet_run = reliable_store ops good view same
  for ops :: "'s store_ops" and good view same +
  fixes D :: "'s dtm"
  assumes store: "dtm_store D = ops"
    and no_interference: "interfere D n s = s"
    and no_faults: "faults D n = NoFault"
begin

abbreviation "at \<equiv> holds good view"

lemma store_op_quiet:
  "store_op D m w = (fst (m (clock D (w_step w)) (w_store w)),
     w\<lparr>w_store := snd (m (clock D (w_step w)) (w_store w)), w_step := Suc (w_step w)\<rparr>)"
  by (simp add: store_op_def no_faults no_interference Let_def)

lemma fetch_at:
  assumes "at w tx C es"
  shows "\<exists>w' t. fetch D (gid tx) w = (Inr (tx\<lparr>updated_at_millis := t\<rparr>), w') \<and> at w' tx C es"
proof -
  from assms obtain t where t: "a_txs (view (w_store w)) (gid tx) = Some (tx\<lparr>updated_at_millis := t\<rparr>)"
    and good: "good (w_store w)" by (auto simp: holds_def)
  obtain r s' where run: "get_transaction ops (gid tx) (w_store w) = (r, s')" by fastforce
  have "good s' \<and> spec_get (gid tx) (view (w_store w)) = (r, view s')"
    by (rule faithful_run [OF get_law good run])
  then show ?thesis
    using assms t run
    by (auto simp: fetch_def act_simps store_op_quiet store spec_get_def holds_def)
qed

lemma persist_at:
  assumes "at w tx0 C es" and "gid tx = gid tx0" and "revision tx = revision tx0"
  shows "\<exists>w'. persist_transaction D tx w = (Inr (next_revision tx), w') \<and> at w' (next_revision tx) C es"
proof -
  let ?now = "clock D (w_step w)"
  from assms(1) obtain t where t: "a_txs (view (w_store w)) (gid tx0) = Some (tx0\<lparr>updated_at_millis := t\<rparr>)"
    and good: "good (w_store w)" by (auto simp: holds_def)
  obtain r s' where run: "update_transaction ops ?now tx (w_store w) = (r, s')" by fastforce
  have r: "r = Inr ()" using update_reliable [OF good, of tx "tx0\<lparr>updated_at_millis := t\<rparr>" ?now] t assms run by simp
  then have "good s'" "spec_update ?now tx (view (w_store w)) = (r, view s')"
    using implements_cases [OF update_law good run] by blast+
  then have s': "good s'"
    "view s' = (view (w_store w))\<lparr>a_txs := (a_txs (view (w_store w)))(gid tx \<mapsto> (next_revision tx)\<lparr>updated_at_millis := ?now\<rparr>)\<rparr>"
    by (simp_all add: spec_update_def bump_transaction_revision_def next_revision_def)
  have "persist_transaction D tx w = (Inr (next_revision tx), w\<lparr>w_store := s', w_step := Suc (w_step w)\<rparr>)"
    using run r by (simp add: persist_transaction_def act_simps store_op_quiet store next_revision_def)
  moreover have "at (w\<lparr>w_store := s', w_step := Suc (w_step w)\<rparr>) (next_revision tx) C es"
    using assms(1) s' by (auto simp: holds_def)
  ultimately show ?thesis by blast
qed

lemma claim_at:
  assumes "at w tx C es" and "b \<notin> C" and "bb_op b \<notin> {''try'', ''cancel''}"
  shows "\<exists>w'. claim D b w = (Inr Execute, w') \<and> at w' tx (C \<union> {c. same b c}) es"
proof -
  let ?now = "clock D (w_step w)"
  have good: "good (w_store w)" and C: "a_claims (view (w_store w)) = C" using assms(1) by (simp_all add: holds_def)
  obtain r s' where run: "barrier ops ?now b (w_store w) = (r, s')" by fastforce
  have s': "good s'" "spec_barrier same b (view (w_store w)) = (r, view s')"
    using barrier_step [OF good run] by simp_all
  have r: "r = Inr Execute" using s'(2) assms(2,3) C by (auto simp: spec_barrier_def Let_def)
  have "claim D b w = (Inr Execute, w\<lparr>w_store := s', w_step := Suc (w_step w)\<rparr>)"
    using run r by (simp add: claim_def store_op_quiet store)
  moreover have "at (w\<lparr>w_store := s', w_step := Suc (w_step w)\<rparr>) tx (C \<union> {c. same b c}) es"
    using assms(1) s'(1) spec_barrier_effect [OF s'(2)] r by (simp add: holds_def first_claim_def)
  ultimately show ?thesis by blast
qed

lemma invoke_ok_at:
  assumes "at w tx C es" and "invoke_ok D (w_step w) u (payload b) opts"
  shows "\<exists>w'. invoke_branch D opts g st b u w = (Inr (True, b), w') \<and> at w' tx C (es @ [Invoked g (bid b) u True])"
  using assms by (auto simp: invoke_branch_def act_simps emit_def holds_def)

lemma invoke_fail_at:
  assumes "at w tx C es" and "\<not> invoke_ok D (w_step w) u (payload b) opts"
  shows "\<exists>w' b' al. invoke_branch D opts g st b u w = (Inr (False, b'), w')
    \<and> at w' tx C (es @ [Invoked g (bid b) u False, Alerted al])
    \<and> (\<exists>e n. b' = b\<lparr>last_error := e, next_retry_millis := n\<rparr>)"
proof -
  let ?w1 = "w\<lparr>w_events := es @ [Invoked g (bid b) u False], w_step := Suc (w_step w)\<rparr>"
  let ?delay = "retry_backoff D opts"
  let ?b = "record_branch_failure (clock D (Suc (w_step w))) b ''branch_call_failed'' ?delay
      (max (max_retry_backoff_millis (dtm_options_of D)) ?delay)"
  let ?al = "\<lparr>alert_gid = g, alert_status = transaction_status_name st,
       alert_branch = alert_branch_url (dtm_libs D) u, alert_error = ''branch_call_failed'',
       alert_retry_count = attempts ?b\<rparr>"
  let ?w3 = "w\<lparr>w_events := es @ [Invoked g (bid b) u False, Alerted ?al], w_step := Suc (Suc (Suc (w_step w)))\<rparr>"
  have ev: "w_events w = es" using assms(1) by (simp add: holds_def)
  have "invoke_branch D opts g st b u w = (Inr (False, ?b), ?w3)"
    using assms(2) ev
    by (simp add: invoke_branch_def act_simps emit_def current_millis_def notify_branch_failure_def Let_def)
  moreover have "at ?w3 tx C (es @ [Invoked g (bid b) u False, Alerted ?al])"
    using assms(1) by (simp add: holds_def)
  moreover have "\<exists>e n. ?b = b\<lparr>last_error := e, next_retry_millis := n\<rparr>"
    by (auto simp: record_branch_failure_def)
  ultimately show ?thesis by blast
qed

subsection \<open>Forward execution\<close>

lemma other_barrier:
  assumes "same (barrier_new g i oper) (barrier_new g j oper)" and "CHR '':'' \<notin> set oper"
  shows "i = j"
  using same_gid [OF assms(1)] assms(2) by (simp add: barrier_new_def)

lemma not_claimed_upto:
  assumes "distinct (map bid (branches tx))" and "m < length (branches tx)"
    and "branch_barrier_of tx m oper \<notin> C" and "CHR '':'' \<notin> set oper"
  shows "branch_barrier_of tx m oper \<notin> claimed_upto same tx oper m C"
proof -
  have "bid (branches tx ! j) \<noteq> bid (branches tx ! m)" if "j < m" for j
    using distinct_map_nth [OF assms(1), of j m] assms(2) that by simp
  then show ?thesis
    using assms(3,4) other_barrier [of "gid tx" _ oper "bid (branches tx ! m)"]
    by (auto simp: claimed_upto_def branch_barrier_of_def)
qed

lemma saga_step_ok:
  assumes "at w tx C es" and "i < length (branches tx)" and "bstatus (branches tx ! i) \<noteq> BSucceeded"
    and "branch_barrier_of tx i ''action'' \<notin> C" and "answers D (action (branches tx ! i))"
  defines "tx1 \<equiv> next_revision (set_branch i (done_branch (branches tx ! i)) tx)"
  shows "\<exists>w'. saga_loop D g (i # is) tx w = saga_loop D g is tx1 w'
    \<and> at w' tx1 (C \<union> {c. same (branch_barrier_of tx i ''action'') c}) (es @ [action_event (gid tx) (branches tx ! i)])"
proof -
  let ?b = "branches tx ! i" and ?bar = "branch_barrier_of tx i ''action''"
  obtain w1 where w1: "claim D ?bar w = (Inr Execute, w1)" "at w1 tx (C \<union> {c. same ?bar c}) es"
    using claim_at [OF assms(1,4)] by (auto simp: branch_barrier_of_def barrier_new_def)
  obtain w2 where w2: "invoke_branch D (toptions tx) (gid tx) (tstatus tx) (started ?b) (action ?b) w1 = (Inr (True, started ?b), w2)"
      "at w2 tx (C \<union> {c. same ?bar c}) (es @ [action_event (gid tx) ?b])"
    using invoke_ok_at [OF w1(2), of "action ?b" "started ?b" "toptions tx" "gid tx" "tstatus tx"] assms(5)
    by (auto simp: answers_def action_event_def)
  obtain w3 where w3: "persist_transaction D (set_branch i (done_branch ?b) tx) w2 = (Inr tx1, w3)"
      "at w3 tx1 (C \<union> {c. same ?bar c}) (es @ [action_event (gid tx) ?b])"
    using persist_at [OF w2(2), of "set_branch i (done_branch ?b) tx"] by (auto simp: tx1_def set_branch_def)
  have "saga_loop D g (i # is) tx w = saga_loop D g is tx1 w3"
    using assms(3) w1(1) w2(1) w3(1) by (simp add: Let_def act_simps done_branch_def)
  then show ?thesis using w3(2) by blast
qed

text \<open>The first \<open>m\<close> actions succeed, whatever comes then.\<close>

lemma saga_actions:
  assumes "at w tx C es" and "distinct (map bid (branches tx))" and "m \<le> length (branches tx)"
    and "\<And>j. j < length (branches tx) \<Longrightarrow> bstatus (branches tx ! j) \<noteq> BSucceeded
      \<and> branch_barrier_of tx j ''action'' \<notin> C"
    and "\<And>j. j < m \<Longrightarrow> answers D (action (branches tx ! j))"
  shows "\<exists>w'. saga_loop D g [0..<length (branches tx)] tx w = saga_loop D g [m..<length (branches tx)] (done_upto m tx) w'
    \<and> at w' (done_upto m tx) (claimed_upto same tx ''action'' m C) (es @ map (action_event (gid tx)) (take m (branches tx)))"
  using assms(3,5)
proof (induction m)
  case 0
  have "done_upto 0 tx = tx" "claimed_upto same tx ''action'' 0 C = C" by (simp_all add: done_upto_def claimed_upto_def)
  then show ?case using assms(1) by auto
next
  case (Suc m)
  let ?tx = "done_upto m tx" and ?C = "claimed_upto same tx ''action'' m C"
  have m: "m < length (branches tx)" using Suc.prems(1) by simp
  have b: "branches ?tx ! m = branches tx ! m" using m by (rule done_upto_nth)
  obtain w1 where run: "saga_loop D g [0..<length (branches tx)] tx w = saga_loop D g [m..<length (branches tx)] ?tx w1"
    and at1: "at w1 ?tx ?C (es @ map (action_event (gid tx)) (take m (branches tx)))"
    using Suc.IH Suc.prems by auto
  have bar: "branch_barrier_of ?tx m ''action'' = branch_barrier_of tx m ''action''"
    using b by (simp add: branch_barrier_of_def)
  have free: "branch_barrier_of ?tx m ''action'' \<notin> ?C"
    unfolding bar using assms(4) [OF m] not_claimed_upto [OF assms(2) m] by simp
  obtain w2 where "saga_loop D g (m # [Suc m..<length (branches tx)]) ?tx w1
        = saga_loop D g [Suc m..<length (branches tx)] (next_revision (set_branch m (done_branch (branches ?tx ! m)) ?tx)) w2"
      "at w2 (next_revision (set_branch m (done_branch (branches ?tx ! m)) ?tx))
        (?C \<union> {c. same (branch_barrier_of ?tx m ''action'') c})
        ((es @ map (action_event (gid tx)) (take m (branches tx))) @ [action_event (gid ?tx) (branches ?tx ! m)])"
    using saga_step_ok [OF at1 _ _ free] m b assms(4) [OF m] Suc.prems(2) [of m] by fastforce
  moreover have "next_revision (set_branch m (done_branch (branches ?tx ! m)) ?tx) = done_upto (Suc m) tx"
    using m by (rule done_upto_Suc)
  moreover have "?C \<union> {c. same (branch_barrier_of ?tx m ''action'') c} = claimed_upto same tx ''action'' (Suc m) C"
    unfolding bar by (rule claimed_upto_Suc)
  ultimately show ?case
    using run m b by (auto simp: upt_conv_Cons take_Suc_conv_app_nth)
qed

subsection \<open>Compensation\<close>

lemma abort_step:
  assumes "at w tx0 C es" and "i < length (branches tx)" and "undo_needed (branches tx ! i)"
    and "undoable D C tx i"
  shows "\<exists>b w'. abort_loop D (i # is) tx w = abort_loop D is (set_branch i b tx) w'
    \<and> bid b = bid (branches tx ! i) \<and> bstatus b = BSkipped
    \<and> at w' tx0 (C \<union> {c. same (branch_barrier_of tx i ''compensate'') c}) (es @ undo_event (gid tx) (branches tx ! i))"
proof -
  let ?b = "marked BCompensating (branches tx ! i)" and ?bar = "branch_barrier_of tx i ''compensate''"
  let ?C = "C \<union> {c. same ?bar c}"
  have bar: "branch_barrier_of (set_branch i ?b tx) i ''compensate'' = ?bar"
    using assms(2) by (simp add: branch_barrier_of_def)
  have free: "?bar \<notin> C" and url: "\<And>u. compensate (branches tx ! i) = Some u \<Longrightarrow> answers D u"
    using assms(3,4) by (auto simp: undoable_def)
  have st: "bstatus (branches tx ! i) \<noteq> BPending" "bstatus (branches tx ! i) \<in> {BSucceeded, BCompensating}"
    using assms(3) by (auto simp: undo_needed_def)
  obtain w1 where w1: "claim D ?bar w = (Inr Execute, w1)" "at w1 tx0 ?C es"
    using claim_at [OF assms(1) free] by (auto simp: branch_barrier_of_def barrier_new_def)
  show ?thesis
  proof (cases "compensate (branches tx ! i)")
    case None
    have "abort_loop D (i # is) tx w = abort_loop D is (set_branch i (settled BSkipped ?b) tx) w1"
      using st w1(1) None by (simp add: Let_def act_simps bar)
    then show ?thesis
      using w1(2) None by (intro exI [of _ "settled BSkipped ?b"]) (auto simp: undo_event_def compensation_event_def)
  next
    case (Some u)
    obtain w2 where w2: "invoke_branch D (toptions tx) (gid tx) (tstatus tx) (attempted ?b) u w1 = (Inr (True, attempted ?b), w2)"
        "at w2 tx0 ?C (es @ [Invoked (gid tx) (bid (branches tx ! i)) u True])"
      using invoke_ok_at [OF w1(2), of u "attempted ?b" "toptions tx" "gid tx" "tstatus tx"] url [OF Some]
      by (auto simp: answers_def)
    have "abort_loop D (i # is) tx w = abort_loop D is (set_branch i (settled BSkipped (attempted ?b)) tx) w2"
      using st w1(1) w2(1) Some by (simp add: Let_def act_simps bar)
    then show ?thesis
      using w2(2) Some assms(3) by (intro exI [of _ "settled BSkipped (attempted ?b)"]) (auto simp: undo_event_def compensation_event_def)
  qed
qed

lemma abort_step_any:
  assumes "at w tx0 C es" and "i < length (branches tx)" and "undoable D C tx i"
  shows "\<exists>b w' C'. abort_loop D (i # is) tx w = abort_loop D is (set_branch i b tx) w'
    \<and> bid b = bid (branches tx ! i) \<and> bstatus b = undone (bstatus (branches tx ! i))
    \<and> at w' tx0 C' (es @ undo_event (gid tx) (branches tx ! i))
    \<and> C' \<subseteq> C \<union> {c. same (branch_barrier_of tx i ''compensate'') c}"
proof (cases "undo_needed (branches tx ! i)")
  case True
  then have "undone (bstatus (branches tx ! i)) = BSkipped" by (auto simp: undone_def undo_needed_def)
  then show ?thesis using abort_step [OF assms(1,2) True assms(3), of "is"] by fastforce
next
  case False
  let ?b = "if bstatus (branches tx ! i) = BPending then marked BSkipped (branches tx ! i) else branches tx ! i"
  have "abort_loop D (i # is) tx w = abort_loop D is (set_branch i ?b tx) w"
    using False by (auto simp: Let_def undo_needed_def set_branch_def)
  moreover have "bid ?b = bid (branches tx ! i)" "bstatus ?b = undone (bstatus (branches tx ! i))"
    using False by (auto simp: undone_def undo_needed_def)
  moreover have "at w tx0 C (es @ undo_event (gid tx) (branches tx ! i))"
    using assms(1) False by (simp add: undo_event_def)
  ultimately show ?thesis by blast
qed

text \<open>
  The loop over the branches \<open>is\<close>: it calls the compensations that are needed, in the order of
  \<open>is\<close>, and leaves the transaction aborted.
\<close>

lemma abort_loop_at:
  assumes "at w tx0 C es" and "gid tx = gid tx0" and "revision tx = revision tx0"
    and "distinct is" and "distinct (map bid (branches tx))"
    and "\<And>i. i \<in> set is \<Longrightarrow> i < length (branches tx) \<and> undoable D C tx i"
  shows "\<exists>w' tx' C'. abort_loop D is tx w = (Inr tx', w')
    \<and> at w' tx' C' (es @ concat (map (\<lambda>i. undo_event (gid tx) (branches tx ! i)) is))
    \<and> gid tx' = gid tx \<and> tstatus tx' = Aborted \<and> length (branches tx') = length (branches tx)
    \<and> (\<forall>i < length (branches tx). bstatus (branches tx' ! i)
         = (if i \<in> set is then undone (bstatus (branches tx ! i)) else bstatus (branches tx ! i)))"
  using assms
proof (induction "is" arbitrary: w tx C es)
  case Nil
  obtain w' where "persist_transaction D (set_status Aborted tx) w = (Inr (next_revision (set_status Aborted tx)), w')"
      "at w' (next_revision (set_status Aborted tx)) C es"
    using persist_at [OF Nil.prems(1), of "set_status Aborted tx"] Nil.prems by auto
  then show ?case by (intro exI [of _ w']) auto
next
  case (Cons i "is")
  let ?b = "branches tx ! i"
  have i: "i < length (branches tx)" "undoable D C tx i" "i \<notin> set is" "distinct is"
    using Cons.prems by auto
  obtain b w1 C1 where step: "abort_loop D (i # is) tx w = abort_loop D is (set_branch i b tx) w1"
      and b: "bid b = bid ?b" "bstatus b = undone (bstatus ?b)"
      and w1: "at w1 tx0 C1 (es @ undo_event (gid tx) ?b)"
      and C1: "C1 \<subseteq> C \<union> {c. same (branch_barrier_of tx i ''compensate'') c}"
    using abort_step_any [OF Cons.prems(1) i(1,2), of "is"] by blast
  have other: "branches (set_branch i b tx) ! j = branches tx ! j" if "j \<in> set is" for j
    using that i(3) by (cases "i = j") auto
  have "undoable D C1 (set_branch i b tx) j" if "j \<in> set is" for j
  proof -
    have "branch_barrier_of tx j ''compensate'' \<notin> {c. same (branch_barrier_of tx i ''compensate'') c}"
      using other_barrier [of "gid tx" "bid ?b" "''compensate''" "bid (branches tx ! j)"]
        distinct_map_nth [OF Cons.prems(5), of i j] i(1,3) Cons.prems(6) [of j] that
      by (auto simp: branch_barrier_of_def)
    then show ?thesis
      using Cons.prems(6) [of j] that other [OF that] C1 by (auto simp: undoable_def branch_barrier_of_def)
  qed
  moreover have "distinct (map bid (branches (set_branch i b tx)))"
    using Cons.prems(5) b(1) by (simp add: ids_kept)
  ultimately obtain w' tx' C' where IH: "abort_loop D is (set_branch i b tx) w1 = (Inr tx', w')"
      "at w' tx' C' ((es @ undo_event (gid tx) ?b) @ concat (map (\<lambda>j. undo_event (gid tx) (branches (set_branch i b tx) ! j)) is))"
      "gid tx' = gid tx" "tstatus tx' = Aborted" "length (branches tx') = length (branches tx)"
      "\<And>j. j < length (branches tx) \<Longrightarrow> bstatus (branches tx' ! j)
         = (if j \<in> set is then undone (bstatus (branches (set_branch i b tx) ! j)) else bstatus (branches (set_branch i b tx) ! j))"
    using Cons.IH [OF w1, of "set_branch i b tx"] Cons.prems i(4) by fastforce
  have "map (\<lambda>j. undo_event (gid tx) (branches (set_branch i b tx) ! j)) is = map (\<lambda>j. undo_event (gid tx) (branches tx ! j)) is"
    using other by (intro map_cong) simp_all
  then have "at w' tx' C' (es @ concat (map (\<lambda>j. undo_event (gid tx) (branches tx ! j)) (i # is)))"
    using IH(2) unfolding list.map(2) concat.simps append_assoc by argo
  moreover have "bstatus (branches tx' ! j) = (if j \<in> set (i # is) then undone (bstatus (branches tx ! j)) else bstatus (branches tx ! j))"
    if "j < length (branches tx)" for j
    using IH(6) [OF that] b(2) i(1,3) other [of j] by (auto simp: nth_list_update)
  ultimately show ?case using step IH(1,3,4,5) by auto
qed

lemma holds_time_stamp: "at w (tx\<lparr>updated_at_millis := t\<rparr>) C es \<longleftrightarrow> at w tx C es"
  by (simp add: holds_def)

lemma abort_saga_at:
  assumes "at w tx C es" and "tkind tx = Saga" and "tstatus tx \<in> {Submitted, Succeeding, Aborting}"
    and "\<not> concurrent (toptions tx)" and "distinct (map bid (branches tx))"
    and "\<And>i. i < length (branches tx) \<Longrightarrow> undoable D C tx i"
  shows "\<exists>w' tx' C'. abort_saga D (gid tx) w = (Inr tx', w')
    \<and> at w' tx' C' (es @ concat (map (undo_event (gid tx)) (rev (branches tx))))
    \<and> gid tx' = gid tx \<and> tstatus tx' = Aborted \<and> map bstatus (branches tx') = map (undone \<circ> bstatus) (branches tx)"
proof -
  obtain w1 t where w1: "fetch D (gid tx) w = (Inr (tx\<lparr>updated_at_millis := t\<rparr>), w1)" "at w1 tx C es"
    using fetch_at [OF assms(1)] by blast
  let ?tx = "set_status Aborting (tx\<lparr>updated_at_millis := t\<rparr>)" and ?is = "rev [0..<length (branches tx)]"
  have tx: "gid ?tx = gid tx" "revision ?tx = revision tx" "branches ?tx = branches tx" by (simp_all add: set_status_def)
  have undoable: "undoable D C ?tx i \<longleftrightarrow> undoable D C tx i" for i
    by (simp add: undoable_def branch_barrier_of_def tx)
  have run: "abort_saga D (gid tx) w = abort_loop D ?is ?tx w1"
    using w1(1) assms(2-4) by (auto simp: abort_saga_def act_simps ensure_kind_def ensure_status_def)
  have events: "map (\<lambda>i. undo_event (gid tx) (branches tx ! i)) ?is = map (undo_event (gid tx)) (rev (branches tx))"
    by (rule map_rev_nth)
  obtain w' tx' C' where loop: "abort_loop D ?is ?tx w1 = (Inr tx', w')"
      "at w' tx' C' (es @ concat (map (\<lambda>i. undo_event (gid tx) (branches tx ! i)) ?is))"
      "gid tx' = gid tx" "tstatus tx' = Aborted" "length (branches tx') = length (branches tx)"
      "\<And>i. i < length (branches tx) \<Longrightarrow> bstatus (branches tx' ! i) = undone (bstatus (branches tx ! i))"
    using abort_loop_at [OF w1(2) tx(1,2), of ?is] assms(5,6) unfolding tx undoable by fastforce
  have "map bstatus (branches tx') = map (undone \<circ> bstatus) (branches tx)"
    using loop(5,6) by (intro nth_equalityI) simp_all
  then show ?thesis using run loop(1-4) events by auto
qed

subsection \<open>Whole runs\<close>

lemma start_saga_prefix:
  assumes "at w tx C es" and "tkind tx = Saga" and "tstatus tx \<in> {Submitted, Succeeding}"
    and "\<not> concurrent (toptions tx)"
  shows "\<exists>w' t. start_saga D (gid tx) w
      = saga_loop D (gid tx) [0..<length (branches tx)] (next_revision (set_status Succeeding (tx\<lparr>updated_at_millis := t\<rparr>))) w'
    \<and> at w' (next_revision (set_status Succeeding (tx\<lparr>updated_at_millis := t\<rparr>))) C es"
proof -
  obtain w1 t where w1: "fetch D (gid tx) w = (Inr (tx\<lparr>updated_at_millis := t\<rparr>), w1)" "at w1 tx C es"
    using fetch_at [OF assms(1)] by blast
  let ?tx = "set_status Succeeding (tx\<lparr>updated_at_millis := t\<rparr>)"
  obtain w2 where w2: "persist_transaction D ?tx w1 = (Inr (next_revision ?tx), w2)" "at w2 (next_revision ?tx) C es"
    using persist_at [OF w1(2), of ?tx] by auto
  have "start_saga D (gid tx) w = saga_loop D (gid tx) [0..<length (branches tx)] (next_revision ?tx) w2"
    using w1(1) w2(1) assms(2-4) by (auto simp: start_saga_def act_simps ensure_kind_def ensure_status_def)
  then show ?thesis using w2(2) by blast
qed

lemma start_saga_succeeds:
  assumes "at w tx C es" and "tkind tx = Saga" and "tstatus tx \<in> {Submitted, Succeeding}"
    and "\<not> concurrent (toptions tx)" and "distinct (map bid (branches tx))"
    and "\<And>j. j < length (branches tx) \<Longrightarrow> bstatus (branches tx ! j) \<noteq> BSucceeded
      \<and> branch_barrier_of tx j ''action'' \<notin> C \<and> answers D (action (branches tx ! j))"
  shows "\<exists>w' tx' C'. start_saga D (gid tx) w = (Inr tx', w')
    \<and> at w' tx' C' (es @ map (action_event (gid tx)) (branches tx))
    \<and> gid tx' = gid tx \<and> tstatus tx' = Succeeded \<and> branches tx' = map done_branch (branches tx)"
proof -
  let ?n = "length (branches tx)"
  obtain w1 t where w1: "start_saga D (gid tx) w = saga_loop D (gid tx) [0..<?n] (next_revision (set_status Succeeding (tx\<lparr>updated_at_millis := t\<rparr>))) w1"
      "at w1 (next_revision (set_status Succeeding (tx\<lparr>updated_at_millis := t\<rparr>))) C es"
    using start_saga_prefix [OF assms(1-4)] by blast
  let ?tx = "next_revision (set_status Succeeding (tx\<lparr>updated_at_millis := t\<rparr>))"
  have bar: "branch_barrier_of ?tx j oper = branch_barrier_of tx j oper" for j oper by (simp add: branch_barrier_of_def)
  obtain w2 where w2: "saga_loop D (gid tx) [0..<?n] ?tx w1 = saga_loop D (gid tx) [?n..<?n] (done_upto ?n ?tx) w2"
      "at w2 (done_upto ?n ?tx) (claimed_upto same ?tx ''action'' ?n C) (es @ map (action_event (gid tx)) (branches tx))"
    using saga_actions [OF w1(2), of ?n "gid tx"] assms(5,6) by (auto simp: bar)
  let ?final = "set_status Succeeded (done_upto ?n ?tx)"
  obtain w3 where "persist_transaction D ?final w2 = (Inr (next_revision ?final), w3)"
      "at w3 (next_revision ?final) (claimed_upto same ?tx ''action'' ?n C) (es @ map (action_event (gid tx)) (branches tx))"
    using persist_at [OF w2(2), of ?final] by auto
  then show ?thesis
    using w1(1) w2(1) by (intro exI [of _ w3] exI [of _ "next_revision ?final"]) auto
qed

text \<open>
  An action that fails for good: the branch and those that succeeded before it are marked for
  compensation, and the Saga is aborted.
\<close>

lemma saga_step_refused:
  assumes "at w tx C es" and "i < length (branches tx)" and "bstatus (branches tx ! i) \<noteq> BSucceeded"
    and "branch_barrier_of tx i ''action'' \<notin> C" and "refuses D (action (branches tx ! i))"
    and "saga_max_attempts (toptions tx) \<le> sat_add (attempts (branches tx ! i)) 1"
  shows "\<exists>w' b' al. saga_loop D g (i # is) tx w = abort_saga D g w'
    \<and> bid b' = bid (branches tx ! i) \<and> compensate b' = compensate (branches tx ! i) \<and> bstatus b' = BCompensating
    \<and> at w' (next_revision (map_branches compensate_succeeded (set_status Aborting (set_branch i b' tx))))
        (C \<union> {c. same (branch_barrier_of tx i ''action'') c})
        (es @ [Invoked (gid tx) (bid (branches tx ! i)) (action (branches tx ! i)) False, Alerted al])"
proof -
  let ?b = "branches tx ! i" and ?bar = "branch_barrier_of tx i ''action''"
  obtain w1 where w1: "claim D ?bar w = (Inr Execute, w1)" "at w1 tx (C \<union> {c. same ?bar c}) es"
    using claim_at [OF assms(1,4)] by (auto simp: branch_barrier_of_def barrier_new_def)
  have "\<not> invoke_ok D (w_step w1) (action ?b) (payload (started ?b)) (toptions tx)"
    using assms(5) by (simp add: refuses_def)
  from invoke_fail_at [OF w1(2) this, of "gid tx" "tstatus tx"]
  obtain w2 b2 al e n where
      w2: "invoke_branch D (toptions tx) (gid tx) (tstatus tx) (started ?b) (action ?b) w1 = (Inr (False, b2), w2)"
        "at w2 tx (C \<union> {c. same ?bar c}) (es @ [Invoked (gid tx) (bid ?b) (action ?b) False, Alerted al])"
      and b2: "b2 = (started ?b)\<lparr>last_error := e, next_retry_millis := n\<rparr>"
    unfolding branch_edits by blast
  have b2': "bid (marked BCompensating b2) = bid ?b" "compensate (marked BCompensating b2) = compensate ?b"
      "\<not> attempts b2 < saga_max_attempts (toptions tx)"
    using assms(6) by (simp_all add: b2 marked_def started_def)
  let ?tx = "map_branches compensate_succeeded (set_status Aborting (set_branch i (marked BCompensating b2) tx))"
  obtain w3 where w3: "persist_transaction D ?tx w2 = (Inr (next_revision ?tx), w3)"
      "at w3 (next_revision ?tx) (C \<union> {c. same ?bar c}) (es @ [Invoked (gid tx) (bid ?b) (action ?b) False, Alerted al])"
    using persist_at [OF w2(2), of ?tx] by auto
  have "saga_loop D g (i # is) tx w = abort_saga D g w3"
    using assms(3) w1(1) w2(1) w3(1) b2'(3) by (simp add: Let_def act_simps)
  then show ?thesis using w3(2) b2'(1,2) by fastforce
qed

lemma compensate_not_claimed:
  assumes "branch_barrier_of tx i ''compensate'' \<notin> C"
  shows "branch_barrier_of tx i ''compensate'' \<notin> claimed_upto same tx ''action'' m C"
proof -
  have False if "same (branch_barrier_of tx j ''action'') (branch_barrier_of tx i ''compensate'')" for j
    using same_gid [OF that] by (simp add: branch_barrier_of_def barrier_new_def)
  then show ?thesis using assms by (auto simp: claimed_upto_def)
qed

lemma start_saga_rolls_back:
  assumes "at w tx C es" and "tkind tx = Saga" and "tstatus tx \<in> {Submitted, Succeeding}"
    and "\<not> concurrent (toptions tx)" and "distinct (map bid (branches tx))"
    and pending: "\<forall>b \<in> set (branches tx). bstatus b = BPending"
    and free: "\<And>j. j < length (branches tx) \<Longrightarrow> branch_barrier_of tx j ''action'' \<notin> C \<and> branch_barrier_of tx j ''compensate'' \<notin> C"
    and i: "i < length (branches tx)" and ok: "\<And>j. j < i \<Longrightarrow> answers D (action (branches tx ! j))"
    and refused: "refuses D (action (branches tx ! i))"
    and limit: "saga_max_attempts (toptions tx) \<le> sat_add (attempts (branches tx ! i)) 1"
    and undo: "\<And>j u. j < length (branches tx) \<Longrightarrow> compensate (branches tx ! j) = Some u \<Longrightarrow> answers D u"
  shows "\<exists>w' tx' C' al. start_saga D (gid tx) w = (Inr tx', w')
    \<and> at w' tx' C' (es @ map (action_event (gid tx)) (take i (branches tx))
         @ [Invoked (gid tx) (bid (branches tx ! i)) (action (branches tx ! i)) False, Alerted al]
         @ concat (map (compensation_event (gid tx)) (rev (take (Suc i) (branches tx)))))
    \<and> gid tx' = gid tx \<and> tstatus tx' = Aborted \<and> map bstatus (branches tx') = replicate (length (branches tx)) BSkipped"
proof -
  let ?n = "length (branches tx)" and ?bs = "branches tx"
  obtain w1 t where w1: "start_saga D (gid tx) w = saga_loop D (gid tx) [0..<?n] (next_revision (set_status Succeeding (tx\<lparr>updated_at_millis := t\<rparr>))) w1"
      "at w1 (next_revision (set_status Succeeding (tx\<lparr>updated_at_millis := t\<rparr>))) C es"
    using start_saga_prefix [OF assms(1-4)] by blast
  let ?tx = "next_revision (set_status Succeeding (tx\<lparr>updated_at_millis := t\<rparr>))"
  have bar: "branch_barrier_of ?tx j oper = branch_barrier_of tx j oper" for j oper by (simp add: branch_barrier_of_def)
  have st: "j < ?n \<Longrightarrow> bstatus (?bs ! j) \<noteq> BSucceeded" for j using pending nth_mem [of j ?bs] by fastforce
  let ?C = "claimed_upto same ?tx ''action'' i C" and ?tx1 = "done_upto i ?tx" and ?es = "es @ map (action_event (gid tx)) (take i ?bs)"
  obtain w2 where w2: "saga_loop D (gid tx) [0..<?n] ?tx w1 = saga_loop D (gid tx) (i # [Suc i..<?n]) ?tx1 w2" "at w2 ?tx1 ?C ?es"
    using saga_actions [OF w1(2), of i "gid tx"] assms(5) i st free ok by (auto simp: bar upt_conv_Cons)
  have b: "branches ?tx1 ! i = ?bs ! i" using i by (simp add: nth_append)
  have bar1: "branch_barrier_of ?tx1 i ''action'' = branch_barrier_of ?tx i ''action''" using b by (simp add: branch_barrier_of_def)
  have "branch_barrier_of ?tx i ''action'' \<notin> ?C"
    using not_claimed_upto [of ?tx i "''action''" C] assms(5) i free [OF i] by (simp add: bar)
  then obtain w3 b' al where w3: "saga_loop D (gid tx) (i # [Suc i..<?n]) ?tx1 w2 = abort_saga D (gid tx) w3"
      and b': "bid b' = bid (?bs ! i)" "compensate b' = compensate (?bs ! i)" "bstatus b' = BCompensating"
      and at3: "at w3 (next_revision (map_branches compensate_succeeded (set_status Aborting (set_branch i b' ?tx1))))
        (claimed_upto same ?tx ''action'' (Suc i) C) (?es @ [Invoked (gid tx) (bid (?bs ! i)) (action (?bs ! i)) False, Alerted al])"
    using saga_step_refused [OF w2(2), of i "gid tx" "[Suc i..<?n]"] i st b refused limit
    unfolding bar1 claimed_upto_Suc by auto
  let ?tx3 = "next_revision (map_branches compensate_succeeded (set_status Aborting (set_branch i b' ?tx1)))"
  have bs3: "branches ?tx3 = doomed_branches i b' ?bs" using doomed_upto [of i ?tx b'] i by simp
  note ids = doomed_ids [OF i b'(1)] and comps = doomed_compensate [OF i b'(2)]
  have "undoable D (claimed_upto same ?tx ''action'' (Suc i) C) ?tx3 j" if "j < length (branches ?tx3)" for j
  proof -
    have j: "j < ?n" using that i by simp
    have same_nth: "bid (branches ?tx3 ! j) = bid (?bs ! j)" "compensate (branches ?tx3 ! j) = compensate (?bs ! j)"
      using arg_cong [OF ids, of "\<lambda>l. l ! j"] arg_cong [OF comps, of "\<lambda>l. l ! j"] j that unfolding bs3 by simp_all
    then have "branch_barrier_of ?tx3 j ''compensate'' = branch_barrier_of ?tx j ''compensate''"
      by (simp add: branch_barrier_of_def)
    then show ?thesis
      using same_nth(2) undo [OF j] compensate_not_claimed [of ?tx j C "Suc i"] free [OF j] by (simp add: undoable_def bar)
  qed
  then obtain w' tx' C' where "abort_saga D (gid tx) w3 = (Inr tx', w')"
      "at w' tx' C' ((?es @ [Invoked (gid tx) (bid (?bs ! i)) (action (?bs ! i)) False, Alerted al])
         @ concat (map (undo_event (gid tx)) (rev (branches ?tx3))))"
      "gid tx' = gid tx" "tstatus tx' = Aborted" "map bstatus (branches tx') = map (undone \<circ> bstatus) (branches ?tx3)"
    using abort_saga_at [OF at3] assms(2,4,5) ids unfolding bs3 by auto
  then show ?thesis
    using w1(1) w2(1) w3 unfolding bs3 doomed_events [OF i b' pending] doomed_undone [OF b'(3) pending i] by auto
qed

end

section \<open>Sagas on the in-memory store\<close>

text \<open>
  A coordinator whose requests to the store are never lost and who has the store for itself.
  Every coordinator over the in-memory store becomes one.
\<close>

definition quiet :: "'s dtm \<Rightarrow> 's store_ops \<Rightarrow> 's dtm" where
  "quiet D ops = (alone D ops)\<lparr>faults := (\<lambda>_. NoFault)\<rparr>"

interpretation mem_quiet: quiet_run mem_ops mem_good mem_view "(=)" "quiet D mem_ops"
  for D
  by unfold_locales (simp_all add: quiet_def alone_def)

lemma answers_quiet [simp]: "answers (quiet D ops) u = answers D u" "refuses (quiet D ops) u = refuses D u"
  by (simp_all add: answers_def refuses_def quiet_def alone_def)

definition claimed :: "mem_store \<Rightarrow> transaction \<Rightarrow> nat \<Rightarrow> string \<Rightarrow> bool" where
  "claimed s tx i oper \<longleftrightarrow> (gid tx, bid (branches tx ! i), oper) \<in> barriers s"

lemma claimed_view: "branch_barrier_of tx i oper \<in> a_claims (mem_view s) \<longleftrightarrow> claimed s tx i oper"
  by (simp add: claimed_def mem_view_def branch_barrier_of_def barrier_new_def)

lemma holds_mem:
  assumes "mem_good (w_store w)" and "bt_get (txs (w_store w)) (gid tx) = Some tx"
  shows "holds mem_good mem_view w tx (a_claims (mem_view (w_store w))) (w_events w)"
  using assms by (auto simp: holds_def mem_view_def intro: exI [of _ "updated_at_millis tx"])

lemma holds_memD:
  assumes "holds mem_good mem_view w tx C es"
  obtains t where "bt_get (txs (w_store w)) (gid tx) = Some (tx\<lparr>updated_at_millis := t\<rparr>)" and "w_events w = es"
  using assms by (auto simp: holds_def mem_view_def)

text \<open>
  C1: A submitted sequential Saga whose services all answer succeeds: the actions of all its
  branches are called, each exactly once and in the order of the branches, nothing else is
  called, and the stored transaction has succeeded with every branch succeeded.
\<close>

theorem saga_success_trace:
  assumes "mem_good (w_store w)" and "bt_get (txs (w_store w)) g = Some tx"
    and "tkind tx = Saga" and "tstatus tx \<in> {Submitted, Succeeding}" and "\<not> concurrent (toptions tx)"
    and "distinct (map bid (branches tx))"
    and "\<And>i. i < length (branches tx) \<Longrightarrow> bstatus (branches tx ! i) \<noteq> BSucceeded
      \<and> \<not> claimed (w_store w) tx i ''action'' \<and> answers D (action (branches tx ! i))"
  shows "\<exists>w' tx' t. start_saga (quiet D mem_ops) g w = (Inr tx', w')
    \<and> bt_get (txs (w_store w')) g = Some (tx'\<lparr>updated_at_millis := t\<rparr>)
    \<and> tstatus tx' = Succeeded \<and> branches tx' = map done_branch (branches tx)
    \<and> w_events w' = w_events w @ map (\<lambda>b. Invoked g (bid b) (action b) True) (branches tx)"
proof -
  have g: "gid tx = g" using assms(1,2) by (auto simp: mem_good_def)
  let ?D = "quiet D mem_ops"
  have start: "holds mem_good mem_view w tx (a_claims (mem_view (w_store w))) (w_events w)"
    using assms(1,2) g by (intro holds_mem) simp_all
  obtain w' tx' C' where run: "start_saga ?D (gid tx) w = (Inr tx', w')" "gid tx' = gid tx"
      "tstatus tx' = Succeeded" "branches tx' = map done_branch (branches tx)"
      and last: "holds mem_good mem_view w' tx' C' (w_events w @ map (action_event (gid tx)) (branches tx))"
    using mem_quiet.start_saga_succeeds [OF start, where D = D] assms(3-7) by (auto simp: claimed_view)
  obtain t where "bt_get (txs (w_store w')) (gid tx') = Some (tx'\<lparr>updated_at_millis := t\<rparr>)"
      "w_events w' = w_events w @ map (action_event (gid tx)) (branches tx)"
    using last by (rule holds_memD)
  then show ?thesis using run unfolding g action_event_def by blast
qed

text \<open>A Saga with two branches, the second with no compensation.\<close>

definition sample_saga :: transaction where
  "sample_saga = (transaction_saga 1000 ''s1''
     [branch_saga ''b1'' ''http://a/do'' ''http://a/undo'' JNull,
      (branch_saga ''b2'' ''http://b/do'' [] JNull)\<lparr>compensate := None\<rparr>])\<lparr>tstatus := Submitted\<rparr>"

lemmas sample_saga_defs = sample_saga_def transaction_saga_def transaction_new_def branch_saga_def

lemma sample_saga_facts:
  "gid sample_saga = ''s1''" "tkind sample_saga = Saga" "tstatus sample_saga = Submitted"
  "\<not> concurrent (toptions sample_saga)" "map bid (branches sample_saga) = [''b1'', ''b2'']"
  "map action (branches sample_saga) = [''http://a/do'', ''http://b/do'']"
  by (simp_all add: sample_saga_defs default_transaction_options_def)

lemma sample_unclaimed: "\<not> claimed (w_store (sample_world tx)) tx' i oper"
  by (simp add: claimed_def sample_world_def mem_new_def)

theorem saga_success_trace_witness:
  "\<exists>w' tx'. start_saga (quiet sample_dtm mem_ops) ''s1'' (sample_world sample_saga) = (Inr tx', w')
    \<and> tstatus tx' = Succeeded
    \<and> w_events w' = [Invoked ''s1'' ''b1'' ''http://a/do'' True, Invoked ''s1'' ''b2'' ''http://b/do'' True]"
proof -
  let ?w = "sample_world sample_saga"
  have get: "bt_get (txs (w_store ?w)) ''s1'' = Some sample_saga"
    using sample_world_get [of sample_saga] by (simp add: sample_saga_facts)
  have all: "bstatus (branches sample_saga ! i) \<noteq> BSucceeded \<and> \<not> claimed (w_store ?w) sample_saga i ''action''
      \<and> answers sample_dtm (action (branches sample_saga ! i))" if "i < length (branches sample_saga)" for i
    using that by (auto simp: sample_unclaimed answers_def sample_dtm_def sample_saga_defs less_Suc_eq)
  from saga_success_trace [OF sample_world_good get _ _ _ _ all]
  obtain w' tx' where "start_saga (quiet sample_dtm mem_ops) ''s1'' ?w = (Inr tx', w')" "tstatus tx' = Succeeded"
    "w_events w' = w_events ?w @ map (\<lambda>b. Invoked ''s1'' (bid b) (action b) True) (branches sample_saga)"
    by (auto simp: sample_saga_facts)
  then show ?thesis by (simp add: sample_world_def sample_saga_defs)
qed

text \<open>
  C2: When an action of a sequential Saga fails for good, the Saga is rolled back: the actions
  before it have been called once each in order, then the failing one, then an alert is raised,
  and then the compensations of the failing branch and of every branch before it are called in
  reverse order, each once; no later branch is called at all, and the stored transaction is
  aborted with no branch left to compensate.
\<close>

theorem saga_rollback_trace:
  assumes "mem_good (w_store w)" and "bt_get (txs (w_store w)) g = Some tx"
    and "tkind tx = Saga" and "tstatus tx \<in> {Submitted, Succeeding}" and "\<not> concurrent (toptions tx)"
    and "distinct (map bid (branches tx))" and "\<forall>b \<in> set (branches tx). bstatus b = BPending"
    and "\<And>j. j < length (branches tx) \<Longrightarrow>
      \<not> claimed (w_store w) tx j ''action'' \<and> \<not> claimed (w_store w) tx j ''compensate''"
    and "i < length (branches tx)" and "\<And>j. j < i \<Longrightarrow> answers D (action (branches tx ! j))"
    and "refuses D (action (branches tx ! i))"
    and "saga_max_attempts (toptions tx) \<le> sat_add (attempts (branches tx ! i)) 1"
    and "\<And>j u. j < length (branches tx) \<Longrightarrow> compensate (branches tx ! j) = Some u \<Longrightarrow> answers D u"
  shows "\<exists>w' tx' t al. start_saga (quiet D mem_ops) g w = (Inr tx', w')
    \<and> bt_get (txs (w_store w')) g = Some (tx'\<lparr>updated_at_millis := t\<rparr>)
    \<and> tstatus tx' = Aborted \<and> map bstatus (branches tx') = replicate (length (branches tx)) BSkipped
    \<and> w_events w' = w_events w
        @ map (\<lambda>b. Invoked g (bid b) (action b) True) (take i (branches tx))
        @ [Invoked g (bid (branches tx ! i)) (action (branches tx ! i)) False, Alerted al]
        @ [Invoked g (bid b) (the (compensate b)) True. b \<leftarrow> rev (take (Suc i) (branches tx)), compensate b \<noteq> None]"
proof -
  have g: "gid tx = g" using assms(1,2) by (auto simp: mem_good_def)
  have start: "holds mem_good mem_view w tx (a_claims (mem_view (w_store w))) (w_events w)"
    using assms(1,2) g by (intro holds_mem) simp_all
  let ?es = "\<lambda>al. w_events w @ map (action_event (gid tx)) (take i (branches tx))
         @ [Invoked (gid tx) (bid (branches tx ! i)) (action (branches tx ! i)) False, Alerted al]
         @ concat (map (compensation_event (gid tx)) (rev (take (Suc i) (branches tx))))"
  obtain w' tx' C' al where run: "start_saga (quiet D mem_ops) (gid tx) w = (Inr tx', w')" "gid tx' = gid tx"
      "tstatus tx' = Aborted" "map bstatus (branches tx') = replicate (length (branches tx)) BSkipped"
      and last: "holds mem_good mem_view w' tx' C' (?es al)"
    using mem_quiet.start_saga_rolls_back [OF start, where D = D and i = i] assms(3-13)
    unfolding claimed_view answers_quiet by blast
  obtain t where t: "bt_get (txs (w_store w')) (gid tx') = Some (tx'\<lparr>updated_at_millis := t\<rparr>)" "w_events w' = ?es al"
    using last by (rule holds_memD)
  have ev: "compensation_event g = (\<lambda>b. if compensate b \<noteq> None then [Invoked g (bid b) (the (compensate b)) True] else [])"
    by (auto simp: compensation_event_def fun_eq_iff)
  show ?thesis using run t unfolding g action_event_def ev by blast
qed

definition refusing_dtm :: "mem_store dtm" where
  "refusing_dtm = sample_dtm\<lparr>invoke_ok := (\<lambda>_ u _ _. u \<noteq> ''http://b/do'')\<rparr>"

theorem saga_rollback_trace_witness:
  "\<exists>w' tx' al. start_saga (quiet refusing_dtm mem_ops) ''s1'' (sample_world sample_saga) = (Inr tx', w')
    \<and> tstatus tx' = Aborted
    \<and> w_events w' = [Invoked ''s1'' ''b1'' ''http://a/do'' True, Invoked ''s1'' ''b2'' ''http://b/do'' False,
        Alerted al, Invoked ''s1'' ''b1'' ''http://a/undo'' True]"
proof -
  let ?w = "sample_world sample_saga"
  have get: "bt_get (txs (w_store ?w)) ''s1'' = Some sample_saga"
    using sample_world_get [of sample_saga] by (simp add: sample_saga_facts)
  have "\<exists>w' tx' t al. start_saga (quiet refusing_dtm mem_ops) ''s1'' ?w = (Inr tx', w')
    \<and> bt_get (txs (w_store w')) ''s1'' = Some (tx'\<lparr>updated_at_millis := t\<rparr>)
    \<and> tstatus tx' = Aborted \<and> map bstatus (branches tx') = replicate (length (branches sample_saga)) BSkipped
    \<and> w_events w' = w_events ?w
        @ map (\<lambda>b. Invoked ''s1'' (bid b) (action b) True) (take 1 (branches sample_saga))
        @ [Invoked ''s1'' (bid (branches sample_saga ! 1)) (action (branches sample_saga ! 1)) False, Alerted al]
        @ [Invoked ''s1'' (bid b) (the (compensate b)) True. b \<leftarrow> rev (take (Suc 1) (branches sample_saga)), compensate b \<noteq> None]"
    by (rule saga_rollback_trace [OF sample_world_good get])
      (auto simp: sample_unclaimed sample_saga_defs answers_def refuses_def refusing_dtm_def saga_max_attempts_def
        default_transaction_options_def sat_add_def less_Suc_eq)
  then show ?thesis by (simp add: sample_world_def sample_saga_defs) blast
qed

end
