(* ===== verification/Sql_Store.thy ===== *)
theory Sql_Store
  imports Saga_Trace "HOL-Library.Multiset"
begin

text \<open>
  The relational stores of \<^verbatim>\<open>src/lib.rs\<close>: the tables and statements they share, as
  \<^verbatim>\<open>SqliteTransactionStore\<close> has them, where text columns are unbounded and compared exactly; what differs on the servers
  (\<^verbatim>\<open>PostgresTransactionStore\<close> and \<^verbatim>\<open>MySqlTransactionStore\<close>, with columns of bounded length and collations) is added
  by theory \<open>Sql_Servers\<close>. A database is its four
  tables, each a map from the primary key to the other columns. The JSON text of a transaction is opaque to the program (it is stored, read back and
  compared for equality), so the column \<^verbatim>\<open>payload\<close> has a type of its own, and the serialiser
  is a parameter whose documented behaviour is that decoding an encoded value gives it back.
  A statement is atomic; what other connections commit between two statements of
  one operation is a parameter of that operation. SQLite updates a transaction by
  compare-and-swap on the payload, in at most 16 attempts; Postgres and MySQL lock its row.
\<close>

section \<open>Tables and statements\<close>

record 'p codec =
  to_json :: "transaction \<Rightarrow> 'p"
  from_json :: "'p \<Rightarrow> transaction option"

record barrier_row =
  br_gid :: string
  br_branch_id :: string
  br_op :: string
  br_created_at_millis :: int

record lease_row =
  lr_owner :: string
  lr_expires_at_millis :: int

record kv_row =
  kr_value :: string
  kr_version :: int
  kr_created_at_millis :: int
  kr_updated_at_millis :: int

record 'p sql_db =
  t_transactions :: "(string, 'p \<times> int) btree_map"
  t_barriers :: "(string, barrier_row) btree_map"
  t_leases :: "(string, lease_row) btree_map"
  t_kv :: "(string \<times> string, kv_row) btree_map"

text \<open>The cast \<^verbatim>\<open>as i64\<close> reinterprets the bits; \<^verbatim>\<open>try_into\<close> refuses negative values.\<close>

definition as_i64 :: "u64 \<Rightarrow> int" where
  "as_i64 w = sint w"

definition u64_try_from :: "int \<Rightarrow> u64 res" where
  "u64_try_from i = (if 0 \<le> i then Inr (word_of_int i) else Inl (StoreError InvalidPayload))"

text \<open>\<^verbatim>\<open>INSERT OR IGNORE\<close>, \<^verbatim>\<open>ON CONFLICT DO NOTHING\<close> and \<^verbatim>\<open>INSERT IGNORE\<close>: the flag tells whether a row was inserted.\<close>

definition insert_ignore :: "'k::linorder \<Rightarrow> 'v \<Rightarrow> ('k, 'v) btree_map \<Rightarrow> bool \<times> ('k, 'v) btree_map" where
  "insert_ignore k v t = (if bt_get t k = None then (True, bt_insert k v t) else (False, t))"

text \<open>\<^verbatim>\<open>migrate\<close> creates the tables that do not exist yet.\<close>

definition migrated :: "'p sql_db" where
  "migrated = \<lparr>t_transactions = [], t_barriers = [], t_leases = [], t_kv = []\<rparr>"

definition decode_payload :: "'p codec \<Rightarrow> 'p \<Rightarrow> transaction res" where
  "decode_payload C p = ok_or (from_json C p) (StoreError InvalidPayload)"

definition transaction_row :: "'p codec \<Rightarrow> transaction \<Rightarrow> 'p \<times> int" where
  "transaction_row C tx = (to_json C tx, as_i64 (updated_at_millis tx))"

section \<open>Transactions\<close>

definition sql_insert_transaction :: "'p codec \<Rightarrow> transaction \<Rightarrow> ('p sql_db, dtm_error, unit) act" where
  "sql_insert_transaction C tx db =
     (case insert_ignore (gid tx) (transaction_row C tx) (t_transactions db) of
        (changed, t) \<Rightarrow>
          if \<not> changed then (Inl (TransactionAlreadyExists (gid tx)), db)
          else (Inr (), db\<lparr>t_transactions := t\<rparr>))"

definition sql_get_transaction :: "'p codec \<Rightarrow> string \<Rightarrow> ('p sql_db, dtm_error, transaction option) act" where
  "sql_get_transaction C g db =
     (case bt_get (t_transactions db) g of
        None \<Rightarrow> (Inr None, db)
      | Some (p, _) \<Rightarrow> (map_sum id Some (decode_payload C p), db))"

definition sql_update_transaction :: "'p codec \<Rightarrow> u64 \<Rightarrow> transaction \<Rightarrow> ('p sql_db, dtm_error, unit) act" where
  "sql_update_transaction C now tx db =
     (let tx = bump_transaction_revision now tx in
      (Inr (), db\<lparr>t_transactions := bt_insert (gid tx) (transaction_row C tx) (t_transactions db)\<rparr>))"

text \<open>
  The statement \<^verbatim>\<open>UPDATE .. WHERE gid = ? AND payload = ?\<close>, and the loop around it. \<open>mid n\<close> is
  what other connections commit between the read and the write when \<open>n\<close> attempts are left.
\<close>

definition update_if_payload ::
  "string \<Rightarrow> 'p \<Rightarrow> 'p \<times> int \<Rightarrow> 'p sql_db \<Rightarrow> bool \<times> 'p sql_db" where
  "update_if_payload g previous row db =
     (case bt_get (t_transactions db) g of
        Some (p, _) \<Rightarrow>
          if p = previous then (True, db\<lparr>t_transactions := bt_insert g row (t_transactions db)\<rparr>) else (False, db)
      | None \<Rightarrow> (False, db))"

primrec cas_loop ::
  "nat \<Rightarrow> 'p codec \<Rightarrow> (nat \<Rightarrow> 'p sql_db \<Rightarrow> 'p sql_db) \<Rightarrow> string \<Rightarrow> string \<Rightarrow> (transaction \<Rightarrow> transaction res)
    \<Rightarrow> ('p sql_db, dtm_error, transaction) act" where
  "cas_loop 0 C mid what g f db = (Inl (StoreError (Contended what)), db)"
| "cas_loop (Suc n) C mid what g f db =
     (case bt_get (t_transactions db) g of
        None \<Rightarrow> (Inl (TransactionNotFound g), db)
      | Some (previous, _) \<Rightarrow>
          (case res_bind (decode_payload C previous) f of
             Inl e \<Rightarrow> (Inl e, db)
           | Inr tx \<Rightarrow>
               (case update_if_payload g previous (transaction_row C tx) (mid n db) of
                  (changed, db') \<Rightarrow>
                    if changed then (Inr tx, db') else cas_loop n C mid what g f db')))"

definition sqlite_mutate ::
  "'p codec \<Rightarrow> (nat \<Rightarrow> 'p sql_db \<Rightarrow> 'p sql_db) \<Rightarrow> string \<Rightarrow> string \<Rightarrow> (transaction \<Rightarrow> transaction res)
    \<Rightarrow> ('p sql_db, dtm_error, transaction) act" where
  "sqlite_mutate C mid what g f = cas_loop 16 C mid what g f"

text \<open>\<^verbatim>\<open>SELECT .. FOR UPDATE\<close> and \<^verbatim>\<open>UPDATE\<close> in one database transaction: nobody else writes the row between them.\<close>

definition locked_mutate ::
  "'p codec \<Rightarrow> string \<Rightarrow> (transaction \<Rightarrow> transaction res) \<Rightarrow> ('p sql_db, dtm_error, transaction) act" where
  "locked_mutate C g f db =
     (case bt_get (t_transactions db) g of
        None \<Rightarrow> (Inl (TransactionNotFound g), db)
      | Some (p, _) \<Rightarrow>
          (case res_bind (decode_payload C p) f of
             Inl e \<Rightarrow> (Inl e, db)
           | Inr tx \<Rightarrow> (Inr tx, db\<lparr>t_transactions := bt_insert g (transaction_row C tx) (t_transactions db)\<rparr>)))"

definition sql_list_transactions :: "'p codec \<Rightarrow> ('p sql_db, dtm_error, transaction list) act" where
  "sql_list_transactions C db =
     (res_map (decode_payload C) (map fst (sort_key snd (bt_values (t_transactions db)))), db)"

definition sql_delete_if_unchanged ::
  "'p codec \<Rightarrow> ('p sql_db \<Rightarrow> 'p sql_db) \<Rightarrow> transaction \<Rightarrow> ('p sql_db, dtm_error, bool) act" where
  "sql_delete_if_unchanged C mid tx db =
     (case bt_get (t_transactions db) (gid tx) of
        None \<Rightarrow> (Inr False, db)
      | Some (p, _) \<Rightarrow>
          (case decode_payload C p of
             Inl e \<Rightarrow> (Inl e, db)
           | Inr current \<Rightarrow>
               if current \<noteq> tx then (Inr False, db)
               else (let db = mid db in
                 if map_option fst (bt_get (t_transactions db) (gid tx)) = Some p
                 then (Inr True, db\<lparr>t_transactions := bt_remove (gid tx) (t_transactions db),
                        t_barriers := filter (\<lambda>(_, row). br_gid row \<noteq> gid tx) (t_barriers db)\<rparr>)
                 else (Inr False, db))))"

section \<open>Key-value entries\<close>

definition kv_entry_from_values :: "string \<Rightarrow> string \<Rightarrow> kv_row \<Rightarrow> kv_entry res" where
  "kv_entry_from_values cat k row =
     res_bind (u64_try_from (kr_version row)) (\<lambda>v.
     res_bind (u64_try_from (kr_created_at_millis row)) (\<lambda>c.
     res_bind (u64_try_from (kr_updated_at_millis row)) (\<lambda>u.
       Inr \<lparr>kv_category = cat, kv_key = k, kv_value = kr_value row, kv_version = v,
            kv_created_at_millis = c, kv_updated_at_millis = u\<rparr>)))"

definition sql_get_kv :: "string \<Rightarrow> string \<Rightarrow> ('p sql_db, dtm_error, kv_entry option) act" where
  "sql_get_kv cat k db =
     (case bt_get (t_kv db) (cat, k) of
        None \<Rightarrow> (Inr None, db)
      | Some row \<Rightarrow> (map_sum id Some (kv_entry_from_values cat k row), db))"

text \<open>\<^verbatim>\<open>LIMIT ? OFFSET ?\<close> with the casts of the arguments: a negative limit is no limit.\<close>

definition sql_page :: "nat \<Rightarrow> nat \<Rightarrow> 'a list \<Rightarrow> 'a list" where
  "sql_page offset limit xs =
     (let offset = as_i64 (of_nat offset); limit = as_i64 (of_nat limit);
          rest = (if offset < 0 then xs else drop (nat offset) xs) in
      if limit < 0 then rest else take (nat limit) rest)"

definition sql_list_kv ::
  "string option \<Rightarrow> string option \<Rightarrow> nat \<Rightarrow> nat \<Rightarrow> ('p sql_db, dtm_error, kv_entry list) act" where
  "sql_list_kv cat k offset limit db =
     (res_map (\<lambda>((c, i), row). kv_entry_from_values c i row)
       (sql_page offset limit
         (filter (\<lambda>((c, i), _). opt_all (\<lambda>x. c = x) cat \<and> opt_all (\<lambda>x. i = x) k) (t_kv db))), db)"

definition kv_row_of :: "kv_entry \<Rightarrow> kv_row" where
  "kv_row_of e = \<lparr>kr_value = kv_value e, kr_version = as_i64 (kv_version e),
     kr_created_at_millis = as_i64 (kv_created_at_millis e), kr_updated_at_millis = as_i64 (kv_updated_at_millis e)\<rparr>"

definition sql_create_kv :: "kv_entry \<Rightarrow> ('p sql_db, dtm_error, bool) act" where
  "sql_create_kv e db =
     (case insert_ignore (kv_category e, kv_key e) (kv_row_of e) (t_kv db) of
        (changed, t) \<Rightarrow> (Inr changed, db\<lparr>t_kv := t\<rparr>))"

definition sql_update_kv :: "kv_entry \<Rightarrow> u64 \<Rightarrow> ('p sql_db, dtm_error, bool) act" where
  "sql_update_kv e expected_version db =
     (if kv_version e \<noteq> sat_add expected_version 1 then (Inl (StoreError InvalidKvVersion), db)
      else (case bt_get (t_kv db) (kv_category e, kv_key e) of
              Some row \<Rightarrow>
                if kr_version row = as_i64 expected_version
                then (Inr True, db\<lparr>t_kv := bt_insert (kv_category e, kv_key e)
                       (row\<lparr>kr_value := kv_value e, kr_version := as_i64 (kv_version e),
                            kr_updated_at_millis := as_i64 (kv_updated_at_millis e)\<rparr>) (t_kv db)\<rparr>)
                else (Inr False, db)
            | None \<Rightarrow> (Inr False, db)))"

definition sql_delete_kv :: "string \<Rightarrow> string \<Rightarrow> ('p sql_db, dtm_error, bool) act" where
  "sql_delete_kv cat k db =
     (Inr (bt_get (t_kv db) (cat, k) \<noteq> None), db\<lparr>t_kv := bt_remove (cat, k) (t_kv db)\<rparr>)"

section \<open>Barriers and leases\<close>

definition barrier_row_of :: "u64 \<Rightarrow> branch_barrier \<Rightarrow> barrier_row" where
  "barrier_row_of now b = \<lparr>br_gid = bb_gid b, br_branch_id = bb_branch_id b, br_op = bb_op b,
     br_created_at_millis = as_i64 now\<rparr>"

definition insert_barrier :: "u64 \<Rightarrow> branch_barrier \<Rightarrow> 'p sql_db \<Rightarrow> bool \<times> 'p sql_db" where
  "insert_barrier now b db =
     (case insert_ignore (barrier_key b) (barrier_row_of now b) (t_barriers db) of
        (inserted, t) \<Rightarrow> (inserted, db\<lparr>t_barriers := t\<rparr>))"

definition sqlite_barrier :: "u64 \<Rightarrow> branch_barrier \<Rightarrow> ('p sql_db, dtm_error, barrier_decision) act" where
  "sqlite_barrier now b db =
     (let key = barrier_key b; cancel_key = bb_gid b @ '':'' @ bb_branch_id b @ '':cancel'';
          try_key = bb_gid b @ '':'' @ bb_branch_id b @ '':try'' in
      case insert_barrier now b db of
        (inserted, db') \<Rightarrow>
          if \<not> inserted then (Inr SkipDuplicate, db')
          else if bb_op b = ''try'' \<and> bt_get (t_barriers db') cancel_key \<noteq> None
            then (Inr SkipCancelledTry, db'\<lparr>t_barriers := bt_remove key (t_barriers db')\<rparr>)
          else if bb_op b = ''cancel'' \<and> bt_get (t_barriers db') try_key = None
            then (Inr SkipNullCompensation, db')
          else (Inr Execute, db'))"

definition sql_release_barrier :: "branch_barrier \<Rightarrow> ('p sql_db, dtm_error, unit) act" where
  "sql_release_barrier b db = (Inr (), db\<lparr>t_barriers := bt_remove (barrier_key b) (t_barriers db)\<rparr>)"

text \<open>Renewal is one statement, first acquisition another; others may act between them.\<close>

definition sql_try_acquire_lease ::
  "('p sql_db \<Rightarrow> 'p sql_db) \<Rightarrow> u64 \<Rightarrow> string \<Rightarrow> string \<Rightarrow> u64 \<Rightarrow> ('p sql_db, dtm_error, bool) act" where
  "sql_try_acquire_lease mid now name owner ttl_millis db =
     (let row = \<lparr>lr_owner = owner, lr_expires_at_millis = as_i64 (sat_add now ttl_millis)\<rparr>;
          renewable = (case bt_get (t_leases db) name of None \<Rightarrow> False
                       | Some l \<Rightarrow> lr_owner l = owner \<or> lr_expires_at_millis l \<le> as_i64 now) in
      if renewable then (Inr True, db\<lparr>t_leases := bt_insert name row (t_leases db)\<rparr>)
      else (let db = mid db in
        case insert_ignore name row (t_leases db) of
          (inserted, t) \<Rightarrow> (Inr inserted, db\<lparr>t_leases := t\<rparr>)))"

section \<open>The stores\<close>

text \<open>
  What the stores share, given how a transaction is changed and how a barrier is decided. The
  operations with a fence are the default methods of the trait, which ignore it.
\<close>

definition sql_ops ::
  "'p codec \<Rightarrow> (string \<Rightarrow> string \<Rightarrow> (transaction \<Rightarrow> transaction res) \<Rightarrow> ('p sql_db, dtm_error, transaction) act)
    \<Rightarrow> (u64 \<Rightarrow> branch_barrier \<Rightarrow> ('p sql_db, dtm_error, barrier_decision) act) \<Rightarrow> 'p sql_db store_ops" where
  "sql_ops C mutate decide =
     (let register = (\<lambda>now g b. mutate ''branch registration'' g (\<lambda>tx. append_dynamic_branch now tx b));
          progress = (\<lambda>now g p. mutate ''workflow progress update'' g (\<lambda>tx. append_workflow_progress now tx p));
          finish = (\<lambda>now g st rr rs. mutate ''workflow completion'' g (\<lambda>tx. apply_workflow_completion now tx st rr rs));
          delay = (\<lambda>now g d. mutate ''workflow recovery update'' g (\<lambda>tx. defer_workflow_recovery now tx d)) in
      \<lparr>insert_transaction = sql_insert_transaction C,
       get_transaction = sql_get_transaction C,
       update_transaction = sql_update_transaction C,
       update_transaction_fenced = (\<lambda>now tx f. sql_update_transaction C now tx),
       register_branch = register,
       record_progress = progress,
       record_progress_fenced = (\<lambda>now g p f. progress now g p),
       finish_workflow = finish,
       finish_workflow_fenced = (\<lambda>now g st rr rs f. finish now g st rr rs),
       defer_recovery = delay,
       defer_recovery_fenced = (\<lambda>now g d f. delay now g d),
       list_transactions = sql_list_transactions C,
       delete_if_unchanged = sql_delete_if_unchanged C id,
       get_kv = sql_get_kv,
       list_kv = sql_list_kv,
       create_kv = sql_create_kv,
       update_kv = sql_update_kv,
       delete_kv = sql_delete_kv,
       barrier = decide,
       barrier_fenced = (\<lambda>now b f. decide now b),
       release_barrier = sql_release_barrier,
       release_barrier_fenced = (\<lambda>b f. sql_release_barrier b),
       try_acquire_lease = sql_try_acquire_lease id,
       acquire_lease = default_acquire_lease (sql_try_acquire_lease id)\<rparr>)"

definition sqlite_ops :: "'p codec \<Rightarrow> 'p sql_db store_ops" where
  "sqlite_ops C = sql_ops C (sqlite_mutate C (\<lambda>_. id)) sqlite_barrier"

text \<open>
  Postgres and MySQL do not serialise writers: at their default isolation levels a statement sees
  what others have committed and what its own transaction has written. \<open>before\<close> is what others
  commit between the \<^verbatim>\<open>INSERT\<close> and the \<^verbatim>\<open>SELECT\<close>, \<open>meanwhile\<close> what they commit between
  the \<^verbatim>\<open>SELECT\<close> and the \<^verbatim>\<open>COMMIT\<close>; nobody else inserts this key then, the unique index
  makes them wait.
\<close>

definition mvcc_barrier ::
  "('p sql_db \<Rightarrow> 'p sql_db) \<Rightarrow> ('p sql_db \<Rightarrow> 'p sql_db) \<Rightarrow> u64 \<Rightarrow> branch_barrier
    \<Rightarrow> ('p sql_db, dtm_error, barrier_decision) act" where
  "mvcc_barrier before meanwhile now b db =
     (let key = barrier_key b; cancel_key = bb_gid b @ '':'' @ bb_branch_id b @ '':cancel'';
          try_key = bb_gid b @ '':'' @ bb_branch_id b @ '':try'';
          commit_row = (\<lambda>db. db\<lparr>t_barriers := bt_insert key (barrier_row_of now b) (t_barriers db)\<rparr>) in
      if bt_get (t_barriers db) key \<noteq> None then (Inr SkipDuplicate, db)
      else (let seen = before db in
        if bb_op b = ''try'' \<and> bt_get (t_barriers seen) cancel_key \<noteq> None
          then (Inr SkipCancelledTry, meanwhile seen)
        else if bb_op b = ''cancel'' \<and> bt_get (t_barriers seen) try_key = None
          then (Inr SkipNullCompensation, commit_row (meanwhile seen))
        else (Inr Execute, commit_row (meanwhile seen))))"

section \<open>SQLite keeps the contract\<close>

definition row_barrier :: "barrier_row \<Rightarrow> branch_barrier" where
  "row_barrier row = \<lparr>bb_gid = br_gid row, bb_branch_id = br_branch_id row, bb_op = br_op row\<rparr>"

definition sql_good :: "'p codec \<Rightarrow> 'p sql_db \<Rightarrow> bool" where
  "sql_good C db \<longleftrightarrow> bt_wf (t_transactions db) \<and> bt_wf (t_barriers db)
     \<and> (\<forall>g p u. bt_get (t_transactions db) g = Some (p, u) \<longrightarrow> (\<exists>tx. from_json C p = Some tx \<and> gid tx = g))
     \<and> (\<forall>k row. bt_get (t_barriers db) k = Some row \<longrightarrow> k = barrier_key (row_barrier row))"

definition sql_view :: "'p codec \<Rightarrow> 'p sql_db \<Rightarrow> abs_store" where
  "sql_view C db =
     \<lparr>a_txs = (\<lambda>g. Option.bind (bt_get (t_transactions db) g) (\<lambda>(p, _). from_json C p)),
      a_claims = {b. bt_get (t_barriers db) (barrier_key b) \<noteq> None}\<rparr>"

definition same_key :: "branch_barrier \<Rightarrow> branch_barrier \<Rightarrow> bool" where
  "same_key b c \<longleftrightarrow> barrier_key b = barrier_key c"

lemma colon_split:
  "xs @ '':'' @ op = ys @ '':'' @ op' \<Longrightarrow> CHR '':'' \<notin> set op \<Longrightarrow> CHR '':'' \<notin> set op' \<Longrightarrow> xs = ys \<and> op = op'"
proof (induction xs arbitrary: ys)
  case Nil
  then show ?case by (cases ys) auto
next
  case (Cons x xs)
  then show ?case by (cases ys) auto
qed

lemma same_key_gid:
  assumes "same_key b c" and "bb_gid b = bb_gid c"
    and "CHR '':'' \<notin> set (bb_op b)" and "CHR '':'' \<notin> set (bb_op c)"
  shows "b = c"
  using assms colon_split [of "bb_branch_id b" "bb_op b" "bb_branch_id c" "bb_op c"]
  by (auto simp: same_key_def barrier_key_def intro: barrier_ext)

lemma insert_ignore_simps:
  "insert_ignore k v t = (bt_get t k = None, if bt_get t k = None then bt_insert k v t else t)"
  by (simp add: insert_ignore_def)

lemma sql_viewI: "t_transactions db' = t_transactions db \<Longrightarrow> t_barriers db' = t_barriers db \<Longrightarrow> sql_view C db' = sql_view C db"
  by (simp add: sql_view_def)

lemma sql_goodI: "sql_good C db \<Longrightarrow> t_transactions db' = t_transactions db \<Longrightarrow> t_barriers db' = t_barriers db \<Longrightarrow> sql_good C db'"
  by (simp add: sql_good_def)

text \<open>A compare-and-swap that nobody disturbs succeeds at once: it does what the row lock does.\<close>

lemma cas_undisturbed: "cas_loop (Suc n) C (\<lambda>_. id) what g f db = locked_mutate C g f db"
  by (auto simp: locked_mutate_def update_if_payload_def split: option.split prod.split sum.split)

lemma sqlite_mutate_undisturbed: "sqlite_mutate C (\<lambda>_. id) what g f = locked_mutate C g f"
proof -
  have sixteen: "(16 :: nat) = Suc 15" by simp
  show ?thesis unfolding sqlite_mutate_def sixteen by (rule ext) (rule cas_undisturbed)
qed

lemma mvcc_barrier_undisturbed:
  "fst (mvcc_barrier id id now b db) = fst (sqlite_barrier now b db)"
  by (auto simp: mvcc_barrier_def sqlite_barrier_def insert_barrier_def insert_ignore_simps Let_def barrier_key_def)

lemma mutation_frame:
  "bt_get t g = Some (p, u) \<Longrightarrow> Option.bind (bt_get (bt_insert g row t) g') (\<lambda>(p, _). from_json C p)
    = (if g' = g then from_json C (fst row) else Option.bind (bt_get t g') (\<lambda>(p, _). from_json C p))"
  by (cases row) simp

locale payload_codec =
  fixes C :: "'p codec"
  assumes round_trip: "from_json C (to_json C tx) = Some tx"
begin

abbreviation "good \<equiv> sql_good C"
abbreviation "view \<equiv> sql_view C"

lemma decode_row [simp]: "from_json C (fst (transaction_row C tx)) = Some tx"
  by (simp add: transaction_row_def round_trip)

lemma good_row:
  assumes "good db" and "bt_get (t_transactions db) g = Some (p, u)"
  obtains tx where "from_json C p = Some tx" "gid tx = g" "decode_payload C p = Inr tx" "a_txs (view db) g = Some tx"
proof -
  obtain tx where "from_json C p = Some tx" "gid tx = g" using assms unfolding sql_good_def by blast
  then show thesis using assms(2) by (intro that) (simp_all add: decode_payload_def sql_view_def)
qed

lemma view_None: "bt_get (t_transactions db) g = None \<Longrightarrow> a_txs (view db) g = None"
  by (simp add: sql_view_def)

lemma view_Some: "good db \<Longrightarrow> bt_get (t_transactions db) g = Some row \<Longrightarrow> a_txs (view db) g \<noteq> None"
  by (cases row) (auto elim: good_row)

text \<open>Writing a transaction under its own gid.\<close>

lemma write_row:
  assumes "good db" and "gid tx = g"
  defines "db' \<equiv> db\<lparr>t_transactions := bt_insert g (transaction_row C tx) (t_transactions db)\<rparr>"
  shows "good db'" and "view db' = (view db)\<lparr>a_txs := (a_txs (view db))(g \<mapsto> tx)\<rparr>"
proof -
  show "good db'" using assms by (auto simp: sql_good_def transaction_row_def round_trip)
  show "view db' = (view db)\<lparr>a_txs := (a_txs (view db))(g \<mapsto> tx)\<rparr>"
    unfolding db'_def sql_view_def by (auto simp: transaction_row_def round_trip fun_eq_iff)
qed

lemma insert_faithful: "faithful good view (sql_insert_transaction C tx) (spec_insert tx)"
proof (rule faithfulI)
  fix s r s' assume good: "good s" and run: "sql_insert_transaction C tx s = (r, s')"
  show "good s' \<and> spec_insert tx (view s) = (r, view s')"
    using run good write_row [OF good, of tx] view_None [of s "gid tx"] view_Some [OF good, of "gid tx"]
    by (cases "bt_get (t_transactions s) (gid tx)")
      (auto simp: sql_insert_transaction_def insert_ignore_simps spec_insert_def)
qed

lemma get_faithful: "faithful good view (sql_get_transaction C g) (spec_get g)"
proof (rule faithfulI)
  fix s r s' assume good: "good s" and run: "sql_get_transaction C g s = (r, s')"
  show "good s' \<and> spec_get g (view s) = (r, view s')"
  proof (cases "bt_get (t_transactions s) g")
    case None
    then show ?thesis using run good by (auto simp: sql_get_transaction_def spec_get_def view_None)
  next
    case (Some row)
    obtain p u where row: "row = (p, u)" by fastforce
    obtain tx where "decode_payload C p = Inr tx" "a_txs (view s) g = Some tx"
      using good_row [OF good] Some row by blast
    then show ?thesis using Some run good row by (simp add: sql_get_transaction_def spec_get_def)
  qed
qed

lemma update_faithful: "faithful good view (sql_update_transaction C now tx) (spec_update now tx)"
  by (rule faithfulI)
    (auto simp: sql_update_transaction_def spec_update_def Let_def write_row bump_transaction_revision_def)

lemma locked_mutate_faithful:
  assumes "\<And>tx tx'. f tx = Inr tx' \<Longrightarrow> gid tx' = gid tx"
  shows "faithful good view (locked_mutate C g f) (spec_mutate g f)"
proof (rule faithfulI)
  fix s r s' assume good: "good s" and run: "locked_mutate C g f s = (r, s')"
  show "good s' \<and> spec_mutate g f (view s) = (r, view s')"
  proof (cases "bt_get (t_transactions s) g")
    case None
    then show ?thesis using run good by (auto simp: locked_mutate_def spec_mutate_def view_None)
  next
    case (Some row)
    obtain p u where row: "row = (p, u)" by fastforce
    obtain tx where tx: "gid tx = g" "decode_payload C p = Inr tx" "a_txs (view s) g = Some tx"
      using good_row [OF good] Some row by blast
    show ?thesis
    proof (cases "f tx")
      case (Inl e)
      then have "r = Inl e" "s' = s" using run Some tx row by (simp_all add: locked_mutate_def)
      then show ?thesis using good tx Inl by (simp add: spec_mutate_def)
    next
      case (Inr tx')
      then have own: "gid tx' = g" using assms tx(1) by metis
      have "r = Inr tx'" "s' = s\<lparr>t_transactions := bt_insert g (transaction_row C tx') (t_transactions s)\<rparr>"
        using run Inr Some tx row by (simp_all add: locked_mutate_def)
      then show ?thesis using write_row [OF good own] Inr tx by (simp add: spec_mutate_def)
    qed
  qed
qed

lemma key_row: "barrier_key (row_barrier (barrier_row_of now b)) = barrier_key b"
  by (simp add: row_barrier_def barrier_row_of_def barrier_key_def)

lemma write_barrier:
  fixes now :: u64 and b :: branch_barrier
  assumes "good db"
  defines "db' \<equiv> db\<lparr>t_barriers := bt_insert (barrier_key b) (barrier_row_of now b) (t_barriers db)\<rparr>"
  shows "good db'" and "view db' = (view db)\<lparr>a_claims := a_claims (view db) \<union> {c. same_key b c}\<rparr>"
proof -
  show "good db'" using assms key_row by (auto simp: sql_good_def)
  show "view db' = (view db)\<lparr>a_claims := a_claims (view db) \<union> {c. same_key b c}\<rparr>"
    unfolding db'_def sql_view_def by (auto simp: same_key_def)
qed

lemma claimed_iff: "b \<in> a_claims (view db) \<longleftrightarrow> bt_get (t_barriers db) (barrier_key b) \<noteq> None"
  by (simp add: sql_view_def)

lemma sibling_key: "barrier_key (sibling b oper) = bb_gid b @ '':'' @ bb_branch_id b @ '':'' @ oper"
  by (simp add: barrier_key_def)

lemma mvcc_faithful: "faithful good view (mvcc_barrier id id now b) (spec_barrier same_key b)"
proof (rule faithfulI)
  fix s r s' assume good: "good s" and run: "mvcc_barrier id id now b s = (r, s')"
  then show "good s' \<and> spec_barrier same_key b (view s) = (r, view s')"
    using write_barrier [OF good, of b now]
    by (auto simp: mvcc_barrier_def spec_barrier_def Let_def claimed_iff sibling_key split: if_splits)
qed

lemma other_key:
  "bb_op b = ''try'' \<Longrightarrow> barrier_key b \<noteq> bb_gid b @ '':'' @ bb_branch_id b @ '':cancel''"
  "bb_op b = ''cancel'' \<Longrightarrow> barrier_key b \<noteq> bb_gid b @ '':'' @ bb_branch_id b @ '':try''"
  by (simp_all add: barrier_key_def)

lemma sqlite_is_mvcc: "good db \<Longrightarrow> sqlite_barrier now b db = mvcc_barrier id id now b db"
  using other_key [of b] btree.remove_insert [of "t_barriers db" "barrier_key b" "barrier_row_of now b"]
  by (auto simp: sqlite_barrier_def mvcc_barrier_def insert_barrier_def insert_ignore_simps Let_def sql_good_def)

lemma sqlite_barrier_faithful: "faithful good view (sqlite_barrier now b) (spec_barrier same_key b)"
  using mvcc_faithful [of now b] unfolding faithful_def by (simp add: sqlite_is_mvcc)

lemma release_faithful: "faithful good view (sql_release_barrier b) (spec_release same_key b)"
  by (rule faithfulI)
    (auto simp: sql_release_barrier_def spec_release_def sql_good_def sql_view_def same_key_def)

lemma own_gid: "good db \<Longrightarrow> a_txs (view db) g = Some tx \<Longrightarrow> gid tx = g"
  by (cases "bt_get (t_transactions db) g") (auto simp: view_None elim: good_row)

lemma frame_laws:
  "good db \<Longrightarrow> sql_get_kv cat key db = (kr, db') \<Longrightarrow> good db' \<and> view db' = view db"
  "good db \<Longrightarrow> sql_list_kv cato keyo offset limit db = (ke, db') \<Longrightarrow> good db' \<and> view db' = view db"
  "good db \<Longrightarrow> sql_create_kv e db = (kb, db') \<Longrightarrow> good db' \<and> view db' = view db"
  "good db \<Longrightarrow> sql_update_kv e v db = (kb, db') \<Longrightarrow> good db' \<and> view db' = view db"
  "good db \<Longrightarrow> sql_delete_kv cat key db = (kb, db') \<Longrightarrow> good db' \<and> view db' = view db"
  "good db \<Longrightarrow> default_acquire_lease (sql_try_acquire_lease id) now name owner ttl db = (l, db') \<Longrightarrow>
     good db' \<and> view db' = view db"
  by (auto simp: sql_get_kv_def sql_list_kv_def sql_create_kv_def sql_update_kv_def sql_delete_kv_def
      default_acquire_lease_def act_simps sql_try_acquire_lease_def insert_ignore_simps Let_def
      split: if_splits option.splits intro: sql_goodI sql_viewI)

lemma list_exact:
  assumes "good db"
  shows "\<exists>ts. sql_list_transactions C db = (Inr ts, db) \<and> set ts = ran (a_txs (view db)) \<and> distinct (map gid ts)"
proof -
  let ?t = "t_transactions db" and ?tx = "\<lambda>p. the (from_json C p)"
  have wf: "bt_wf ?t" using assms by (simp add: sql_good_def)
  have row: "from_json C p = Some (?tx p) \<and> gid (?tx p) = g" if "(g, p, u) \<in> set ?t" for g p u
    using assms that bt_get_eq_Some [OF wf, of g "(p, u)"] unfolding sql_good_def by fastforce
  let ?ps = "map fst (sort_key snd (bt_values ?t))"
  have "res_map (decode_payload C) ?ps = Inr (map ?tx ?ps)"
    using row by (intro res_map_total) (fastforce simp: bt_values_def decode_payload_def)
  moreover have "set (map ?tx ?ps) = ran (a_txs (view db))"
  proof -
    have "ran (a_txs (view db)) = {tx. \<exists>g p u. (g, p, u) \<in> set ?t \<and> from_json C p = Some tx}"
      by (auto simp: ran_def sql_view_def bt_get_eq_Some [OF wf] bind_eq_Some_conv)
    moreover have "set (map ?tx ?ps) = {?tx p |g p u. (g, p, u) \<in> set ?t}"
      by (force simp: bt_values_def image_iff)
    ultimately show ?thesis using row by fastforce
  qed
  moreover have "distinct (map gid (map ?tx ?ps))"
  proof -
    have "mset (map gid (map ?tx ?ps)) = mset (map (gid \<circ> ?tx \<circ> fst) (bt_values ?t))"
      by (simp flip: mset_map) (metis (no_types, lifting) comp_assoc map_map mset_map mset_sort)
    moreover have "map (gid \<circ> ?tx \<circ> fst) (bt_values ?t) = map fst ?t"
      using row by (fastforce simp: bt_values_def)
    ultimately show ?thesis using bt_wf_distinct [OF wf] by (metis mset_eq_imp_distinct_iff)
  qed
  ultimately show ?thesis by (simp add: sql_list_transactions_def)
qed

lemma list_law:
  "good db \<Longrightarrow> \<exists>listed. sql_list_transactions C db = (listed, db)
    \<and> (\<forall>txs. listed = Inr txs \<longrightarrow> set txs = ran (a_txs (view db)) \<and> distinct (map gid txs))"
  using list_exact [of db] by auto

lemma delete_law:
  assumes "good db" and "sql_delete_if_unchanged C id tx db = (r, db')"
  shows "good db' \<and> spec_delete same_key tx (view db) r (view db')"
proof (cases "a_txs (view db) (gid tx) = Some tx")
  case True
  then obtain p u where row: "bt_get (t_transactions db) (gid tx) = Some (p, u)" "from_json C p = Some tx"
    by (auto simp: sql_view_def bind_eq_Some_conv)
  let ?keep = "filter (\<lambda>(_, row). br_gid row \<noteq> gid tx) (t_barriers db)"
  have r: "r = Inr True" and db': "db' = db\<lparr>t_transactions := bt_remove (gid tx) (t_transactions db), t_barriers := ?keep\<rparr>"
    using assms(2) row by (auto simp: sql_delete_if_unchanged_def decode_payload_def)
  have wf: "bt_wf (t_barriers db)" "bt_wf ?keep" using assms(1) by (simp_all add: sql_good_def bt_wf_filter)
  have keep: "bt_get ?keep k = Some row \<longleftrightarrow> bt_get (t_barriers db) k = Some row \<and> br_gid row \<noteq> gid tx" for k row
    unfolding bt_get_eq_Some [OF wf(1)] bt_get_eq_Some [OF wf(2)] by auto
  have good: "good db'" using assms(1) wf unfolding db' sql_good_def by (auto simp: keep)
  have "\<exists>c. same_key c b \<and> bb_gid c = gid tx" if was: "b \<in> a_claims (view db)" and gone: "b \<notin> a_claims (view db')" for b
  proof -
    obtain row where "bt_get (t_barriers db) (barrier_key b) = Some row" using was by (auto simp: claimed_iff)
    moreover from this have "br_gid row = gid tx" using gone keep by (fastforce simp: claimed_iff db')
    moreover from calculation have "barrier_key b = barrier_key (row_barrier row)"
      using assms(1) unfolding sql_good_def by blast
    ultimately show ?thesis by (intro exI [of _ "row_barrier row"]) (simp add: same_key_def row_barrier_def)
  qed
  moreover have "a_claims (view db') \<subseteq> a_claims (view db)" using keep by (auto simp: claimed_iff db')
  moreover have "a_txs (view db') = (a_txs (view db))(gid tx := None)" by (auto simp: sql_view_def db' fun_eq_iff)
  ultimately show ?thesis using good True r by (simp add: spec_delete_def)
next
  case False
  have "r = Inr False \<and> db' = db"
  proof (cases "bt_get (t_transactions db) (gid tx)")
    case None
    then show ?thesis using assms(2) by (simp add: sql_delete_if_unchanged_def)
  next
    case (Some row)
    obtain p u where row: "row = (p, u)" by fastforce
    obtain tx' where "decode_payload C p = Inr tx'" "a_txs (view db) (gid tx) = Some tx'"
      using good_row [OF assms(1)] Some row by blast
    then show ?thesis using assms(2) Some row False by (auto simp: sql_delete_if_unchanged_def)
  qed
  then show ?thesis using False assms(1) by (simp add: spec_delete_def)
qed

lemmas sql_faithful = insert_faithful get_faithful update_faithful release_faithful

lemma transitions_faithful:
  "faithful good view (locked_mutate C g (\<lambda>tx. append_dynamic_branch now tx br)) (spec_mutate g (\<lambda>tx. append_dynamic_branch now tx br))"
  "faithful good view (locked_mutate C g (\<lambda>tx. append_workflow_progress now tx pr)) (spec_mutate g (\<lambda>tx. append_workflow_progress now tx pr))"
  "faithful good view (locked_mutate C g (\<lambda>tx. apply_workflow_completion now tx st rr rs))
     (spec_mutate g (\<lambda>tx. apply_workflow_completion now tx st rr rs))"
  "faithful good view (locked_mutate C g (\<lambda>tx. defer_workflow_recovery now tx d)) (spec_mutate g (\<lambda>tx. defer_workflow_recovery now tx d))"
  by (rule locked_mutate_faithful, erule transitions_keep_gid)+

lemma sql_store:
  assumes decide: "\<And>now b. faithful good view (decide now b) (spec_barrier same_key b)"
    and mutate: "\<And>what g f. mutate what g f = locked_mutate C g f"
  shows "reliable_store (sql_ops C mutate decide) good view same_key"
proof unfold_locales
  show "fst (update_transaction (sql_ops C mutate decide) now tx s) = Inr ()" for now tx s
    by (simp add: sql_ops_def Let_def sql_update_transaction_def)
  show "same_key b b" for b by (simp add: same_key_def)
qed (unfold sql_ops_def Let_def store_ops.simps mutate,
  (assumption | rule own_gid same_key_gid sql_faithful sql_faithful [THEN faithful_implements] decide
    decide [THEN faithful_implements] transitions_faithful [THEN faithful_implements] list_law delete_law frame_laws)+)

end

sublocale payload_codec \<subseteq> sqlite: reliable_store "sqlite_ops C" "sql_good C" "sql_view C" same_key
  unfolding sqlite_ops_def by (rule sql_store) (simp_all add: sqlite_barrier_faithful sqlite_mutate_undisturbed)

text \<open>A serialiser that meets the assumption: the payload is the transaction itself.\<close>

definition plain_codec :: "transaction codec" where
  "plain_codec = \<lparr>to_json = id, from_json = Some\<rparr>"

interpretation plain: payload_codec plain_codec
  by unfold_locales (simp add: plain_codec_def)

section \<open>Interleaving with other connections\<close>

text \<open>The database after the first \<open>j\<close> of the gaps that others use while \<open>n\<close> attempts are left.\<close>

primrec meanwhile :: "(nat \<Rightarrow> 's \<Rightarrow> 's) \<Rightarrow> nat \<Rightarrow> nat \<Rightarrow> 's \<Rightarrow> 's" where
  "meanwhile mid n 0 s = s"
| "meanwhile mid n (Suc j) s = meanwhile mid (n - 1) j (mid (n - 1) s)"

lemma spec_mutate_cases:
  "a_txs a g = None \<Longrightarrow> spec_mutate g f a = (Inl (TransactionNotFound g), a)"
  "a_txs a g = Some tx \<Longrightarrow> f tx = Inl e \<Longrightarrow> spec_mutate g f a = (Inl e, a)"
  "a_txs a g = Some tx \<Longrightarrow> f tx = Inr tx' \<Longrightarrow> spec_mutate g f a = (Inr tx', a\<lparr>a_txs := (a_txs a)(g \<mapsto> tx')\<rparr>)"
  by (simp_all add: spec_mutate_def)

context payload_codec
begin

text \<open>A successful attempt has the effect of the atomic operation at the moment of its write.\<close>

lemma cas_attempt:
  assumes "good db" and "good (mid n db)" and "bt_get (t_transactions db) g = Some (p, u)"
    and "decode_payload C p = Inr tx" and "f tx = Inr tx'" and "gid tx' = g"
    and "update_if_payload g p (transaction_row C tx') (mid n db) = (True, db')"
  shows "spec_mutate g f (view (mid n db)) = (Inr tx', view db')"
proof -
  from assms(7) obtain u' where row: "bt_get (t_transactions (mid n db)) g = Some (p, u')"
    and db': "db' = (mid n db)\<lparr>t_transactions := bt_insert g (transaction_row C tx') (t_transactions (mid n db))\<rparr>"
    by (auto simp: update_if_payload_def split: option.splits if_splits)
  have "a_txs (view (mid n db)) g = Some tx" using good_row [OF assms(2) row] assms(4) by auto
  then show ?thesis
    using write_row(2) [OF assms(2,6)] assms(5) spec_mutate_cases(3) by (simp add: db')
qed

lemma cas_linear:
  assumes "good db" and "\<And>n db. good db \<Longrightarrow> good (mid n db)" and "\<And>tx tx'. f tx = Inr tx' \<Longrightarrow> gid tx' = gid tx"
    and "cas_loop n C mid what g f db = (r, db')"
  shows "\<exists>j \<le> n. good (meanwhile mid n j db)
    \<and> (spec_mutate g f (view (meanwhile mid n j db)) = (r, view db')
       \<or> j = n \<and> r = Inl (StoreError (Contended what)) \<and> db' = meanwhile mid n j db)"
  using assms(1,4)
proof (induction n arbitrary: db)
  case 0
  then show ?case by auto
next
  case (Suc n)
  show ?case
  proof (cases "bt_get (t_transactions db) g")
    case None
    then show ?thesis using Suc.prems spec_mutate_cases(1) [OF view_None] by (intro exI [of _ 0]) auto
  next
    case (Some row)
    obtain p u where row: "row = (p, u)" by fastforce
    obtain tx where tx: "gid tx = g" "decode_payload C p = Inr tx" "a_txs (view db) g = Some tx"
      using good_row [OF Suc.prems(1)] Some row by blast
    note mid = assms(2) [OF Suc.prems(1), of n]
    show ?thesis
    proof (cases "f tx")
      case (Inl e)
      then have "r = Inl e" "db' = db" using Suc.prems(2) Some row tx by simp_all
      then show ?thesis using Suc.prems(1) spec_mutate_cases(2) [OF tx(3), of f e] Inl by (intro exI [of _ 0]) simp
    next
      case (Inr tx')
      then have own: "gid tx' = g" using assms(3) tx(1) by metis
      obtain changed db1 where upd: "update_if_payload g p (transaction_row C tx') (mid n db) = (changed, db1)" by fastforce
      show ?thesis
      proof (cases changed)
        case True
        then have "r = Inr tx'" "db' = db1" using Suc.prems(2) Some row tx Inr upd by simp_all
        then show ?thesis
          using cas_attempt [where n = n and mid = mid and f = f, OF Suc.prems(1) mid _ tx(2) Inr own] Some row upd True mid
          by (intro exI [of _ 1]) simp
      next
        case False
        then have db1: "db1 = mid n db" using upd by (auto simp: update_if_payload_def split: option.splits if_splits)
        then have "cas_loop n C mid what g f (mid n db) = (r, db')"
          using Suc.prems(2) Some row tx Inr upd False by simp
        from Suc.IH [OF mid this] obtain j where "j \<le> n" "good (meanwhile mid n j (mid n db))"
          "spec_mutate g f (view (meanwhile mid n j (mid n db))) = (r, view db')
             \<or> j = n \<and> r = Inl (StoreError (Contended what)) \<and> db' = meanwhile mid n j (mid n db)" by blast
        then show ?thesis by (intro exI [of _ "Suc j"]) auto
      qed
    qed
  qed
qed

end

section \<open>Properties\<close>

text \<open>
  C17: A SQLite compare-and-swap never loses an update. Other connections may commit anything
  between the read and the write of each of its 16 attempts; still the operation has exactly
  the effect and the result of the atomic operation at one moment during its run, or it reports
  contention after 16 attempts and has changed nothing itself.
\<close>

theorem sqlite_update_linearizable:
  assumes "\<And>tx. from_json C (to_json C tx) = Some tx" and "sql_good C db"
    and "\<And>n db. sql_good C db \<Longrightarrow> sql_good C (mid n db)"
    and "\<And>tx tx'. f tx = Inr tx' \<Longrightarrow> gid tx' = gid tx"
    and "sqlite_mutate C mid what g f db = (r, db')"
  shows "\<exists>j \<le> 16. spec_mutate g f (sql_view C (meanwhile mid 16 j db)) = (r, sql_view C db')
       \<or> j = 16 \<and> r = Inl (StoreError (Contended what)) \<and> db' = meanwhile mid 16 j db"
proof -
  have "payload_codec C" using assms(1) by unfold_locales
  from payload_codec.cas_linear [OF this assms(2,3,4) assms(5) [unfolded sqlite_mutate_def]]
  show ?thesis by blast
qed

definition sample_db :: "transaction sql_db" where
  "sample_db = migrated\<lparr>t_transactions := [(''g1'', transaction_row plain_codec sample_tcc)]\<rparr>"

text \<open>Another connection that registers a branch of its own in the first gap.\<close>

definition rival :: "nat \<Rightarrow> transaction sql_db \<Rightarrow> transaction sql_db" where
  "rival n db = (if n = 15 then snd (locked_mutate plain_codec ''g1'' (\<lambda>tx. append_dynamic_branch 1500 tx sample_branch) db) else db)"

lemma sample_db_good: "sql_good plain_codec sample_db"
  by (simp add: sample_db_def sql_good_def plain_codec_def migrated_def transaction_row_def bt_wf_def bt_get_def
      sample_defs)

lemma rival_good: "sql_good plain_codec db \<Longrightarrow> sql_good plain_codec (rival n db)"
  using faithful_run [OF plain.transitions_faithful(1) [of "''g1''" 1500 sample_branch], of db]
  by (cases "locked_mutate plain_codec ''g1'' (\<lambda>tx. append_dynamic_branch 1500 tx sample_branch) db") (auto simp: rival_def)

theorem sqlite_update_linearizable_witness:
  "\<exists>r db'. sqlite_mutate plain_codec rival ''branch registration'' ''g1'' (\<lambda>tx. append_dynamic_branch 2000 tx sample_branch) sample_db = (r, db')
   \<and> (\<exists>j \<le> 16. spec_mutate ''g1'' (\<lambda>tx. append_dynamic_branch 2000 tx sample_branch)
          (sql_view plain_codec (meanwhile rival 16 j sample_db)) = (r, sql_view plain_codec db')
       \<or> j = 16 \<and> r = Inl (StoreError (Contended ''branch registration'')) \<and> db' = meanwhile rival 16 j sample_db)"
proof -
  let ?f = "\<lambda>tx. append_dynamic_branch 2000 tx sample_branch"
  obtain r db' where run: "sqlite_mutate plain_codec rival ''branch registration'' ''g1'' ?f sample_db = (r, db')" by fastforce
  have codec: "from_json plain_codec (to_json plain_codec tx) = Some tx" for tx by (simp add: plain_codec_def)
  have "\<exists>j \<le> 16. spec_mutate ''g1'' ?f (sql_view plain_codec (meanwhile rival 16 j sample_db)) = (r, sql_view plain_codec db')
       \<or> j = 16 \<and> r = Inl (StoreError (Contended ''branch registration'')) \<and> db' = meanwhile rival 16 j sample_db"
    by (rule sqlite_update_linearizable [where f = ?f, OF codec sample_db_good _ _ run])
      (erule rival_good, erule transitions_keep_gid(1))
  with run show ?thesis by blast
qed

text \<open>
  C33: On Postgres and MySQL the barrier of a try and that of a cancel can both be decided
  against each other (for identifiers that fit the columns and that the collation tells apart: \<open>mvcc_barrier\<close>). When the cancel runs between the \<^verbatim>\<open>SELECT\<close> and the \<^verbatim>\<open>COMMIT\<close> of the
  try, it does not see the uncommitted row: it is recorded as a null compensation, and the
  try is executed all the same, so the branch is tried and never cancelled. On SQLite, whose writers are serialised, no order
  of the two gives this pair of decisions.
\<close>

theorem mvcc_barrier_race:
  assumes "bt_get (t_barriers db) (barrier_key (barrier_new g i ''try'')) = None"
    and "bt_get (t_barriers db) (barrier_key (barrier_new g i ''cancel'')) = None"
  shows "fst (mvcc_barrier id id now2 (barrier_new g i ''cancel'') db) = Inr SkipNullCompensation
    \<and> fst (mvcc_barrier id (\<lambda>db. snd (mvcc_barrier id id now2 (barrier_new g i ''cancel'') db)) now1
          (barrier_new g i ''try'') db) = Inr Execute
    \<and> fst (sqlite_barrier now2 (barrier_new g i ''cancel'') (snd (sqlite_barrier now1 (barrier_new g i ''try'') db)))
        = Inr Execute
    \<and> fst (sqlite_barrier now1 (barrier_new g i ''try'') (snd (sqlite_barrier now2 (barrier_new g i ''cancel'') db)))
        = Inr SkipCancelledTry"
  using assms
  by (auto simp: mvcc_barrier_def sqlite_barrier_def insert_barrier_def insert_ignore_simps barrier_new_def
      barrier_key_def Let_def)

theorem mvcc_barrier_race_witness:
  "fst (mvcc_barrier id (\<lambda>db. snd (mvcc_barrier id id 2 (barrier_new ''g'' ''b'' ''cancel'') db)) 1
      (barrier_new ''g'' ''b'' ''try'') (migrated :: transaction sql_db)) = Inr Execute"
  using mvcc_barrier_race [of "migrated :: transaction sql_db" "''g''" "''b''" 2 1] by (simp add: migrated_def)

text \<open>
  C38: The relational stores identify a barrier by the text \<^verbatim>\<open>gid:branch:op\<close>, so barriers of
  different transactions can collide: after transaction \<open>g\<close> has claimed branch \<open>b:c\<close>, transaction
  \<open>g:b\<close> is told that the same operation of its branch \<open>c\<close> is a duplicate. The in-memory store keeps
  them apart.
\<close>

theorem sql_barrier_collision:
  assumes "bt_get (t_barriers db) (barrier_key (barrier_new g (b @ '':'' @ c) oper)) = None"
    and "oper \<notin> {''try'', ''cancel''}" and "barriers s = {}"
  shows "fst (sqlite_barrier now1 (barrier_new g (b @ '':'' @ c) oper) db) = Inr Execute
    \<and> fst (sqlite_barrier now2 (barrier_new (g @ '':'' @ b) c oper)
          (snd (sqlite_barrier now1 (barrier_new g (b @ '':'' @ c) oper) db))) = Inr SkipDuplicate
    \<and> fst (mem_barrier (barrier_new (g @ '':'' @ b) c oper)
          (snd (mem_barrier (barrier_new g (b @ '':'' @ c) oper) s))) = Inr Execute"
  using assms
  by (simp add: sqlite_barrier_def insert_barrier_def insert_ignore_simps mem_barrier_def barrier_new_def
      barrier_key_def Let_def)

theorem sql_barrier_collision_witness:
  "fst (sqlite_barrier 2 (barrier_new ''a:b'' ''c'' ''action'')
      (snd (sqlite_barrier 1 (barrier_new ''a'' ''b:c'' ''action'') (migrated :: transaction sql_db)))) = Inr SkipDuplicate"
  using sql_barrier_collision [of "migrated :: transaction sql_db" "''a''" "''b''" "''c''" "''action''" mem_new]
  by (simp add: migrated_def mem_new_def)

lemma as_i64_cases:
  shows as_i64_small: "w < 2 ^ 63 \<Longrightarrow> as_i64 w = uint w"
    and as_i64_big: "2 ^ 63 \<le> w \<Longrightarrow> as_i64 w < 0"
proof -
  have up: "uint w < 2 ^ 64" using uint_lt2p [of w] by simp
  have iff: "w < 2 ^ 63 \<longleftrightarrow> uint w < 2 ^ 63" by (simp add: word_less_def)
  show "as_i64 w = uint w" if "w < 2 ^ 63"
  proof -
    have "- (2 ^ 63) \<le> uint w" by (rule order_trans [OF _ uint_ge_0]) simp
    then show ?thesis
      using that iff unfolding as_i64_def sint_uint by (intro signed_take_bit_int_eq_self) simp_all
  qed
  show "as_i64 w < 0" if "2 ^ 63 \<le> w"
  proof -
    have "2 ^ 63 \<le> uint w" using that iff by (simp add: not_less [symmetric])
    then have "signed_take_bit 63 (uint w) \<le> uint w - 2 ^ Suc 63" by (rule signed_take_bit_int_less_eq)
    then have "signed_take_bit 63 (uint w) < 0" using up by (simp del: signed_take_bit_negative_iff)
    then show ?thesis unfolding as_i64_def sint_uint by simp
  qed
qed



end
