(* ===== verification/Xa_Resource.thy ===== *)
theory Xa_Resource
  imports Sql_Store
begin

text \<open>
  The participant side of XA (\<^verbatim>\<open>src/xa.rs\<close>): the resource managers for MySQL and Postgres. A
  business database is what its two-phase protocol can observe: the work committed so far, the
  rows of the barrier table, the prepared branches, and the table of heuristic decisions. The
  work of a branch is opaque. Each statement of a local branch, each statement of the second phase and each call to the coordinator may fail before it
  has an effect, or have its effect and lose the reply; which one happens is a parameter. The statements on the table of heuristic
  decisions do not fail in the model, and one reading of the clock serves a whole heuristic resolution.
\<close>

section \<open>Identifiers\<close>

definition is_ascii_alphanumeric :: "char \<Rightarrow> bool" where
  "is_ascii_alphanumeric c \<longleftrightarrow>
     CHR ''0'' \<le> c \<and> c \<le> CHR ''9'' \<or> CHR ''A'' \<le> c \<and> c \<le> CHR ''Z'' \<or> CHR ''a'' \<le> c \<and> c \<le> CHR ''z''"

definition safe_byte :: "char \<Rightarrow> bool" where
  "safe_byte c \<longleftrightarrow> is_ascii_alphanumeric c \<or> c \<in> {CHR ''-'', CHR ''_'', CHR ''.'', CHR '':''}"

datatype xa_error =
    InvalidXidPart string
  | ResourceIdTooLong
  | InvalidPhase2Url
  | InvalidPhase
  | InvalidDecisionId
  | InvalidReason
  | InvalidStatus
  | InvalidTimestamp
  | HeuristicConflict
  | DecisionNotFound
  | BusinessFailed
  | RegistrationFailed
  | StatementFailed

type_synonym 'a xa_res = "xa_error + 'a"

record xa_branch_descriptor =
  xa_gid :: string
  xa_branch_id :: string
  phase2_url :: string

definition validate_xid_part :: "string \<Rightarrow> string \<Rightarrow> unit xa_res" where
  "validate_xid_part name part =
     ensure (part \<noteq> [] \<and> length part \<le> 128 \<and> list_all safe_byte part) (InvalidXidPart name)"

definition descriptor_validate :: "libs \<Rightarrow> xa_branch_descriptor \<Rightarrow> unit xa_res" where
  "descriptor_validate lib b =
     res_seq (validate_xid_part ''gid'' (xa_gid b))
     (res_seq (validate_xid_part ''branch id'' (xa_branch_id b))
     (res_seq (ensure (length (xa_gid b) + length (xa_branch_id b) + 1 \<le> 128) ResourceIdTooLong)
     (res_bind (ok_or (parse_url lib (phase2_url b)) InvalidPhase2Url) (\<lambda>u.
       ensure (scheme u \<in> {''http'', ''https''} \<and> host u \<noteq> None \<and> username u = [] \<and> password u = None
               \<and> fragment u = None) InvalidPhase2Url))))"

definition resource_id :: "xa_branch_descriptor \<Rightarrow> string" where
  "resource_id b = xa_gid b @ ''-'' @ xa_branch_id b"

definition mysql_xa_sql :: "string \<Rightarrow> string \<Rightarrow> string" where
  "mysql_xa_sql command xid = ''XA '' @ command @ '' '' @ [CHR 0x27] @ xid @ [CHR 0x27]"

definition postgres_xa_sql :: "string \<Rightarrow> string \<Rightarrow> string" where
  "postgres_xa_sql command xid =
     (if command = ''prepare'' then ''PREPARE TRANSACTION ''
      else if command = ''commit'' then ''COMMIT PREPARED ''
      else ''ROLLBACK PREPARED '') @ [CHR 0x27] @ xid @ [CHR 0x27]"

section \<open>Phases, statuses and records\<close>

datatype xa_phase2 = Commit | Rollback

definition phase2_parse :: "string \<Rightarrow> xa_phase2 xa_res" where
  "phase2_parse s =
     (if s = ''commit'' then Inr Commit
      else if s = ''rollback'' \<or> s = ''abort'' then Inr Rollback
      else Inl InvalidPhase)"

definition xa_phase_name :: "xa_phase2 \<Rightarrow> string" where
  "xa_phase_name p = (case p of Commit \<Rightarrow> ''commit'' | Rollback \<Rightarrow> ''rollback'')"

datatype 'v xa_local_outcome = LocallyPrepared 'v | Duplicate

datatype xa_phase2_outcome = Applied | AlreadyResolved

datatype xa_heuristic_status = Requested | StatusApplied | StatusAlreadyResolved | StatusFailed

definition heuristic_status_name :: "xa_heuristic_status \<Rightarrow> string" where
  "heuristic_status_name s =
     (case s of Requested \<Rightarrow> ''requested'' | StatusApplied \<Rightarrow> ''applied''
      | StatusAlreadyResolved \<Rightarrow> ''already_resolved'' | StatusFailed \<Rightarrow> ''failed'')"

definition parse_heuristic_status :: "string \<Rightarrow> xa_heuristic_status xa_res" where
  "parse_heuristic_status s =
     (if s = ''requested'' then Inr Requested
      else if s = ''applied'' then Inr StatusApplied
      else if s = ''already_resolved'' then Inr StatusAlreadyResolved
      else if s = ''failed'' then Inr StatusFailed
      else Inl InvalidStatus)"

definition heuristic_status_for_outcome :: "xa_phase2_outcome \<Rightarrow> xa_heuristic_status" where
  "heuristic_status_for_outcome out = (case out of Applied \<Rightarrow> StatusApplied | AlreadyResolved \<Rightarrow> StatusAlreadyResolved)"

definition completed_heuristic_outcome :: "xa_heuristic_status \<Rightarrow> xa_phase2_outcome option" where
  "completed_heuristic_outcome s =
     (case s of StatusApplied \<Rightarrow> Some Applied | StatusAlreadyResolved \<Rightarrow> Some AlreadyResolved
      | Requested \<Rightarrow> None | StatusFailed \<Rightarrow> None)"

record xa_heuristic_request =
  rq_decision_id :: string
  rq_decision :: xa_phase2
  rq_reason :: string

definition request_validate :: "xa_heuristic_request \<Rightarrow> unit xa_res" where
  "request_validate rq =
     res_seq (ensure (rq_decision_id rq \<noteq> [] \<and> length (rq_decision_id rq) \<le> 64
        \<and> list_all safe_byte (rq_decision_id rq)) InvalidDecisionId)
      (ensure (trim (rq_reason rq) \<noteq> [] \<and> length (rq_reason rq) \<le> 512) InvalidReason)"

record xa_heuristic_record =
  hr_decision_id :: string
  hr_gid :: string
  hr_branch_id :: string
  hr_decision :: xa_phase2
  hr_reason :: string
  hr_status :: xa_heuristic_status
  hr_requested_at_millis :: u64
  hr_finished_at_millis :: "u64 option"

definition record_resource_id :: "xa_heuristic_record \<Rightarrow> string" where
  "record_resource_id r = hr_gid r @ ''-'' @ hr_branch_id r"

record raw_heuristic_record =
  raw_decision_id :: string
  raw_gid :: string
  raw_branch_id :: string
  raw_decision :: string
  raw_reason :: string
  raw_status :: string
  raw_requested_at_millis :: int
  raw_finished_at_millis :: "int option"

definition timestamp :: "int \<Rightarrow> u64 xa_res" where
  "timestamp i = (case u64_try_from i of Inl _ \<Rightarrow> Inl InvalidTimestamp | Inr w \<Rightarrow> Inr w)"

definition heuristic_record_from_values :: "raw_heuristic_record \<Rightarrow> xa_heuristic_record xa_res" where
  "heuristic_record_from_values raw =
     res_bind (phase2_parse (raw_decision raw)) (\<lambda>d.
     res_bind (parse_heuristic_status (raw_status raw)) (\<lambda>s.
     res_bind (timestamp (raw_requested_at_millis raw)) (\<lambda>t.
     res_bind (case raw_finished_at_millis raw of None \<Rightarrow> Inr None | Some i \<Rightarrow> map_sum id Some (timestamp i)) (\<lambda>f.
       Inr \<lparr>hr_decision_id = raw_decision_id raw, hr_gid = raw_gid raw, hr_branch_id = raw_branch_id raw,
            hr_decision = d, hr_reason = raw_reason raw, hr_status = s, hr_requested_at_millis = t,
            hr_finished_at_millis = f\<rparr>))))"

definition ensure_heuristic_request_matches ::
  "xa_heuristic_record \<Rightarrow> xa_branch_descriptor \<Rightarrow> xa_heuristic_request \<Rightarrow> unit xa_res" where
  "ensure_heuristic_request_matches r b rq =
     ensure (hr_decision_id r = rq_decision_id rq \<and> hr_gid r = xa_gid b \<and> hr_branch_id r = xa_branch_id b
             \<and> hr_decision r = rq_decision rq \<and> hr_reason r = rq_reason rq) HeuristicConflict"

record xa_reconciliation_report =
  prepared_resource_ids :: "string list"
  pending_decisions :: "xa_heuristic_record list"
  prepared_without_decision :: "string list"
  decisions_without_prepared :: "string list"

definition build_reconciliation_report :: "string list \<Rightarrow> xa_heuristic_record list \<Rightarrow> xa_reconciliation_report" where
  "build_reconciliation_report prepared decisions =
     (let ids = remdups_adj (sort prepared);
          pending = filter (\<lambda>r. hr_status r \<in> {Requested, StatusFailed}) decisions;
          decided = remdups_adj (sort (map record_resource_id pending)) in
      \<lparr>prepared_resource_ids = ids, pending_decisions = pending,
       prepared_without_decision = filter (\<lambda>i. i \<notin> set decided) ids,
       decisions_without_prepared = filter (\<lambda>i. i \<notin> set ids) decided\<rparr>)"

section \<open>The business database\<close>

type_synonym xa_key = "string \<times> string"

record 'w xa_db =
  x_committed :: "(xa_key \<times> 'w) list"
  x_barriers :: "xa_key set"
  x_prepared :: "(string \<times> xa_key \<times> 'w) list"
  x_registered :: "xa_key set"
  x_decisions :: "(string, raw_heuristic_record) btree_map"

definition xa_empty :: "'w xa_db" where
  "xa_empty = \<lparr>x_committed = [], x_barriers = {}, x_prepared = [], x_registered = {}, x_decisions = []\<rparr>"

definition xa_key_of :: "xa_branch_descriptor \<Rightarrow> xa_key" where
  "xa_key_of b = (xa_gid b, xa_branch_id b)"

text \<open>
  How the statements of one local branch end. The work of the business operation is what it
  wrote. \<open>Refused\<close>: an error with no effect; \<open>ReplyLost\<close>: an error after the effect.
\<close>

datatype reply = Done | Refused | ReplyLost

record ('v, 'w) xa_env =
  start_ok :: bool
  barrier_ok :: bool
  business :: "('v \<times> 'w) option"
  register_reply :: reply
  end_ok :: bool
  prepare_reply :: reply
  cleanup_ok :: bool

definition held_barriers :: "'w xa_db \<Rightarrow> xa_key set" where
  "held_barriers db = (fst \<circ> snd) ` set (x_prepared db)"

text \<open>
  From the barrier row to the registration of the branch with the coordinator: an early result,
  or the value and the work that are left to prepare. A row that a prepared branch has
  inserted is locked, so that inserting it again fails. Nothing of an open
  transaction survives its clean-up, whether the rollback succeeds or the connection is closed.
\<close>

definition local_work ::
  "('v, 'w) xa_env \<Rightarrow> xa_branch_descriptor \<Rightarrow> 'w xa_db \<Rightarrow> ('v xa_local_outcome xa_res + 'v \<times> 'w) \<times> 'w xa_db" where
  "local_work E b db =
     (let key = xa_key_of b in
      if \<not> barrier_ok E \<or> key \<in> held_barriers db then (Inl (Inl StatementFailed), db)
      else if key \<in> x_barriers db then (Inl (if cleanup_ok E then Inr Duplicate else Inl StatementFailed), db)
      else (case business E of
              None \<Rightarrow> (Inl (Inl BusinessFailed), db)
            | Some (v, w) \<Rightarrow>
                (let db = (if register_reply E = Refused then db
                           else db\<lparr>x_registered := insert key (x_registered db)\<rparr>) in
                 if register_reply E \<noteq> Done then (Inl (Inl RegistrationFailed), db)
                 else (Inr (v, w), db))))"

definition prepared_in :: "xa_branch_descriptor \<Rightarrow> 'w \<Rightarrow> 'w xa_db \<Rightarrow> 'w xa_db" where
  "prepared_in b w db = db\<lparr>x_prepared := x_prepared db @ [(resource_id b, xa_key_of b, w)]\<rparr>"

text \<open>
  MySQL: the branch is an XA transaction from its start, an identifier in use is refused there,
  and the clean-up after a failed \<^verbatim>\<open>XA PREPARE\<close> rolls the branch back if it still can.
\<close>

definition mysql_prepare_branch ::
  "libs \<Rightarrow> ('v, 'w) xa_env \<Rightarrow> xa_branch_descriptor \<Rightarrow> ('w xa_db, xa_error, 'v xa_local_outcome) act" where
  "mysql_prepare_branch lib E b db =
     (case res_seq (descriptor_validate lib b) (ensure (length (resource_id b) \<le> 64) ResourceIdTooLong) of
        Inl e \<Rightarrow> (Inl e, db)
      | Inr _ \<Rightarrow>
          if \<not> start_ok E \<or> resource_id b \<in> fst ` set (x_prepared db) then (Inl StatementFailed, db)
          else (case local_work E b db of
                  (Inl result, db) \<Rightarrow> (result, db)
                | (Inr (v, w), db) \<Rightarrow>
                    if \<not> end_ok E then (Inl StatementFailed, db)
                    else (case prepare_reply E of
                            Done \<Rightarrow> (Inr (LocallyPrepared v), prepared_in b w db)
                          | Refused \<Rightarrow> (Inl StatementFailed, db)
                          | ReplyLost \<Rightarrow> (Inl StatementFailed, if cleanup_ok E then db else prepared_in b w db))))"

text \<open>
  Postgres: an ordinary transaction until \<^verbatim>\<open>PREPARE TRANSACTION\<close>, which refuses an identifier in use; the
  clean-up \<^verbatim>\<open>ROLLBACK\<close> does not touch a transaction that has been prepared already.
\<close>

definition postgres_prepare_branch ::
  "libs \<Rightarrow> ('v, 'w) xa_env \<Rightarrow> xa_branch_descriptor \<Rightarrow> ('w xa_db, xa_error, 'v xa_local_outcome) act" where
  "postgres_prepare_branch lib E b db =
     (case descriptor_validate lib b of
        Inl e \<Rightarrow> (Inl e, db)
      | Inr _ \<Rightarrow>
          if \<not> start_ok E then (Inl StatementFailed, db)
          else (case local_work E b db of
                  (Inl result, db) \<Rightarrow> (result, db)
                | (Inr (v, w), db) \<Rightarrow>
                    if prepare_reply E = Refused \<or> resource_id b \<in> fst ` set (x_prepared db) then (Inl StatementFailed, db)
                    else (if prepare_reply E = Done then Inr (LocallyPrepared v) else Inl StatementFailed,
                          prepared_in b w db)))"

definition finish_prepared :: "string \<Rightarrow> xa_phase2 \<Rightarrow> xa_key \<times> 'w \<Rightarrow> 'w xa_db \<Rightarrow> 'w xa_db" where
  "finish_prepared xid phase entry db =
     (let db = db\<lparr>x_prepared := filter (\<lambda>(x, _). x \<noteq> xid) (x_prepared db)\<rparr> in
      case phase of
        Commit \<Rightarrow> db\<lparr>x_committed := x_committed db @ [entry], x_barriers := insert (fst entry) (x_barriers db)\<rparr>
      | Rollback \<Rightarrow> db)"

text \<open>\<^verbatim>\<open>XA COMMIT\<close> or \<^verbatim>\<open>COMMIT PREPARED\<close> and the rollbacks: an unknown identifier counts as resolved.\<close>

definition resolve_xid :: "reply \<Rightarrow> string \<Rightarrow> xa_phase2 \<Rightarrow> ('w xa_db, xa_error, xa_phase2_outcome) act" where
  "resolve_xid rep xid phase db =
     (case (rep, map_of (x_prepared db) xid) of
        (Refused, _) \<Rightarrow> (Inl StatementFailed, db)
      | (Done, None) \<Rightarrow> (Inr AlreadyResolved, db)
      | (ReplyLost, None) \<Rightarrow> (Inl StatementFailed, db)
      | (Done, Some entry) \<Rightarrow> (Inr Applied, finish_prepared xid phase entry db)
      | (ReplyLost, Some entry) \<Rightarrow> (Inl StatementFailed, finish_prepared xid phase entry db))"

definition mysql_resolve ::
  "libs \<Rightarrow> reply \<Rightarrow> xa_branch_descriptor \<Rightarrow> xa_phase2 \<Rightarrow> ('w xa_db, xa_error, xa_phase2_outcome) act" where
  "mysql_resolve lib rep b phase db =
     (case res_seq (descriptor_validate lib b) (ensure (length (resource_id b) \<le> 64) ResourceIdTooLong) of
        Inl e \<Rightarrow> (Inl e, db)
      | Inr _ \<Rightarrow> resolve_xid rep (resource_id b) phase db)"

definition postgres_resolve ::
  "libs \<Rightarrow> reply \<Rightarrow> xa_branch_descriptor \<Rightarrow> xa_phase2 \<Rightarrow> ('w xa_db, xa_error, xa_phase2_outcome) act" where
  "postgres_resolve lib rep b phase db =
     (case descriptor_validate lib b of
        Inl e \<Rightarrow> (Inl e, db)
      | Inr _ \<Rightarrow> resolve_xid rep (resource_id b) phase db)"

definition recover_prepared :: "'w xa_db \<Rightarrow> string list" where
  "recover_prepared db = sort (map fst (x_prepared db))"

section \<open>Heuristic decisions\<close>

definition raw_of_request :: "u64 \<Rightarrow> xa_branch_descriptor \<Rightarrow> xa_heuristic_request \<Rightarrow> raw_heuristic_record" where
  "raw_of_request now b rq =
     \<lparr>raw_decision_id = rq_decision_id rq, raw_gid = xa_gid b, raw_branch_id = xa_branch_id b,
      raw_decision = xa_phase_name (rq_decision rq), raw_reason = rq_reason rq,
      raw_status = heuristic_status_name Requested, raw_requested_at_millis = as_i64 now,
      raw_finished_at_millis = None\<rparr>"

text \<open>
  The insertion does nothing when the decision id has a row already. When another decision id
  has a row for the branch, MySQL's \<^verbatim>\<open>INSERT IGNORE\<close> does nothing either, and Postgres, whose
  conflict clause names the decision id only, reports the violated unique constraint. Then the
  row with that decision id or that branch is read back and compared.
\<close>

definition same_decision :: "xa_heuristic_request \<Rightarrow> raw_heuristic_record \<Rightarrow> bool" where
  "same_decision rq row \<longleftrightarrow> raw_decision_id row = rq_decision_id rq"

definition same_resource :: "xa_branch_descriptor \<Rightarrow> raw_heuristic_record \<Rightarrow> bool" where
  "same_resource b row \<longleftrightarrow> raw_gid row = xa_gid b \<and> raw_branch_id row = xa_branch_id b"

definition read_back_intent ::
  "xa_branch_descriptor \<Rightarrow> xa_heuristic_request \<Rightarrow> 'w xa_db \<Rightarrow> xa_heuristic_record xa_res" where
  "read_back_intent b rq db =
     res_bind (ok_or (find (\<lambda>row. same_decision rq row \<or> same_resource b row) (bt_values (x_decisions db))) DecisionNotFound)
       (\<lambda>row. res_bind (heuristic_record_from_values row) (\<lambda>r.
              res_seq (ensure_heuristic_request_matches r b rq) (Inr r)))"

definition insert_intent :: "u64 \<Rightarrow> xa_branch_descriptor \<Rightarrow> xa_heuristic_request \<Rightarrow> 'w xa_db \<Rightarrow> 'w xa_db" where
  "insert_intent now b rq db =
     db\<lparr>x_decisions := bt_insert (rq_decision_id rq) (raw_of_request now b rq) (x_decisions db)\<rparr>"

definition mysql_record_intent ::
  "u64 \<Rightarrow> xa_branch_descriptor \<Rightarrow> xa_heuristic_request \<Rightarrow> ('w xa_db, xa_error, xa_heuristic_record) act" where
  "mysql_record_intent now b rq db =
     (let db = (if list_ex (\<lambda>row. same_decision rq row \<or> same_resource b row) (bt_values (x_decisions db)) then db
                else insert_intent now b rq db) in
      (read_back_intent b rq db, db))"

definition postgres_record_intent ::
  "u64 \<Rightarrow> xa_branch_descriptor \<Rightarrow> xa_heuristic_request \<Rightarrow> ('w xa_db, xa_error, xa_heuristic_record) act" where
  "postgres_record_intent now b rq db =
     (if list_ex (same_decision rq) (bt_values (x_decisions db)) then (read_back_intent b rq db, db)
      else if list_ex (same_resource b) (bt_values (x_decisions db)) then (Inl StatementFailed, db)
      else (let db = insert_intent now b rq db in (read_back_intent b rq db, db)))"

definition finish_heuristic_decision ::
  "u64 \<Rightarrow> string \<Rightarrow> xa_heuristic_status \<Rightarrow> ('w xa_db, xa_error, xa_heuristic_record) act" where
  "finish_heuristic_decision now decision_id st db =
     (case bt_get (x_decisions db) decision_id of
        None \<Rightarrow> (Inl DecisionNotFound, db)
      | Some row \<Rightarrow>
          (let row = row\<lparr>raw_status := heuristic_status_name st, raw_finished_at_millis := Some (as_i64 now)\<rparr> in
           (heuristic_record_from_values row, db\<lparr>x_decisions := bt_insert decision_id row (x_decisions db)\<rparr>)))"

text \<open>\<open>record_intent\<close> and \<open>phase2\<close> are the methods of the resource manager.\<close>

definition resolve_heuristically ::
  "libs \<Rightarrow> (u64 \<Rightarrow> xa_branch_descriptor \<Rightarrow> xa_heuristic_request \<Rightarrow> ('w xa_db, xa_error, xa_heuristic_record) act)
    \<Rightarrow> (xa_branch_descriptor \<Rightarrow> xa_phase2 \<Rightarrow> ('w xa_db, xa_error, xa_phase2_outcome) act) \<Rightarrow> u64
    \<Rightarrow> xa_branch_descriptor \<Rightarrow> xa_heuristic_request \<Rightarrow> ('w xa_db, xa_error, xa_phase2_outcome \<times> xa_heuristic_record) act" where
  "resolve_heuristically lib record_intent phase2 now b rq =
     then_ok (lift_res (descriptor_validate lib b)) (\<lambda>_.
     then_ok (lift_res (request_validate rq)) (\<lambda>_.
     then_ok (record_intent now b rq) (\<lambda>r.
       case completed_heuristic_outcome (hr_status r) of
         Some outc \<Rightarrow> ok (outc, r)
       | None \<Rightarrow> (\<lambda>db.
           case phase2 b (rq_decision rq) db of
             (Inl e, db) \<Rightarrow> then_ok (finish_heuristic_decision now (rq_decision_id rq) StatusFailed) (\<lambda>_. fail e) db
           | (Inr outc, db) \<Rightarrow>
               then_ok (finish_heuristic_decision now (rq_decision_id rq) (heuristic_status_for_outcome outc))
                 (\<lambda>r. ok (outc, r)) db))))"

definition mysql_resolve_heuristically ::
  "libs \<Rightarrow> reply \<Rightarrow> u64 \<Rightarrow> xa_branch_descriptor \<Rightarrow> xa_heuristic_request
    \<Rightarrow> ('w xa_db, xa_error, xa_phase2_outcome \<times> xa_heuristic_record) act" where
  "mysql_resolve_heuristically lib rep = resolve_heuristically lib mysql_record_intent (mysql_resolve lib rep)"

definition postgres_resolve_heuristically ::
  "libs \<Rightarrow> reply \<Rightarrow> u64 \<Rightarrow> xa_branch_descriptor \<Rightarrow> xa_heuristic_request
    \<Rightarrow> ('w xa_db, xa_error, xa_phase2_outcome \<times> xa_heuristic_record) act" where
  "postgres_resolve_heuristically lib rep = resolve_heuristically lib postgres_record_intent (postgres_resolve lib rep)"

definition list_heuristic_decisions :: "'w xa_db \<Rightarrow> xa_heuristic_record list xa_res" where
  "list_heuristic_decisions db =
     res_map heuristic_record_from_values
       (sort_key (\<lambda>row. (raw_requested_at_millis row, raw_decision_id row)) (bt_values (x_decisions db)))"

definition reconcile :: "'w xa_db \<Rightarrow> xa_reconciliation_report xa_res" where
  "reconcile db = res_bind (list_heuristic_decisions db) (\<lambda>ds. Inr (build_reconciliation_report (recover_prepared db) ds))"

end
