(* ===== verification/Xa_Safety.thy ===== *)
theory Xa_Safety
  imports Xa_Resource
begin

text \<open>
  What the resource managers of \<^verbatim>\<open>src/xa.rs\<close> guarantee. The locales state what
  MySQL and Postgres have in common: how an intent enters the table of heuristic decisions, and how the
  operations of a resource manager change the business database; both dialects are
  interpretations of them.
\<close>

section \<open>Runs of a resource manager\<close>

text \<open>
  The states a business database reaches when its resource manager prepares branches, resolves
  them and records heuristic decisions, in any order, for any branches and any failures.
\<close>

inductive xa_reach ::
  "(('v, 'w) xa_env \<Rightarrow> xa_branch_descriptor \<Rightarrow> ('w xa_db, xa_error, 'v xa_local_outcome) act) \<Rightarrow>
   (reply \<Rightarrow> xa_branch_descriptor \<Rightarrow> xa_phase2 \<Rightarrow> ('w xa_db, xa_error, xa_phase2_outcome) act) \<Rightarrow>
   (reply \<Rightarrow> u64 \<Rightarrow> xa_branch_descriptor \<Rightarrow> xa_heuristic_request
      \<Rightarrow> ('w xa_db, xa_error, xa_phase2_outcome \<times> xa_heuristic_record) act) \<Rightarrow>
   'w xa_db \<Rightarrow> 'w xa_db \<Rightarrow> bool" for prep res heur db0 where
  xa_refl: "xa_reach prep res heur db0 db0"
| xa_prepares: "xa_reach prep res heur db0 db \<Longrightarrow> xa_reach prep res heur db0 (snd (prep E b db))"
| xa_resolves: "xa_reach prep res heur db0 db \<Longrightarrow> xa_reach prep res heur db0 (snd (res rep b phase db))"
| xa_decides: "xa_reach prep res heur db0 db \<Longrightarrow> xa_reach prep res heur db0 (snd (heur rep now b rq db))"

definition fresh_branch :: "xa_branch_descriptor \<Rightarrow> 'w xa_db \<Rightarrow> bool" where
  "fresh_branch b db \<longleftrightarrow> resource_id b \<notin> fst ` set (x_prepared db) \<and> xa_key_of b \<notin> held_barriers db
     \<and> xa_key_of b \<notin> x_barriers db"

definition prep_outcome ::
  "('v, 'w) xa_env \<Rightarrow> xa_branch_descriptor \<Rightarrow> 'w xa_db \<Rightarrow> 'v xa_local_outcome xa_res \<Rightarrow> 'w xa_db \<Rightarrow> bool" where
  "prep_outcome E b db r db' \<longleftrightarrow>
     (\<exists>reg. x_registered db \<subseteq> reg \<and> db' = db\<lparr>x_registered := reg\<rparr>) \<and> (\<forall>v. r \<noteq> Inr (LocallyPrepared v))
     \<or> (\<exists>v w. business E = Some (v, w) \<and> fresh_branch b db \<and> (\<forall>v'. r = Inr (LocallyPrepared v') \<longrightarrow> v' = v)
           \<and> db' = prepared_in b w (db\<lparr>x_registered := insert (xa_key_of b) (x_registered db)\<rparr>))"

text \<open>What a row of the decision table keeps for ever.\<close>

definition intent_of :: "raw_heuristic_record \<Rightarrow> string \<times> string \<times> string \<times> string \<times> string \<times> int" where
  "intent_of row = (raw_decision_id row, raw_gid row, raw_branch_id row, raw_decision row, raw_reason row,
                    raw_requested_at_millis row)"

definition decisions_wf :: "(string, raw_heuristic_record) btree_map \<Rightarrow> bool" where
  "decisions_wf t \<longleftrightarrow> bt_wf t \<and> (\<forall>k row. bt_get t k = Some row \<longrightarrow> raw_decision_id row = k)
     \<and> (\<forall>k row k' row'. bt_get t k = Some row \<longrightarrow> bt_get t k' = Some row'
          \<longrightarrow> (raw_gid row, raw_branch_id row) = (raw_gid row', raw_branch_id row') \<longrightarrow> k = k')"

definition decisions_kept :: "(string, raw_heuristic_record) btree_map \<Rightarrow> (string, raw_heuristic_record) btree_map \<Rightarrow> bool" where
  "decisions_kept t t' \<longleftrightarrow> (\<forall>k row. bt_get t k = Some row \<longrightarrow> (\<exists>row'. bt_get t' k = Some row' \<and> intent_of row' = intent_of row))"

definition xa_wf :: "'w xa_db \<Rightarrow> bool" where
  "xa_wf db \<longleftrightarrow> distinct (map fst (x_prepared db)) \<and> distinct (map (fst \<circ> snd) (x_prepared db))
     \<and> distinct (map fst (x_committed db)) \<and> x_barriers db = fst ` set (x_committed db)
     \<and> held_barriers db \<inter> x_barriers db = {} \<and> held_barriers db \<union> x_barriers db \<subseteq> x_registered db
     \<and> decisions_wf (x_decisions db)"

text \<open>
  The contract of a resource manager. A preparation leaves everything but the registrations as
  it was, or adds one prepared branch that was neither prepared nor committed before; a
  resolution acts on the branch's identifier; a heuristic resolution acts on it only with
  its intent on record.
\<close>

locale resource_manager =
  fixes prep :: "('v, 'w) xa_env \<Rightarrow> xa_branch_descriptor \<Rightarrow> ('w xa_db, xa_error, 'v xa_local_outcome) act"
    and res :: "reply \<Rightarrow> xa_branch_descriptor \<Rightarrow> xa_phase2 \<Rightarrow> ('w xa_db, xa_error, xa_phase2_outcome) act"
    and heur :: "reply \<Rightarrow> u64 \<Rightarrow> xa_branch_descriptor \<Rightarrow> xa_heuristic_request
      \<Rightarrow> ('w xa_db, xa_error, xa_phase2_outcome \<times> xa_heuristic_record) act"
  assumes prep_effect: "prep E b db = (r, db') \<Longrightarrow>
      prep_outcome E b db r db'"
    and res_effect: "res rep b phase db = (out, db') \<Longrightarrow>
      (\<exists>e. out = Inl e) \<and> db' = db \<or> (out, db') = resolve_xid rep (resource_id b) phase db"
    and heur_effect: "heur rep now b rq db = (resolution, db') \<Longrightarrow> decisions_wf (x_decisions db) \<Longrightarrow>
      \<exists>t. decisions_wf t \<and> decisions_kept (x_decisions db) t
        \<and> (db' = db\<lparr>x_decisions := t\<rparr>
           \<or> db' = (snd (resolve_xid rep (resource_id b) (rq_decision rq) db))\<lparr>x_decisions := t\<rparr>)"
begin

lemma prep_wf:
  assumes "xa_wf db" shows "xa_wf (snd (prep E b db))"
proof -
  obtain r db' where run: "prep E b db = (r, db')" by fastforce
  from prep_effect [OF this, unfolded prep_outcome_def] show ?thesis
  proof (elim disjE conjE exE)
    fix reg assume "x_registered db \<subseteq> reg" "db' = db\<lparr>x_registered := reg\<rparr>"
    then show ?thesis using assms run by (simp add: xa_wf_def held_barriers_def) blast
  next
    fix v w
    assume "fresh_branch b db" and "db' = prepared_in b w (db\<lparr>x_registered := insert (xa_key_of b) (x_registered db)\<rparr>)"
    then show ?thesis using assms run
      by (simp add: xa_wf_def held_barriers_def prepared_in_def fresh_branch_def) blast
  qed
qed

end

lemma key_leaves_with_xid:
  assumes "distinct (map (fst \<circ> snd) ps)" "(xid, k, w) \<in> set ps"
  shows "k \<notin> (fst \<circ> snd) ` set (filter (\<lambda>(x, _). x \<noteq> xid) ps)"
proof
  assume "k \<in> (fst \<circ> snd) ` set (filter (\<lambda>(x, _). x \<noteq> xid) ps)"
  then obtain x w' where "(x, k, w') \<in> set ps" "x \<noteq> xid" by auto
  moreover have "inj_on (fst \<circ> snd) (set ps)" using assms(1) by (simp add: distinct_map)
  ultimately show False using assms(2) inj_onD [of "fst \<circ> snd" "set ps" "(x, k, w')" "(xid, k, w)"] by simp
qed

lemma finish_prepared_wf:
  assumes wf: "xa_wf db" and mem: "(xid, k, w) \<in> set (x_prepared db)"
  shows "xa_wf (finish_prepared xid phase (k, w) db)"
proof -
  let ?ps = "filter (\<lambda>(x, _). x \<noteq> xid) (x_prepared db)"
  have held: "k \<in> held_barriers db" unfolding held_barriers_def using mem by force
  have kept: "distinct (map fst ?ps)" "distinct (map (fst \<circ> snd) ?ps)"
    using wf by (simp_all add: xa_wf_def distinct_map_filter)
  have gone: "k \<notin> (fst \<circ> snd) ` set ?ps" using wf mem by (intro key_leaves_with_xid) (auto simp: xa_wf_def)
  have sub: "(fst \<circ> snd) ` set ?ps \<subseteq> held_barriers db" by (auto simp: held_barriers_def)
  have new: "k \<notin> x_barriers db" "k \<in> x_registered db" using wf held by (auto simp: xa_wf_def)
  then have "k \<notin> fst ` set (x_committed db)" using wf by (simp add: xa_wf_def)
  with kept gone sub new wf show ?thesis
    by (cases phase) (simp_all add: xa_wf_def finish_prepared_def held_barriers_def [of "_ :: 'a xa_db"] Let_def, blast+)
qed

lemma resolve_xid_wf:
  assumes "xa_wf db" shows "xa_wf (snd (resolve_xid rep xid phase db))"
proof (cases "map_of (x_prepared db) xid")
  case None
  then show ?thesis using assms by (cases rep) (simp_all add: resolve_xid_def)
next
  case (Some entry)
  then have "xa_wf (finish_prepared xid phase entry db)"
    using finish_prepared_wf [OF assms, of xid "fst entry" "snd entry" phase] map_of_SomeD [OF Some] by simp
  then show ?thesis using assms Some by (cases rep) (simp_all add: resolve_xid_def)
qed

section \<open>The table of heuristic decisions\<close>

lemma find_unique:
  assumes "x \<in> set xs" "P x" and unique: "\<And>y. y \<in> set xs \<Longrightarrow> P y \<Longrightarrow> y = x"
  shows "find P xs = Some x"
proof (cases "find P xs")
  case None
  then show ?thesis using assms(1,2) by (auto simp: find_None_iff)
next
  case (Some y)
  then have "y \<in> set xs" "P y" by (auto simp: find_Some_iff)
  then show ?thesis using unique Some by blast
qed

lemma decisions_wfD:
  assumes "decisions_wf t"
  shows decisions_wf_bt: "bt_wf t"
    and decisions_wf_id: "bt_get t k = Some row \<Longrightarrow> raw_decision_id row = k"
    and decisions_wf_resource: "bt_get t k = Some row \<Longrightarrow> bt_get t k' = Some row' \<Longrightarrow> same_resource b row
      \<Longrightarrow> same_resource b row' \<Longrightarrow> k = k'"
  using assms unfolding decisions_wf_def same_resource_def by (blast, blast, metis)

definition checked_row :: "xa_branch_descriptor \<Rightarrow> xa_heuristic_request \<Rightarrow> raw_heuristic_record \<Rightarrow> xa_heuristic_record xa_res" where
  "checked_row b rq row = res_bind (heuristic_record_from_values row) (\<lambda>r. res_seq (ensure_heuristic_request_matches r b rq) (Inr r))"

locale intent_log =
  fixes record_intent :: "u64 \<Rightarrow> xa_branch_descriptor \<Rightarrow> xa_heuristic_request \<Rightarrow> ('w xa_db, xa_error, xa_heuristic_record) act"
  assumes intent_known: "decisions_wf (x_decisions db) \<Longrightarrow> bt_get (x_decisions db) (rq_decision_id rq) = Some row
      \<Longrightarrow> same_resource b row \<Longrightarrow> record_intent now b rq db = (checked_row b rq row, db)"
    and intent_conflict: "decisions_wf (x_decisions db) \<Longrightarrow> bt_get (x_decisions db) k = Some row
      \<Longrightarrow> (k = rq_decision_id rq) \<noteq> same_resource b row \<Longrightarrow> \<exists>e. record_intent now b rq db = (Inl e, db)"
    and intent_new: "decisions_wf (x_decisions db)
      \<Longrightarrow> (\<And>k row. bt_get (x_decisions db) k = Some row \<Longrightarrow> k \<noteq> rq_decision_id rq \<and> \<not> same_resource b row)
      \<Longrightarrow> record_intent now b rq db = (checked_row b rq (raw_of_request now b rq), insert_intent now b rq db)"
begin

lemma intent_cases [consumes 1, case_names known conflict new]:
  assumes "decisions_wf (x_decisions db)"
  obtains row where "bt_get (x_decisions db) (rq_decision_id rq) = Some row" "same_resource b row"
      "record_intent now b rq db = (checked_row b rq row, db)"
  | e k row where "bt_get (x_decisions db) k = Some row" "(k = rq_decision_id rq) \<noteq> same_resource b row"
      "record_intent now b rq db = (Inl e, db)"
  | "\<And>k row. bt_get (x_decisions db) k = Some row \<Longrightarrow> k \<noteq> rq_decision_id rq \<and> \<not> same_resource b row"
      "record_intent now b rq db = (checked_row b rq (raw_of_request now b rq), insert_intent now b rq db)"
proof (cases "\<exists>k row. bt_get (x_decisions db) k = Some row \<and> (k = rq_decision_id rq) \<noteq> same_resource b row")
  case True
  then show ?thesis using that(2) intent_conflict [OF assms] by metis
next
  case False
  show ?thesis
  proof (cases "bt_get (x_decisions db) (rq_decision_id rq)")
    case None
    then have "k \<noteq> rq_decision_id rq \<and> \<not> same_resource b row" if "bt_get (x_decisions db) k = Some row" for k row
      using False that by (metis option.distinct(1))
    then show ?thesis using that(3) intent_new [OF assms] by blast
  next
    case (Some row)
    then show ?thesis using False that(1) intent_known [OF assms Some] by blast
  qed
qed

end

lemma checked_row_Inr: "checked_row b rq row = Inr r \<longleftrightarrow>
    heuristic_record_from_values row = Inr r \<and> ensure_heuristic_request_matches r b rq = Inr ()"
  by (auto simp: checked_row_def res_bind_eq_Inr)

lemma read_back_unique:
  assumes wf: "decisions_wf (x_decisions db)" and row: "bt_get (x_decisions db) (rq_decision_id rq) = Some row"
    and res: "same_resource b row"
  shows "read_back_intent b rq db = checked_row b rq row"
proof -
  have "find (\<lambda>row. same_decision rq row \<or> same_resource b row) (bt_values (x_decisions db)) = Some row"
  proof (rule find_unique)
    show "row \<in> set (bt_values (x_decisions db))" using row wf by (auto simp: bt_values_mem decisions_wf_bt)
    fix y assume y: "y \<in> set (bt_values (x_decisions db))" "same_decision rq y \<or> same_resource b y"
    then obtain k where k: "bt_get (x_decisions db) k = Some y" using wf by (auto simp: bt_values_mem decisions_wf_bt)
    have "k = rq_decision_id rq"
      using y(2) decisions_wf_id [OF wf k] decisions_wf_resource [OF wf k row _ res] by (auto simp: same_decision_def)
    then show "y = row" using k row by simp
  qed (simp add: res)
  then show ?thesis by (simp add: read_back_intent_def checked_row_def)
qed

lemma read_back_conflict:
  assumes wf: "decisions_wf (x_decisions db)" and row: "bt_get (x_decisions db) k = Some row"
    and half: "(k = rq_decision_id rq) \<noteq> same_resource b row"
  shows "\<exists>e. read_back_intent b rq db = Inl e"
proof (rule ccontr)
  assume "\<nexists>e. read_back_intent b rq db = Inl e"
  then obtain r where "read_back_intent b rq db = Inr r" by (meson sumE)
  then obtain y where y: "y \<in> set (bt_values (x_decisions db))" and ok: "checked_row b rq y = Inr r"
    by (auto simp: read_back_intent_def res_bind_eq_Inr checked_row_def find_Some_iff intro: nth_mem)
  obtain k' where k': "bt_get (x_decisions db) k' = Some y" using y wf by (auto simp: bt_values_mem decisions_wf_bt)
  have "raw_decision_id y = rq_decision_id rq" "same_resource b y"
    using ok by (auto simp: checked_row_Inr heuristic_record_from_values_def res_bind_eq_Inr
      ensure_heuristic_request_matches_def same_resource_def)
  then have "k' = rq_decision_id rq" "same_resource b y" using decisions_wf_id [OF wf k'] by simp_all
  then show False using half row k' decisions_wf_resource [OF wf row k'] by auto
qed

lemma decisions_wf_insert_intent:
  assumes wf: "decisions_wf (x_decisions db)"
    and new: "\<And>k row. bt_get (x_decisions db) k = Some row \<Longrightarrow> k \<noteq> rq_decision_id rq \<and> \<not> same_resource b row"
  shows "decisions_wf (x_decisions (insert_intent now b rq db))"
    and "decisions_kept (x_decisions db) (x_decisions (insert_intent now b rq db))"
    and "bt_get (x_decisions (insert_intent now b rq db)) (rq_decision_id rq) = Some (raw_of_request now b rq)"
    and "same_resource b (raw_of_request now b rq)"
proof -
  show "same_resource b (raw_of_request now b rq)" by (simp add: raw_of_request_def same_resource_def)
  show "decisions_wf (x_decisions (insert_intent now b rq db))"
    using wf new unfolding decisions_wf_def
    by (simp add: insert_intent_def raw_of_request_def same_resource_def) metis
  show "decisions_kept (x_decisions db) (x_decisions (insert_intent now b rq db))"
    using new unfolding decisions_kept_def by (simp add: insert_intent_def)
  show "bt_get (x_decisions (insert_intent now b rq db)) (rq_decision_id rq) = Some (raw_of_request now b rq)"
    by (simp add: insert_intent_def)
qed

lemma concerned_iff:
  assumes "decisions_wf (x_decisions db)"
  shows "list_ex (same_decision rq) (bt_values (x_decisions db)) \<longleftrightarrow> bt_get (x_decisions db) (rq_decision_id rq) \<noteq> None"
    and "list_ex (same_resource b) (bt_values (x_decisions db)) \<longleftrightarrow> (\<exists>k row. bt_get (x_decisions db) k = Some row \<and> same_resource b row)"
    and "list_ex (\<lambda>row. same_decision rq row \<or> same_resource b row) (bt_values (x_decisions db)) \<longleftrightarrow>
      bt_get (x_decisions db) (rq_decision_id rq) \<noteq> None \<or> (\<exists>k row. bt_get (x_decisions db) k = Some row \<and> same_resource b row)"
proof -
  have mem: "v \<in> set (bt_values (x_decisions db)) \<longleftrightarrow> (\<exists>k. bt_get (x_decisions db) k = Some v)" for v
    by (rule bt_values_mem [OF decisions_wf_bt [OF assms]])
  show decided: "list_ex (same_decision rq) (bt_values (x_decisions db)) \<longleftrightarrow> bt_get (x_decisions db) (rq_decision_id rq) \<noteq> None" for rq
    unfolding list_ex_iff Bex_def mem same_decision_def using decisions_wf_id [OF assms] by (metis not_None_eq)
  show held: "list_ex (same_resource b) (bt_values (x_decisions db)) \<longleftrightarrow> (\<exists>k row. bt_get (x_decisions db) k = Some row \<and> same_resource b row)" for b
    unfolding list_ex_iff Bex_def mem by blast
  have "list_ex (\<lambda>row. same_decision rq row \<or> same_resource b row) xs \<longleftrightarrow> list_ex (same_decision rq) xs \<or> list_ex (same_resource b) xs" for xs
    by (induction xs) auto
  then show "list_ex (\<lambda>row. same_decision rq row \<or> same_resource b row) (bt_values (x_decisions db)) \<longleftrightarrow>
      bt_get (x_decisions db) (rq_decision_id rq) \<noteq> None \<or> (\<exists>k row. bt_get (x_decisions db) k = Some row \<and> same_resource b row)"
    by (simp only: decided held)
qed

interpretation mysql_log: intent_log mysql_record_intent
proof (unfold_locales, goal_cases)
  case (1 db rq row b now)
  then show ?case using read_back_unique [OF 1] concerned_iff(3) [OF 1(1), of rq b] by (simp add: mysql_record_intent_def)
next
  case (2 db k row rq b now)
  then show ?case using read_back_conflict [OF 2] concerned_iff(3) [OF 2(1), of rq b]
    by (auto simp: mysql_record_intent_def)
next
  case (3 db rq b now)
  then have "\<not> list_ex (\<lambda>row. same_decision rq row \<or> same_resource b row) (bt_values (x_decisions db))"
    using concerned_iff(3) [OF 3(1), of rq b] by auto
  then show ?case
    using read_back_unique [OF decisions_wf_insert_intent(1,3,4) [OF 3]] by (simp add: mysql_record_intent_def Let_def)
qed

interpretation postgres_log: intent_log postgres_record_intent
proof (unfold_locales, goal_cases)
  case (1 db rq row b now)
  then show ?case using read_back_unique [OF 1] concerned_iff(1) [OF 1(1), of rq] by (simp add: postgres_record_intent_def)
next
  case (2 db k row rq b now)
  then show ?case using read_back_conflict [OF 2] concerned_iff(1,2) [OF 2(1)]
    by (auto simp: postgres_record_intent_def)
next
  case (3 db rq b now)
  then have "\<not> list_ex (same_decision rq) (bt_values (x_decisions db))" "\<not> list_ex (same_resource b) (bt_values (x_decisions db))"
    using concerned_iff(1) [OF 3(1), of rq] concerned_iff(2) [OF 3(1), of b] 3(2) by auto
  then show ?case
    using read_back_unique [OF decisions_wf_insert_intent(1,3,4) [OF 3]] by (simp add: postgres_record_intent_def Let_def)
qed

section \<open>Heuristic resolution\<close>

lemma resolve_xid_decisions:
  "resolve_xid rep xid phase (db\<lparr>x_decisions := t\<rparr>) =
     (case resolve_xid rep xid phase db of (r, db') \<Rightarrow> (r, db'\<lparr>x_decisions := t\<rparr>))"
  by (cases rep; cases phase) (auto simp: resolve_xid_def finish_prepared_def Let_def split: option.splits)

lemma resolve_xid_keeps_decisions [simp]: "x_decisions (snd (resolve_xid rep xid phase db)) = x_decisions db"
  by (cases rep; cases phase) (auto simp: resolve_xid_def finish_prepared_def Let_def split: option.splits)

lemma decisions_kept_refl [simp]: "decisions_kept t t"
  by (simp add: decisions_kept_def)

lemma decisions_kept_trans: "decisions_kept t u \<Longrightarrow> decisions_kept u v \<Longrightarrow> decisions_kept t v"
  unfolding decisions_kept_def by metis

lemma finish_heuristic_decisions:
  assumes "finish_heuristic_decision now d st db = (r, db')" "decisions_wf (x_decisions db)"
  obtains t where "db' = db\<lparr>x_decisions := t\<rparr>" "decisions_wf t" "decisions_kept (x_decisions db) t"
proof (cases "bt_get (x_decisions db) d")
  case None
  then show ?thesis using assms that [of "x_decisions db"] by (simp add: finish_heuristic_decision_def)
next
  case (Some row)
  let ?row = "row\<lparr>raw_status := heuristic_status_name st, raw_finished_at_millis := Some (as_i64 now)\<rparr>"
  have "decisions_wf (bt_insert d ?row (x_decisions db))"
    using assms(2) Some unfolding decisions_wf_def by (simp split: if_splits) metis
  moreover have "decisions_kept (x_decisions db) (bt_insert d ?row (x_decisions db))"
    using Some by (simp add: decisions_kept_def intent_of_def)
  moreover have "db' = db\<lparr>x_decisions := bt_insert d ?row (x_decisions db)\<rparr>"
    using assms(1) Some by (simp add: finish_heuristic_decision_def Let_def)
  ultimately show ?thesis using that by blast
qed

lemma parse_heuristic_status_name [simp]: "parse_heuristic_status (heuristic_status_name st) = Inr st"
  by (cases st) (simp_all add: parse_heuristic_status_def heuristic_status_name_def)

lemma phase2_parse_name [simp]: "phase2_parse (xa_phase_name p) = Inr p"
  by (cases p) (simp_all add: phase2_parse_def xa_phase_name_def)

lemma completed_outcome [simp]: "completed_heuristic_outcome (heuristic_status_for_outcome out) = Some out"
  by (cases out) (simp_all add: completed_heuristic_outcome_def heuristic_status_for_outcome_def)

lemma finish_heuristic_row:
  assumes "finish_heuristic_decision now d st db = (Inr r, db')" and row: "bt_get (x_decisions db) d = Some row"
    and checked: "checked_row b rq row = Inr r0"
  obtains row' where "bt_get (x_decisions db') d = Some row'" "intent_of row' = intent_of row" "checked_row b rq row' = Inr r"
    "hr_status r = st"
proof -
  let ?row = "row\<lparr>raw_status := heuristic_status_name st, raw_finished_at_millis := Some (as_i64 now)\<rparr>"
  have run: "heuristic_record_from_values ?row = Inr r" "db' = db\<lparr>x_decisions := bt_insert d ?row (x_decisions db)\<rparr>"
    using assms(1) row by (simp_all add: finish_heuristic_decision_def Let_def)
  have "ensure_heuristic_request_matches r b rq = Inr ()" "hr_status r = st"
    using checked run(1) unfolding checked_row_Inr heuristic_record_from_values_def res_bind_eq_Inr
    by (auto simp: ensure_heuristic_request_matches_def)
  then show ?thesis using that [of ?row] run by (simp add: checked_row_Inr intent_of_def)
qed

locale heuristic_resolver = intent_log record_intent
  for record_intent :: "u64 \<Rightarrow> xa_branch_descriptor \<Rightarrow> xa_heuristic_request \<Rightarrow> ('w xa_db, xa_error, xa_heuristic_record) act" +
  fixes phase2 :: "xa_branch_descriptor \<Rightarrow> xa_phase2 \<Rightarrow> ('w xa_db, xa_error, xa_phase2_outcome) act"
    and rep :: reply
  assumes phase2_effect: "phase2 b phase db = (out, db') \<Longrightarrow>
      (\<exists>e. out = Inl e) \<and> db' = db \<or> (out, db') = resolve_xid rep (resource_id b) phase db"
begin

lemma intent_effect:
  assumes "record_intent now b rq db = (r, db')" "decisions_wf (x_decisions db)"
  shows "\<exists>t. db' = db\<lparr>x_decisions := t\<rparr> \<and> decisions_wf t \<and> decisions_kept (x_decisions db) t
    \<and> (\<forall>r0. r = Inr r0 \<longrightarrow> (\<exists>row. bt_get t (rq_decision_id rq) = Some row \<and> same_resource b row \<and> checked_row b rq row = Inr r0))"
  using assms(2)
proof (cases rule: intent_cases [of db rq b now])
  case (known row)
  then show ?thesis using assms by (intro exI [of _ "x_decisions db"]) simp
next
  case (conflict e k row)
  then show ?thesis using assms by (intro exI [of _ "x_decisions db"]) simp
next
  case new
  note ins = decisions_wf_insert_intent [OF assms(2) new(1), of now]
  show ?thesis
    using new(2) ins assms(1) by (intro exI [of _ "x_decisions (insert_intent now b rq db)"]) (auto simp: insert_intent_def)
qed

lemma phase2_keeps_decisions: "x_decisions (snd (phase2 b phase db)) = x_decisions db"
proof -
  obtain out db' where run: "phase2 b phase db = (out, db')" by fastforce
  from phase2_effect [OF this] show ?thesis
    using run resolve_xid_keeps_decisions [of rep "resource_id b" phase db] by (auto simp del: resolve_xid_keeps_decisions dest!: sym [of "(out, db')"])
qed

lemma heuristic_cases [consumes 1, case_names refused intent_only resolved]:
  assumes "resolve_heuristically lib record_intent phase2 now b rq db = (r, db')"
  obtains e where "r = Inl e" "db' = db"
  | res where "record_intent now b rq db = (res, db')" "r = (case res of Inl e \<Rightarrow> Inl e | Inr r0 \<Rightarrow>
       Inr (the (completed_heuristic_outcome (hr_status r0)), r0))" "\<And>r0. res = Inr r0 \<Longrightarrow> completed_heuristic_outcome (hr_status r0) \<noteq> None"
  | r0 db1 out db2 fin where "record_intent now b rq db = (Inr r0, db1)" "phase2 b (rq_decision rq) db1 = (out, db2)"
      "finish_heuristic_decision now (rq_decision_id rq)
         (case out of Inl _ \<Rightarrow> StatusFailed | Inr outc \<Rightarrow> heuristic_status_for_outcome outc) db2 = (fin, db')"
      "\<And>outc rec. r = Inr (outc, rec) \<Longrightarrow> out = Inr outc \<and> fin = Inr rec"
proof -
  obtain res db1 where rec: "record_intent now b rq db = (res, db1)" by fastforce
  show thesis
  proof (cases "is_ok (descriptor_validate lib b) \<and> is_ok (request_validate rq)")
    case False
    then have "(\<exists>e. r = Inl e) \<and> db' = db" using assms
      by (cases "descriptor_validate lib b"; cases "request_validate rq")
        (auto simp: resolve_heuristically_def fail_apply)
    then show ?thesis using that(1) by blast
  next
    case True
    then have run: "then_ok (record_intent now b rq) (\<lambda>r0. case completed_heuristic_outcome (hr_status r0) of
         Some outc \<Rightarrow> ok (outc, r0)
       | None \<Rightarrow> (\<lambda>db. case phase2 b (rq_decision rq) db of
             (Inl e, db) \<Rightarrow> then_ok (finish_heuristic_decision now (rq_decision_id rq) StatusFailed) (\<lambda>_. fail e) db
           | (Inr outc, db) \<Rightarrow> then_ok (finish_heuristic_decision now (rq_decision_id rq) (heuristic_status_for_outcome outc))
                 (\<lambda>r. ok (outc, r)) db)) db = (r, db')"
      using assms by (auto simp: resolve_heuristically_def is_ok_iff)
    show ?thesis
    proof (cases "\<exists>r0. res = Inr r0 \<and> completed_heuristic_outcome (hr_status r0) = None")
      case False
      then show ?thesis using that(2) [of res] run rec by (cases res) (auto simp: act_simps split: option.splits)
    next
      case True
      then obtain r0 where r0: "res = Inr r0" "completed_heuristic_outcome (hr_status r0) = None" by blast
      obtain out db2 where ph: "phase2 b (rq_decision rq) db1 = (out, db2)" by fastforce
      obtain fin db3 where fin: "finish_heuristic_decision now (rq_decision_id rq)
         (case out of Inl _ \<Rightarrow> StatusFailed | Inr outc \<Rightarrow> heuristic_status_for_outcome outc) db2 = (fin, db3)" by fastforce
      have "db3 = db'" "\<And>outc rec. r = Inr (outc, rec) \<Longrightarrow> out = Inr outc \<and> fin = Inr rec"
        using run rec r0 ph fin by (cases out; cases fin; auto simp: act_simps)+
      then show ?thesis using that(3) [of r0 db1 out db2 fin] rec r0 ph fin by blast
    qed
  qed
qed

lemma heuristic_effect:
  assumes "resolve_heuristically lib record_intent phase2 now b rq db = (r, db')" and wf: "decisions_wf (x_decisions db)"
  shows "\<exists>t. decisions_wf t \<and> decisions_kept (x_decisions db) t
      \<and> (db' = db\<lparr>x_decisions := t\<rparr> \<or> db' = (snd (resolve_xid rep (resource_id b) (rq_decision rq) db))\<lparr>x_decisions := t\<rparr>)"
  using assms(1)
proof (cases rule: heuristic_cases)
  case (refused e)
  then show ?thesis using wf by (intro exI [of _ "x_decisions db"]) simp
next
  case (intent_only res)
  from intent_effect [OF intent_only(1) wf] show ?thesis by blast
next
  case (resolved r0 db1 out db2 fin)
  obtain t where t: "db1 = db\<lparr>x_decisions := t\<rparr>" "decisions_wf t" "decisions_kept (x_decisions db) t"
    using intent_effect [OF resolved(1) wf] by blast
  have dec2: "x_decisions db2 = t" using phase2_keeps_decisions [of b "rq_decision rq" db1] resolved(2) t(1) by simp
  obtain t' where t': "db' = db2\<lparr>x_decisions := t'\<rparr>" "decisions_wf t'" "decisions_kept t t'"
    using finish_heuristic_decisions [OF resolved(3)] dec2 t(2) by blast
  have "db2 = db1 \<or> db2 = (snd (resolve_xid rep (resource_id b) (rq_decision rq) db))\<lparr>x_decisions := t\<rparr>"
    using phase2_effect [OF resolved(2)] unfolding t(1) resolve_xid_decisions by (auto split: prod.splits)
  then show ?thesis using t t' decisions_kept_trans [OF t(3) t'(3)] by (intro exI [of _ t']) auto
qed

lemma heuristic_refused:
  assumes wf: "decisions_wf (x_decisions db)" and row: "bt_get (x_decisions db) k = Some row"
    and touches: "k = rq_decision_id rq \<or> same_resource b row"
    and differs: "\<not> (k = rq_decision_id rq \<and> same_resource b row \<and> phase2_parse (raw_decision row) = Inr (rq_decision rq)
                    \<and> raw_reason row = rq_reason rq)"
  shows "\<exists>e. resolve_heuristically lib record_intent phase2 now b rq db = (Inl e, db)"
proof -
  have "\<exists>e. record_intent now b rq db = (Inl e, db)"
  proof (cases "k = rq_decision_id rq \<and> same_resource b row")
    case False
    then show ?thesis using intent_conflict [OF wf row] touches by blast
  next
    case True
    have "\<exists>e. checked_row b rq row = Inl e"
    proof (cases "checked_row b rq row")
      case (Inr r)
      then have "phase2_parse (raw_decision row) = Inr (rq_decision rq) \<and> raw_reason row = rq_reason rq"
        by (auto simp: checked_row_Inr heuristic_record_from_values_def res_bind_eq_Inr ensure_heuristic_request_matches_def)
      then show ?thesis using differs True by blast
    qed simp
    then show ?thesis using intent_known [OF wf, of rq row b now] row True by auto
  qed
  then show ?thesis
    by (cases "descriptor_validate lib b"; cases "request_validate rq")
      (auto simp: resolve_heuristically_def act_simps)
qed

lemma heuristic_repeat:
  assumes run: "resolve_heuristically lib record_intent phase2 now b rq db = (Inr (outc, rec), db')"
    and wf: "decisions_wf (x_decisions db)"
  shows "resolve_heuristically lib record_intent phase2' now' b rq db' = (Inr (outc, rec), db')
    \<and> ensure_heuristic_request_matches rec b rq = Inr () \<and> completed_heuristic_outcome (hr_status rec) = Some outc"
proof -
  have valid: "is_ok (descriptor_validate lib b)" "is_ok (request_validate rq)"
    using run by (cases "descriptor_validate lib b"; cases "request_validate rq"; auto simp: resolve_heuristically_def act_simps)+
  have "\<exists>row. decisions_wf (x_decisions db') \<and> bt_get (x_decisions db') (rq_decision_id rq) = Some row \<and> same_resource b row
      \<and> checked_row b rq row = Inr rec \<and> completed_heuristic_outcome (hr_status rec) = Some outc"
    using run
  proof (cases rule: heuristic_cases)
    case (refused e)
    then show ?thesis by simp
  next
    case (intent_only res)
    then obtain r0 where "res = Inr r0" "rec = r0" "completed_heuristic_outcome (hr_status r0) = Some outc"
      by (cases res) auto
    then show ?thesis using intent_effect [OF intent_only(1) wf] by auto
  next
    case (resolved r0 db1 out db2 fin)
    obtain t row where t: "db1 = db\<lparr>x_decisions := t\<rparr>" "decisions_wf t" "bt_get t (rq_decision_id rq) = Some row"
      "same_resource b row" "checked_row b rq row = Inr r0"
      using intent_effect [OF resolved(1) wf] by blast
    have dec2: "x_decisions db2 = t" using phase2_keeps_decisions [of b "rq_decision rq" db1] resolved(2) t(1) by simp
    have out: "out = Inr outc" "fin = Inr rec" using resolved(4) by blast+
    have fin: "finish_heuristic_decision now (rq_decision_id rq) (heuristic_status_for_outcome outc) db2 = (Inr rec, db')"
      using resolved(3) out by simp
    obtain t' where t': "db' = db2\<lparr>x_decisions := t'\<rparr>" "decisions_wf t'"
      using finish_heuristic_decisions [OF fin] dec2 t(2) by blast
    obtain row' where row': "bt_get (x_decisions db') (rq_decision_id rq) = Some row'" "intent_of row' = intent_of row"
      "checked_row b rq row' = Inr rec" "hr_status rec = heuristic_status_for_outcome outc"
      using finish_heuristic_row [OF fin _ t(5)] t(3) dec2 by blast
    then show ?thesis using t(4) t' by (intro exI [of _ row']) (simp add: same_resource_def intent_of_def)
  qed
  then obtain row where row: "decisions_wf (x_decisions db')" "bt_get (x_decisions db') (rq_decision_id rq) = Some row"
    "same_resource b row" "checked_row b rq row = Inr rec" "completed_heuristic_outcome (hr_status rec) = Some outc" by blast
  then have "record_intent now' b rq db' = (Inr rec, db')" using intent_known [OF row(1-3), of now'] by simp
  then show ?thesis using row(4,5) valid by (auto simp: resolve_heuristically_def act_simps is_ok_iff checked_row_Inr)
qed

end

section \<open>The dialects are resource managers\<close>

lemma local_work_cases:
  assumes "local_work E b db = (r, db')"
  obtains result reg where "r = Inl result" "\<And>v. result \<noteq> Inr (LocallyPrepared v)" "x_registered db \<subseteq> reg"
      "db' = db\<lparr>x_registered := reg\<rparr>"
  | v w where "r = Inr (v, w)" "business E = Some (v, w)" "xa_key_of b \<notin> held_barriers db" "xa_key_of b \<notin> x_barriers db"
      "db' = db\<lparr>x_registered := insert (xa_key_of b) (x_registered db)\<rparr>"
proof -
  note early = that(1)
  have stay: thesis if "r = Inl result" "\<And>v. result \<noteq> Inr (LocallyPrepared v)" "db' = db" for result
    using that early [of result "x_registered db"] by simp
  show thesis
  proof (cases "\<not> barrier_ok E \<or> xa_key_of b \<in> held_barriers db \<or> xa_key_of b \<in> x_barriers db \<or> business E = None")
    case True
    then show ?thesis using assms stay unfolding local_work_def Let_def by (auto split: if_splits)
  next
    case False
    then obtain v w where bus: "business E = Some (v, w)" "barrier_ok E" "xa_key_of b \<notin> held_barriers db" "xa_key_of b \<notin> x_barriers db"
      by (cases "business E") auto
    show ?thesis
    proof (cases "register_reply E")
      case Done
      then show ?thesis using assms bus that(2) [of v w] by (simp add: local_work_def Let_def)
    next
      case Refused
      then show ?thesis using assms bus stay [of "Inl RegistrationFailed"] by (simp add: local_work_def Let_def)
    next
      case ReplyLost
      then show ?thesis using assms bus that(1) [of "Inl RegistrationFailed" "insert (xa_key_of b) (x_registered db)"]
        by (auto simp: local_work_def Let_def)
    qed
  qed
qed

lemma prep_outcome_stays: "prep_outcome E b db (Inl e) db"
  unfolding prep_outcome_def by (intro disjI1 conjI exI [of _ "x_registered db"]) simp_all

text \<open>What the statements after the registration may do: give up or prepare the branch.\<close>

lemma prep_outcome_local_work:
  assumes lw: "local_work E b db = (lw, db1)" and xid: "resource_id b \<notin> fst ` set (x_prepared db)"
    and early: "\<And>result. lw = Inl result \<Longrightarrow> (r, db') = (result, db1)"
    and late: "\<And>v w. lw = Inr (v, w) \<Longrightarrow> (\<exists>e. r = Inl e) \<and> db' = db1
                \<or> (r = Inr (LocallyPrepared v) \<or> (\<exists>e. r = Inl e)) \<and> db' = prepared_in b w db1"
  shows "prep_outcome E b db r db'"
  using lw
proof (cases rule: local_work_cases)
  case (1 result reg)
  then show ?thesis using early unfolding prep_outcome_def by auto
next
  case (2 v w)
  from late [OF 2(1)] show ?thesis using 2 xid unfolding prep_outcome_def fresh_branch_def by auto
qed

lemma mysql_prepare_effect:
  assumes "mysql_prepare_branch lib E b db = (r, db')"
  shows "prep_outcome E b db r db'"
proof (cases "is_ok (res_seq (descriptor_validate lib b) (ensure (length (resource_id b) \<le> 64) ResourceIdTooLong))
    \<and> start_ok E \<and> resource_id b \<notin> fst ` set (x_prepared db)")
  case False
  then have "(\<exists>e. r = Inl e) \<and> db' = db"
    using assms by (auto simp: mysql_prepare_branch_def is_ok_iff split: sum.splits if_splits)
  then show ?thesis using prep_outcome_stays by blast
next
  case True
  obtain lw db1 where lw: "local_work E b db = (lw, db1)" by fastforce
  from True assms lw show ?thesis
    by (intro prep_outcome_local_work [OF lw])
      (auto simp: mysql_prepare_branch_def is_ok_iff split: if_splits reply.splits)
qed

lemma postgres_prepare_effect:
  assumes "postgres_prepare_branch lib E b db = (r, db')"
  shows "prep_outcome E b db r db'"
proof (cases "is_ok (descriptor_validate lib b) \<and> start_ok E")
  case False
  then have "(\<exists>e. r = Inl e) \<and> db' = db"
    using assms by (auto simp: postgres_prepare_branch_def is_ok_iff split: sum.splits if_splits)
  then show ?thesis using prep_outcome_stays by blast
next
  case True
  obtain lw db1 where lw: "local_work E b db = (lw, db1)" by fastforce
  have run: "(r, db') = (case lw of Inl result \<Rightarrow> (result, db1) | Inr (v, w) \<Rightarrow>
      if prepare_reply E = Refused \<or> resource_id b \<in> fst ` set (x_prepared db1) then (Inl StatementFailed, db1)
      else (if prepare_reply E = Done then Inr (LocallyPrepared v) else Inl StatementFailed, prepared_in b w db1))"
    using assms True lw by (auto simp: postgres_prepare_branch_def is_ok_iff split: sum.splits)
  from lw show ?thesis
  proof (cases rule: local_work_cases)
    case (1 result reg)
    then show ?thesis using run unfolding prep_outcome_def by auto
  next
    case (2 v w)
    then show ?thesis using run unfolding prep_outcome_def fresh_branch_def by (auto split: if_splits)
  qed
qed

lemma resolve_effects:
  "mysql_resolve lib rep b phase db = (out, db') \<Longrightarrow>
     (\<exists>e. out = Inl e) \<and> db' = db \<or> (out, db') = resolve_xid rep (resource_id b) phase db"
  "postgres_resolve lib rep b phase db = (out, db') \<Longrightarrow>
     (\<exists>e. out = Inl e) \<and> db' = db \<or> (out, db') = resolve_xid rep (resource_id b) phase db"
  by (auto simp: mysql_resolve_def postgres_resolve_def split: sum.splits)

interpretation mysql_heuristic: heuristic_resolver mysql_record_intent "mysql_resolve lib rep" rep for lib rep
  by unfold_locales (rule resolve_effects)

interpretation postgres_heuristic: heuristic_resolver postgres_record_intent "postgres_resolve lib rep" rep for lib rep
  by unfold_locales (rule resolve_effects)

context resource_manager
begin

lemma res_wf: "xa_wf db \<Longrightarrow> xa_wf (snd (res rep b phase db))"
  using res_effect [of rep b phase db "fst (res rep b phase db)" "snd (res rep b phase db)"] resolve_xid_wf [of db rep "resource_id b" phase]
  by (auto dest: arg_cong [of _ _ snd])

lemma xa_wf_decisions: "xa_wf db \<Longrightarrow> decisions_wf t \<Longrightarrow> xa_wf (db\<lparr>x_decisions := t\<rparr>)"
  unfolding xa_wf_def held_barriers_def by auto

lemma heur_wf:
  assumes "xa_wf db"
  shows "xa_wf (snd (heur rep now b rq db)) \<and> decisions_kept (x_decisions db) (x_decisions (snd (heur rep now b rq db)))"
proof -
  obtain r db' where run: "heur rep now b rq db = (r, db')" by fastforce
  have "decisions_wf (x_decisions db)" using assms by (simp add: xa_wf_def)
  from heur_effect [OF run this] obtain t where "decisions_wf t" "decisions_kept (x_decisions db) t"
    "db' = db\<lparr>x_decisions := t\<rparr> \<or> db' = (snd (resolve_xid rep (resource_id b) (rq_decision rq) db))\<lparr>x_decisions := t\<rparr>" by blast
  then show ?thesis using run xa_wf_decisions [OF assms] xa_wf_decisions [OF resolve_xid_wf [OF assms]] by auto
qed

lemma reach_wf:
  assumes "xa_reach prep res heur db0 db" and "xa_wf db0"
  shows "xa_wf db \<and> decisions_kept (x_decisions db0) (x_decisions db)"
  using assms
proof (induction rule: xa_reach.induct)
  case (xa_prepares db E b)
  obtain r db' where run: "prep E b db = (r, db')" by fastforce
  have "x_decisions db' = x_decisions db"
    using prep_effect [OF run] by (auto simp: prep_outcome_def prepared_in_def)
  then show ?case using xa_prepares prep_wf [of db E b] run by simp
next
  case (xa_resolves db rep b phase)
  have "x_decisions (snd (res rep b phase db)) = x_decisions db"
    using res_effect [of rep b phase db "fst (res rep b phase db)" "snd (res rep b phase db)"] resolve_xid_keeps_decisions [of rep "resource_id b" phase db]
    by (auto dest: arg_cong [of _ _ snd])
  then show ?case using xa_resolves res_wf by simp
next
  case (xa_decides db rep now b rq)
  then show ?case using heur_wf [of db rep now b rq] decisions_kept_trans by blast
qed simp

lemma work_at_most_once:
  assumes "xa_reach prep res heur xa_empty db"
  shows "distinct (map fst (x_committed db))" "fst ` set (x_committed db) \<subseteq> x_registered db"
    "held_barriers db \<subseteq> x_registered db - fst ` set (x_committed db)"
proof -
  have "xa_wf (xa_empty :: 'w xa_db)" by (simp add: xa_wf_def xa_empty_def held_barriers_def decisions_wf_def)
  then have "xa_wf db" using reach_wf [OF assms] by blast
  then show "distinct (map fst (x_committed db))" "fst ` set (x_committed db) \<subseteq> x_registered db"
    "held_barriers db \<subseteq> x_registered db - fst ` set (x_committed db)" by (auto simp: xa_wf_def)
qed

end

interpretation mysql_manager: resource_manager "mysql_prepare_branch lib" "mysql_resolve lib" "mysql_resolve_heuristically lib" for lib
  by unfold_locales
    (erule mysql_prepare_effect, erule resolve_effects, unfold mysql_resolve_heuristically_def, erule (1) mysql_heuristic.heuristic_effect)

interpretation postgres_manager: resource_manager "postgres_prepare_branch lib" "postgres_resolve lib" "postgres_resolve_heuristically lib" for lib
  by unfold_locales
    (erule postgres_prepare_effect, erule resolve_effects, unfold postgres_resolve_heuristically_def, erule (1) postgres_heuristic.heuristic_effect)

section \<open>Properties\<close>

text \<open>
  C12: Whatever a resource manager is asked and whatever fails, the work of a branch is committed at most
  once, only a branch the coordinator knows is ever prepared or committed, and a
  committed branch is not prepared again.
\<close>

theorem xa_work_at_most_once:
  assumes "xa_reach (mysql_prepare_branch lib :: ('v, 'w) xa_env \<Rightarrow> _) (mysql_resolve lib) (mysql_resolve_heuristically lib) xa_empty db
    \<or> xa_reach (postgres_prepare_branch lib :: ('v, 'w) xa_env \<Rightarrow> _) (postgres_resolve lib) (postgres_resolve_heuristically lib) xa_empty db"
  shows "distinct (map fst (x_committed db)) \<and> fst ` set (x_committed db) \<subseteq> x_registered db
    \<and> held_barriers db \<subseteq> x_registered db - fst ` set (x_committed db)"
  using assms mysql_manager.work_at_most_once [of lib db] postgres_manager.work_at_most_once [of lib db] by blast

lemma finish_new_branch:
  assumes "fresh_branch b db" and "db' = prepared_in b w (db\<lparr>x_registered := reg\<rparr>)"
  shows "resolve_xid Done (resource_id b) Rollback db' = (Inr Applied, db\<lparr>x_registered := reg\<rparr>)"
    and "resolve_xid Done (resource_id b) Commit db' =
      (Inr Applied, db\<lparr>x_registered := reg, x_committed := x_committed db @ [(xa_key_of b, w)],
                       x_barriers := insert (xa_key_of b) (x_barriers db)\<rparr>)"
proof -
  have absent: "map_of (x_prepared db) (resource_id b) = None" and others: "filter (\<lambda>(x, _). x \<noteq> resource_id b) (x_prepared db) = x_prepared db"
    using assms(1) by (simp_all add: fresh_branch_def map_of_eq_None_iff filter_id_conv) force
  have found: "map_of (x_prepared db') (resource_id b) = Some (xa_key_of b, w)"
    using absent by (simp add: assms(2) prepared_in_def map_add_def)
  show "resolve_xid Done (resource_id b) Rollback db' = (Inr Applied, db\<lparr>x_registered := reg\<rparr>)"
    using found others by (simp add: resolve_xid_def finish_prepared_def assms(2) prepared_in_def)
  show "resolve_xid Done (resource_id b) Commit db' =
      (Inr Applied, db\<lparr>x_registered := reg, x_committed := x_committed db @ [(xa_key_of b, w)],
                       x_barriers := insert (xa_key_of b) (x_barriers db)\<rparr>)"
    using found others by (simp add: resolve_xid_def finish_prepared_def assms(2) prepared_in_def)
qed

lemma dialect_valid:
  assumes "(prep, res) = (mysql_prepare_branch lib, mysql_resolve lib) \<or> (prep, res) = (postgres_prepare_branch lib, postgres_resolve lib)"
    and "prep E b db = (Inr (LocallyPrepared v), db1)"
  shows "res rep b phase db' = resolve_xid rep (resource_id b) phase db'"
    and "start_ok E' \<Longrightarrow> barrier_ok E' \<Longrightarrow> cleanup_ok E' \<Longrightarrow> resource_id b \<notin> fst ` set (x_prepared db')
      \<Longrightarrow> xa_key_of b \<notin> held_barriers db' \<Longrightarrow> xa_key_of b \<in> x_barriers db' \<Longrightarrow> prep E' b db' = (Inr Duplicate, db')"
    and "descriptor_validate lib b = Inr ()"
    and "descriptor_validate lib b' = Inr () \<Longrightarrow> resource_id b' = resource_id b
      \<Longrightarrow> res rep b' phase db' = resolve_xid rep (resource_id b) phase db'"
  using assms
  by (auto simp: mysql_prepare_branch_def postgres_prepare_branch_def mysql_resolve_def postgres_resolve_def
      local_work_def res_bind_def split: sum.splits)

text \<open>
  C28: A branch that reports to be prepared holds the work of its business operation. A rollback
  leaves the database as it was before the preparation, the registration apart. A
  commit adds exactly that work; afterwards both resolutions report the branch as resolved and
  a repeated preparation reports a duplicate, none of them with an effect.
\<close>

theorem xa_prepare_then_resolve:
  assumes dialect: "(prep, res) = (mysql_prepare_branch lib, mysql_resolve lib)
      \<or> (prep, res) = (postgres_prepare_branch lib, postgres_resolve lib)"
    and run: "prep E b db = (Inr (LocallyPrepared v), db1)"
  shows "\<exists>w db2. business E = Some (v, w)
    \<and> res Done b Rollback db1 = (Inr Applied, db\<lparr>x_registered := insert (xa_key_of b) (x_registered db)\<rparr>)
    \<and> res Done b Commit db1 = (Inr Applied, db2)
    \<and> db2 = db\<lparr>x_registered := insert (xa_key_of b) (x_registered db), x_committed := x_committed db @ [(xa_key_of b, w)],
                x_barriers := insert (xa_key_of b) (x_barriers db)\<rparr>
    \<and> (\<forall>phase. res Done b phase db2 = (Inr AlreadyResolved, db2))
    \<and> (\<forall>E'. start_ok E' \<and> barrier_ok E' \<and> cleanup_ok E' \<longrightarrow> prep E' b db2 = (Inr Duplicate, db2))"
proof -
  let ?reg = "insert (xa_key_of b) (x_registered db)"
  have "prep_outcome E b db (Inr (LocallyPrepared v)) db1"
    using dialect run mysql_prepare_effect [of lib E b db] postgres_prepare_effect [of lib E b db] by auto
  then obtain w where w: "business E = Some (v, w)" "fresh_branch b db" "db1 = prepared_in b w (db\<lparr>x_registered := ?reg\<rparr>)"
    by (auto simp: prep_outcome_def)
  let ?db2 = "db\<lparr>x_registered := ?reg, x_committed := x_committed db @ [(xa_key_of b, w)], x_barriers := insert (xa_key_of b) (x_barriers db)\<rparr>"
  note acts = dialect_valid(1) [OF dialect run]
  have absent: "resource_id b \<notin> fst ` set (x_prepared ?db2)" "xa_key_of b \<notin> held_barriers ?db2"
    using w(2) by (simp_all add: fresh_branch_def held_barriers_def)
  have "res Done b phase ?db2 = (Inr AlreadyResolved, ?db2)" for phase
    using absent(1) by (simp add: acts resolve_xid_def map_of_eq_None_iff [THEN iffD2])
  moreover have "prep E' b ?db2 = (Inr Duplicate, ?db2)" if "start_ok E' \<and> barrier_ok E' \<and> cleanup_ok E'" for E'
    using that by (intro dialect_valid(2) [OF dialect run] absent) simp_all
  ultimately show ?thesis using w(1) finish_new_branch [OF w(2,3)] acts by (intro exI [of _ w] exI [of _ ?db2]) simp
qed

text \<open>
  C27: A heuristic decision is final: once its row is written, whatever happens later keeps the
  decision id, the branch, the decision, the reason and the time of the request, and a
  request that reuses the decision id or decides the branch differently is refused with no effect.
\<close>

theorem heuristic_decision_final:
  assumes dialect: "(prep, res, heur) = (mysql_prepare_branch lib :: ('v, 'w) xa_env \<Rightarrow> _, mysql_resolve lib, mysql_resolve_heuristically lib)
      \<or> (prep, res, heur) = (postgres_prepare_branch lib, postgres_resolve lib, postgres_resolve_heuristically lib)"
    and reach: "xa_reach prep res heur xa_empty db" "xa_reach prep res heur db db'"
    and row: "bt_get (x_decisions db) d = Some row"
    and "valid_intent = (\<lambda>b rq. d = rq_decision_id rq \<and> same_resource b row
           \<and> phase2_parse (raw_decision row) = Inr (rq_decision rq) \<and> raw_reason row = rq_reason rq)"
  shows "(\<exists>row'. bt_get (x_decisions db') d = Some row' \<and> intent_of row' = intent_of row)
    \<and> (\<forall>rep now b rq. (d = rq_decision_id rq \<or> same_resource b row) \<and> \<not> valid_intent b rq
          \<longrightarrow> (\<exists>e. heur rep now b rq db' = (Inl e, db')))"
proof -
  have empty: "xa_wf (xa_empty :: 'w xa_db)" by (simp add: xa_wf_def xa_empty_def held_barriers_def decisions_wf_def)
  have "xa_wf db' \<and> decisions_kept (x_decisions db) (x_decisions db')"
    using dialect reach mysql_manager.reach_wf [OF _ empty, of lib db] postgres_manager.reach_wf [OF _ empty, of lib db]
      mysql_manager.reach_wf [of lib db db'] postgres_manager.reach_wf [of lib db db'] by auto
  then have wf: "decisions_wf (x_decisions db')" and kept: "decisions_kept (x_decisions db) (x_decisions db')"
    by (simp_all add: xa_wf_def)
  obtain row' where row': "bt_get (x_decisions db') d = Some row'" "intent_of row' = intent_of row"
    using kept row unfolding decisions_kept_def by blast
  have same: "same_resource b row' = same_resource b row" "raw_decision row' = raw_decision row" "raw_reason row' = raw_reason row" for b
    using row'(2) by (simp_all add: intent_of_def same_resource_def)
  have "\<exists>e. heur rep now b rq db' = (Inl e, db')"
    if "d = rq_decision_id rq \<or> same_resource b row" "\<not> valid_intent b rq" for rep now b rq
    using dialect that assms(5) same
      mysql_heuristic.heuristic_refused [OF wf row'(1), of rq b lib lib rep now]
      postgres_heuristic.heuristic_refused [OF wf row'(1), of rq b lib lib rep now]
    by (auto simp: mysql_resolve_heuristically_def postgres_resolve_heuristically_def)
  then show ?thesis using row' by blast
qed

text \<open>
  A heuristic resolution that returned is never executed twice: asked again, at any time and
  whatever phase two would do now, the resource manager answers the recorded outcome and record and changes nothing. The
  record is the one requested, and its status is the outcome.
\<close>

theorem heuristic_resolution_idempotent:
  assumes dialect: "heur = mysql_resolve_heuristically lib \<or> heur = postgres_resolve_heuristically lib"
    and wf: "decisions_wf (x_decisions db)"
    and run: "heur rep now b rq db = (Inr (outc, rec), db')"
  shows "heur rep' now' b rq db' = (Inr (outc, rec), db')
    \<and> ensure_heuristic_request_matches rec b rq = Inr () \<and> completed_heuristic_outcome (hr_status rec) = Some outc"
  using dialect
proof
  assume h: "heur = mysql_resolve_heuristically lib"
  show ?thesis
    using mysql_heuristic.heuristic_repeat [OF run [unfolded h mysql_resolve_heuristically_def] wf, of "mysql_resolve lib rep'" now']
    by (simp add: h mysql_resolve_heuristically_def)
next
  assume h: "heur = postgres_resolve_heuristically lib"
  show ?thesis
    using postgres_heuristic.heuristic_repeat [OF run [unfolded h postgres_resolve_heuristically_def] wf, of "postgres_resolve lib rep'" now']
    by (simp add: h postgres_resolve_heuristically_def)
qed

text \<open>
  The statements on a validated branch cannot be escaped from: the identifier stands between the only
  two quotes of the statement, it has no quote and no backslash, and it is at most 128 bytes long.
\<close>

theorem xa_statement_injection_safe:
  assumes "descriptor_validate lib b = Inr u" and "command \<in> {''start'', ''end'', ''prepare'', ''commit'', ''rollback''}"
    and "sql = mysql_xa_sql command (resource_id b) \<or> sql = postgres_xa_sql command (resource_id b)"
  shows "\<exists>prefix. sql = prefix @ [CHR 0x27] @ resource_id b @ [CHR 0x27] \<and> CHR 0x27 \<notin> set prefix
    \<and> CHR 0x27 \<notin> set (resource_id b) \<and> CHR 0x5C \<notin> set (resource_id b) \<and> length (resource_id b) \<le> 128"
proof -
  have safe: "list_all safe_byte (resource_id b)" and len: "length (resource_id b) \<le> 128"
    using assms(1) by (auto simp: descriptor_validate_def validate_xid_part_def res_bind_eq_Inr resource_id_def safe_byte_def)
  have "CHR 0x27 \<notin> set (resource_id b)" "CHR 0x5C \<notin> set (resource_id b)"
    using safe by (auto simp: list_all_iff safe_byte_def is_ascii_alphanumeric_def less_eq_char_def)
  moreover have "\<exists>prefix. sql = prefix @ [CHR 0x27] @ resource_id b @ [CHR 0x27] \<and> CHR 0x27 \<notin> set prefix"
    using assms(3)
  proof
    assume "sql = mysql_xa_sql command (resource_id b)"
    then show ?thesis using assms(2)
      by (intro exI [of _ "''XA '' @ command @ '' ''"]) (auto simp: mysql_xa_sql_def)
  next
    assume "sql = postgres_xa_sql command (resource_id b)"
    then show ?thesis
      by (intro exI [of _ "if command = ''prepare'' then ''PREPARE TRANSACTION '' else if command = ''commit'' then ''COMMIT PREPARED ''
        else ''ROLLBACK PREPARED ''"]) (simp add: postgres_xa_sql_def)
  qed
  ultimately show ?thesis using len by blast
qed

text \<open>
  C40: The identifier of a branch does not determine the branch. When the gid of a prepared branch
  contains a hyphen, another valid branch, of another transaction, has the same identifier; rolling that one back
  discards the work of the first, and committing the first then reports that it has been resolved already.
\<close>

theorem xa_resource_id_collision:
  assumes dialect: "(prep, res) = (mysql_prepare_branch lib, mysql_resolve lib)
      \<or> (prep, res) = (postgres_prepare_branch lib, postgres_resolve lib)"
    and run: "prep E b db = (Inr (LocallyPrepared v), db1)"
    and hyphen: "xa_gid b = g @ ''-'' @ h" "g \<noteq> []" "b' = b\<lparr>xa_gid := g, xa_branch_id := h @ ''-'' @ xa_branch_id b\<rparr>"
  shows "xa_key_of b' \<noteq> xa_key_of b \<and> descriptor_validate lib b' = Inr ()
    \<and> (\<exists>db2. res Done b' Rollback db1 = (Inr Applied, db2) \<and> x_prepared db2 = x_prepared db \<and> x_committed db2 = x_committed db
         \<and> res Done b Commit db2 = (Inr AlreadyResolved, db2))"
proof -
  let ?reg = "insert (xa_key_of b) (x_registered db)"
  have same: "resource_id b' = resource_id b" by (simp add: hyphen resource_id_def)
  have valid: "descriptor_validate lib b' = Inr ()"
    using dialect_valid(3) [OF dialect run] hyphen
    by (auto simp: descriptor_validate_def validate_xid_part_def res_bind_eq_Inr safe_byte_def)
  have keys: "xa_key_of b' \<noteq> xa_key_of b" using hyphen by (simp add: xa_key_of_def)
  have "prep_outcome E b db (Inr (LocallyPrepared v)) db1"
    using dialect run mysql_prepare_effect [of lib E b db] postgres_prepare_effect [of lib E b db] by auto
  then obtain w where w: "fresh_branch b db" "db1 = prepared_in b w (db\<lparr>x_registered := ?reg\<rparr>)"
    by (auto simp: prep_outcome_def)
  let ?db2 = "db\<lparr>x_registered := ?reg\<rparr>"
  have "res Done b' Rollback db1 = (Inr Applied, ?db2)"
    using finish_new_branch(1) [OF w] dialect_valid(4) [OF dialect run valid same] by simp
  moreover have "res Done b Commit ?db2 = (Inr AlreadyResolved, ?db2)"
    using w(1) by (simp add: dialect_valid(1) [OF dialect run] resolve_xid_def fresh_branch_def map_of_eq_None_iff [THEN iffD2])
  ultimately show ?thesis using keys valid by (intro conjI exI [of _ ?db2]) simp_all
qed

lemma strict_sorted_dedup: "sorted xs \<Longrightarrow> sorted_wrt (<) (remdups_adj xs)" for xs :: "'a::linorder list"
  by (induction xs rule: remdups_adj.induct) (auto simp: less_le)

text \<open>
  The reconciliation report lists, sorted and without repetition, the prepared branches, those of them
  with no pending decision and the pending decisions with no prepared branch; pending are exactly the
  decisions that are requested or failed.
\<close>

theorem reconciliation_report_correct:
  "let rp = build_reconciliation_report prepared decisions;
       pending = filter (\<lambda>r. completed_heuristic_outcome (hr_status r) = None) decisions in
   set (prepared_resource_ids rp) = set prepared \<and> pending_decisions rp = pending
    \<and> set (prepared_without_decision rp) = set prepared - record_resource_id ` set pending
    \<and> set (decisions_without_prepared rp) = record_resource_id ` set pending - set prepared
    \<and> sorted_wrt (<) (prepared_resource_ids rp) \<and> sorted_wrt (<) (prepared_without_decision rp)
    \<and> sorted_wrt (<) (decisions_without_prepared rp)"
proof -
  have pend: "hr_status r \<in> {Requested, StatusFailed} \<longleftrightarrow> completed_heuristic_outcome (hr_status r) = None" for r
    by (auto simp: completed_heuristic_outcome_def split: xa_heuristic_status.splits)
  have strict: "sorted_wrt (<) (remdups_adj (sort xs))" for xs :: "string list"
    by (rule strict_sorted_dedup) simp
  show ?thesis
    unfolding build_reconciliation_report_def Let_def pend using strict by (auto simp: sorted_wrt_filter)
qed

section \<open>Sample runs\<close>

definition sample_xa_branch :: xa_branch_descriptor where
  "sample_xa_branch = \<lparr>xa_gid = ''order-7'', xa_branch_id = ''01'', phase2_url = ''http://h/xa?op=rollback&k=v''\<rparr>"

definition sample_xa_env :: "(nat, string) xa_env" where
  "sample_xa_env = \<lparr>start_ok = True, barrier_ok = True, business = Some (1, ''debit''), register_reply = Done,
     end_ok = True, prepare_reply = Done, cleanup_ok = True\<rparr>"

definition sample_xa_prepared :: "string xa_db" where
  "sample_xa_prepared = xa_empty\<lparr>x_prepared := [(''order-7-01'', (''order-7'', ''01''), ''debit'')], x_registered := {(''order-7'', ''01'')}\<rparr>"

definition sample_heuristic :: xa_heuristic_request where
  "sample_heuristic = \<lparr>rq_decision_id = ''d1'', rq_decision = Commit, rq_reason = ''approved''\<rparr>"

lemma sample_xa_valid: "descriptor_validate sample_url_libs sample_xa_branch = Inr ()"
  by (simp add: descriptor_validate_def validate_xid_part_def sample_xa_branch_def safe_byte_def is_ascii_alphanumeric_def
      less_eq_char_def sample_url_libs_def sample_url_def)

lemma sample_xa_prepare:
  "mysql_prepare_branch sample_url_libs sample_xa_env sample_xa_branch xa_empty = (Inr (LocallyPrepared 1), sample_xa_prepared)"
  "postgres_prepare_branch sample_url_libs sample_xa_env sample_xa_branch xa_empty = (Inr (LocallyPrepared 1), sample_xa_prepared)"
  by (simp_all add: mysql_prepare_branch_def postgres_prepare_branch_def sample_xa_valid)
     (simp_all add: sample_xa_branch_def sample_xa_env_def local_work_def held_barriers_def xa_empty_def prepared_in_def
       resource_id_def xa_key_of_def sample_xa_prepared_def)

definition sample_row :: raw_heuristic_record where
  "sample_row = \<lparr>raw_decision_id = ''d1'', raw_gid = ''order-7'', raw_branch_id = ''01'', raw_decision = ''commit'',
     raw_reason = ''approved'', raw_status = ''applied'', raw_requested_at_millis = 5, raw_finished_at_millis = Some 5\<rparr>"

definition sample_record :: xa_heuristic_record where
  "sample_record = \<lparr>hr_decision_id = ''d1'', hr_gid = ''order-7'', hr_branch_id = ''01'', hr_decision = Commit,
     hr_reason = ''approved'', hr_status = StatusApplied, hr_requested_at_millis = 5, hr_finished_at_millis = Some 5\<rparr>"

definition sample_decided :: "string xa_db" where
  "sample_decided = \<lparr>x_committed = [((''order-7'', ''01''), ''debit'')], x_barriers = {(''order-7'', ''01'')}, x_prepared = [],
     x_registered = {(''order-7'', ''01'')}, x_decisions = [(''d1'', sample_row)]\<rparr>"

lemma sample_request_valid: "request_validate sample_heuristic = Inr ()"
  by (simp add: request_validate_def sample_heuristic_def safe_byte_def is_ascii_alphanumeric_def less_eq_char_def
      trim_def trim_start.simps trim_end.simps white_spaces_def starts_with_def ends_with_def)

lemma sample_xa_decide:
  "mysql_resolve_heuristically sample_url_libs Done 5 sample_xa_branch sample_heuristic sample_xa_prepared
     = (Inr (Applied, sample_record), sample_decided)"
proof -
  have resolve: "mysql_resolve sample_url_libs Done sample_xa_branch phase db = resolve_xid Done ''order-7-01'' phase db" for phase and db :: "string xa_db"
    using dialect_valid(1) [OF disjI1 [OF refl] sample_xa_prepare(1)] by (simp add: sample_xa_branch_def resource_id_def)
  show ?thesis
    unfolding mysql_resolve_heuristically_def resolve_heuristically_def sample_xa_valid sample_request_valid then_ok_lift_Inr
    by (simp add: act_simps resolve [unfolded sample_xa_branch_def] sample_heuristic_def sample_xa_prepared_def xa_empty_def mysql_record_intent_def
         bt_values_def insert_intent_def raw_of_request_def read_back_intent_def same_decision_def same_resource_def
         sample_xa_branch_def Let_def heuristic_record_from_values_def xa_phase_name_def heuristic_status_name_def
         phase2_parse_def parse_heuristic_status_def timestamp_def u64_try_from_def as_i64_def ensure_heuristic_request_matches_def
         completed_heuristic_outcome_def resolve_xid_def finish_prepared_def finish_heuristic_decision_def
         heuristic_status_for_outcome_def bt_get_def sample_record_def sample_decided_def sample_row_def)
qed

lemma sample_xa_reach:
  "xa_reach (mysql_prepare_branch sample_url_libs :: (nat, string) xa_env \<Rightarrow> _) (mysql_resolve sample_url_libs)
     (mysql_resolve_heuristically sample_url_libs) xa_empty sample_decided"
  using xa_decides [OF xa_prepares [OF xa_refl], of "mysql_prepare_branch sample_url_libs" "mysql_resolve sample_url_libs"
      "mysql_resolve_heuristically sample_url_libs" xa_empty Done 5 sample_xa_branch sample_heuristic sample_xa_env sample_xa_branch]
  by (simp add: sample_xa_prepare sample_xa_decide)

theorem xa_work_at_most_once_witness:
  "x_committed sample_decided = [((''order-7'', ''01''), ''debit'')] \<and> distinct (map fst (x_committed sample_decided))
   \<and> fst ` set (x_committed sample_decided) \<subseteq> x_registered sample_decided"
  using xa_work_at_most_once [OF disjI1 [OF sample_xa_reach]] by (simp add: sample_decided_def)

theorem xa_prepare_then_resolve_witness:
  "\<exists>db2. postgres_resolve sample_url_libs Done sample_xa_branch Commit sample_xa_prepared = (Inr Applied, db2)
     \<and> postgres_resolve sample_url_libs Done sample_xa_branch Rollback db2 = (Inr AlreadyResolved, db2)"
  using xa_prepare_then_resolve [OF disjI2 [OF refl] sample_xa_prepare(2)] by blast

theorem heuristic_decision_final_witness:
  "bt_get (x_decisions sample_decided) ''d1'' = Some sample_row
   \<and> (\<exists>e. mysql_resolve_heuristically sample_url_libs Done 6 sample_xa_branch (sample_heuristic\<lparr>rq_decision := Rollback\<rparr>)
            sample_decided = (Inl e, sample_decided))"
proof -
  have row: "bt_get (x_decisions sample_decided) ''d1'' = Some sample_row"
    by (simp add: sample_decided_def bt_get_def)
  have "''d1'' = rq_decision_id (sample_heuristic\<lparr>rq_decision := Rollback\<rparr>)"
    "phase2_parse (raw_decision sample_row) \<noteq> Inr (rq_decision (sample_heuristic\<lparr>rq_decision := Rollback\<rparr>))"
    by (simp_all add: sample_heuristic_def sample_row_def phase2_parse_def)
  then show ?thesis
    using row heuristic_decision_final [OF disjI1 [OF refl] sample_xa_reach xa_refl row refl] by blast
qed

theorem heuristic_resolution_idempotent_witness:
  "mysql_resolve_heuristically sample_url_libs ReplyLost 9 sample_xa_branch sample_heuristic sample_decided
     = (Inr (Applied, sample_record), sample_decided)"
proof -
  have "decisions_wf (x_decisions sample_xa_prepared)"
    by (simp add: sample_xa_prepared_def xa_empty_def decisions_wf_def)
  from heuristic_resolution_idempotent [OF disjI1 [OF refl] this sample_xa_decide] show ?thesis by blast
qed

theorem xa_statement_injection_safe_witness:
  "CHR 0x27 \<notin> set (resource_id sample_xa_branch)
   \<and> mysql_xa_sql ''commit'' (resource_id sample_xa_branch) = ''XA commit '' @ [CHR 0x27] @ ''order-7-01'' @ [CHR 0x27]"
  using xa_statement_injection_safe [OF sample_xa_valid, of "''commit''", OF _ disjI1 [OF refl]]
  by (auto simp: mysql_xa_sql_def sample_xa_branch_def resource_id_def)

theorem xa_resource_id_collision_witness:
  "\<exists>db2. postgres_resolve sample_url_libs Done (sample_xa_branch\<lparr>xa_gid := ''order'', xa_branch_id := ''7-01''\<rparr>) Rollback
       sample_xa_prepared = (Inr Applied, db2) \<and> x_committed db2 = []
     \<and> postgres_resolve sample_url_libs Done sample_xa_branch Commit db2 = (Inr AlreadyResolved, db2)"
  using xa_resource_id_collision [OF disjI2 [OF refl] sample_xa_prepare(2), of "''order''" "''7''"
      "sample_xa_branch\<lparr>xa_gid := ''order'', xa_branch_id := ''7-01''\<rparr>"]
  by (auto simp: sample_xa_branch_def xa_empty_def)

end
