(* ===== verification/Concurrent_Saga.thy ===== *)
theory Concurrent_Saga
  imports Saga_Trace "HOL-Library.Multiset"
begin

text \<open>
  Concurrent Sagas (\<^verbatim>\<open>start_concurrent_saga\<close>, \<^verbatim>\<open>abort_concurrent_saga\<close>): their two loops end
  and never get stuck, whatever the store, the services and the scheduler do; calls respect the dependencies, forwards
  and backwards; and a Saga whose services answer succeeds.
\<close>

section \<open>Some branch is always ready\<close>

lemma finite_depends_on: "finite (depends_on bs)"
proof -
  have "depends_on bs \<subseteq> (bid ` set bs) \<times> (\<Union>b \<in> set bs. set (dependencies b))"
    by (auto simp: depends_on_def)
  then show ?thesis by (rule finite_subset) simp
qed

definition unfinished :: "branch list \<Rightarrow> branch list" where
  "unfinished bs = filter (\<lambda>b. bstatus b \<noteq> BSucceeded) bs"

lemma ready_action_exists:
  assumes "graph_ok (branches tx)" and runs: "\<forall>b \<in> set (branches tx). bstatus b \<in> {BPending, BFailed, BSucceeded}"
    and "unfinished (branches tx) \<noteq> []"
  shows "ready_actions tx \<noteq> []"
proof -
  let ?bs = "branches tx"
  let ?U = "bid ` set (unfinished ?bs)"
  have "acyclic ((depends_on ?bs)\<inverse>)" "finite ((depends_on ?bs)\<inverse>)"
    using assms(1) finite_depends_on by (simp_all add: graph_ok_def)
  then have "wf ((depends_on ?bs)\<inverse>)" by (rule finite_acyclic_wf [rotated])
  moreover obtain z0 where "z0 \<in> ?U" using assms(3) by (cases "unfinished ?bs") auto
  ultimately obtain z where z: "z \<in> ?U" and least: "\<And>y. (y, z) \<in> (depends_on ?bs)\<inverse> \<Longrightarrow> y \<notin> ?U"
    by (rule wfE_min) blast
  from z obtain b where b: "b \<in> set ?bs" "bid b = z" "bstatus b \<noteq> BSucceeded" by (auto simp: unfinished_def)
  have "set (dependencies b) \<subseteq> set (succeeded_ids tx)"
  proof
    fix d assume d: "d \<in> set (dependencies b)"
    then have "(d, z) \<in> (depends_on ?bs)\<inverse>" using b by (auto simp: depends_on_def)
    then have "d \<notin> ?U" by (rule least)
    moreover have "d \<in> bid ` set ?bs" using assms(1) b(1) d by (auto simp: graph_ok_def)
    ultimately show "d \<in> set (succeeded_ids tx)" by (auto simp: succeeded_ids_def unfinished_def)
  qed
  then have "runnable tx b" using b runs by (auto simp: runnable_def)
  moreover obtain i where "i < length ?bs" "?bs ! i = b" using b(1) by (auto simp: in_set_conv_nth)
  ultimately have "i \<in> set (ready_actions tx)" by (simp add: ready_actions_def)
  then show ?thesis by auto
qed

lemma ready_compensation_exists:
  assumes "graph_ok (branches tx)" and "\<not> list_all (\<lambda>b. bstatus b \<noteq> BCompensating) (branches tx)"
  shows "ready_compensations tx \<noteq> []"
proof -
  let ?bs = "branches tx"
  let ?U = "bid ` {b \<in> set ?bs. bstatus b = BCompensating}"
  have "wf (depends_on ?bs)"
    using assms(1) finite_depends_on by (intro finite_acyclic_wf) (simp_all add: graph_ok_def)
  moreover obtain z0 where "z0 \<in> ?U" using assms(2) by (auto simp: list_all_iff)
  ultimately obtain z where z: "z \<in> ?U" and least: "\<And>y. (y, z) \<in> depends_on ?bs \<Longrightarrow> y \<notin> ?U"
    by (rule wfE_min) blast
  from z obtain i where i: "i < length ?bs" "bid (?bs ! i) = z" "bstatus (?bs ! i) = BCompensating"
    by (auto simp: in_set_conv_nth)
  have "\<not> list_ex (\<lambda>dependent. bid (?bs ! i) \<in> set (dependencies dependent) \<and> bstatus dependent = BCompensating) ?bs"
    using least i by (auto simp: list_ex_iff depends_on_def)
  then have "i \<in> set (ready_compensations tx)" using i by (simp add: ready_compensations_def)
  then show ?thesis by auto
qed

section \<open>What a batch leaves\<close>

lemma set_schedule [simp]: "set (schedule p n xs) = set xs"
proof (induction p n xs rule: schedule.induct)
  case (2 p n x xs)
  let ?i = "p n mod length (x # xs)"
  have "?i < length (x # xs)" by simp
  then have "set (x # xs) = insert ((x # xs) ! ?i) (set (take ?i (x # xs) @ drop (Suc ?i) (x # xs)))"
    using id_take_nth_drop [of ?i "x # xs"] by (metis Un_insert_right list.simps(15) set_append)
  then show ?case using "2.IH" [OF refl] by (simp add: Let_def)
qed simp

lemma distinct_schedule: "distinct xs \<Longrightarrow> distinct (schedule p n xs)"
proof (induction p n xs rule: schedule.induct)
  case (2 p n x xs)
  let ?i = "p n mod length (x # xs)"
  have "?i < length (x # xs)" by simp
  then have "distinct (take ?i (x # xs) @ (x # xs) ! ?i # drop (Suc ?i) (x # xs))"
    using id_take_nth_drop [of ?i "x # xs"] "2.prems" by metis
  then show ?case using "2.IH" [OF refl] by (auto simp: Let_def)
qed simp

lemma shape_set_branch:
  "i < length (branches tx) \<Longrightarrow> bid b = bid (branches tx ! i) \<Longrightarrow> dependencies b = dependencies (branches tx ! i)
    \<Longrightarrow> shape (branches (set_branch i b tx)) = shape (branches tx)"
  by (simp add: shape_def set_branch_def map_update) (metis (mono_tags, lifting) length_map list_update_id nth_map)

lemma deps_edits [simp]:
  "dependencies (started b) = dependencies b" "dependencies (attempted b) = dependencies b"
  "dependencies (settled s b) = dependencies b" "dependencies (marked s b) = dependencies b"
  by (simp_all add: started_def attempted_def settled_def marked_def)

lemma shape_map: "(\<And>b. bid (f b) = bid b \<and> dependencies (f b) = dependencies b) \<Longrightarrow> shape (map f bs) = shape bs"
  by (simp add: shape_def)

lemma invoke_branch_result:
  assumes "invoke_branch D opts g st b u w = (Inr (r, b'), w')"
  shows "bid b' = bid b \<and> dependencies b' = dependencies b \<and> bstatus b' = bstatus b \<and> attempts b' = attempts b
    \<and> compensate b' = compensate b \<and> action b' = action b"
  using assms
  by (auto simp: invoke_branch_def act_simps emit_def current_millis_def notify_branch_failure_def Let_def
      record_branch_failure_def split: if_splits)

lemma join_tasks_result:
  assumes "join_tasks D st oper url_of good bad is tx failed w = (Inr (tx', failed'), w')"
    and "set is \<subseteq> {..<length (branches tx)}"
  shows "shape (branches tx') = shape (branches tx) \<and> (failed \<noteq> [] \<longrightarrow> failed' \<noteq> [])
    \<and> (failed' = [] \<longrightarrow> (\<forall>j < length (branches tx).
         bstatus (branches tx' ! j) = (if j \<in> set is then good else bstatus (branches tx ! j))))
    \<and> gid tx' = gid tx \<and> toptions tx' = toptions tx \<and> tkind tx' = tkind tx"
  using assms
proof (induction "is" arbitrary: tx failed w)
  case (Cons i "is")
  let ?b = "branches tx ! i"
  have i: "i < length (branches tx)" using Cons.prems(2) by simp
  obtain r b' w1 where inv: "invoke_branch D (toptions tx) (gid tx) st ?b (url_of ?b) w = (Inr (r, b'), w1)"
    using Cons.prems(1) by (auto simp: Let_def then_ok_def split: prod.splits sum.splits)
  note kept = invoke_branch_result [OF inv]
  show ?case
  proof (cases r)
    case True
    let ?tx = "set_branch i (settled good b') tx"
    have "join_tasks D st oper url_of good bad is ?tx failed w1 = (Inr (tx', failed'), w')"
      using Cons.prems(1) inv True by (simp add: Let_def act_simps)
    note IH = Cons.IH [OF this]
    have "shape (branches ?tx) = shape (branches tx)" using i kept by (intro shape_set_branch) simp_all
    moreover have "bstatus (branches ?tx ! j) = (if j = i then good else bstatus (branches tx ! j))"
      if "j < length (branches tx)" for j
      using that by (simp add: set_branch_def nth_list_update)
    ultimately show ?thesis using IH Cons.prems(2) by (auto simp: set_branch_def)
  next
    case False
    obtain w2 where rel: "release D (branch_barrier_of tx i oper) w1 = (Inr (), w2)"
      using Cons.prems(1) inv False by (auto simp: Let_def then_ok_def split: prod.splits sum.splits)
    let ?tx = "set_branch i (marked bad b') tx"
    have "join_tasks D st oper url_of good bad is ?tx (failed @ [i]) w2 = (Inr (tx', failed'), w')"
      using Cons.prems(1) inv rel False by (simp add: Let_def act_simps)
    note IH = Cons.IH [OF this]
    have "shape (branches ?tx) = shape (branches tx)" using i kept by (intro shape_set_branch) simp_all
    then show ?thesis using IH Cons.prems(2) by (auto simp: set_branch_def)
  qed
qed (simp add: act_simps)

lemma run_batch_result:
  assumes "run_batch D st oper url_of good bad ready tx w = (Inr (tx', failed), w')"
    and "set ready \<subseteq> {..<length (branches tx)}"
  shows "shape (branches tx') = shape (branches tx)" "gid tx' = gid tx" "toptions tx' = toptions tx" "tkind tx' = tkind tx"
    and "failed = [] \<Longrightarrow> j < length (branches tx) \<Longrightarrow>
         bstatus (branches tx' ! j) = (if j \<in> set ready then good else bstatus (branches tx ! j))"
  using join_tasks_result [OF assms(1) [unfolded run_batch_def]] assms(2) by simp_all

lemma length_shape: "shape bs = shape bs' \<Longrightarrow> length bs = length bs'"
  by (metis length_map shape_def)

lemma update_all_nth:
  assumes "\<And>b. bid (f b) = bid b \<and> dependencies (f b) = dependencies b" "distinct is" "set is \<subseteq> {..<length (branches tx)}"
  shows "shape (branches (update_all f is tx)) = shape (branches tx)
    \<and> (\<forall>j < length (branches tx). branches (update_all f is tx) ! j = (if j \<in> set is then f (branches tx ! j) else branches tx ! j))"
  using assms(2,3)
proof (induction "is" arbitrary: tx)
  case (Cons i "is")
  let ?tx = "set_branch i (f (branches tx ! i)) tx"
  have step: "update_all f (i # is) tx = update_all f is ?tx" by (simp add: update_all_def)
  have len: "length (branches ?tx) = length (branches tx)" by (simp add: set_branch_def)
  have "shape (branches ?tx) = shape (branches tx)" using Cons.prems assms(1) by (intro shape_set_branch) simp_all
  moreover have "branches ?tx ! j = (if j = i then f (branches tx ! i) else branches tx ! j)" if "j < length (branches tx)" for j
    using that by (simp add: set_branch_def nth_list_update)
  ultimately show ?case
    using Cons.IH [of ?tx] Cons.prems unfolding step len by (auto simp: nth_list_update)
qed (simp add: update_all_def)

section \<open>Both loops end\<close>

text \<open>The positions of the branches a loop has to deal with: every round shrinks the set.\<close>

definition at_status :: "(branch_status \<Rightarrow> bool) \<Rightarrow> transaction \<Rightarrow> nat set" where
  "at_status P tx = {j. j < length (branches tx) \<and> P (bstatus (branches tx ! j))}"

lemma card_at_status: "card (at_status P tx) \<le> length (branches tx)"
  using card_mono [of "{..<length (branches tx)}" "at_status P tx"] by (auto simp: at_status_def)

lemma at_status_shrinks:
  assumes "length (branches tx') = length (branches tx)"
    and st: "\<And>j. j < length (branches tx) \<Longrightarrow> bstatus (branches tx' ! j) = (if j \<in> set ready then good else bstatus (branches tx ! j))"
    and "\<not> P good" and ready: "set ready \<subseteq> at_status P tx" "ready \<noteq> []"
  shows "card (at_status P tx') < card (at_status P tx)"
proof (rule psubset_card_mono)
  show "finite (at_status P tx)" by (simp add: at_status_def)
  have "at_status P tx' = at_status P tx - set ready"
    using assms(1,3) st by (auto simp: at_status_def split: if_splits)
  moreover obtain i where "i \<in> set ready" using ready(2) by (cases ready) auto
  ultimately show "at_status P tx' \<subset> at_status P tx" using ready(1) by blast
qed

text \<open>\<open>never X m\<close>: the action never fails with an error of \<open>X\<close>.\<close>

definition never :: "'e set \<Rightarrow> ('w, 'e, 'a) act \<Rightarrow> bool" where
  "never X m \<longleftrightarrow> (\<forall>w. fst (m w) \<notin> Inl ` X)"

lemma never_ok [simp]: "never X (ok x)"
  by (simp add: never_def ok_apply image_iff)

lemma never_fail [simp]: "never X (fail e) \<longleftrightarrow> e \<notin> X"
  by (auto simp: never_def fail_apply)

lemma never_lift_res [simp]: "never X (lift_res r) \<longleftrightarrow> r \<notin> Inl ` X"
  by (simp add: never_def lift_res_apply)

lemma never_then_ok:
  assumes "never X m" and "\<And>w x w'. m w = (Inr x, w') \<Longrightarrow> never X (k x)"
  shows "never X (then_ok m k)"
  unfolding never_def
proof
  fix w
  obtain r w' where m: "m w = (r, w')" by fastforce
  show "fst (then_ok m k w) \<notin> Inl ` X"
  proof (cases r)
    case (Inl e)
    then show ?thesis using assms(1) [unfolded never_def, rule_format, of w] m by (auto simp: then_ok_def)
  next
    case (Inr x)
    then show ?thesis using assms(2) [of w x w'] m by (simp add: then_ok_def never_def)
  qed
qed

definition store_silent :: "dtm_error set \<Rightarrow> 's store_ops \<Rightarrow> bool" where
  "store_silent X ops \<longleftrightarrow> (\<forall>g. never X (get_transaction ops g)) \<and> (\<forall>now tx. never X (update_transaction ops now tx))
     \<and> (\<forall>now b. never X (barrier ops now b)) \<and> (\<forall>b. never X (release_barrier ops b))"

definition loop_errors :: "dtm_error set" where
  "loop_errors = insert OutOfFuel (range UnresolvedCompensation)"

lemma not_loop_errors [simp]:
  "Panicked \<notin> loop_errors" "StoreError e \<notin> loop_errors" "MissingUrl b \<notin> loop_errors" "GraphError ge \<notin> loop_errors"
  "UnresolvedDependencies g \<notin> loop_errors" "WorkflowError we \<notin> loop_errors"
  by (auto simp: loop_errors_def)

lemma never_store_op: "(\<And>now. never loop_errors (m now)) \<Longrightarrow> never loop_errors (store_op D m)"
  unfolding never_def store_op_def Let_def by (auto split: fault.splits simp: loop_errors_def)

lemma never_invoke: "never loop_errors (invoke_branch D opts g st b u)"
  unfolding never_def
  by (auto simp: invoke_branch_def act_simps emit_def current_millis_def notify_branch_failure_def Let_def)

lemma graph_errors: "validate_dependency_graph bs \<notin> Inl ` loop_errors"
  using graph_decision [of bs] by (auto simp: loop_errors_def)

declare compensate_loop.simps [simp del] concurrent_loop.simps [simp del]

lemma never_guards [simp]:
  "ensure_kind tx k \<notin> Inl ` loop_errors" "ensure_status tx sts \<notin> Inl ` loop_errors"
  by (auto simp: ensure_kind_def ensure_status_def ensure_def loop_errors_def)

lemma persist_result: "persist_transaction D tx w = (Inr tx', w') \<Longrightarrow> tx' = next_revision tx"
  by (auto simp: persist_transaction_def act_simps next_revision_def split: prod.splits sum.splits)

locale silent_store =
  fixes D :: "'s dtm"
  assumes silent: "store_silent loop_errors (dtm_store D)"
begin

lemma never_fetch: "never loop_errors (fetch D g)"
  unfolding fetch_def
  by (rule never_then_ok [OF never_store_op]) (use silent in \<open>auto simp: store_silent_def ok_or_def loop_errors_def split: option.splits\<close>)

lemma never_persist: "never loop_errors (persist_transaction D tx)"
  unfolding persist_transaction_def
  by (rule never_then_ok [OF never_store_op]) (use silent in \<open>simp_all add: store_silent_def\<close>)

lemma never_claim: "never loop_errors (claim D b)"
  unfolding claim_def by (rule never_store_op) (use silent in \<open>simp add: store_silent_def\<close>)

lemma never_release: "never loop_errors (release D b)"
  unfolding release_def by (rule never_store_op) (use silent in \<open>simp add: store_silent_def\<close>)

lemmas never_atoms = never_fetch never_persist never_claim never_release never_invoke

lemma never_release_all: "never loop_errors (release_all D bs)"
  by (induction bs) (auto intro!: never_then_ok never_release)

lemma never_claim_all: "never loop_errors (claim_all D tx oper is taken)"
  by (induction "is" arbitrary: taken) (auto simp: Let_def intro!: never_then_ok never_claim never_release_all)

lemma never_join_tasks: "never loop_errors (join_tasks D st oper url_of good bad is tx failed)"
  by (induction "is" arbitrary: tx failed) (auto simp: Let_def intro!: never_then_ok never_invoke never_release)

lemma never_run_batch: "never loop_errors (run_batch D st oper url_of good bad ready tx)"
  using never_join_tasks unfolding never_def run_batch_def by blast

lemma never_abort_loop: "never loop_errors (abort_loop D is tx)"
  by (induction "is" arbitrary: tx)
    (auto simp: Let_def not_loop_errors intro!: never_then_ok never_atoms split: barrier_decision.splits option.splits)


lemma never_compensate_loop:
  "graph_ok (branches tx) \<Longrightarrow> card (at_status ((=) BCompensating) tx) < n \<Longrightarrow> never loop_errors (compensate_loop n D tx)"
proof (induction n arbitrary: tx)
  case (Suc n)
  let ?ready = "ready_compensations tx"
  have ready: "set ?ready \<subseteq> at_status ((=) BCompensating) tx" "distinct ?ready"
    by (auto simp: ready_compensations_def at_status_def)
  have bound: "set ?ready \<subseteq> {..<length (branches tx)}" by (auto simp: ready_compensations_def)
  have round: "never loop_errors (compensate_loop n D (next_revision tx2))"
    if "\<not> list_all (\<lambda>b. bstatus b \<noteq> BCompensating) (branches tx)"
      and run: "run_batch D Aborting ''compensate'' compensate_url BSkipped BCompensating ?ready
        (next_revision (update_all attempted ?ready tx)) w = (Inr (tx2, []), w')" for tx2 w w'
  proof (rule Suc.IH)
    let ?tx1 = "next_revision (update_all attempted ?ready tx)"
    have upd: "shape (branches ?tx1) = shape (branches tx)"
      "\<And>j. j < length (branches tx) \<Longrightarrow> bstatus (branches ?tx1 ! j) = bstatus (branches tx ! j)"
      using update_all_nth [of attempted ?ready tx] ready(2) bound by (auto simp: attempted_def)
    note len = length_shape [OF upd(1)]
    have bound1: "set ?ready \<subseteq> {..<length (branches ?tx1)}" using bound len by simp
    have shape2: "shape (branches tx2) = shape (branches tx)" using run_batch_result(1) [OF run bound1] upd(1) by simp
    have st2: "bstatus (branches tx2 ! j) = (if j \<in> set ?ready then BSkipped else bstatus (branches tx ! j))"
      if "j < length (branches tx)" for j
      using run_batch_result(5) [OF run bound1 refl, of j] upd(2) [OF that] that len by simp
    show "graph_ok (branches (next_revision tx2))" using Suc.prems(1) graph_ok_cong [OF shape2] by simp
    have "?ready \<noteq> []" using ready_compensation_exists [OF Suc.prems(1)] that(1) by simp
    then have "card (at_status ((=) BCompensating) (next_revision tx2)) < card (at_status ((=) BCompensating) tx)"
      using st2 ready(1) length_shape [OF shape2] by (intro at_status_shrinks [of _ _ ?ready BSkipped]) simp_all
    then show "card (at_status ((=) BCompensating) (next_revision tx2)) < n" using Suc.prems(2) by simp
  qed
  show ?case
    using ready_compensation_exists [OF Suc.prems(1)]
    by (auto simp: compensate_loop.simps(2) Let_def split: option.splits dest!: persist_result intro!: never_then_ok never_persist never_claim_all never_fetch never_run_batch round)
qed (simp add: compensate_loop.simps)

lemma never_abort_concurrent:
  assumes "tkind tx = Saga" "concurrent (toptions tx)"
  shows "never loop_errors (abort_concurrent_saga D tx)"
proof -
  have validate: "validate_transaction_dependencies tx = validate_dependency_graph (branches tx)"
    using assms by (simp add: validate_transaction_dependencies_def)
  have "\<not> validate_dependency_graph (branches tx) \<in> Inl ` loop_errors"
    using graph_errors by blast
  moreover have "never loop_errors (compensate_loop (Suc (length (branches tx'))) D tx')"
    if "graph_ok (branches tx)" "tx' = next_revision (map_branches start_compensation (set_status Aborting tx))" for tx'
  proof (rule never_compensate_loop)
    have "shape (branches tx') = shape (branches tx)"
      using that(2) by (simp add: map_branches_def set_status_def start_compensation_def shape_map split: branch_status.splits)
    then show "graph_ok (branches tx')" using that(1) graph_ok_cong by blast
    show "card (at_status ((=) BCompensating) tx') < Suc (length (branches tx'))" using card_at_status by (simp add: less_Suc_eq_le)
  qed
  ultimately show ?thesis
    unfolding abort_concurrent_saga_def validate
    by (auto simp: graph_decision [THEN conjunct1] lift_res_apply dest!: persist_result intro!: never_then_ok never_persist)
qed

lemma never_concurrent_loop:
  "tkind tx = Saga \<Longrightarrow> concurrent (toptions tx) \<Longrightarrow> card (at_status ((\<noteq>) BSucceeded) tx) < n \<Longrightarrow> never loop_errors (concurrent_loop n D tx)"
proof (induction n arbitrary: tx)
  case (Suc n)
  let ?ready = "ready_actions tx"
  have ready: "set ?ready \<subseteq> at_status ((\<noteq>) BSucceeded) tx" "distinct ?ready"
    by (auto simp: ready_actions_def at_status_def runnable_def)
  have bound: "set ?ready \<subseteq> {..<length (branches tx)}" by (auto simp: ready_actions_def)
  let ?tx1 = "next_revision (update_all started ?ready tx)"
  have upd: "shape (branches ?tx1) = shape (branches tx)"
    "\<And>j. j < length (branches tx) \<Longrightarrow> branches ?tx1 ! j = (if j \<in> set ?ready then started (branches tx ! j) else branches tx ! j)"
    using update_all_nth [of started ?ready tx] ready(2) bound by auto
  note len = length_shape [OF upd(1)]
  have bound1: "set ?ready \<subseteq> {..<length (branches ?tx1)}" using bound len by simp
  have kept: "tkind tx2 = Saga" "concurrent (toptions tx2)"
    if "run_batch D Succeeding ''action'' action BSucceeded BFailed ?ready ?tx1 w = (Inr (tx2, failed), w')" for tx2 failed w w'
    using run_batch_result(3,4) [OF that bound1] Suc.prems(1,2) by simp_all
  have abort: "never loop_errors (abort_concurrent_saga D (next_revision (map_branches give_up (set_status Aborting tx2))))"
    if "run_batch D Succeeding ''action'' action BSucceeded BFailed ?ready ?tx1 w = (Inr (tx2, failed), w')" for tx2 failed w w'
    using kept [OF that] by (intro never_abort_concurrent) simp_all
  have round: "never loop_errors (concurrent_loop n D (next_revision tx2))"
    if "?ready \<noteq> []" and run: "run_batch D Succeeding ''action'' action BSucceeded BFailed ?ready ?tx1 w = (Inr (tx2, []), w')" for tx2 w w'
  proof (rule Suc.IH)
    have st2: "bstatus (branches tx2 ! j) = (if j \<in> set ?ready then BSucceeded else bstatus (branches tx ! j))"
      if "j < length (branches tx)" for j
      using run_batch_result(5) [OF run bound1 refl, of j] upd(2) [OF that] that len by simp
    have "length (branches tx2) = length (branches tx)"
      using length_shape [OF run_batch_result(1) [OF run bound1]] len by simp
    then have "card (at_status ((\<noteq>) BSucceeded) (next_revision tx2)) < card (at_status ((\<noteq>) BSucceeded) tx)"
      using st2 ready(1) that(1) by (intro at_status_shrinks [of _ _ ?ready BSucceeded]) simp_all
    then show "card (at_status ((\<noteq>) BSucceeded) (next_revision tx2)) < n" using Suc.prems(3) by simp
  qed (use kept [OF run] in simp_all)
  show ?case
    by (auto simp: concurrent_loop.simps(2) Let_def dest!: persist_result intro!: never_then_ok never_persist never_claim_all never_fetch never_run_batch round abort)
qed (simp add: concurrent_loop.simps)

lemma never_start_concurrent:
  assumes "tkind tx = Saga" "concurrent (toptions tx)"
  shows "never loop_errors (start_concurrent_saga D tx)"
proof -
  have validate: "validate_transaction_dependencies tx = validate_dependency_graph (branches tx)"
    using assms by (simp add: validate_transaction_dependencies_def)
  have "\<not> validate_dependency_graph (branches tx) \<in> Inl ` loop_errors"
    using graph_errors by blast
  moreover have "card (at_status ((\<noteq>) BSucceeded) tx') < Suc (length (branches tx'))" for tx'
    using card_at_status by (simp add: less_Suc_eq_le)
  ultimately show ?thesis
    unfolding start_concurrent_saga_def validate using assms
    by (auto dest!: persist_result intro!: never_then_ok never_persist never_concurrent_loop)
qed

lemma never_abort_saga: "never loop_errors (abort_saga D g)"
proof -
  have "never loop_errors (abort_concurrent_saga D tx)" if "ensure_kind tx Saga = Inr ()" "concurrent (toptions tx)" for tx
    using that by (intro never_abort_concurrent) (simp_all add: ensure_kind_def split: if_splits)
  then show ?thesis
    unfolding abort_saga_def
    by (intro never_then_ok never_fetch)
      (auto simp: lift_res_apply never_guards intro!: never_then_ok never_abort_loop)
qed

lemma never_saga_loop: "never loop_errors (saga_loop D g is tx)"
  by (induction "is" arbitrary: tx) (auto simp: Let_def intro!: never_then_ok never_atoms never_abort_saga)

lemma never_start_saga: "never loop_errors (start_saga D g)"
proof -
  have "never loop_errors (start_concurrent_saga D tx)" if "ensure_kind tx Saga = Inr ()" "concurrent (toptions tx)" for tx
    using that by (intro never_start_concurrent) (simp_all add: ensure_kind_def split: if_splits)
  then show ?thesis
    unfolding start_saga_def
    by (intro never_then_ok never_fetch)
      (auto simp: lift_res_apply intro!: never_then_ok never_persist never_saga_loop)
qed

text \<open>The loop of \<^verbatim>\<open>start_workflow\<close>: every round but the last settles one branch.\<close>

lemma never_of_kind: "never loop_errors (transaction_of_kind D g k)"
  unfolding transaction_of_kind_def by (auto simp: lift_res_apply intro!: never_then_ok never_fetch)

lemma never_workflow_abort_loop: "never loop_errors (workflow_abort_loop D is tx)"
  by (induction "is" arbitrary: tx) (auto simp: Let_def intro!: never_then_ok never_atoms split: option.splits)

lemma never_abort_workflow: "never loop_errors (abort_workflow D g)"
  unfolding abort_workflow_def
  by (auto simp: lift_res_apply intro!: never_then_ok never_of_kind never_workflow_abort_loop)

lemma settled_shrinks:
  assumes "i < length (branches tx)" and "bstatus (branches tx ! i) \<noteq> BSucceeded"
  shows "card (at_status ((\<noteq>) BSucceeded) (next_revision (set_branch i (settled BSucceeded b) tx))) < card (at_status ((\<noteq>) BSucceeded) tx)"
  using assms by (intro at_status_shrinks [of _ _ "[i]" BSucceeded]) (auto simp: set_branch_def settled_def nth_list_update at_status_def)

lemma never_workflow_loop:
  "card (at_status ((\<noteq>) BSucceeded) tx) < n \<Longrightarrow> never loop_errors (workflow_loop n D g tx)"
proof (induction n arbitrary: tx)
  case (Suc n)
  have round: "never loop_errors (workflow_loop n D g (next_revision (set_branch i (settled BSucceeded b) tx)))"
    if "find (\<lambda>i. runnable tx (branches tx ! i)) [0..<length (branches tx)] = Some i" for i b
  proof -
    have i: "i < length (branches tx)" "runnable tx (branches tx ! i)" using that by (auto simp: find_Some_iff)
    then have "bstatus (branches tx ! i) \<noteq> BSucceeded" by (auto simp: runnable_def)
    then show ?thesis using settled_shrinks [OF i(1), of b] Suc.prems by (intro Suc.IH) simp
  qed
  show ?case
    by (auto simp: Let_def split: option.splits dest!: persist_result
        intro!: never_then_ok never_atoms never_abort_workflow round)
qed simp

lemma never_start_workflow: "never loop_errors (start_workflow D g)"
proof -
  have "never loop_errors (workflow_loop (Suc (length (branches tx))) D g (set_status Succeeding tx))" for tx
    using card_at_status [of "(\<noteq>) BSucceeded" "set_status Succeeding tx"]
    by (intro never_workflow_loop) (simp add: set_status_def less_Suc_eq_le)
  then show ?thesis
    unfolding start_workflow_def
    by (auto simp: lift_res_apply ensure_def simp del: workflow_loop.simps split: if_splits intro!: never_then_ok never_of_kind)
qed

end

lemma mem_silent_ops: "store_silent loop_errors mem_ops"
  by (auto simp: store_silent_def never_def mem_get_transaction_def mem_update_transaction_def mem_barrier_def
      mem_release_barrier_def Let_def loop_errors_def act_simps split: option.splits)

interpretation mem_silent: silent_store "D\<lparr>dtm_store := mem_ops\<rparr>" for D
  by unfold_locales (simp add: mem_silent_ops)

text \<open>
  C11: Starting and aborting a Saga ends, and so does starting a workflow, whatever the services answer, other coordinators write
  and requests are lost: the loops over batches of concurrent branches and over the branches of a workflow never use up their
  fuel, one round more than there are branches, and a compensation that waits for its dependents never
  leaves the Saga with unresolved compensations.
\<close>

theorem saga_loops_end:
  assumes "store_silent {e. e = OutOfFuel \<or> (\<exists>g. e = UnresolvedCompensation g)} (dtm_store D)"
  shows "fst (start_saga D g w) \<noteq> Inl OutOfFuel \<and> fst (abort_saga D g w) \<noteq> Inl OutOfFuel
    \<and> fst (start_saga D g w) \<noteq> Inl (UnresolvedCompensation g') \<and> fst (abort_saga D g w) \<noteq> Inl (UnresolvedCompensation g')
    \<and> fst (start_workflow D g w) \<noteq> Inl OutOfFuel"
proof -
  have "{e. e = OutOfFuel \<or> (\<exists>g. e = UnresolvedCompensation g)} = loop_errors" by (auto simp: loop_errors_def)
  then have silent: "silent_store D" using assms by (simp add: silent_store.intro)
  show ?thesis
    using silent_store.never_start_saga [OF silent, of g] silent_store.never_abort_saga [OF silent, of g]
      silent_store.never_start_workflow [OF silent, of g]
    by (auto simp: never_def loop_errors_def dest!: spec [of _ w])
qed

theorem saga_loops_end_witness:
  "fst (start_saga (sample_dtm\<lparr>dtm_store := mem_ops\<rparr>) ''s1'' (sample_world sample_saga)) \<noteq> Inl OutOfFuel"
proof -
  have "{e. e = OutOfFuel \<or> (\<exists>g. e = UnresolvedCompensation g)} = loop_errors" by (auto simp: loop_errors_def)
  then show ?thesis
    using saga_loops_end [of "sample_dtm\<lparr>dtm_store := mem_ops\<rparr>" "''s1''" "sample_world sample_saga"] mem_silent_ops by simp
qed

section \<open>Calls respect the dependencies\<close>

text \<open>
  \<open>in_order G S es\<close>: every call in \<open>es\<close> is to a branch whose dependencies are in \<open>S\<close> or have been called with success
  before. \<open>undo_ordered G C es\<close>: every call is to a branch on which no branch of \<open>C\<close> that is still
  to be compensated depends.
\<close>

fun in_order :: "(string \<times> string list) list \<Rightarrow> string set \<Rightarrow> event list \<Rightarrow> bool" where
  "in_order G S [] = True"
| "in_order G S (Invoked g i u r # es) =
     (list_all (\<lambda>(j, ds). j = i \<longrightarrow> set ds \<subseteq> S) G \<and> in_order G (if r then insert i S else S) es)"
| "in_order G S (Alerted a # es) = in_order G S es"
| "in_order G S (Queried q # es) = in_order G S es"

fun undo_ordered :: "(string \<times> string list) list \<Rightarrow> string set \<Rightarrow> event list \<Rightarrow> bool" where
  "undo_ordered G C [] = True"
| "undo_ordered G C (Invoked g i u r # es) =
     (list_all (\<lambda>(j, ds). i \<in> set ds \<longrightarrow> j \<notin> C) G \<and> undo_ordered G (if r then C - {i} else C) es)"
| "undo_ordered G C (Alerted a # es) = undo_ordered G C es"
| "undo_ordered G C (Queried q # es) = undo_ordered G C es"

definition served :: "event list \<Rightarrow> string set" where
  "served es = {i. \<exists>g u. Invoked g i u True \<in> set es}"

lemma served_simps [simp]:
  "served [] = {}" "served (es @ fs) = served es \<union> served fs"
  "served (Invoked g i u r # es) = (if r then insert i (served es) else served es)"
  "served (Alerted a # es) = served es" "served (Queried q # es) = served es"
  by (auto simp: served_def)

lemma in_order_append: "in_order G S (es @ fs) \<longleftrightarrow> in_order G S es \<and> in_order G (S \<union> served es) fs"
  by (induction G S es rule: in_order.induct) auto

lemma undo_ordered_append: "undo_ordered G C (es @ fs) \<longleftrightarrow> undo_ordered G C es \<and> undo_ordered G (C - served es) fs"
proof (induction G C es rule: undo_ordered.induct)
  case (2 G C g i u r es)
  have "C - {i} - served es = C - insert i (served es)" by blast
  then show ?case using "2.IH" by (cases r) simp_all
qed simp_all

definition silent_run :: "('s, 'a) run \<Rightarrow> bool" where
  "silent_run m \<longleftrightarrow> (\<forall>w. w_events (snd (m w)) = w_events w)"

lemma silent_then_ok: "silent_run m \<Longrightarrow> (\<And>x. silent_run (k x)) \<Longrightarrow> silent_run (then_ok m k)"
  unfolding silent_run_def
proof
  fix w assume m: "\<forall>w. w_events (snd (m w)) = w_events w" and k: "\<And>x. \<forall>w. w_events (snd (k x w)) = w_events w"
  obtain r w' where run: "m w = (r, w')" by fastforce
  have "w_events w' = w_events w" using m [rule_format, of w] run by simp
  then show "w_events (snd (then_ok m k w)) = w_events w" using run k by (cases r) (simp_all add: then_ok_def)
qed

lemma silent_store_op: "silent_run (store_op D m)"
  by (auto simp: silent_run_def store_op_def Let_def split: fault.splits)

lemma silent_lift_res: "silent_run (lift_res r)"
  by (simp add: silent_run_def lift_res_apply)

lemma silent_ok: "silent_run (ok x)"
  by (simp add: silent_run_def ok_apply)

lemma silent_atoms: "silent_run (fetch D g)" "silent_run (persist_transaction D tx)" "silent_run (claim D b)" "silent_run (release D b)"
  unfolding fetch_def persist_transaction_def claim_def release_def
  by (intro silent_then_ok silent_store_op silent_lift_res silent_ok)+

lemma silent_release_all: "silent_run (release_all D bs)"
  by (induction bs) (auto intro!: silent_then_ok silent_atoms silent_ok)

lemma silent_claim_all: "silent_run (claim_all D tx oper is taken)"
  by (induction "is" arbitrary: taken) (auto simp: Let_def intro!: silent_then_ok silent_atoms silent_ok silent_release_all)

lemma invoke_branch_events:
  assumes "invoke_branch D opts g st b u w = (x, w')"
  obtains r b' where "x = Inr (r, b')" "w_events w' = w_events w @ [Invoked g (bid b) u r] \<or> (\<exists>al. w_events w' = w_events w @ [Invoked g (bid b) u r, Alerted al])"
  using assms
  by (auto simp: invoke_branch_def act_simps emit_def current_millis_def notify_branch_failure_def Let_def split: if_splits)

definition status_ids :: "branch_status \<Rightarrow> transaction \<Rightarrow> string set" where
  "status_ids st tx = bid ` {b \<in> set (branches tx). bstatus b = st}"

lemma status_ids_nth: "x \<in> status_ids st tx \<longleftrightarrow> (\<exists>j < length (branches tx). bstatus (branches tx ! j) = st \<and> bid (branches tx ! j) = x)"
  by (auto simp: status_ids_def in_set_conv_nth)

lemma succeeded_ids_eq: "set (succeeded_ids tx) = status_ids BSucceeded tx"
  by (auto simp: succeeded_ids_def status_ids_def)

lemma status_ids_map:
  assumes "\<And>b. bid (f b) = bid b"
  shows "status_ids st (map_branches f tx) = bid ` {b \<in> set (branches tx). bstatus (f b) = st}"
proof -
  have "{b \<in> set (branches (map_branches f tx)). bstatus b = st} = f ` {b \<in> set (branches tx). bstatus (f b) = st}" by auto
  then show ?thesis using assms by (simp add: status_ids_def image_image)
qed

lemma ex_nth_update: "i < length xs \<Longrightarrow> (\<exists>j < length xs. P (xs[i := x] ! j)) \<longleftrightarrow> P x \<or> (\<exists>j < length xs. j \<noteq> i \<and> P (xs ! j))"
  by (metis nth_list_update_eq nth_list_update_neq)

lemma status_ids_set_branch:
  assumes "distinct (map bid (branches tx))" "i < length (branches tx)" "bid b = bid (branches tx ! i)"
  shows "status_ids st (set_branch i b tx) = (if bstatus b = st then insert (bid b) (status_ids st tx) else status_ids st tx - {bid b})"
proof (rule set_eqI)
  fix x
  have "x \<in> status_ids st (set_branch i b tx) \<longleftrightarrow> (bstatus b = st \<and> bid b = x)
      \<or> (\<exists>j < length (branches tx). j \<noteq> i \<and> bstatus (branches tx ! j) = st \<and> bid (branches tx ! j) = x)"
    unfolding status_ids_nth transaction_edits length_list_update
    by (rule ex_nth_update [OF assms(2), of "\<lambda>c. bstatus c = st \<and> bid c = x"])
  moreover have "j \<noteq> i \<longleftrightarrow> bid (branches tx ! j) \<noteq> bid b" if "j < length (branches tx)" for j
    using distinct_map_nth [OF assms(1) that assms(2)] assms(3) by simp
  then have "(\<exists>j < length (branches tx). j \<noteq> i \<and> bstatus (branches tx ! j) = st \<and> bid (branches tx ! j) = x)
      \<longleftrightarrow> x \<noteq> bid b \<and> x \<in> status_ids st tx"
    unfolding status_ids_nth by blast
  ultimately show "x \<in> status_ids st (set_branch i b tx) \<longleftrightarrow>
      x \<in> (if bstatus b = st then insert (bid b) (status_ids st tx) else status_ids st tx - {bid b})" by auto
qed

lemma status_ids_own:
  assumes "distinct (map bid (branches tx))" "i < length (branches tx)"
  shows "bid (branches tx ! i) \<in> status_ids st tx \<longleftrightarrow> bstatus (branches tx ! i) = st"
  using distinct_map_nth [OF assms(1) _ assms(2)] assms(2) by (auto simp: status_ids_nth)

definition edited :: "branch \<Rightarrow> branch \<Rightarrow> bool" where
  "edited b b' \<longleftrightarrow> bid b' = bid b \<and> dependencies b' = dependencies b"

text \<open>A property of the calls made so far, kept by each call of a batch, holds after the batch.\<close>

lemma join_tasks_hoare:
  fixes D :: "'s dtm"
  assumes good: "\<And>tx i b' es. R tx i \<Longrightarrow> \<Phi> tx es \<Longrightarrow> edited (branches tx ! i) b'
      \<Longrightarrow> \<Phi> (set_branch i (settled good b') tx) (es @ [Invoked (gid tx) (bid (branches tx ! i)) (url_of (branches tx ! i)) True])"
    and bad: "\<And>tx i b' es. R tx i \<Longrightarrow> \<Phi> tx es \<Longrightarrow> edited (branches tx ! i) b'
      \<Longrightarrow> \<Phi> (set_branch i (marked bad b') tx) (es @ [Invoked (gid tx) (bid (branches tx ! i)) (url_of (branches tx ! i)) False])"
    and alert: "\<And>tx es al. \<Phi> tx es \<Longrightarrow> \<Phi> tx (es @ [Alerted al])"
    and stable: "\<And>tx es i j b'. R tx i \<Longrightarrow> R tx j \<Longrightarrow> i \<noteq> j \<Longrightarrow> \<Phi> tx es \<Longrightarrow> edited (branches tx ! i) b'
      \<Longrightarrow> R (set_branch i (settled good b') tx) j \<and> R (set_branch i (marked bad b') tx) j"
    and weak: "\<And>tx es. \<Phi> tx es \<Longrightarrow> \<Psi> es"
  shows "distinct is \<Longrightarrow> (\<And>i. i \<in> set is \<Longrightarrow> R tx i) \<Longrightarrow>
    hoare (\<lambda>w. \<Phi> tx (w_events w)) (join_tasks D st oper url_of good bad is tx failed) (\<lambda>(tx', _) w. \<Phi> tx' (w_events w)) (\<lambda>w. \<Psi> (w_events w))"
proof (induction "is" arbitrary: tx failed)
  case Nil
  then show ?case by (simp add: hoare_ok)
next
  case (Cons i "is")
  let ?b = "branches tx ! i"
  let ?post = "res_post (\<lambda>(tx', _) (w :: 's world). \<Phi> tx' (w_events w)) (\<lambda>w. \<Psi> (w_events w))"
  have R: "R tx i" using Cons.prems by simp
  show ?case
    unfolding hoare_def
  proof (intro allI impI)
    fix w :: "'s world" assume phi: "\<Phi> tx (w_events w)"
    obtain x w1 where run: "invoke_branch D (toptions tx) (gid tx) st ?b (url_of ?b) w = (x, w1)" by fastforce
    then obtain r b' where x: "x = Inr (r, b')" and ev: "w_events w1 = w_events w @ [Invoked (gid tx) (bid ?b) (url_of ?b) r]
        \<or> (\<exists>al. w_events w1 = w_events w @ [Invoked (gid tx) (bid ?b) (url_of ?b) r, Alerted al])"
      by (rule invoke_branch_events)
    have ed: "edited ?b b'" using invoke_branch_result [OF run [unfolded x]] by (simp add: edited_def)
    let ?tx1 = "set_branch i (if r then settled good b' else marked bad b') tx"
    have phi1: "\<Phi> ?tx1 (w_events w1)"
    proof -
      have "\<Phi> ?tx1 (w_events w @ [Invoked (gid tx) (bid ?b) (url_of ?b) r])" using good [OF R phi ed] bad [OF R phi ed] by simp
      then show ?thesis using ev alert [of ?tx1 "w_events w @ [Invoked (gid tx) (bid ?b) (url_of ?b) r]"] by auto
    qed
    have rest: "R ?tx1 j" if "j \<in> set is" for j
    proof -
      have "R tx j" "i \<noteq> j" using Cons.prems that by auto
      then show ?thesis using stable [OF R _ _ phi ed] by simp
    qed
    have IH: "\<Phi> ?tx1 (w_events w2) \<Longrightarrow> ?post (join_tasks D st oper url_of good bad is ?tx1 failed' w2)" for failed' w2
      using hoareD [OF Cons.IH [of ?tx1 failed']] Cons.prems(1) rest by simp
    show "?post (join_tasks D st oper url_of good bad (i # is) tx failed w)"
    proof (cases r)
      case True
      then show ?thesis using IH [of w1 failed] phi1 run x by (simp add: Let_def act_simps)
    next
      case False
      obtain y w2 where rel: "release D (branch_barrier_of tx i oper) w1 = (y, w2)" by fastforce
      have ev2: "w_events w2 = w_events w1" using silent_atoms(4) rel unfolding silent_run_def by (metis snd_conv)
      show ?thesis
      proof (cases y)
        case (Inl e)
        then show ?thesis using False run x rel ev2 weak [OF phi1] by (simp add: Let_def act_simps)
      next
        case (Inr u)
        then show ?thesis using False run x rel ev2 phi1 IH [of w2 "failed @ [i]"] by (simp add: Let_def act_simps)
      qed
    qed
  qed
qed

lemma shape_nth:
  assumes "shape bs' = shape bs" "j < length bs"
  shows "bid (bs' ! j) = bid (bs ! j)" "dependencies (bs' ! j) = dependencies (bs ! j)"
proof -
  have "shape bs' ! j = shape bs ! j" using assms(1) by simp
  then show "bid (bs' ! j) = bid (bs ! j)" "dependencies (bs' ! j) = dependencies (bs ! j)"
    using assms(2) length_shape [OF assms(1)] by (simp_all add: shape_def)
qed

lemma status_ids_cong:
  assumes "shape (branches tx') = shape (branches tx)"
    and "\<And>j. j < length (branches tx) \<Longrightarrow> bstatus (branches tx' ! j) = st' \<longleftrightarrow> bstatus (branches tx ! j) = st"
  shows "status_ids st' tx' = status_ids st tx"
  unfolding set_eq_iff status_ids_nth length_shape [OF assms(1)]
  by (intro allI iff_exI) (use assms(2) shape_nth(1) [OF assms(1)] in auto)

text \<open>The calls so far, relative to the calls \<open>E0\<close> before the loop, and what the branches of the transaction tell of them.\<close>

definition forwards :: "event list \<Rightarrow> (string \<times> string list) list \<Rightarrow> string set \<Rightarrow> transaction \<Rightarrow> event list \<Rightarrow> bool" where
  "forwards E0 G S tx es \<longleftrightarrow> shape (branches tx) = G
     \<and> (\<exists>acts. es = E0 @ acts \<and> in_order G S acts \<and> S \<union> served acts = status_ids BSucceeded tx)"

definition backwards :: "event list \<Rightarrow> (string \<times> string list) list \<Rightarrow> string set \<Rightarrow> transaction \<Rightarrow> event list \<Rightarrow> bool" where
  "backwards E0 G C tx es \<longleftrightarrow> shape (branches tx) = G
     \<and> (\<exists>comps. es = E0 @ comps \<and> undo_ordered G C comps \<and> C - served comps = status_ids BCompensating tx)"

definition undone_after :: "event list \<Rightarrow> (string \<times> string list) list \<Rightarrow> string set \<Rightarrow> event list \<Rightarrow> bool" where
  "undone_after E0 G C es \<longleftrightarrow> (\<exists>comps. es = E0 @ comps \<and> undo_ordered G C comps)"

definition ordered_after :: "event list \<Rightarrow> (string \<times> string list) list \<Rightarrow> string set \<Rightarrow> event list \<Rightarrow> bool" where
  "ordered_after E0 G S es \<longleftrightarrow> (\<exists>acts comps. es = E0 @ acts @ comps \<and> in_order G S acts \<and> undo_ordered G (S \<union> served acts) comps)"

lemma backwards_undone: "backwards E0 G C tx es \<Longrightarrow> undone_after E0 G C es"
  by (auto simp: backwards_def undone_after_def)

lemma forwards_ordered:
  assumes "forwards E0 G S tx es" shows "ordered_after E0 G S es"
proof -
  obtain acts where "es = E0 @ acts @ []" "in_order G S acts" "undo_ordered G (S \<union> served acts) []"
    using assms by (auto simp: forwards_def)
  then show ?thesis unfolding ordered_after_def by blast
qed

lemma list_all_shape:
  assumes "distinct (map bid bs)" "i < length bs"
  shows "list_all (\<lambda>(j, ds). j = bid (bs ! i) \<longrightarrow> P ds) (shape bs) \<longleftrightarrow> P (dependencies (bs ! i))"
  using distinct_map_nth [OF assms(1) _ assms(2)] assms(2) by (auto simp: list_all_length shape_def)

definition can_start :: "transaction \<Rightarrow> nat \<Rightarrow> bool" where
  "can_start tx i \<longleftrightarrow> i < length (branches tx) \<and> distinct (map bid (branches tx)) \<and> bstatus (branches tx ! i) \<noteq> BSucceeded
     \<and> set (dependencies (branches tx ! i)) \<subseteq> status_ids BSucceeded tx"

lemma set_branch_status_ids:
  assumes "distinct (map bid (branches tx))" "i < length (branches tx)" "edited (branches tx ! i) b'" "bstatus b = s" "bid b = bid b'"
  shows "status_ids st (set_branch i b tx) =
    (if s = st then insert (bid (branches tx ! i)) (status_ids st tx) else status_ids st tx - {bid (branches tx ! i)})"
  using status_ids_set_branch [OF assms(1,2), of b st] assms(3-5) by (simp add: edited_def)

lemma edited_shape:
  assumes "i < length (branches tx)" "edited (branches tx ! i) b'"
  shows "shape (branches (set_branch i (settled st b') tx)) = shape (branches tx)"
    "shape (branches (set_branch i (marked st b') tx)) = shape (branches tx)"
  using assms by (intro shape_set_branch; simp add: edited_def)+

lemma forwards_batch:
  assumes "distinct is" "\<And>i. i \<in> set is \<Longrightarrow> can_start tx i"
  shows "hoare (\<lambda>w. forwards E0 G S tx (w_events w)) (join_tasks D st oper action BSucceeded BFailed is tx failed)
    (\<lambda>(tx', _) w. forwards E0 G S tx' (w_events w)) (\<lambda>w. ordered_after E0 G S (w_events w))"
proof (rule join_tasks_hoare [where R = can_start, OF _ _ _ _ _ assms])
  fix tx es and i b'
  assume R: "can_start tx i" and fw: "forwards E0 G S tx es" and ed: "edited (branches tx ! i) b'"
  have i: "distinct (map bid (branches tx))" "i < length (branches tx)" using R by (auto simp: can_start_def)
  obtain acts where acts: "es = E0 @ acts" "in_order G S acts" "S \<union> served acts = status_ids BSucceeded tx" "shape (branches tx) = G"
    using fw by (auto simp: forwards_def)
  have ids: "status_ids BSucceeded (set_branch i (settled BSucceeded b') tx) = insert (bid (branches tx ! i)) (status_ids BSucceeded tx)"
    "status_ids BSucceeded (set_branch i (marked BFailed b') tx) = status_ids BSucceeded tx"
    using set_branch_status_ids [OF i ed] status_ids_own [OF i, of BSucceeded] R by (simp_all add: can_start_def)
  have next': "in_order G S (acts @ [Invoked g (bid (branches tx ! i)) u r])" for g u r
    using acts R list_all_shape [OF i, of "\<lambda>ds. set ds \<subseteq> status_ids BSucceeded tx"]
    by (simp add: in_order_append can_start_def)
  show "forwards E0 G S (set_branch i (settled BSucceeded b') tx)
      (es @ [Invoked (gid tx) (bid (branches tx ! i)) (action (branches tx ! i)) True])"
    using next' acts ids edited_shape [OF i(2) ed] unfolding forwards_def
    by (intro conjI exI [of _ "acts @ [Invoked (gid tx) (bid (branches tx ! i)) (action (branches tx ! i)) True]"]) auto
  show "forwards E0 G S (set_branch i (marked BFailed b') tx)
      (es @ [Invoked (gid tx) (bid (branches tx ! i)) (action (branches tx ! i)) False])"
    using next' acts ids edited_shape [OF i(2) ed] unfolding forwards_def
    by (intro conjI exI [of _ "acts @ [Invoked (gid tx) (bid (branches tx ! i)) (action (branches tx ! i)) False]"]) auto
  fix j assume j: "can_start tx j" "i \<noteq> j"
  have same_ids: "map bid ((branches tx)[i := settled BSucceeded b']) = map bid (branches tx)"
    "map bid ((branches tx)[i := marked BFailed b']) = map bid (branches tx)"
    using ed by (simp_all add: ids_kept edited_def)
  show "can_start (set_branch i (settled BSucceeded b') tx) j \<and> can_start (set_branch i (marked BFailed b') tx) j"
    using j ids same_ids unfolding can_start_def transaction_edits by auto
next
  fix tx es al assume "forwards E0 G S tx es"
  then obtain acts where "es = E0 @ acts" "in_order G S acts" "S \<union> served acts = status_ids BSucceeded tx" "shape (branches tx) = G"
    by (auto simp: forwards_def)
  then show "forwards E0 G S tx (es @ [Alerted al])"
    unfolding forwards_def by (intro conjI exI [of _ "acts @ [Alerted al]"]) (simp_all add: in_order_append)
qed (rule forwards_ordered)

definition can_undo :: "transaction \<Rightarrow> nat \<Rightarrow> bool" where
  "can_undo tx i \<longleftrightarrow> i < length (branches tx) \<and> distinct (map bid (branches tx)) \<and> bstatus (branches tx ! i) = BCompensating
     \<and> (\<forall>j < length (branches tx). bid (branches tx ! i) \<in> set (dependencies (branches tx ! j)) \<longrightarrow> bstatus (branches tx ! j) \<noteq> BCompensating)"

lemma backwards_batch:
  assumes "distinct is" "\<And>i. i \<in> set is \<Longrightarrow> can_undo tx i"
  shows "hoare (\<lambda>w. backwards E0 G C tx (w_events w)) (join_tasks D st oper url_of BSkipped BCompensating is tx failed)
    (\<lambda>(tx', _) w. backwards E0 G C tx' (w_events w)) (\<lambda>w. undone_after E0 G C (w_events w))"
proof (rule join_tasks_hoare [where R = can_undo, OF _ _ _ _ _ assms])
  fix tx es and i b'
  assume R: "can_undo tx i" and bw: "backwards E0 G C tx es" and ed: "edited (branches tx ! i) b'"
  have i: "distinct (map bid (branches tx))" "i < length (branches tx)" using R by (auto simp: can_undo_def)
  obtain comps where comps: "es = E0 @ comps" "undo_ordered G C comps" "C - served comps = status_ids BCompensating tx" "shape (branches tx) = G"
    using bw by (auto simp: backwards_def)
  have ids: "status_ids BCompensating (set_branch i (settled BSkipped b') tx) = status_ids BCompensating tx - {bid (branches tx ! i)}"
    "status_ids BCompensating (set_branch i (marked BCompensating b') tx) = status_ids BCompensating tx"
    using set_branch_status_ids [OF i ed] status_ids_own [OF i, of BCompensating] R by (auto simp: can_undo_def)
  have free: "list_all (\<lambda>(j, ds). bid (branches tx ! i) \<in> set ds \<longrightarrow> j \<notin> status_ids BCompensating tx) G"
    using R comps(4) status_ids_own [OF i(1)] by (auto simp: list_all_length shape_def can_undo_def)
  have next': "undo_ordered G C (comps @ [Invoked g (bid (branches tx ! i)) u r])" for g u r
    using comps free by (simp add: undo_ordered_append)
  show "backwards E0 G C (set_branch i (settled BSkipped b') tx)
      (es @ [Invoked (gid tx) (bid (branches tx ! i)) (url_of (branches tx ! i)) True])"
    using next' comps ids edited_shape [OF i(2) ed] unfolding backwards_def
    by (intro conjI exI [of _ "comps @ [Invoked (gid tx) (bid (branches tx ! i)) (url_of (branches tx ! i)) True]"]) auto
  show "backwards E0 G C (set_branch i (marked BCompensating b') tx)
      (es @ [Invoked (gid tx) (bid (branches tx ! i)) (url_of (branches tx ! i)) False])"
    using next' comps ids edited_shape [OF i(2) ed] unfolding backwards_def
    by (intro conjI exI [of _ "comps @ [Invoked (gid tx) (bid (branches tx ! i)) (url_of (branches tx ! i)) False]"]) auto
  fix j assume j: "can_undo tx j" "i \<noteq> j"
  have same_ids: "map bid ((branches tx)[i := settled BSkipped b']) = map bid (branches tx)"
    "map bid ((branches tx)[i := marked BCompensating b']) = map bid (branches tx)"
    using ed by (simp_all add: ids_kept edited_def)
  have st: "bstatus (branches tx ! i) = BCompensating" using R by (simp add: can_undo_def)
  show "can_undo (set_branch i (settled BSkipped b') tx) j \<and> can_undo (set_branch i (marked BCompensating b') tx) j"
    using j same_ids st ed i(2) unfolding can_undo_def transaction_edits by (auto simp: nth_list_update edited_def split: if_splits)
next
  fix tx es al assume "backwards E0 G C tx es"
  then obtain comps where "es = E0 @ comps" "undo_ordered G C comps" "C - served comps = status_ids BCompensating tx" "shape (branches tx) = G"
    by (auto simp: backwards_def)
  then show "backwards E0 G C tx (es @ [Alerted al])"
    unfolding backwards_def by (intro conjI exI [of _ "comps @ [Alerted al]"]) (simp_all add: undo_ordered_append)
qed (rule backwards_undone)

lemma hoare_silent:
  assumes "silent_run m" and "\<And>es. \<Phi> es \<Longrightarrow> \<Psi> es"
  shows "hoare (\<lambda>w. \<Phi> (w_events w)) m (\<lambda>_ w. \<Phi> (w_events w)) (\<lambda>w. \<Psi> (w_events w))"
proof (rule hoareI)
  fix w x w' assume "\<Phi> (w_events w)" "m w = (Inr x, w')"
  then show "\<Phi> (w_events w')" using assms(1) [unfolded silent_run_def, rule_format, of w] by simp
next
  fix w e w' assume "\<Phi> (w_events w)" "m w = (Inl e, w')"
  then show "\<Psi> (w_events w')" using assms(1) [unfolded silent_run_def, rule_format, of w] assms(2) by simp
qed

lemma hoare_persist:
  assumes "\<And>es. \<Phi> es \<Longrightarrow> \<Psi> es"
  shows "hoare (\<lambda>w. \<Phi> (w_events w)) (persist_transaction D tx) (\<lambda>x w. \<Phi> (w_events w) \<and> x = next_revision tx) (\<lambda>w. \<Psi> (w_events w))"
proof -
  have ev: "w_events (snd (persist_transaction D tx w)) = w_events w" for w
    using silent_atoms(2) [of D tx] by (simp add: silent_run_def)
  show ?thesis
  proof (rule hoareI)
    fix w x w' assume "\<Phi> (w_events w)" "persist_transaction D tx w = (Inr x, w')"
    then show "\<Phi> (w_events w') \<and> x = next_revision tx" using ev [of w] persist_result [of D tx w x w'] by simp
  next
    fix w e w' assume "\<Phi> (w_events w)" "persist_transaction D tx w = (Inl e, w')"
    then show "\<Psi> (w_events w')" using ev [of w] assms by simp
  qed
qed

lemma run_batch_hoare:
  "(\<And>p n. hoare P (join_tasks D st oper url_of good bad (schedule p n ready) tx []) Q E) \<Longrightarrow> hoare P (run_batch D st oper url_of good bad ready tx) Q E"
  by (simp add: hoare_def run_batch_def)

lemma backwards_cong:
  assumes "shape (branches tx') = shape (branches tx)"
    and "\<And>j. j < length (branches tx) \<Longrightarrow> bstatus (branches tx' ! j) = bstatus (branches tx ! j)"
  shows "backwards E0 G C tx' es \<longleftrightarrow> backwards E0 G C tx es" "can_undo tx' i \<longleftrightarrow> can_undo tx i"
proof -
  show "backwards E0 G C tx' es \<longleftrightarrow> backwards E0 G C tx es"
    using status_ids_cong [OF assms(1), of BCompensating BCompensating] assms by (simp add: backwards_def)
  show "can_undo tx' i \<longleftrightarrow> can_undo tx i"
    using assms(2) shape_nth [OF assms(1)] length_shape [OF assms(1)] assms(1) unfolding can_undo_def shape_ids by auto
qed

lemma ready_can_undo: "distinct (map bid (branches tx)) \<Longrightarrow> i \<in> set (ready_compensations tx) \<Longrightarrow> can_undo tx i"
  by (auto simp: ready_compensations_def can_undo_def list_ex_length)

lemma backwards_only:
  "(shape (branches tx) = G \<Longrightarrow> hoare (\<lambda>w. backwards E0 G C tx (w_events w)) m Q E) \<Longrightarrow> hoare (\<lambda>w. backwards E0 G C tx (w_events w)) m Q E"
  by (auto simp: hoare_def backwards_def)

lemma hoare_quiet:
  "silent_run m \<Longrightarrow> (\<And>es. \<Phi> es \<Longrightarrow> \<Psi> es) \<Longrightarrow> hoare (\<lambda>w. \<Phi> (w_events w)) m (\<lambda>_ w. \<Psi> (w_events w)) (\<lambda>w. \<Psi> (w_events w))"
  using hoare_silent [of m \<Phi> \<Psi>] by (rule hoare_weaken) auto

lemma compensate_loop_backwards:
  fixes D :: "'s dtm"
  assumes G: "distinct (map fst G)"
  shows "hoare (\<lambda>w. backwards E0 G C tx (w_events w)) (compensate_loop n D tx)
      (\<lambda>_ w. undone_after E0 G C (w_events w)) (\<lambda>w. undone_after E0 G C (w_events w))"
proof (induction n arbitrary: tx)
  case 0
  then show ?case by (auto simp: compensate_loop.simps intro!: hoare_fail backwards_undone)
next
  case (Suc n)
  let ?ready = "ready_compensations tx"
  let ?tx1 = "next_revision (update_all attempted ?ready tx)"
  let ?U = "\<lambda>w :: 's world. undone_after E0 G C (w_events w)" and ?B = "\<lambda>tx (w :: 's world). backwards E0 G C tx (w_events w)"
  have ready: "distinct ?ready" "set ?ready \<subseteq> {..<length (branches tx)}" by (auto simp: ready_compensations_def)
  have upd: "shape (branches ?tx1) = shape (branches tx)"
    "\<And>j. j < length (branches tx) \<Longrightarrow> bstatus (branches ?tx1 ! j) = bstatus (branches tx ! j)"
    using update_all_nth [of attempted ?ready tx] ready by (auto simp: attempted_def)
  note undone = backwards_undone [of E0 G C]
  have round: "hoare (?B tx2) (then_ok (persist_transaction D tx2) (\<lambda>tx. if failed \<noteq> [] then ok tx else compensate_loop n D tx)) (\<lambda>_. ?U) ?U"
    for tx2 and failed :: "nat list"
  proof (rule hoare_then_ok, rule hoare_persist, erule undone, rule hoare_pure)
    fix x assume x: "x = next_revision tx2"
    have "?B tx2 = ?B x" by (simp add: x backwards_def status_ids_def)
    then show "hoare (?B tx2) (if failed \<noteq> [] then ok x else compensate_loop n D x) (\<lambda>_. ?U) ?U"
      using Suc.IH [of x] undone by (auto intro: hoare_ok)
  qed
  show ?case
  proof (rule backwards_only)
    assume "shape (branches tx) = G"
    then have ids: "distinct (map bid (branches tx))" using G by (simp add: shape_ids)
    have batch: "hoare (?B ?tx1) (run_batch D Aborting ''compensate'' compensate_url BSkipped BCompensating ?ready ?tx1) (\<lambda>(tx2, _). ?B tx2) ?U"
      using ready(1) ready_can_undo [OF ids] backwards_cong(2) [OF upd]
      by (intro run_batch_hoare backwards_batch distinct_schedule) simp_all
    have "hoare (?B tx) (then_ok (persist_transaction D (update_all attempted ?ready tx)) (\<lambda>tx.
            case find (\<lambda>i. compensate (branches tx ! i) = None) ?ready of
              Some i \<Rightarrow> fail (MissingUrl (bid (branches tx ! i)))
            | None \<Rightarrow> then_ok (run_batch D Aborting ''compensate'' compensate_url BSkipped BCompensating ?ready tx)
                  (\<lambda>(tx, failed). then_ok (persist_transaction D tx) (\<lambda>tx.
                     if failed \<noteq> [] then ok tx else compensate_loop n D tx)))) (\<lambda>_. ?U) ?U"
    proof (rule hoare_then_ok, rule hoare_persist, erule undone, rule hoare_pure)
      fix x assume x: "x = ?tx1"
      have pre: "?B tx = ?B x" using backwards_cong(1) [OF upd, of E0 G C] by (simp add: x)
      show "hoare (?B tx) (case find (\<lambda>i. compensate (branches x ! i) = None) ?ready of
              Some i \<Rightarrow> fail (MissingUrl (bid (branches x ! i)))
            | None \<Rightarrow> then_ok (run_batch D Aborting ''compensate'' compensate_url BSkipped BCompensating ?ready x)
                  (\<lambda>(tx, failed). then_ok (persist_transaction D tx) (\<lambda>tx.
                     if failed \<noteq> [] then ok tx else compensate_loop n D tx))) (\<lambda>_. ?U) ?U"
        unfolding pre using round undone
        by (auto simp: x split: option.split intro!: hoare_fail hoare_then_ok [OF batch])
    qed
    note attempt = this
    have quiet: "hoare (?B tx) m (\<lambda>_. ?U) ?U" if "silent_run m" for m :: "('s, transaction) run"
      using that undone by (rule hoare_quiet)
    have claims: "hoare (?B tx) (claim_all D tx ''compensate'' ?ready []) (\<lambda>_. ?B tx) ?U"
      using silent_claim_all undone by (rule hoare_silent)
    show "hoare (?B tx) (compensate_loop (Suc n) D tx) (\<lambda>_. ?U) ?U"
      unfolding compensate_loop.simps(2) Let_def using attempt quiet [OF silent_atoms(1)] quiet [OF silent_atoms(2)] undone
      by (auto intro!: hoare_fail hoare_then_ok [OF claims] split: if_splits)
  qed
qed

text \<open>Compensation as a whole: what has to be undone are the branches that succeeded or are being compensated already.\<close>

lemma abort_concurrent_backwards:
  fixes D :: "'s dtm"
  assumes "tkind tx = Saga" "concurrent (toptions tx)"
    and C: "C = status_ids BSucceeded tx \<union> status_ids BCompensating tx" and G: "G = shape (branches tx)"
  shows "hoare (\<lambda>w. w_events w = E0) (abort_concurrent_saga D tx) (\<lambda>_ w. undone_after E0 G C (w_events w)) (\<lambda>w. undone_after E0 G C (w_events w))"
proof -
  let ?tx = "map_branches start_compensation (set_status Aborting tx)"
  let ?U = "\<lambda>w :: 's world. undone_after E0 G C (w_events w)"
  have none: "undone_after E0 G C E0" by (simp add: undone_after_def)
  have edit: "bid (start_compensation b) = bid b \<and> dependencies (start_compensation b) = dependencies b" for b
    by (simp add: start_compensation_def split: branch_status.splits)
  have shape: "shape (branches ?tx) = G" using edit by (simp add: G shape_map)
  have st: "bstatus (start_compensation b) = BCompensating \<longleftrightarrow> bstatus b \<in> {BSucceeded, BCompensating}" for b
    by (simp add: start_compensation_def split: branch_status.splits)
  have comp: "status_ids BCompensating ?tx = C"
    unfolding C using status_ids_map [of start_compensation BCompensating "set_status Aborting tx"] edit st
    by (auto simp: status_ids_def)
  then have start: "backwards E0 G C (next_revision ?tx) E0"
    using shape by (simp add: backwards_def status_ids_def)
  show ?thesis
  proof (cases "validate_dependency_graph (branches tx)")
    case (Inl e)
    then show ?thesis
      using assms(1,2) none by (auto simp: abort_concurrent_saga_def validate_transaction_dependencies_def intro!: hoare_fail)
  next
    case (Inr u)
    then have "graph_ok (branches tx)" using graph_decision [of "branches tx"] by simp
    then have ids: "distinct (map fst G)" by (simp add: graph_ok_def G flip: shape_ids)
    have "hoare (\<lambda>w. w_events w = E0) (then_ok (persist_transaction D ?tx) (\<lambda>tx. compensate_loop (Suc (length (branches tx))) D tx)) (\<lambda>_. ?U) ?U"
    proof (rule hoare_then_ok, rule hoare_persist)
      show "undone_after E0 G C es" if "es = E0" for es using that none by simp
      fix x
      have "hoare (\<lambda>w. w_events w = E0) (compensate_loop (Suc (length (branches x))) D x) (\<lambda>_. ?U) ?U" if "x = next_revision ?tx"
        by (rule hoare_weaken [OF compensate_loop_backwards [OF ids, of E0 C x]]) (use start that in auto)
      then show "hoare (\<lambda>w. w_events w = E0 \<and> x = next_revision ?tx) (compensate_loop (Suc (length (branches x))) D x) (\<lambda>_. ?U) ?U"
        by (rule hoare_pure)
    qed
    then show ?thesis
      using assms(1,2) Inr by (simp add: abort_concurrent_saga_def validate_transaction_dependencies_def)
  qed
qed

lemma forwards_only:
  "(shape (branches tx) = G \<Longrightarrow> hoare (\<lambda>w. forwards E0 G S tx (w_events w)) m Q E) \<Longrightarrow> hoare (\<lambda>w. forwards E0 G S tx (w_events w)) m Q E"
  by (auto simp: hoare_def forwards_def)

lemma forwards_cong:
  assumes "shape (branches tx') = shape (branches tx)"
    and "\<And>j. j < length (branches tx) \<Longrightarrow> bstatus (branches tx' ! j) = BSucceeded \<longleftrightarrow> bstatus (branches tx ! j) = BSucceeded"
  shows "forwards E0 G S tx' es \<longleftrightarrow> forwards E0 G S tx es" "can_start tx' i \<longleftrightarrow> can_start tx i"
proof -
  have ids: "status_ids BSucceeded tx' = status_ids BSucceeded tx" by (rule status_ids_cong [OF assms])
  then show "forwards E0 G S tx' es \<longleftrightarrow> forwards E0 G S tx es" using assms by (simp add: forwards_def)
  show "can_start tx' i \<longleftrightarrow> can_start tx i"
    using ids assms(2) shape_nth [OF assms(1)] length_shape [OF assms(1)] assms(1) unfolding can_start_def shape_ids by auto
qed

lemma ready_can_start: "distinct (map bid (branches tx)) \<Longrightarrow> i \<in> set (ready_actions tx) \<Longrightarrow> can_start tx i"
  by (auto simp: ready_actions_def can_start_def runnable_def succeeded_ids_eq)

lemma undone_ordered:
  "in_order G S acts \<Longrightarrow> undone_after (E0 @ acts) G (S \<union> served acts) es \<Longrightarrow> ordered_after E0 G S es"
  unfolding undone_after_def ordered_after_def by auto

text \<open>Giving up after some actions: their branches are compensated.\<close>

lemma give_up_ordered:
  fixes D :: "'s dtm"
  assumes "tkind tx = Saga" "concurrent (toptions tx)"
  shows "hoare (\<lambda>w. forwards E0 G S tx (w_events w))
    (then_ok (persist_transaction D (map_branches give_up (set_status Aborting tx))) (abort_concurrent_saga D))
    (\<lambda>_ w. ordered_after E0 G S (w_events w)) (\<lambda>w. ordered_after E0 G S (w_events w))"
proof (rule hoare_then_ok, rule hoare_persist, erule forwards_ordered, rule hoare_pure)
  let ?tx = "next_revision (map_branches give_up (set_status Aborting tx))"
  let ?O = "\<lambda>w :: 's world. ordered_after E0 G S (w_events w)"
  fix x assume x: "x = ?tx"
  have edit: "bid (give_up b) = bid b \<and> dependencies (give_up b) = dependencies b" for b
    by (simp add: give_up_def)
  have shape: "shape (branches ?tx) = shape (branches tx)" using edit by (simp add: shape_map)
  have map: "status_ids st ?tx = bid ` {b \<in> set (branches tx). bstatus (give_up b) = st}" for st
    using status_ids_map [of give_up st "set_status Aborting tx"] edit by (simp add: status_ids_def)
  have "status_ids BSucceeded ?tx \<union> status_ids BCompensating ?tx = status_ids BSucceeded tx"
    unfolding map by (auto simp: give_up_def status_ids_def)
  then have abort: "hoare (\<lambda>w. w_events w = E1) (abort_concurrent_saga D ?tx)
      (\<lambda>_ w. undone_after E1 (shape (branches tx)) (status_ids BSucceeded tx) (w_events w))
      (\<lambda>w. undone_after E1 (shape (branches tx)) (status_ids BSucceeded tx) (w_events w))" for E1
    using assms shape by (intro abort_concurrent_backwards) simp_all
  show "hoare (\<lambda>w. forwards E0 G S tx (w_events w)) (abort_concurrent_saga D x) (\<lambda>_. ?O) ?O"
    unfolding hoare_def
  proof (intro allI impI)
    fix w :: "'s world" assume fw: "forwards E0 G S tx (w_events w)"
    then obtain acts where acts: "w_events w = E0 @ acts" "in_order G S acts" "S \<union> served acts = status_ids BSucceeded tx" "shape (branches tx) = G"
      by (auto simp: forwards_def)
    have "hoare (\<lambda>w. w_events w = E0 @ acts) (abort_concurrent_saga D x) (\<lambda>_. ?O) ?O"
      using abort [of "E0 @ acts"] acts undone_ordered [OF acts(2), of E0] unfolding x by (elim hoare_weaken) auto
    then show "res_post (\<lambda>_. ?O) ?O (abort_concurrent_saga D x w)" using acts(1) by (rule hoareD)
  qed
qed

lemma concurrent_loop_ordered:
  fixes D :: "'s dtm"
  assumes G: "distinct (map fst G)"
  shows "tkind tx = Saga \<Longrightarrow> concurrent (toptions tx) \<Longrightarrow> hoare (\<lambda>w. forwards E0 G S tx (w_events w)) (concurrent_loop n D tx)
      (\<lambda>_ w. ordered_after E0 G S (w_events w)) (\<lambda>w. ordered_after E0 G S (w_events w))"
proof (induction n arbitrary: tx)
  case 0
  then show ?case by (auto simp: concurrent_loop.simps intro!: hoare_fail forwards_ordered)
next
  case (Suc n)
  let ?ready = "ready_actions tx"
  let ?tx1 = "next_revision (update_all started ?ready tx)"
  let ?O = "\<lambda>w :: 's world. ordered_after E0 G S (w_events w)" and ?F = "\<lambda>tx (w :: 's world). forwards E0 G S tx (w_events w)"
  have ready: "distinct ?ready" "set ?ready \<subseteq> {..<length (branches tx)}" by (auto simp: ready_actions_def)
  have upd: "shape (branches ?tx1) = shape (branches tx)"
    "\<And>j. j < length (branches tx) \<Longrightarrow> bstatus (branches ?tx1 ! j) = BSucceeded \<longleftrightarrow> bstatus (branches tx ! j) = BSucceeded"
    using update_all_nth [of started ?ready tx] ready by (auto simp: started_def ready_actions_def runnable_def)
  note ordered = forwards_ordered [of E0 G S]
  let ?rest = "\<lambda>(tx, failed). if list_ex (\<lambda>i. saga_max_attempts (toptions tx) \<le> attempts (branches tx ! i)) failed
              then then_ok (persist_transaction D (map_branches give_up (set_status Aborting tx))) (abort_concurrent_saga D)
              else then_ok (persist_transaction D tx) (\<lambda>tx. if failed \<noteq> [] then ok tx else concurrent_loop n D tx)"
  have round: "hoare (?F tx2) (?rest (tx2, failed)) (\<lambda>_. ?O) ?O" if kept: "tkind tx2 = Saga" "concurrent (toptions tx2)"
    for tx2 and failed :: "nat list"
  proof -
    have "hoare (?F tx2) (then_ok (persist_transaction D tx2) (\<lambda>tx. if failed \<noteq> [] then ok tx else concurrent_loop n D tx)) (\<lambda>_. ?O) ?O"
    proof (rule hoare_then_ok, rule hoare_persist, erule ordered, rule hoare_pure)
      fix x assume x: "x = next_revision tx2"
      have "?F tx2 = ?F x" by (simp add: x forwards_def status_ids_def)
      then show "hoare (?F tx2) (if failed \<noteq> [] then ok x else concurrent_loop n D x) (\<lambda>_. ?O) ?O"
        using Suc.IH [of x] kept ordered x by (auto intro: hoare_ok)
    qed
    then show ?thesis using give_up_ordered [OF kept, of E0 G S D] by simp
  qed
  show ?case
  proof (rule forwards_only)
    assume "shape (branches tx) = G"
    then have ids: "distinct (map bid (branches tx))" using G by (simp add: shape_ids)
    let ?batch = "run_batch D Succeeding ''action'' action BSucceeded BFailed ?ready ?tx1"
    have batch: "hoare (?F ?tx1) ?batch (\<lambda>(tx2, _). ?F tx2) ?O"
      using ready(1) ready_can_start [OF ids] forwards_cong(2) [OF upd]
      by (intro run_batch_hoare forwards_batch distinct_schedule) simp_all
    have bound: "set ?ready \<subseteq> {..<length (branches ?tx1)}" using ready(2) length_shape [OF upd(1)] by simp
    have "hoare (?F ?tx1) (then_ok ?batch ?rest) (\<lambda>_. ?O) ?O"
      unfolding hoare_def
    proof (intro allI impI)
      fix w assume w: "?F ?tx1 w"
      show "res_post (\<lambda>_. ?O) ?O (then_ok ?batch ?rest w)"
      proof (cases rule: res_post_cases [of ?batch w "\<lambda>(tx2, _). ?F tx2" ?O])
        case (returned x w')
        obtain tx2 failed where x: "x = (tx2, failed)" by fastforce
        have "tkind tx2 = Saga" "concurrent (toptions tx2)"
          using run_batch_result(3,4) [OF returned(1) [unfolded x] bound] Suc.prems by simp_all
        then show ?thesis using hoareD [OF batch w] returned hoareD [OF round, of tx2 w' failed] by (simp add: then_ok_def x)
      next
        case (failed e w')
        then show ?thesis using hoareD [OF batch w] by (simp add: then_ok_def)
      qed
    qed
    then have attempt: "hoare (?F tx) (then_ok (persist_transaction D (update_all started ?ready tx)) (\<lambda>tx.
        then_ok (run_batch D Succeeding ''action'' action BSucceeded BFailed ?ready tx) ?rest)) (\<lambda>_. ?O) ?O"
      using forwards_cong(1) [OF upd, of E0 G S]
      by (intro hoare_then_ok [OF hoare_persist [where \<Phi> = "forwards E0 G S tx", OF ordered]] hoare_pure) simp_all
    have quiet: "hoare (?F tx) m (\<lambda>_. ?O) ?O" if "silent_run m" for m :: "('s, transaction) run"
      using that ordered by (rule hoare_quiet)
    have claims: "hoare (?F tx) (claim_all D tx ''action'' ?ready []) (\<lambda>_. ?F tx) ?O"
      using silent_claim_all ordered by (rule hoare_silent)
    show "hoare (?F tx) (concurrent_loop (Suc n) D tx) (\<lambda>_. ?O) ?O"
      unfolding concurrent_loop.simps(2) Let_def using attempt quiet [OF silent_atoms(1)] quiet [OF silent_atoms(2)] ordered
      by (auto intro!: hoare_ok hoare_then_ok [OF claims] split: if_splits)
  qed
qed

lemma start_concurrent_ordered:
  fixes D :: "'s dtm"
  assumes "tkind tx = Saga" "concurrent (toptions tx)" and G: "G = shape (branches tx)" and S: "S = status_ids BSucceeded tx"
  shows "hoare (\<lambda>w. w_events w = E0) (start_concurrent_saga D tx) (\<lambda>_ w. ordered_after E0 G S (w_events w)) (\<lambda>w. ordered_after E0 G S (w_events w))"
proof -
  let ?O = "\<lambda>w :: 's world. ordered_after E0 G S (w_events w)" and ?tx = "set_status Succeeding tx"
  have start: "forwards E0 G S (next_revision ?tx) E0"
    by (simp add: forwards_def G S status_ids_def)
  note none = forwards_ordered [OF start]
  show ?thesis
  proof (cases "validate_dependency_graph (branches tx)")
    case (Inl e)
    then show ?thesis
      using assms(1,2) none by (auto simp: start_concurrent_saga_def validate_transaction_dependencies_def intro!: hoare_fail)
  next
    case (Inr u)
    then have "graph_ok (branches tx)" using graph_decision [of "branches tx"] by simp
    then have ids: "distinct (map fst G)" by (simp add: graph_ok_def G flip: shape_ids)
    have "hoare (\<lambda>w. w_events w = E0) (then_ok (persist_transaction D ?tx) (\<lambda>tx. concurrent_loop (Suc (length (branches tx))) D tx)) (\<lambda>_. ?O) ?O"
    proof (rule hoare_then_ok, rule hoare_persist)
      show "ordered_after E0 G S es" if "es = E0" for es using that none by simp
      fix x
      have "hoare (\<lambda>w. w_events w = E0) (concurrent_loop (Suc (length (branches x))) D x) (\<lambda>_. ?O) ?O" if "x = next_revision ?tx"
        by (rule hoare_weaken [OF concurrent_loop_ordered [OF ids, of x E0 S]]) (use start that assms(1,2) in auto)
      then show "hoare (\<lambda>w. w_events w = E0 \<and> x = next_revision ?tx) (concurrent_loop (Suc (length (branches x))) D x) (\<lambda>_. ?O) ?O"
        by (rule hoare_pure)
    qed
    then show ?thesis
      using assms(1,2) Inr by (simp add: start_concurrent_saga_def validate_transaction_dependencies_def)
  qed
qed

lemma hoare_snd: "hoare P m (\<lambda>_. Q) Q \<Longrightarrow> P w \<Longrightarrow> Q (snd (m w))"
  using hoareD [of P m "\<lambda>_. Q" Q w] by (cases rule: res_post_cases [of m w "\<lambda>_. Q" Q]) auto

text \<open>
  C6: A concurrent Saga respects its dependencies, whatever the store, the services and the order
  in which concurrent calls finish: an action is called only when all actions it depends on
  have succeeded, and a compensation only when no branch that depends on it is left to be
  compensated. This holds of every call made, also when the handler fails midway.
\<close>

theorem concurrent_saga_order:
  assumes "tkind tx = Saga" "concurrent (toptions tx)"
  shows "(\<exists>acts comps. w_events (snd (start_concurrent_saga D tx w)) = w_events w @ acts @ comps
       \<and> in_order (shape (branches tx)) (status_ids BSucceeded tx) acts
       \<and> undo_ordered (shape (branches tx)) (status_ids BSucceeded tx \<union> served acts) comps)
    \<and> (\<exists>comps. w_events (snd (abort_concurrent_saga D tx w)) = w_events w @ comps
       \<and> undo_ordered (shape (branches tx)) (status_ids BSucceeded tx \<union> status_ids BCompensating tx) comps)"
  using hoare_snd [OF start_concurrent_ordered [OF assms refl refl], OF refl]
    hoare_snd [OF abort_concurrent_backwards [OF assms refl refl], OF refl]
  unfolding ordered_after_def undone_after_def by blast

definition sample_concurrent_saga :: transaction where
  "sample_concurrent_saga = (transaction_saga 1000 ''s2''
     [branch_saga_with_dependencies ''b1'' ''http://a/do'' ''http://a/undo'' [''b2''] JNull,
      branch_saga_with_dependencies ''b2'' ''http://b/do'' ''http://b/undo'' [] JNull])
       \<lparr>tstatus := Submitted, toptions := default_transaction_options\<lparr>concurrent := True\<rparr>\<rparr>"

lemma sample_concurrent_facts:
  "tkind sample_concurrent_saga = Saga" "concurrent (toptions sample_concurrent_saga)" "gid sample_concurrent_saga = ''s2''"
  "tstatus sample_concurrent_saga = Submitted" "status_ids BSucceeded sample_concurrent_saga = {}"
  "shape (branches sample_concurrent_saga) = [(''b1'', [''b2'']), (''b2'', [])]"
  by (auto simp: sample_concurrent_saga_def transaction_saga_def transaction_new_def branch_constructor_defs
      status_ids_def shape_def)

theorem concurrent_saga_order_witness:
  "\<exists>acts comps. w_events (snd (start_concurrent_saga sample_dtm sample_concurrent_saga (sample_world sample_concurrent_saga))) = acts @ comps
     \<and> in_order [(''b1'', [''b2'']), (''b2'', [])] {} acts \<and> undo_ordered [(''b1'', [''b2'']), (''b2'', [])] (served acts) comps"
  using concurrent_saga_order [OF sample_concurrent_facts(1,2), of sample_dtm "sample_world sample_concurrent_saga"]
  by (auto simp: sample_concurrent_facts sample_world_def)

end
