(* ===== verification/Concurrent_Progress.thy ===== *)
theory Concurrent_Progress
  imports Concurrent_Saga
begin

text \<open>
  A concurrent Saga whose services answer succeeds: the batches of the handler run through the
  whole dependency graph. The steps hold for every reliable store without interference; the theorem is about the in-memory
  store.
\<close>

lemma mset_schedule: "mset (schedule p n xs) = mset xs"
proof (induction p n xs rule: schedule.induct)
  case (2 p n x xs)
  let ?i = "p n mod length (x # xs)"
  have "?i < length (x # xs)" by simp
  then have "mset (x # xs) = add_mset ((x # xs) ! ?i) (mset (take ?i (x # xs) @ drop (Suc ?i) (x # xs)))"
    using id_take_nth_drop [of ?i "x # xs"] by (metis mset.simps(2) mset_append union_mset_add_mset_right)
  then show ?case using "2.IH" [OF refl] by (simp add: Let_def)
qed simp

lemma revision_update_all [simp]: "revision (update_all f is tx) = revision tx"
  unfolding update_all_def by (induction "is" arbitrary: tx) simp_all

text \<open>What one round does to the transaction: the ready branches have succeeded, the others are as they were.\<close>

definition after_round :: "nat list \<Rightarrow> transaction \<Rightarrow> transaction" where
  "after_round ready' tx = next_revision (update_all (settled BSucceeded) ready'
     (next_revision (update_all started (ready_actions tx) tx)))"

lemma ready_actions_bound: "distinct (ready_actions tx)" "set (ready_actions tx) \<subseteq> {..<length (branches tx)}"
  "set (ready_actions tx) \<subseteq> at_status ((\<noteq>) BSucceeded) tx"
  by (auto simp: ready_actions_def at_status_def runnable_def)

lemma after_round_branches:
  assumes "distinct ready'" "set ready' = set (ready_actions tx)"
  shows "shape (branches (after_round ready' tx)) = shape (branches tx)"
    and "j < length (branches tx) \<Longrightarrow> branches (after_round ready' tx) ! j =
      (if j \<in> set (ready_actions tx) then settled BSucceeded (started (branches tx ! j)) else branches tx ! j)"
proof -
  let ?tx1 = "next_revision (update_all started (ready_actions tx) tx)"
  note up1 = update_all_nth [of started "ready_actions tx" tx] and up2 = update_all_nth [of "settled BSucceeded" ready' ?tx1]
  have len: "length (branches ?tx1) = length (branches tx)" by simp
  show "shape (branches (after_round ready' tx)) = shape (branches tx)"
    using up1 up2 ready_actions_bound(1,2) [of tx] assms len by (simp add: after_round_def)
  show "branches (after_round ready' tx) ! j =
      (if j \<in> set (ready_actions tx) then settled BSucceeded (started (branches tx ! j)) else branches tx ! j)" if "j < length (branches tx)"
    using up1 up2 ready_actions_bound(1,2) [of tx] assms len that by (simp add: after_round_def)
qed

lemma in_order_batch:
  "(\<And>i ds. i \<in> set is \<Longrightarrow> (bid (bs ! i), ds) \<in> set G \<Longrightarrow> set ds \<subseteq> S) \<Longrightarrow> in_order G S (map (\<lambda>i. action_event g (bs ! i)) is)"
proof (induction "is" arbitrary: S)
  case (Cons i "is")
  have "in_order G (insert (bid (bs ! i)) S) (map (\<lambda>i. action_event g (bs ! i)) is)"
    using Cons.prems by (intro Cons.IH) (auto simp: subset_insertI2)
  then show ?case using Cons.prems [of i] by (auto simp: action_event_def list_all_iff)
qed simp

lemma served_batch: "served (map (\<lambda>i. action_event g (bs ! i)) is) = (\<lambda>i. bid (bs ! i)) ` set is"
  by (induction "is") (auto simp: action_event_def)

lemma status_ids_after_round:
  assumes "distinct ready'" "set ready' = set (ready_actions tx)"
  shows "status_ids BSucceeded (after_round ready' tx) = status_ids BSucceeded tx \<union> (\<lambda>i. bid (branches tx ! i)) ` set ready'"
proof -
  have len: "length (branches (after_round ready' tx)) = length (branches tx)" by (simp add: after_round_def)
  note nth = after_round_branches(2) [OF assms]
  show ?thesis
  proof (rule set_eqI, rule iffI)
    fix x assume "x \<in> status_ids BSucceeded (after_round ready' tx)"
    then obtain j where "j < length (branches tx)" "bstatus (branches (after_round ready' tx) ! j) = BSucceeded"
      "bid (branches (after_round ready' tx) ! j) = x" by (auto simp: status_ids_nth len)
    then show "x \<in> status_ids BSucceeded tx \<union> (\<lambda>i. bid (branches tx ! i)) ` set ready'"
      using nth [of j] assms(2) by (auto simp: status_ids_nth split: if_splits)
  next
    fix x assume "x \<in> status_ids BSucceeded tx \<union> (\<lambda>i. bid (branches tx ! i)) ` set ready'"
    then obtain j where "j < length (branches tx)" "bid (branches tx ! j) = x" "bstatus (branches tx ! j) = BSucceeded \<or> j \<in> set (ready_actions tx)"
      using ready_actions_bound(2) [of tx] assms(2) by (auto simp: status_ids_nth)
    then show "x \<in> status_ids BSucceeded (after_round ready' tx)"
      using nth [of j] by (auto simp: status_ids_nth len intro!: exI [of _ j])
  qed
qed

context quiet_run
begin

lemma claim_all_at:
  assumes "at w tx0 C es" and "distinct is" and "set is \<subseteq> {..<length (branches tx)}" and ids: "distinct (map bid (branches tx))"
    and "\<And>i. i \<in> set is \<Longrightarrow> branch_barrier_of tx i ''action'' \<notin> C"
  shows "\<exists>w'. claim_all D tx ''action'' is taken w = (Inr True, w')
    \<and> at w' tx0 (C \<union> {c. \<exists>i \<in> set is. same (branch_barrier_of tx i ''action'') c}) es"
  using assms(1,2,3,5)
proof (induction "is" arbitrary: w C taken)
  case Nil
  then show ?case by (auto simp: ok_apply)
next
  case (Cons i "is")
  let ?bar = "\<lambda>i. branch_barrier_of tx i ''action''"
  let ?C = "C \<union> {c. same (?bar i) c}"
  obtain w1 where w1: "claim D (?bar i) w = (Inr Execute, w1)" "at w1 tx0 ?C es"
    using claim_at [OF Cons.prems(1), of "?bar i"] Cons.prems(4) [of i] by (auto simp: branch_barrier_of_def barrier_new_def)
  have "?bar j \<notin> ?C" if "j \<in> set is" for j
  proof -
    have "bid (branches tx ! i) \<noteq> bid (branches tx ! j)"
      using that Cons.prems(2,3) distinct_map_nth [OF ids, of i j] by auto
    then show ?thesis
      using other_barrier [of "gid tx" "bid (branches tx ! i)" "''action''" "bid (branches tx ! j)"] Cons.prems(4) [of j] that
      by (auto simp: branch_barrier_of_def)
  qed
  then obtain w2 where "claim_all D tx ''action'' is (taken @ [?bar i]) w1 = (Inr True, w2)"
      "at w2 tx0 (?C \<union> {c. \<exists>i \<in> set is. same (?bar i) c}) es"
    using Cons.IH [OF w1(2), of "taken @ [?bar i]"] Cons.prems(2,3) by auto
  moreover have "?C \<union> {c. \<exists>i \<in> set is. same (?bar i) c} = C \<union> {c. \<exists>i \<in> set (i # is). same (?bar i) c}" by auto
  ultimately show ?case using w1(1) by (auto simp: Let_def act_simps)
qed

lemma join_tasks_at:
  assumes "at w tx0 C es" and "distinct is" and "set is \<subseteq> {..<length (branches tx)}"
    and "\<And>i. i \<in> set is \<Longrightarrow> answers D (action (branches tx ! i))"
  shows "\<exists>w'. join_tasks D st oper action BSucceeded BFailed is tx failed w = (Inr (update_all (settled BSucceeded) is tx, failed), w')
    \<and> at w' tx0 C (es @ map (\<lambda>i. action_event (gid tx) (branches tx ! i)) is)"
  using assms
proof (induction "is" arbitrary: w tx es)
  case Nil
  then show ?case by (auto simp: ok_apply update_all_def)
next
  case (Cons i "is")
  let ?b = "branches tx ! i" and ?tx = "set_branch i (settled BSucceeded (branches tx ! i)) tx"
  obtain w1 where w1: "invoke_branch D (toptions tx) (gid tx) st ?b (action ?b) w = (Inr (True, ?b), w1)"
      "at w1 tx0 C (es @ [action_event (gid tx) ?b])"
    using invoke_ok_at [OF Cons.prems(1), of "action ?b" ?b "toptions tx" "gid tx" st] Cons.prems(4) [of i]
    by (auto simp: answers_def action_event_def)
  have same_branches: "branches ?tx ! j = branches tx ! j" if "j \<in> set is" for j
  proof -
    have "j \<noteq> i" using that Cons.prems(2) by auto
    then show ?thesis by simp
  qed
  obtain w2 where "join_tasks D st oper action BSucceeded BFailed is ?tx failed w1 = (Inr (update_all (settled BSucceeded) is ?tx, failed), w2)"
      "at w2 tx0 C ((es @ [action_event (gid tx) ?b]) @ map (\<lambda>i. action_event (gid tx) (branches tx ! i)) is)"
    using Cons.IH [OF w1(2), of ?tx] Cons.prems(2-4) same_branches by (auto cong: map_cong)
  then show ?case using w1(1) by (auto simp: Let_def act_simps update_all_def)
qed

lemma concurrent_round_at:
  assumes "at w tx C es" and "distinct (map bid (branches tx))" and "ready_actions tx \<noteq> []"
    and "\<And>i. i \<in> set (ready_actions tx) \<Longrightarrow> branch_barrier_of tx i ''action'' \<notin> C \<and> answers D (action (branches tx ! i))"
  shows "\<exists>w' ready'. concurrent_loop (Suc n) D tx w = concurrent_loop n D (after_round ready' tx) w'
    \<and> mset ready' = mset (ready_actions tx)
    \<and> at w' (after_round ready' tx) (C \<union> {c. \<exists>i \<in> set (ready_actions tx). same (branch_barrier_of tx i ''action'') c})
         (es @ map (\<lambda>i. action_event (gid tx) (branches tx ! i)) ready')"
proof -
  let ?ready = "ready_actions tx"
  let ?C = "C \<union> {c. \<exists>i \<in> set ?ready. same (branch_barrier_of tx i ''action'') c}"
  let ?tx1 = "next_revision (update_all started ?ready tx)"
  note bound = ready_actions_bound [of tx]
  have not_done: "\<not> list_all (\<lambda>b. bstatus b = BSucceeded) (branches tx)"
  proof -
    obtain i where "i \<in> set ?ready" using assms(3) by (cases ?ready) auto
    then have "i < length (branches tx) \<and> bstatus (branches tx ! i) \<noteq> BSucceeded" using bound(3) by (force simp: at_status_def)
    then show ?thesis by (auto simp: list_all_length)
  qed
  obtain w1 where w1: "claim_all D tx ''action'' ?ready [] w = (Inr True, w1)" "at w1 tx ?C es"
    using claim_all_at [OF assms(1) bound(1,2) assms(2)] assms(4) by blast
  obtain w2 where w2: "persist_transaction D (update_all started ?ready tx) w1 = (Inr ?tx1, w2)" "at w2 ?tx1 ?C es"
    using persist_at [OF w1(2), of "update_all started ?ready tx"] by auto
  let ?ready' = "schedule (pick D) (w_step w2) ?ready"
  have upd: "branches ?tx1 ! j = started (branches tx ! j)" if "j \<in> set ?ready" for j
    using update_all_nth [of started ?ready tx] bound(1,2) that by auto
  have len: "length (branches ?tx1) = length (branches tx)" by simp
  have join: "\<exists>w'. join_tasks D Succeeding ''action'' action BSucceeded BFailed ?ready' ?tx1 [] w2
        = (Inr (update_all (settled BSucceeded) ?ready' ?tx1, []), w')
      \<and> at w' ?tx1 ?C (es @ map (\<lambda>i. action_event (gid ?tx1) (branches ?tx1 ! i)) ?ready')"
    using bound(1,2) assms(4) upd len by (intro join_tasks_at [OF w2(2)]) (auto simp: distinct_schedule)
  have evs: "map (\<lambda>i. action_event (gid ?tx1) (branches ?tx1 ! i)) ?ready' = map (\<lambda>i. action_event (gid tx) (branches tx ! i)) ?ready'"
    using upd by (simp add: action_event_def)
  obtain w3 where w3: "run_batch D Succeeding ''action'' action BSucceeded BFailed ?ready ?tx1 w2
        = (Inr (update_all (settled BSucceeded) ?ready' ?tx1, []), w3)"
      "at w3 ?tx1 ?C (es @ map (\<lambda>i. action_event (gid tx) (branches tx ! i)) ?ready')"
    using join unfolding evs run_batch_def by blast
  obtain w4 where w4: "persist_transaction D (update_all (settled BSucceeded) ?ready' ?tx1) w3 = (Inr (after_round ?ready' tx), w4)"
      "at w4 (after_round ?ready' tx) ?C (es @ map (\<lambda>i. action_event (gid tx) (branches tx ! i)) ?ready')"
    using persist_at [OF w3(2), of "update_all (settled BSucceeded) ?ready' ?tx1"] by (auto simp: after_round_def)
  have "concurrent_loop (Suc n) D tx w = concurrent_loop n D (after_round ?ready' tx) w4"
    unfolding concurrent_loop.simps(2) using not_done assms(3) w1(1) w2(1) w3(1) w4(1) by (simp add: Let_def act_simps)
  then show ?thesis using w4(2) mset_schedule by blast
qed

lemma concurrent_loop_at:
  assumes "at w tx C es" and "graph_ok (branches tx)" and "\<forall>b \<in> set (branches tx). bstatus b \<in> {BPending, BFailed, BSucceeded}"
    and "\<And>i. i \<in> at_status ((\<noteq>) BSucceeded) tx \<Longrightarrow> branch_barrier_of tx i ''action'' \<notin> C \<and> answers D (action (branches tx ! i))"
    and "card (at_status ((\<noteq>) BSucceeded) tx) < n"
  shows "\<exists>w' tx' C' evs. concurrent_loop n D tx w = (Inr tx', w') \<and> at w' tx' C' (es @ evs)
    \<and> gid tx' = gid tx \<and> tstatus tx' = Succeeded \<and> length (branches tx') = length (branches tx)
    \<and> (\<forall>b \<in> set (branches tx'). bstatus b = BSucceeded)
    \<and> mset evs = image_mset (\<lambda>i. action_event (gid tx) (branches tx ! i)) (mset_set (at_status ((\<noteq>) BSucceeded) tx))
    \<and> in_order (shape (branches tx)) (status_ids BSucceeded tx) evs"
  using assms
proof (induction n arbitrary: w tx C es)
  case (Suc n)
  let ?open = "at_status ((\<noteq>) BSucceeded)"
  show ?case
  proof (cases "unfinished (branches tx) = []")
    case True
    then have all: "\<forall>b \<in> set (branches tx). bstatus b = BSucceeded" by (auto simp: unfinished_def filter_empty_conv)
    obtain w1 where "persist_transaction D (set_status Succeeded tx) w = (Inr (next_revision (set_status Succeeded tx)), w1)"
        "at w1 (next_revision (set_status Succeeded tx)) C es"
      using persist_at [OF Suc.prems(1), of "set_status Succeeded tx"] by auto
    moreover have "?open tx = {}" using all by (auto simp: at_status_def)
    ultimately show ?thesis using all
      by (intro exI [of _ w1] exI [of _ "next_revision (set_status Succeeded tx)"] exI [of _ C] exI [of _ "[]"])
        (simp add: concurrent_loop.simps(2) list_all_iff)
  next
    case False
    let ?ready = "ready_actions tx"
    have ids: "distinct (map bid (branches tx))" using Suc.prems(2) by (simp add: graph_ok_def)
    have ready: "?ready \<noteq> []" using ready_action_exists [OF Suc.prems(2,3) False] .
    note bound = ready_actions_bound [of tx]
    have claims: "branch_barrier_of tx i ''action'' \<notin> C \<and> answers D (action (branches tx ! i))" if "i \<in> set ?ready" for i
      using Suc.prems(4) bound(3) that by blast
    obtain w1 ready' where run: "concurrent_loop (Suc n) D tx w = concurrent_loop n D (after_round ready' tx) w1"
        and ready': "mset ready' = mset ?ready"
        and at1: "at w1 (after_round ready' tx) (C \<union> {c. \<exists>i \<in> set ?ready. same (branch_barrier_of tx i ''action'') c})
           (es @ map (\<lambda>i. action_event (gid tx) (branches tx ! i)) ready')"
      using concurrent_round_at [OF Suc.prems(1) ids ready claims] by blast
    let ?tx = "after_round ready' tx" and ?C = "C \<union> {c. \<exists>i \<in> set ?ready. same (branch_barrier_of tx i ''action'') c}"
    have set': "set ready' = set ?ready" "distinct ready'"
      using ready' bound(1) by (metis set_mset_mset, metis mset_eq_imp_distinct_iff)
    note shape = after_round_branches(1) [OF set'(2,1)] and nth = after_round_branches(2) [OF set'(2,1)]
    have len: "length (branches ?tx) = length (branches tx)" using length_shape [OF shape] .
    have gid: "gid ?tx = gid tx" by (simp add: after_round_def)
    have left: "?open ?tx = ?open tx - set ?ready" using nth len by (auto simp: at_status_def split: if_splits)
    have st: "\<forall>b \<in> set (branches ?tx). bstatus b \<in> {BPending, BFailed, BSucceeded}"
      using Suc.prems(3) nth len by (auto simp: all_set_conv_all_nth)
    have free: "branch_barrier_of ?tx j ''action'' \<notin> ?C \<and> answers D (action (branches ?tx ! j))" if "j \<in> ?open ?tx" for j
    proof -
      have j: "j < length (branches tx)" "j \<notin> set ?ready" "j \<in> ?open tx" using that left by (auto simp: at_status_def)
      have "bid (branches tx ! i) \<noteq> bid (branches tx ! j)" if "i \<in> set ?ready" for i
        using distinct_map_nth [OF ids, of i j] j bound(2) that by auto
      then have "\<not> same (branch_barrier_of tx i ''action'') (branch_barrier_of tx j ''action'')" if "i \<in> set ?ready" for i
        using other_barrier [of "gid tx" "bid (branches tx ! i)" "''action''" "bid (branches tx ! j)"] that by (auto simp: branch_barrier_of_def)
      moreover have "branch_barrier_of ?tx j ''action'' = branch_barrier_of tx j ''action''"
        using nth [OF j(1)] j(2) gid by (simp add: branch_barrier_of_def)
      ultimately show ?thesis using Suc.prems(4) [OF j(3)] nth [OF j(1)] j(2) by auto
    qed
    have "card (?open ?tx) < card (?open tx)"
      using nth bound(3) ready by (intro at_status_shrinks [OF len, of ?ready BSucceeded]) simp_all
    then have "card (?open ?tx) < n" using Suc.prems(5) by simp
    then obtain w' tx' C' evs where fin: "concurrent_loop n D ?tx w1 = (Inr tx', w')" "gid tx' = gid ?tx" "tstatus tx' = Succeeded"
        "length (branches tx') = length (branches ?tx)" "\<forall>b \<in> set (branches tx'). bstatus b = BSucceeded"
        "at w' tx' C' ((es @ map (\<lambda>i. action_event (gid tx) (branches tx ! i)) ready') @ evs)"
        "mset evs = image_mset (\<lambda>i. action_event (gid ?tx) (branches ?tx ! i)) (mset_set (?open ?tx))"
        "in_order (shape (branches ?tx)) (status_ids BSucceeded ?tx) evs"
      using Suc.IH [OF at1 _ st free] Suc.prems(2) graph_ok_cong [OF shape] by blast
    have "image_mset (\<lambda>i. action_event (gid ?tx) (branches ?tx ! i)) (mset_set (?open ?tx))
        = image_mset (\<lambda>i. action_event (gid tx) (branches tx ! i)) (mset_set (?open ?tx))"
      using nth left gid by (intro image_mset_cong) (auto simp: at_status_def)
    moreover have "mset_set (?open tx) = mset ready' + mset_set (?open ?tx)"
    proof -
      have "mset ready' = mset_set (set ?ready)" using ready' mset_set_set [OF bound(1)] by simp
      moreover have "?open tx = set ?ready \<union> ?open ?tx" "set ?ready \<inter> ?open ?tx = {}" "finite (?open ?tx)"
        using left bound(3) by (auto simp: at_status_def)
      ultimately show ?thesis using mset_set_Union [of "set ?ready" "?open ?tx"] by simp
    qed
    ultimately have "mset (map (\<lambda>i. action_event (gid tx) (branches tx ! i)) ready' @ evs)
        = image_mset (\<lambda>i. action_event (gid tx) (branches tx ! i)) (mset_set (?open tx))"
      using fin(7) by simp
    moreover have "in_order (shape (branches tx)) (status_ids BSucceeded tx) (map (\<lambda>i. action_event (gid tx) (branches tx ! i)) ready' @ evs)"
    proof -
      have "set ds \<subseteq> status_ids BSucceeded tx" if i: "i \<in> set ready'" and ds: "(bid (branches tx ! i), ds) \<in> set (shape (branches tx))" for i ds
      proof -
        have can: "can_start tx i" using ready_can_start [OF ids] i set'(1) by simp
        then have "i < length (branches tx)" by (simp add: can_start_def)
        from list_all_shape [OF ids this, of "\<lambda>ds. set ds \<subseteq> status_ids BSucceeded tx"] can ds
        show ?thesis by (auto simp: can_start_def list_all_iff)
      qed
      then show ?thesis
        using fin(8) unfolding in_order_append served_batch shape status_ids_after_round [OF set'(2,1)]
        by (auto intro!: in_order_batch)
    qed
    ultimately show ?thesis using run fin gid len by (intro exI [of _ w'] exI [of _ tx'] exI [of _ C'] exI conjI) auto
  qed
qed simp

end

text \<open>
  C7: A submitted concurrent Saga whose dependencies are accepted and whose services answer
  succeeds, in whatever order its concurrent calls finish: the action of every branch is called exactly
  once, nothing else is called, each call comes after the calls it depends on, and the
  stored transaction has succeeded with every branch succeeded.
\<close>

theorem concurrent_saga_succeeds:
  assumes "mem_good (w_store w)" and "bt_get (txs (w_store w)) g = Some tx"
    and "tkind tx = Saga" and "tstatus tx \<in> {Submitted, Succeeding}" and "concurrent (toptions tx)"
    and "validate_transaction_dependencies tx = Inr ()"
    and "\<forall>b \<in> set (branches tx). bstatus b \<in> {BPending, BFailed}"
    and "\<And>i. i < length (branches tx) \<Longrightarrow> \<not> claimed (w_store w) tx i ''action'' \<and> answers D (action (branches tx ! i))"
  shows "\<exists>w' tx' t evs. start_saga (quiet D mem_ops) g w = (Inr tx', w')
    \<and> bt_get (txs (w_store w')) g = Some (tx'\<lparr>updated_at_millis := t\<rparr>)
    \<and> tstatus tx' = Succeeded \<and> (\<forall>b \<in> set (branches tx'). bstatus b = BSucceeded)
    \<and> w_events w' = w_events w @ evs \<and> mset evs = mset (map (\<lambda>b. Invoked g (bid b) (action b) True) (branches tx))
    \<and> in_order (shape (branches tx)) {} evs"
proof -
  let ?D = "quiet D mem_ops" and ?C = "a_claims (mem_view (w_store w))"
  have g: "gid tx = g" using assms(1,2) by (auto simp: mem_good_def)
  have graph: "graph_ok (branches tx)"
    using assms(3,5,6) graph_decision [of "branches tx"] by (simp add: validate_transaction_dependencies_def)
  have start: "holds mem_good mem_view w tx ?C (w_events w)" using assms(1,2) g by (intro holds_mem) simp_all
  obtain w1 t0 where w1: "fetch ?D (gid tx) w = (Inr (tx\<lparr>updated_at_millis := t0\<rparr>), w1)" "holds mem_good mem_view w1 tx ?C (w_events w)"
    using mem_quiet.fetch_at [OF start, where D = D] by blast
  let ?tx0 = "tx\<lparr>updated_at_millis := t0\<rparr>"
  let ?tx1 = "next_revision (set_status Succeeding ?tx0)"
  have run1: "start_saga ?D g w = start_concurrent_saga ?D ?tx0 w1"
    using w1(1) assms(3,4,5) g
    by (auto simp: start_saga_def act_simps ensure_kind_def ensure_status_def)
  have valid0: "validate_transaction_dependencies ?tx0 = Inr ()"
    using assms(3,5,6) by (simp add: validate_transaction_dependencies_def)
  obtain w2 where w2: "persist_transaction ?D (set_status Succeeding ?tx0) w1 = (Inr ?tx1, w2)" "holds mem_good mem_view w2 ?tx1 ?C (w_events w)"
    using mem_quiet.persist_at [OF w1(2), of "set_status Succeeding ?tx0"] by auto
  have run2: "start_concurrent_saga ?D ?tx0 w1 = concurrent_loop (Suc (length (branches tx))) ?D ?tx1 w2"
    using w2(1) valid0 by (simp add: start_concurrent_saga_def act_simps)
  have bar: "branch_barrier_of ?tx1 i ''action'' = branch_barrier_of tx i ''action''" for i by (simp add: branch_barrier_of_def)
  have open_all: "at_status ((\<noteq>) BSucceeded) ?tx1 = {..<length (branches tx)}"
    using assms(7) by (auto simp: at_status_def all_set_conv_all_nth)
  have free: "branch_barrier_of ?tx1 i ''action'' \<notin> ?C \<and> answers ?D (action (branches ?tx1 ! i))" if "i \<in> at_status ((\<noteq>) BSucceeded) ?tx1" for i
    using assms(8) [of i] that by (simp add: bar claimed_view at_status_def)
  have "\<exists>w' tx' C' evs. concurrent_loop (Suc (length (branches tx))) ?D ?tx1 w2 = (Inr tx', w') \<and> holds mem_good mem_view w' tx' C' (w_events w @ evs)
    \<and> gid tx' = gid ?tx1 \<and> tstatus tx' = Succeeded \<and> length (branches tx') = length (branches ?tx1)
    \<and> (\<forall>b \<in> set (branches tx'). bstatus b = BSucceeded)
    \<and> mset evs = image_mset (\<lambda>i. action_event (gid ?tx1) (branches ?tx1 ! i)) (mset_set (at_status ((\<noteq>) BSucceeded) ?tx1))
    \<and> in_order (shape (branches ?tx1)) (status_ids BSucceeded ?tx1) evs"
    using graph assms(7) free by (intro mem_quiet.concurrent_loop_at [OF w2(2)]) (auto simp: open_all)
  then obtain w' tx' C' evs where fin: "concurrent_loop (Suc (length (branches tx))) ?D ?tx1 w2 = (Inr tx', w')" "gid tx' = g"
      "tstatus tx' = Succeeded" "\<forall>b \<in> set (branches tx'). bstatus b = BSucceeded"
      and last: "holds mem_good mem_view w' tx' C' (w_events w @ evs)"
      and evs: "mset evs = image_mset (\<lambda>i. action_event g (branches tx ! i)) (mset_set {..<length (branches tx)})"
      and order: "in_order (shape (branches ?tx1)) (status_ids BSucceeded ?tx1) evs"
    unfolding open_all by (auto simp: g)
  obtain t where t: "bt_get (txs (w_store w')) (gid tx') = Some (tx'\<lparr>updated_at_millis := t\<rparr>)" "w_events w' = w_events w @ evs"
    using last by (rule holds_memD)
  have "mset_set {..<length (branches tx)} = mset [0..<length (branches tx)]" by (metis atLeast0LessThan mset_upt)
  then have all: "mset evs = mset (map (\<lambda>b. Invoked g (bid b) (action b) True) (branches tx))"
    using evs map_nth [of "branches tx"] by (metis (mono_tags, lifting) action_event_def list.map_comp list.map_cong0 mset_map o_apply)
  have "status_ids BSucceeded ?tx1 = {}" using assms(7) by (auto simp: status_ids_def)
  then have ordered: "in_order (shape (branches tx)) {} evs" using order by simp
  show ?thesis using run1 run2 fin t all ordered by (intro exI [of _ w'] exI [of _ tx'] exI [of _ t] exI [of _ evs]) auto
qed

lemma sample_concurrent_valid: "validate_transaction_dependencies sample_concurrent_saga = Inr ()"
proof -
  have "{(i, d). \<exists>ds. (i, ds) \<in> set [(''b1'', [''b2'']), (''b2'', [])] \<and> d \<in> set ds} = {(''b1'', ''b2'')}" by auto
  moreover have "acyclic ({} :: (string \<times> string) set)" by (simp add: acyclic_def)
  ultimately have "graph_ok (branches sample_concurrent_saga)"
    unfolding graph_ok_shape sample_concurrent_facts(6) by (simp add: acyclic_insert)
  then show ?thesis
    using graph_decision [of "branches sample_concurrent_saga"] sample_concurrent_facts(1,2)
    by (simp add: validate_transaction_dependencies_def)
qed

theorem concurrent_saga_succeeds_witness:
  "\<exists>w' tx' evs. start_saga (quiet sample_dtm mem_ops) ''s2'' (sample_world sample_concurrent_saga) = (Inr tx', w')
    \<and> tstatus tx' = Succeeded \<and> w_events w' = evs
    \<and> mset evs = {#Invoked ''s2'' ''b1'' ''http://a/do'' True, Invoked ''s2'' ''b2'' ''http://b/do'' True#}
    \<and> in_order [(''b1'', [''b2'']), (''b2'', [])] {} evs"
proof -
  let ?w = "sample_world sample_concurrent_saga"
  have get: "bt_get (txs (w_store ?w)) ''s2'' = Some sample_concurrent_saga"
    using sample_world_get [of sample_concurrent_saga] by (simp add: sample_concurrent_facts)
  have bs: "map (\<lambda>b. (bid b, action b, bstatus b)) (branches sample_concurrent_saga)
      = [(''b1'', ''http://a/do'', BPending), (''b2'', ''http://b/do'', BPending)]"
    by (simp add: sample_concurrent_saga_def transaction_saga_def transaction_new_def branch_constructor_defs)
  then obtain c d where cd: "branches sample_concurrent_saga = [c, d]" "bid c = ''b1''" "action c = ''http://a/do''" "bstatus c = BPending"
    "bid d = ''b2''" "action d = ''http://b/do''" "bstatus d = BPending" by (auto simp: map_eq_Cons_conv)
  have "\<exists>w' tx' t evs. start_saga (quiet sample_dtm mem_ops) ''s2'' ?w = (Inr tx', w')
    \<and> bt_get (txs (w_store w')) ''s2'' = Some (tx'\<lparr>updated_at_millis := t\<rparr>)
    \<and> tstatus tx' = Succeeded \<and> (\<forall>b \<in> set (branches tx'). bstatus b = BSucceeded)
    \<and> w_events w' = w_events ?w @ evs \<and> mset evs = mset (map (\<lambda>b. Invoked ''s2'' (bid b) (action b) True) (branches sample_concurrent_saga))
    \<and> in_order (shape (branches sample_concurrent_saga)) {} evs"
    by (rule concurrent_saga_succeeds [OF sample_world_good get])
      (auto simp: sample_concurrent_facts sample_concurrent_valid sample_unclaimed answers_def sample_dtm_def cd)
  then show ?thesis unfolding sample_concurrent_facts(6) by (auto simp: cd sample_world_def)
qed

end
