(* ===== verification/Two_Phase_Trace.thy ===== *)
theory Two_Phase_Trace
  imports Saga_Trace
begin

text \<open>
  What the two-phase handlers do, call by call, on a reliable store without interference: the second
  phase of TCC and of XA, and two ways in which recovery goes wrong. A branch whose barrier is claimed already
  counts as done.
\<close>

section \<open>Barriers\<close>

text \<open>Two moments at which a branch and its barriers are the same.\<close>

definition same_branch :: "transaction \<Rightarrow> branch_barrier set \<Rightarrow> transaction \<Rightarrow> branch_barrier set \<Rightarrow> nat \<Rightarrow> bool" where
  "same_branch tx C tx' C' j \<longleftrightarrow> gid tx' = gid tx \<and> branches tx' ! j = branches tx ! j
     \<and> (\<forall>oper. CHR '':'' \<notin> set oper \<longrightarrow> (branch_barrier_of tx j oper \<in> C' \<longleftrightarrow> branch_barrier_of tx j oper \<in> C))"

definition confirm_events :: "transaction \<Rightarrow> branch_barrier set \<Rightarrow> nat \<Rightarrow> event list" where
  "confirm_events tx C i = (if branch_barrier_of tx i ''confirm'' \<in> C then []
     else [Invoked (gid tx) (bid (branches tx ! i)) (the (confirm (branches tx ! i))) True])"

text \<open>A cancelled branch is called when it was tried, or when it has no try of its own; otherwise the cancellation is empty.\<close>

definition cancel_called :: "transaction \<Rightarrow> branch_barrier set \<Rightarrow> nat \<Rightarrow> bool" where
  "cancel_called tx C i \<longleftrightarrow> branch_barrier_of tx i ''cancel'' \<notin> C
     \<and> (branch_barrier_of tx i ''try'' \<in> C \<or> action (branches tx ! i) = [])"

definition cancel_events :: "transaction \<Rightarrow> branch_barrier set \<Rightarrow> nat \<Rightarrow> event list" where
  "cancel_events tx C i = (if cancel_called tx C i
     then [Invoked (gid tx) (bid (branches tx ! i)) (the (cancel_url (branches tx ! i))) True] else [])"

definition xa_events :: "libs \<Rightarrow> string \<Rightarrow> (branch \<Rightarrow> string option) \<Rightarrow> transaction \<Rightarrow> branch_barrier set \<Rightarrow> nat \<Rightarrow> event list" where
  "xa_events lib oper url_of tx C i = (if branch_barrier_of tx i oper \<in> C then []
     else [Invoked (gid tx) (bid (branches tx ! i))
       (projr (xa_phase2_callback_url lib (the (url_of (branches tx ! i))) (gid tx) (bid (branches tx ! i)) oper)) True])"

definition xa_ready :: "'s dtm \<Rightarrow> string \<Rightarrow> (branch \<Rightarrow> string option) \<Rightarrow> transaction \<Rightarrow> branch_barrier set \<Rightarrow> nat \<Rightarrow> bool" where
  "xa_ready D oper url_of tx C i \<longleftrightarrow> (branch_barrier_of tx i oper \<notin> C \<longrightarrow> (\<exists>v u. url_of (branches tx ! i) = Some v
     \<and> xa_phase2_callback_url (dtm_libs D) v (gid tx) (bid (branches tx ! i)) oper = Inr u \<and> answers D u))"

context quiet_run
begin

lemma claim_again_at:
  assumes "at w tx C es" and "b \<in> C"
  shows "\<exists>w'. claim D b w = (Inr SkipDuplicate, w') \<and> at w' tx C es"
proof -
  let ?now = "clock D (w_step w)"
  have good: "good (w_store w)" and C: "a_claims (view (w_store w)) = C" using assms(1) by (simp_all add: holds_def)
  obtain r s' where run: "barrier ops ?now b (w_store w) = (r, s')" by fastforce
  have s': "good s'" "spec_barrier same b (view (w_store w)) = (r, view s')"
    using barrier_step [OF good run] by simp_all
  have "r = Inr SkipDuplicate" "view s' = view (w_store w)" using s'(2) assms(2) C by (auto simp: spec_barrier_def Let_def)
  then have "claim D b w = (Inr SkipDuplicate, w\<lparr>w_store := s', w_step := Suc (w_step w)\<rparr>)"
      "at (w\<lparr>w_store := s', w_step := Suc (w_step w)\<rparr>) tx C es"
    using run assms(1) s'(1) by (simp_all add: claim_def store_op_quiet store holds_def)
  then show ?thesis by blast
qed

lemma claim_cancel_at:
  assumes "at w tx C es" and "b \<notin> C" and "bb_op b = ''cancel''"
  shows "\<exists>w'. claim D b w = (Inr (if sibling b ''try'' \<in> C then Execute else SkipNullCompensation), w')
    \<and> at w' tx (C \<union> {c. same b c}) es"
proof -
  let ?now = "clock D (w_step w)" and ?d = "if sibling b ''try'' \<in> C then Execute else SkipNullCompensation"
  have good: "good (w_store w)" and C: "a_claims (view (w_store w)) = C" using assms(1) by (simp_all add: holds_def)
  obtain r s' where run: "barrier ops ?now b (w_store w) = (r, s')" by fastforce
  have s': "good s'" "spec_barrier same b (view (w_store w)) = (r, view s')"
    using barrier_step [OF good run] by simp_all
  have r: "r = Inr ?d" using s'(2) assms(2,3) C by (auto simp: spec_barrier_def Let_def)
  have "claim D b w = (Inr ?d, w\<lparr>w_store := s', w_step := Suc (w_step w)\<rparr>)"
    using run r by (simp add: claim_def store_op_quiet store)
  moreover have "at (w\<lparr>w_store := s', w_step := Suc (w_step w)\<rparr>) tx (C \<union> {c. same b c}) es"
    using assms(1) s'(1) spec_barrier_effect [OF s'(2)] r by (simp add: holds_def first_claim_def)
  ultimately show ?thesis by blast
qed

text \<open>Claiming the barrier of one branch leaves those of the others.\<close>

lemma other_claims:
  assumes "distinct (map bid (branches tx))" "i < length (branches tx)" "j < length (branches tx)" "i \<noteq> j"
    and "CHR '':'' \<notin> set oper" "CHR '':'' \<notin> set oper'"
  shows "branch_barrier_of tx j oper' \<in> C \<union> {c. same (branch_barrier_of tx i oper) c} \<longleftrightarrow> branch_barrier_of tx j oper' \<in> C"
proof -
  have "bid (branches tx ! i) \<noteq> bid (branches tx ! j)" using distinct_map_nth [OF assms(1-3)] assms(4) by simp
  then have "\<not> same (branch_barrier_of tx i oper) (branch_barrier_of tx j oper')"
    using same_gid [of "branch_barrier_of tx i oper" "branch_barrier_of tx j oper'"] assms(5,6)
    by (auto simp: branch_barrier_of_def barrier_new_def)
  then show ?thesis by simp
qed

text \<open>
  A loop over the branches, each step of which looks at one branch and its barriers only,
  and claims no barrier but that of its own operation.
\<close>

lemma branch_loop_at:
  assumes step: "\<And>i is tx w C es. at w tx0 C es \<Longrightarrow> i < length (branches tx) \<Longrightarrow> R tx C i \<Longrightarrow>
      \<exists>w' b C'. L (i # is) tx w = L is (set_branch i b tx) w' \<and> bid b = bid (branches tx ! i)
        \<and> C \<subseteq> C' \<and> C' \<subseteq> C \<union> {c. same (branch_barrier_of tx i oper) c} \<and> at w' tx0 C' (es @ ev tx C i)"
    and stable: "\<And>tx C tx' C' j. same_branch tx C tx' C' j \<Longrightarrow> R tx C j \<Longrightarrow> R tx' C' j \<and> ev tx' C' j = ev tx C j"
    and oper: "CHR '':'' \<notin> set oper"
  shows "at w tx0 C es \<Longrightarrow> distinct is \<Longrightarrow> set is \<subseteq> {..<length (branches tx)} \<Longrightarrow> distinct (map bid (branches tx))
    \<Longrightarrow> (\<And>i. i \<in> set is \<Longrightarrow> R tx C i) \<Longrightarrow>
    \<exists>w' tx' C'. L is tx w = L [] tx' w' \<and> at w' tx0 C' (es @ concat (map (ev tx C) is))
      \<and> gid tx' = gid tx \<and> revision tx' = revision tx \<and> length (branches tx') = length (branches tx)"
proof (induction "is" arbitrary: w tx C es)
  case Nil
  then show ?case by auto
next
  case (Cons i "is")
  have i: "i < length (branches tx)" using Cons.prems(3) by simp
  obtain w1 b C1 where s1: "L (i # is) tx w = L is (set_branch i b tx) w1" "bid b = bid (branches tx ! i)" "C \<subseteq> C1"
      "C1 \<subseteq> C \<union> {c. same (branch_barrier_of tx i oper) c}" "at w1 tx0 C1 (es @ ev tx C i)"
    using step [OF Cons.prems(1) i, of "is"] Cons.prems(5) [of i] by auto
  let ?tx = "set_branch i b tx"
  have ids: "distinct (map bid (branches ?tx))" using Cons.prems(4) ids_kept [OF s1(2)] by simp
  have same: "same_branch tx C ?tx C1 j" if "j \<in> set is" for j
  proof -
    have j: "j < length (branches tx)" "i \<noteq> j" using that Cons.prems(2,3) by auto
    have "branch_barrier_of tx j oper' \<in> C1 \<longleftrightarrow> branch_barrier_of tx j oper' \<in> C" if "CHR '':'' \<notin> set oper'" for oper'
      using other_claims [OF Cons.prems(4) i j(1,2) oper that, of C] s1(3,4) by blast
    then show ?thesis using j by (simp add: same_branch_def)
  qed
  then have rest: "R ?tx C1 j \<and> ev ?tx C1 j = ev tx C j" if "j \<in> set is" for j
    using stable [of tx C ?tx C1 j] Cons.prems(5) [of j] that by simp
  then have evs: "map (ev ?tx C1) is = map (ev tx C) is" by simp
  have "\<exists>w' tx' C'. L is ?tx w1 = L [] tx' w' \<and> at w' tx0 C' ((es @ ev tx C i) @ concat (map (ev ?tx C1) is))
      \<and> gid tx' = gid ?tx \<and> revision tx' = revision ?tx \<and> length (branches tx') = length (branches ?tx)"
    using Cons.prems(2,3) ids rest by (intro Cons.IH [OF s1(5)]) auto
  then show ?case using s1(1) evs by auto
qed

section \<open>Confirming a TCC\<close>

lemma confirm_step_at:
  assumes "at w tx0 C es" and "i < length (branches tx)"
    and "branch_barrier_of tx i ''confirm'' \<notin> C \<Longrightarrow> \<exists>u. confirm (branches tx ! i) = Some u \<and> answers D u"
  shows "\<exists>w' b. confirm_loop D (i # is) tx w = confirm_loop D is (set_branch i b tx) w' \<and> bid b = bid (branches tx ! i)
    \<and> at w' tx0 (C \<union> {c. branch_barrier_of tx i ''confirm'' \<notin> C \<and> same (branch_barrier_of tx i ''confirm'') c})
        (es @ (if branch_barrier_of tx i ''confirm'' \<in> C then [] else [Invoked (gid tx) (bid (branches tx ! i)) (the (confirm (branches tx ! i))) True]))"
proof (cases "branch_barrier_of tx i ''confirm'' \<in> C")
  case True
  obtain w1 where "claim D (branch_barrier_of tx i ''confirm'') w = (Inr SkipDuplicate, w1)" "at w1 tx0 C es"
    using claim_again_at [OF assms(1) True] by blast
  then show ?thesis using True
    by (intro exI [of _ w1] exI [of _ "branches tx ! i"]) (simp add: Let_def act_simps set_branch_def)
next
  case False
  let ?bar = "branch_barrier_of tx i ''confirm''" and ?b = "attempted (branches tx ! i)"
  obtain u where u: "confirm (branches tx ! i) = Some u" "answers D u" using assms(3) [OF False] by blast
  obtain w1 where w1: "claim D ?bar w = (Inr Execute, w1)" "at w1 tx0 (C \<union> {c. same ?bar c}) es"
    using claim_at [OF assms(1) False] by (auto simp: branch_barrier_of_def barrier_new_def)
  obtain w2 where w2: "invoke_branch D (toptions tx) (gid tx) (tstatus tx) ?b u w1 = (Inr (True, ?b), w2)"
      "at w2 tx0 (C \<union> {c. same ?bar c}) (es @ [Invoked (gid tx) (bid (branches tx ! i)) u True])"
    using invoke_ok_at [OF w1(2), of u ?b "toptions tx" "gid tx" "tstatus tx"] u(2) by (auto simp: answers_def)
  have "confirm_loop D (i # is) tx w = confirm_loop D is (set_branch i (settled BSucceeded ?b) tx) w2"
    using w1(1) w2(1) u(1) by (simp add: Let_def act_simps)
  then show ?thesis using False w2(2) u(1) by (intro exI [of _ w2] exI [of _ "settled BSucceeded ?b"]) simp
qed

lemma confirm_loop_at:
  assumes "at w tx0 C es" "gid tx = gid tx0" "revision tx = revision tx0" "distinct (map bid (branches tx))"
    and "\<And>i. i < length (branches tx) \<Longrightarrow> branch_barrier_of tx i ''confirm'' \<notin> C \<Longrightarrow> \<exists>u. confirm (branches tx ! i) = Some u \<and> answers D u"
  shows "\<exists>w' tx' C'. confirm_loop D [0..<length (branches tx)] tx w = (Inr tx', w')
    \<and> at w' tx' C' (es @ concat (map (confirm_events tx C) [0..<length (branches tx)])) \<and> gid tx' = gid tx \<and> tstatus tx' = Succeeded"
proof -
  let ?R = "\<lambda>tx C i. branch_barrier_of tx i ''confirm'' \<notin> C \<longrightarrow> (\<exists>u. confirm (branches tx ! i) = Some u \<and> answers D u)"
  have step: "\<exists>w' b C'. confirm_loop D (i # is) tx w = confirm_loop D is (set_branch i b tx) w' \<and> bid b = bid (branches tx ! i)
        \<and> C \<subseteq> C' \<and> C' \<subseteq> C \<union> {c. same (branch_barrier_of tx i ''confirm'') c} \<and> at w' tx0 C' (es @ confirm_events tx C i)"
    if pre: "at w tx0 C es" "i < length (branches tx)" "?R tx C i" for i "is" tx w C es
  proof -
    let ?bar = "branch_barrier_of tx i ''confirm''"
    obtain w' b where "confirm_loop D (i # is) tx w = confirm_loop D is (set_branch i b tx) w'" "bid b = bid (branches tx ! i)"
        "at w' tx0 (C \<union> {c. ?bar \<notin> C \<and> same ?bar c}) (es @ confirm_events tx C i)"
      using confirm_step_at [OF pre(1,2), of "is"] pre(3) unfolding confirm_events_def by metis
    then show ?thesis by (intro exI [of _ w'] exI [of _ b] exI [of _ "C \<union> {c. ?bar \<notin> C \<and> same ?bar c}"]) auto
  qed
  have stable: "?R tx' C' j \<and> confirm_events tx' C' j = confirm_events tx C j" if "same_branch tx C tx' C' j" "?R tx C j" for tx C tx' C' j
  proof -
    have bar: "branch_barrier_of tx' j ''confirm'' = branch_barrier_of tx j ''confirm''"
      using that(1) by (simp add: same_branch_def branch_barrier_of_def)
    show ?thesis using that unfolding same_branch_def confirm_events_def bar by auto
  qed
  have "\<exists>w1 tx1 C1. confirm_loop D [0..<length (branches tx)] tx w = confirm_loop D [] tx1 w1
      \<and> at w1 tx0 C1 (es @ concat (map (confirm_events tx C) [0..<length (branches tx)]))
      \<and> gid tx1 = gid tx \<and> revision tx1 = revision tx \<and> length (branches tx1) = length (branches tx)"
    by (rule branch_loop_at [where L = "confirm_loop D" and R = ?R and ev = confirm_events and oper = "''confirm''"])
      (erule (2) step, erule (1) stable, simp, rule assms(1), simp, force, rule assms(4), use assms(5) in simp)
  then obtain w1 tx1 C1 where l: "confirm_loop D [0..<length (branches tx)] tx w = confirm_loop D [] tx1 w1"
      "at w1 tx0 C1 (es @ concat (map (confirm_events tx C) [0..<length (branches tx)]))" "gid tx1 = gid tx" "revision tx1 = revision tx"
    by blast
  show ?thesis using persist_at [OF l(2), of "set_status Succeeded tx1"] l assms(2,3) by auto
qed

section \<open>Cancelling a TCC\<close>

lemma cancel_step_at:
  assumes "at w tx0 C es" and "i < length (branches tx)"
    and "cancel_called tx C i \<Longrightarrow> \<exists>u. cancel_url (branches tx ! i) = Some u \<and> answers D u"
  shows "\<exists>w' b C'. cancel_loop D (i # is) tx w = cancel_loop D is (set_branch i b tx) w' \<and> bid b = bid (branches tx ! i)
    \<and> C \<subseteq> C' \<and> C' \<subseteq> C \<union> {c. same (branch_barrier_of tx i ''cancel'') c} \<and> at w' tx0 C' (es @ cancel_events tx C i)"
proof (cases "branch_barrier_of tx i ''cancel'' \<in> C")
  case True
  obtain w1 where "claim D (branch_barrier_of tx i ''cancel'') w = (Inr SkipDuplicate, w1)" "at w1 tx0 C es"
    using claim_again_at [OF assms(1) True] by blast
  then show ?thesis using True
    by (intro exI [of _ w1] exI [of _ "branches tx ! i"] exI [of _ C]) (simp add: Let_def act_simps set_branch_def cancel_events_def cancel_called_def)
next
  case False
  let ?bar = "branch_barrier_of tx i ''cancel''" and ?b = "attempted (branches tx ! i)"
  let ?C = "C \<union> {c. same ?bar c}" and ?d = "if branch_barrier_of tx i ''try'' \<in> C then Execute else SkipNullCompensation"
  have sib: "sibling ?bar ''try'' = branch_barrier_of tx i ''try''" by (simp add: sibling_def branch_barrier_of_def barrier_new_def)
  have cop: "bb_op ?bar = ''cancel''" by (simp add: branch_barrier_of_def barrier_new_def)
  obtain w1 where w1: "claim D ?bar w = (Inr ?d, w1)" "at w1 tx0 ?C es"
    using claim_cancel_at [OF assms(1) False cop] unfolding sib by blast
  show ?thesis
  proof (cases "cancel_called tx C i")
    case True
    obtain u where u: "cancel_url (branches tx ! i) = Some u" "answers D u" using assms(3) [OF True] by blast
    obtain w2 where w2: "invoke_branch D (toptions tx) (gid tx) (tstatus tx) ?b u w1 = (Inr (True, ?b), w2)"
        "at w2 tx0 ?C (es @ [Invoked (gid tx) (bid (branches tx ! i)) u True])"
      using invoke_ok_at [OF w1(2), of u ?b "toptions tx" "gid tx" "tstatus tx"] u(2) by (auto simp: answers_def)
    have "cancel_loop D (i # is) tx w = cancel_loop D is (set_branch i (settled BSkipped ?b) tx) w2"
      using w1(1) w2(1) u(1) True by (auto simp: Let_def act_simps cancel_called_def)
    then show ?thesis using True w2(2) u(1)
      by (intro exI [of _ w2] exI [of _ "settled BSkipped ?b"] exI [of _ ?C]) (simp add: cancel_events_def)
  next
    case skip: False
    have "cancel_loop D (i # is) tx w = cancel_loop D is (set_branch i (settled BSkipped (branches tx ! i)) tx) w1"
      using w1(1) skip False by (auto simp: Let_def act_simps cancel_called_def)
    then show ?thesis using skip w1(2)
      by (intro exI [of _ w1] exI [of _ "settled BSkipped (branches tx ! i)"] exI [of _ ?C]) (simp add: cancel_events_def)
  qed
qed

lemma cancel_loop_at:
  assumes "at w tx0 C es" "gid tx = gid tx0" "revision tx = revision tx0" "distinct (map bid (branches tx))"
    and "\<And>i. i < length (branches tx) \<Longrightarrow> cancel_called tx C i \<Longrightarrow> \<exists>u. cancel_url (branches tx ! i) = Some u \<and> answers D u"
  shows "\<exists>w' tx' C'. cancel_loop D [0..<length (branches tx)] tx w = (Inr tx', w')
    \<and> at w' tx' C' (es @ concat (map (cancel_events tx C) [0..<length (branches tx)])) \<and> gid tx' = gid tx \<and> tstatus tx' = Aborted"
proof -
  let ?R = "\<lambda>tx C i. cancel_called tx C i \<longrightarrow> (\<exists>u. cancel_url (branches tx ! i) = Some u \<and> answers D u)"
  have step: "\<exists>w' b C'. cancel_loop D (i # is) tx w = cancel_loop D is (set_branch i b tx) w' \<and> bid b = bid (branches tx ! i)
        \<and> C \<subseteq> C' \<and> C' \<subseteq> C \<union> {c. same (branch_barrier_of tx i ''cancel'') c} \<and> at w' tx0 C' (es @ cancel_events tx C i)"
    if pre: "at w tx0 C es" "i < length (branches tx)" "?R tx C i" for i "is" tx w C es
    using pre by (intro cancel_step_at) simp_all
  have stable: "?R tx' C' j \<and> cancel_events tx' C' j = cancel_events tx C j" if "same_branch tx C tx' C' j" "?R tx C j" for tx C tx' C' j
  proof -
    have bar: "branch_barrier_of tx' j oper = branch_barrier_of tx j oper" for oper
      using that(1) by (simp add: same_branch_def branch_barrier_of_def)
    show ?thesis using that unfolding same_branch_def cancel_events_def cancel_called_def bar by auto
  qed
  have "\<exists>w1 tx1 C1. cancel_loop D [0..<length (branches tx)] tx w = cancel_loop D [] tx1 w1
      \<and> at w1 tx0 C1 (es @ concat (map (cancel_events tx C) [0..<length (branches tx)]))
      \<and> gid tx1 = gid tx \<and> revision tx1 = revision tx \<and> length (branches tx1) = length (branches tx)"
    by (rule branch_loop_at [where L = "cancel_loop D" and R = ?R and ev = cancel_events and oper = "''cancel''"])
      (erule (2) step, erule (1) stable, simp, rule assms(1), simp, force, rule assms(4), use assms(5) in simp)
  then obtain w1 tx1 C1 where l: "cancel_loop D [0..<length (branches tx)] tx w = cancel_loop D [] tx1 w1"
      "at w1 tx0 C1 (es @ concat (map (cancel_events tx C) [0..<length (branches tx)]))" "gid tx1 = gid tx" "revision tx1 = revision tx"
    by blast
  show ?thesis using persist_at [OF l(2), of "set_status Aborted tx1"] l assms(2,3) by auto
qed

section \<open>Both outcomes of XA\<close>

lemma xa_step_at:
  assumes "at w tx0 C es" and "i < length (branches tx)" and "oper \<in> {''commit'', ''rollback''}" and "xa_ready D oper url_of tx C i"
  shows "\<exists>w' b C'. xa_loop D oper url_of bd td (i # is) tx w = xa_loop D oper url_of bd td is (set_branch i b tx) w' \<and> bid b = bid (branches tx ! i)
    \<and> C \<subseteq> C' \<and> C' \<subseteq> C \<union> {c. same (branch_barrier_of tx i oper) c} \<and> at w' tx0 C' (es @ xa_events (dtm_libs D) oper url_of tx C i)"
proof (cases "branch_barrier_of tx i oper \<in> C")
  case True
  obtain w1 where "claim D (branch_barrier_of tx i oper) w = (Inr SkipDuplicate, w1)" "at w1 tx0 C es"
    using claim_again_at [OF assms(1) True] by blast
  then show ?thesis using True
    by (intro exI [of _ w1] exI [of _ "branches tx ! i"] exI [of _ C]) (simp add: Let_def act_simps set_branch_def xa_events_def)
next
  case False
  let ?bar = "branch_barrier_of tx i oper" and ?b = "attempted (branches tx ! i)"
  let ?C = "C \<union> {c. same ?bar c}"
  obtain v u where u: "url_of (branches tx ! i) = Some v"
      "xa_phase2_callback_url (dtm_libs D) v (gid tx) (bid (branches tx ! i)) oper = Inr u" "answers D u"
    using assms(4) False by (auto simp: xa_ready_def)
  have cop: "bb_op ?bar \<notin> {''try'', ''cancel''}" using assms(3) by (auto simp: branch_barrier_of_def barrier_new_def)
  obtain w1 where w1: "claim D ?bar w = (Inr Execute, w1)" "at w1 tx0 ?C es" using claim_at [OF assms(1) False cop] by blast
  obtain w2 where w2: "invoke_branch D (toptions tx) (gid tx) (tstatus tx) ?b u w1 = (Inr (True, ?b), w2)"
      "at w2 tx0 ?C (es @ [Invoked (gid tx) (bid (branches tx ! i)) u True])"
    using invoke_ok_at [OF w1(2), of u ?b "toptions tx" "gid tx" "tstatus tx"] u(3) by (auto simp: answers_def)
  have "xa_loop D oper url_of bd td (i # is) tx w = xa_loop D oper url_of bd td is (set_branch i (settled bd ?b) tx) w2"
    using w1(1) w2(1) u(1,2) by (simp add: Let_def act_simps)
  then show ?thesis using False w2(2) u(1,2)
    by (intro exI [of _ w2] exI [of _ "settled bd ?b"] exI [of _ ?C]) (simp add: xa_events_def)
qed

lemma xa_loop_at:
  assumes "at w tx0 C es" "gid tx = gid tx0" "revision tx = revision tx0" "distinct (map bid (branches tx))"
    and oper: "oper \<in> {''commit'', ''rollback''}" and "\<And>i. i < length (branches tx) \<Longrightarrow> xa_ready D oper url_of tx C i"
  shows "\<exists>w' tx' C'. xa_loop D oper url_of bd td [0..<length (branches tx)] tx w = (Inr tx', w')
    \<and> at w' tx' C' (es @ concat (map (xa_events (dtm_libs D) oper url_of tx C) [0..<length (branches tx)])) \<and> gid tx' = gid tx \<and> tstatus tx' = td"
proof -
  let ?R = "xa_ready D oper url_of" and ?ev = "xa_events (dtm_libs D) oper url_of"
  have colon: "CHR '':'' \<notin> set oper" using oper by auto
  have step: "\<exists>w' b C'. xa_loop D oper url_of bd td (i # is) tx w = xa_loop D oper url_of bd td is (set_branch i b tx) w' \<and> bid b = bid (branches tx ! i)
        \<and> C \<subseteq> C' \<and> C' \<subseteq> C \<union> {c. same (branch_barrier_of tx i oper) c} \<and> at w' tx0 C' (es @ ?ev tx C i)"
    if pre: "at w tx0 C es" "i < length (branches tx)" "?R tx C i" for i "is" tx w C es
    using pre oper by (intro xa_step_at) simp_all
  have stable: "?R tx' C' j \<and> ?ev tx' C' j = ?ev tx C j" if "same_branch tx C tx' C' j" "?R tx C j" for tx C tx' C' j
  proof -
    have bar: "branch_barrier_of tx' j oper = branch_barrier_of tx j oper" for oper
      using that(1) by (simp add: same_branch_def branch_barrier_of_def)
    show ?thesis using that colon unfolding same_branch_def xa_events_def xa_ready_def bar by auto
  qed
  have "\<exists>w1 tx1 C1. xa_loop D oper url_of bd td [0..<length (branches tx)] tx w = xa_loop D oper url_of bd td [] tx1 w1
      \<and> at w1 tx0 C1 (es @ concat (map (?ev tx C) [0..<length (branches tx)]))
      \<and> gid tx1 = gid tx \<and> revision tx1 = revision tx \<and> length (branches tx1) = length (branches tx)"
    by (rule branch_loop_at [where L = "xa_loop D oper url_of bd td" and R = ?R and ev = ?ev and oper = oper])
      (erule (2) step, erule (1) stable, rule colon, rule assms(1), simp, force, rule assms(4), use assms(6) in simp)
  then obtain w1 tx1 C1 where l: "xa_loop D oper url_of bd td [0..<length (branches tx)] tx w = xa_loop D oper url_of bd td [] tx1 w1"
      "at w1 tx0 C1 (es @ concat (map (?ev tx C) [0..<length (branches tx)]))" "gid tx1 = gid tx" "revision tx1 = revision tx"
    by blast
  show ?thesis using persist_at [OF l(2), of "set_status td tx1"] l assms(2,3) by auto
qed

lemma release_at:
  assumes "at w tx C es"
  shows "\<exists>w'. release D b w = (Inr (), w') \<and> at w' tx (C - {c. same b c}) es"
proof -
  have good: "good (w_store w)" and C: "a_claims (view (w_store w)) = C" using assms by (simp_all add: holds_def)
  obtain r s' where run: "release_barrier ops b (w_store w) = (r, s')" by fastforce
  have s': "good s'" "spec_release same b (view (w_store w)) = (r, view s')"
    using faithful_run [OF release_reliable good run] by simp_all
  have r: "r = Inr ()" "view s' = (view (w_store w))\<lparr>a_claims := C - {c. same b c}\<rparr>" using s'(2) C by (simp_all add: spec_release_def)
  then have "release D b w = (Inr (), w\<lparr>w_store := s', w_step := Suc (w_step w)\<rparr>)"
      "at (w\<lparr>w_store := s', w_step := Suc (w_step w)\<rparr>) tx (C - {c. same b c}) es"
    using run assms s'(1) by (simp_all add: release_def store_op_quiet store holds_def)
  then show ?thesis by blast
qed

text \<open>A handler that reads the transaction, checks it, and enters a loop.\<close>

lemma kind_at:
  assumes "at w tx C es" "tkind tx = k"
  shows "\<exists>w' t. transaction_of_kind D (gid tx) k w = (Inr (tx\<lparr>updated_at_millis := t\<rparr>), w') \<and> at w' tx C es"
  using fetch_at [OF assms(1)] assms(2) by (auto simp: transaction_of_kind_def act_simps ensure_kind_def)

lemma confirm_tcc_at:
  assumes "at w tx C es" "tkind tx = Tcc" "tstatus tx \<in> {Prepared, Succeeding}" "distinct (map bid (branches tx))"
    and "\<And>i. i < length (branches tx) \<Longrightarrow> branch_barrier_of tx i ''confirm'' \<notin> C \<Longrightarrow> \<exists>u. confirm (branches tx ! i) = Some u \<and> answers D u"
  shows "\<exists>w' tx' C'. confirm_tcc D (gid tx) w = (Inr tx', w')
    \<and> at w' tx' C' (es @ concat (map (confirm_events tx C) [0..<length (branches tx)])) \<and> gid tx' = gid tx \<and> tstatus tx' = Succeeded"
proof -
  obtain w1 t where w1: "transaction_of_kind D (gid tx) Tcc w = (Inr (tx\<lparr>updated_at_millis := t\<rparr>), w1)" "at w1 tx C es"
    using kind_at [OF assms(1,2)] by blast
  let ?tx = "set_status Succeeding (tx\<lparr>updated_at_millis := t\<rparr>)"
  have run: "confirm_tcc D (gid tx) w = confirm_loop D [0..<length (branches ?tx)] ?tx w1"
    using w1(1) assms(3) by (auto simp: confirm_tcc_def act_simps ensure_status_def)
  have bar: "branch_barrier_of ?tx i oper = branch_barrier_of tx i oper" for i oper by (simp add: branch_barrier_of_def)
  have ev: "confirm_events ?tx C = confirm_events tx C" by (simp add: fun_eq_iff confirm_events_def bar)
  show ?thesis
    using confirm_loop_at [OF w1(2), of ?tx] assms(4,5) unfolding run ev bar by simp
qed

lemma cancel_tcc_at:
  assumes "at w tx C es" "tkind tx = Tcc" "tstatus tx \<in> {Submitted, Trying, Prepared, Aborting}" "distinct (map bid (branches tx))"
    and "\<And>i. i < length (branches tx) \<Longrightarrow> cancel_called tx C i \<Longrightarrow> \<exists>u. cancel_url (branches tx ! i) = Some u \<and> answers D u"
  shows "\<exists>w' tx' C'. cancel_tcc D (gid tx) w = (Inr tx', w')
    \<and> at w' tx' C' (es @ concat (map (cancel_events tx C) [0..<length (branches tx)])) \<and> gid tx' = gid tx \<and> tstatus tx' = Aborted"
proof -
  obtain w1 t where w1: "transaction_of_kind D (gid tx) Tcc w = (Inr (tx\<lparr>updated_at_millis := t\<rparr>), w1)" "at w1 tx C es"
    using kind_at [OF assms(1,2)] by blast
  let ?tx = "set_status Aborting (tx\<lparr>updated_at_millis := t\<rparr>)"
  have run: "cancel_tcc D (gid tx) w = cancel_loop D [0..<length (branches ?tx)] ?tx w1"
    using w1(1) assms(3) by (auto simp: cancel_tcc_def act_simps ensure_status_def)
  have bar: "branch_barrier_of ?tx i oper = branch_barrier_of tx i oper" for i oper by (simp add: branch_barrier_of_def)
  have called: "cancel_called ?tx C = cancel_called tx C" by (simp add: fun_eq_iff cancel_called_def bar)
  have ev: "cancel_events ?tx C = cancel_events tx C" by (simp add: fun_eq_iff cancel_events_def called)
  show ?thesis
    using cancel_loop_at [OF w1(2), of ?tx] assms(4,5) unfolding run ev called by simp
qed

lemma xa_handler_at:
  assumes "at w tx C es" "distinct (map bid (branches tx))"
    and oper: "oper \<in> {''commit'', ''rollback''}" and "\<And>i. i < length (branches tx) \<Longrightarrow> xa_ready D oper url_of tx C i"
  shows "\<exists>w' tx' C'. xa_loop D oper url_of bd td [0..<length (branches tx)] (set_status st (tx\<lparr>updated_at_millis := t\<rparr>)) w = (Inr tx', w')
    \<and> at w' tx' C' (es @ concat (map (xa_events (dtm_libs D) oper url_of tx C) [0..<length (branches tx)])) \<and> gid tx' = gid tx \<and> tstatus tx' = td"
proof -
  let ?tx = "set_status st (tx\<lparr>updated_at_millis := t\<rparr>)"
  have bar: "branch_barrier_of ?tx i oper = branch_barrier_of tx i oper" for i oper by (simp add: branch_barrier_of_def)
  have ready: "xa_ready D oper url_of ?tx C = xa_ready D oper url_of tx C" by (simp add: fun_eq_iff xa_ready_def bar)
  have ev: "xa_events (dtm_libs D) oper url_of ?tx C = xa_events (dtm_libs D) oper url_of tx C" by (simp add: fun_eq_iff xa_events_def bar)
  show ?thesis
    using xa_loop_at [OF assms(1), of ?tx oper url_of bd td] assms(2-4) unfolding ready ev by simp
qed

lemma xa_second_phase_at:
  assumes "at w tx C es" "tkind tx = Xa" "distinct (map bid (branches tx))"
  shows "tstatus tx \<in> {Prepared, Succeeding} \<Longrightarrow> (\<And>i. i < length (branches tx) \<Longrightarrow> xa_ready D ''commit'' confirm tx C i) \<Longrightarrow>
      \<exists>w' tx' C'. commit_xa D (gid tx) w = (Inr tx', w') \<and> at w' tx' C'
        (es @ concat (map (xa_events (dtm_libs D) ''commit'' confirm tx C) [0..<length (branches tx)])) \<and> gid tx' = gid tx \<and> tstatus tx' = Succeeded"
    and "tstatus tx \<in> {Submitted, Prepared, Aborting} \<Longrightarrow> (\<And>i. i < length (branches tx) \<Longrightarrow> xa_ready D ''rollback'' cancel tx C i) \<Longrightarrow>
      \<exists>w' tx' C'. rollback_xa D (gid tx) w = (Inr tx', w') \<and> at w' tx' C'
        (es @ concat (map (xa_events (dtm_libs D) ''rollback'' cancel tx C) [0..<length (branches tx)])) \<and> gid tx' = gid tx \<and> tstatus tx' = Aborted"
proof -
  obtain w1 t where w1: "transaction_of_kind D (gid tx) Xa w = (Inr (tx\<lparr>updated_at_millis := t\<rparr>), w1)" "at w1 tx C es"
    using kind_at [OF assms(1,2)] by blast
  have "commit_xa D (gid tx) w = xa_loop D ''commit'' confirm BSucceeded Succeeded [0..<length (branches tx)]
      (set_status Succeeding (tx\<lparr>updated_at_millis := t\<rparr>)) w1" if "tstatus tx \<in> {Prepared, Succeeding}"
    using w1(1) that by (auto simp: commit_xa_def act_simps ensure_status_def)
  then show "tstatus tx \<in> {Prepared, Succeeding} \<Longrightarrow> (\<And>i. i < length (branches tx) \<Longrightarrow> xa_ready D ''commit'' confirm tx C i) \<Longrightarrow>
      \<exists>w' tx' C'. commit_xa D (gid tx) w = (Inr tx', w') \<and> at w' tx' C'
        (es @ concat (map (xa_events (dtm_libs D) ''commit'' confirm tx C) [0..<length (branches tx)])) \<and> gid tx' = gid tx \<and> tstatus tx' = Succeeded"
    using xa_handler_at [OF w1(2) assms(3), of "''commit''" confirm] by simp
  have "rollback_xa D (gid tx) w = xa_loop D ''rollback'' cancel BSkipped Aborted [0..<length (branches tx)]
      (set_status Aborting (tx\<lparr>updated_at_millis := t\<rparr>)) w1" if "tstatus tx \<in> {Submitted, Prepared, Aborting}"
    using w1(1) that by (auto simp: rollback_xa_def act_simps ensure_status_def)
  then show "tstatus tx \<in> {Submitted, Prepared, Aborting} \<Longrightarrow> (\<And>i. i < length (branches tx) \<Longrightarrow> xa_ready D ''rollback'' cancel tx C i) \<Longrightarrow>
      \<exists>w' tx' C'. rollback_xa D (gid tx) w = (Inr tx', w') \<and> at w' tx' C'
        (es @ concat (map (xa_events (dtm_libs D) ''rollback'' cancel tx C) [0..<length (branches tx)])) \<and> gid tx' = gid tx \<and> tstatus tx' = Aborted"
    using xa_handler_at [OF w1(2) assms(3), of "''rollback''" cancel] by simp
qed

end

section \<open>Two-phase transactions on the in-memory store\<close>

lemma mem_confirm_events:
  "concat (map (confirm_events tx (a_claims (mem_view s))) is)
    = [Invoked (gid tx) (bid (branches tx ! i)) (the (confirm (branches tx ! i))) True. i \<leftarrow> is, \<not> claimed s tx i ''confirm'']"
proof -
  have "confirm_events tx (a_claims (mem_view s)) = (\<lambda>i. if \<not> claimed s tx i ''confirm''
      then [Invoked (gid tx) (bid (branches tx ! i)) (the (confirm (branches tx ! i))) True] else [])"
    by (auto simp: fun_eq_iff confirm_events_def claimed_view)
  then show ?thesis by simp
qed

lemma mem_cancel_called:
  "cancel_called tx (a_claims (mem_view s)) i
    \<longleftrightarrow> \<not> claimed s tx i ''cancel'' \<and> (claimed s tx i ''try'' \<or> action (branches tx ! i) = [])"
  by (simp add: cancel_called_def claimed_view)

text \<open>
  C8: The second phase of a TCC decides it for all branches. Confirming a prepared TCC calls the confirmation
  of every branch that was not confirmed before, in the order of the branches and each once, and the stored transaction has
  succeeded.
\<close>

theorem tcc_confirm_trace:
  assumes "mem_good (w_store w)" and "bt_get (txs (w_store w)) g = Some tx"
    and "tkind tx = Tcc" and "tstatus tx \<in> {Prepared, Succeeding}" and "distinct (map bid (branches tx))"
    and "\<And>i. i < length (branches tx) \<Longrightarrow> \<not> claimed (w_store w) tx i ''confirm'' \<Longrightarrow>
      \<exists>u. confirm (branches tx ! i) = Some u \<and> answers D u"
  shows "\<exists>w' tx' t. confirm_tcc (quiet D mem_ops) g w = (Inr tx', w')
    \<and> bt_get (txs (w_store w')) g = Some (tx'\<lparr>updated_at_millis := t\<rparr>) \<and> tstatus tx' = Succeeded
    \<and> w_events w' = w_events w @ [Invoked g (bid (branches tx ! i)) (the (confirm (branches tx ! i))) True.
        i \<leftarrow> [0..<length (branches tx)], \<not> claimed (w_store w) tx i ''confirm'']"
proof -
  have g: "gid tx = g" using assms(1,2) by (auto simp: mem_good_def)
  have start: "holds mem_good mem_view w tx (a_claims (mem_view (w_store w))) (w_events w)" using assms(1,2) g by (intro holds_mem) simp_all
  obtain w' tx' C' where run: "confirm_tcc (quiet D mem_ops) (gid tx) w = (Inr tx', w')" "gid tx' = gid tx" "tstatus tx' = Succeeded"
      and last: "holds mem_good mem_view w' tx' C' (w_events w @ concat (map (confirm_events tx (a_claims (mem_view (w_store w)))) [0..<length (branches tx)]))"
    using mem_quiet.confirm_tcc_at [OF start, where D = D] assms(3-6) by (auto simp: claimed_view)
  obtain t where "bt_get (txs (w_store w')) (gid tx') = Some (tx'\<lparr>updated_at_millis := t\<rparr>)"
      "w_events w' = w_events w @ [Invoked g (bid (branches tx ! i)) (the (confirm (branches tx ! i))) True.
        i \<leftarrow> [0..<length (branches tx)], \<not> claimed (w_store w) tx i ''confirm'']"
    using last unfolding mem_confirm_events g by (rule holds_memD)
  then show ?thesis using run unfolding g by blast
qed

text \<open>
  C9: Cancelling a TCC that is not confirmed calls, in the order of the branches and each once, the cancellation of
  exactly those branches whose try was claimed or that have no try at all, and that were not cancelled before; a
  branch whose try was never claimed is not called (an empty cancellation), and the stored transaction is aborted.
\<close>

theorem tcc_cancel_trace:
  assumes "mem_good (w_store w)" and "bt_get (txs (w_store w)) g = Some tx"
    and "tkind tx = Tcc" and "tstatus tx \<in> {Submitted, Trying, Prepared, Aborting}" and "distinct (map bid (branches tx))"
    and "called = (\<lambda>i. \<not> claimed (w_store w) tx i ''cancel'' \<and> (claimed (w_store w) tx i ''try'' \<or> action (branches tx ! i) = []))"
    and "\<And>i. i < length (branches tx) \<Longrightarrow> called i \<Longrightarrow> \<exists>u. cancel_url (branches tx ! i) = Some u \<and> answers D u"
  shows "\<exists>w' tx' t. cancel_tcc (quiet D mem_ops) g w = (Inr tx', w')
    \<and> bt_get (txs (w_store w')) g = Some (tx'\<lparr>updated_at_millis := t\<rparr>) \<and> tstatus tx' = Aborted
    \<and> w_events w' = w_events w @ [Invoked g (bid (branches tx ! i)) (the (cancel_url (branches tx ! i))) True.
        i \<leftarrow> [0..<length (branches tx)], called i]"
proof -
  have g: "gid tx = g" using assms(1,2) by (auto simp: mem_good_def)
  have start: "holds mem_good mem_view w tx (a_claims (mem_view (w_store w))) (w_events w)" using assms(1,2) g by (intro holds_mem) simp_all
  have called: "cancel_called tx (a_claims (mem_view (w_store w))) = called" by (simp add: fun_eq_iff mem_cancel_called assms(6))
  obtain w' tx' C' where run: "cancel_tcc (quiet D mem_ops) (gid tx) w = (Inr tx', w')" "gid tx' = gid tx" "tstatus tx' = Aborted"
      and last: "holds mem_good mem_view w' tx' C' (w_events w @ concat (map (cancel_events tx (a_claims (mem_view (w_store w)))) [0..<length (branches tx)]))"
    using mem_quiet.cancel_tcc_at [OF start, where D = D] assms(3-5,7) by (auto simp: called)
  have ev: "cancel_events tx (a_claims (mem_view (w_store w))) = (\<lambda>i. if called i
      then [Invoked g (bid (branches tx ! i)) (the (cancel_url (branches tx ! i))) True] else [])"
    by (auto simp: fun_eq_iff cancel_events_def called g)
  show ?thesis using run unfolding g by (rule_tac holds_memD [OF last]) (auto simp: ev)
qed

text \<open>A prepared TCC with two branches: the second has been confirmed before.\<close>

definition sample_prepared :: transaction where
  "sample_prepared = set_status Prepared (transaction_tcc 1000 ''t1''
     [branch_tcc_try ''b1'' ''http://a/try'' ''http://a/confirm'' ''http://a/cancel'' JNull,
      branch_tcc_try ''b2'' ''http://b/try'' ''http://b/confirm'' ''http://b/cancel'' JNull])"

definition claims_world :: "(string \<times> string \<times> string) list \<Rightarrow> transaction \<Rightarrow> mem_store world" where
  "claims_world bars tx = (sample_world tx)\<lparr>w_store := (w_store (sample_world tx))\<lparr>barriers := set bars\<rparr>\<rparr>"

lemma claims_world_facts:
  "mem_good (w_store (claims_world bars tx))" "bt_get (txs (w_store (claims_world bars tx))) (gid tx) = Some tx"
  "claimed (w_store (claims_world bars tx)) tx' i oper \<longleftrightarrow> (gid tx', bid (branches tx' ! i), oper) \<in> set bars"
  "w_events (claims_world bars tx) = []"
proof -
  show "mem_good (w_store (claims_world bars tx))"
    by (simp add: claims_world_def mem_good_def sample_world_def mem_new_def bt_wf_def bt_get_singleton)
  show "bt_get (txs (w_store (claims_world bars tx))) (gid tx) = Some tx"
    by (simp add: claims_world_def sample_world_def bt_get_singleton)
  show "claimed (w_store (claims_world bars tx)) tx' i oper \<longleftrightarrow> (gid tx', bid (branches tx' ! i), oper) \<in> set bars"
    by (simp add: claims_world_def claimed_def)
  show "w_events (claims_world bars tx) = []" by (simp add: claims_world_def sample_world_def)
qed

lemma sample_prepared_facts:
  "gid sample_prepared = ''t1''" "tkind sample_prepared = Tcc" "tstatus sample_prepared = Prepared"
  "map bid (branches sample_prepared) = [''b1'', ''b2'']" "tstatus sample_prepared \<in> {Prepared, Succeeding}"
  "distinct (map bid (branches sample_prepared))" "tstatus sample_prepared \<in> {Submitted, Trying, Prepared, Aborting}"
  by (simp_all add: sample_prepared_def transaction_tcc_def transaction_new_def branch_constructor_defs set_status_def)

lemma sample_prepared_branches:
  obtains c d where "branches sample_prepared = [c, d]" "bid c = ''b1''" "bid d = ''b2''"
    "confirm c = Some ''http://a/confirm''" "confirm d = Some ''http://b/confirm''"
    "cancel_url c = Some ''http://a/cancel''" "cancel_url d = Some ''http://b/cancel''"
    "action c = ''http://a/try''" "action d = ''http://b/try''"
  by (rule that [of "branches sample_prepared ! 0" "branches sample_prepared ! 1"])
    (simp_all add: sample_prepared_def transaction_tcc_def transaction_new_def branch_constructor_defs set_status_def cancel_url_def)

theorem tcc_confirm_trace_witness:
  "\<exists>w' tx'. confirm_tcc (quiet sample_dtm mem_ops) ''t1'' (claims_world [(''t1'', ''b2'', ''confirm'')] sample_prepared) = (Inr tx', w')
    \<and> tstatus tx' = Succeeded \<and> w_events w' = [Invoked ''t1'' ''b1'' ''http://a/confirm'' True]"
proof -
  let ?w = "claims_world [(''t1'', ''b2'', ''confirm'')] sample_prepared"
  obtain c d where cd: "branches sample_prepared = [c, d]" "bid c = ''b1''" "bid d = ''b2''"
    "confirm c = Some ''http://a/confirm''" "confirm d = Some ''http://b/confirm''" by (rule sample_prepared_branches)
  have get: "bt_get (txs (w_store ?w)) ''t1'' = Some sample_prepared"
    using claims_world_facts(2) [of _ sample_prepared] by (simp add: sample_prepared_facts)
  have ok: "answers sample_dtm u" for u by (simp add: answers_def sample_dtm_def)
  have each: "\<exists>u. confirm (branches sample_prepared ! i) = Some u \<and> answers sample_dtm u" if "i < length (branches sample_prepared)" for i
    using that ok by (auto simp: cd less_Suc_eq)
  obtain w' tx' where run: "confirm_tcc (quiet sample_dtm mem_ops) ''t1'' ?w = (Inr tx', w')" "tstatus tx' = Succeeded"
    and ev: "w_events w' = w_events ?w @ [Invoked ''t1'' (bid (branches sample_prepared ! i)) (the (confirm (branches sample_prepared ! i))) True.
        i \<leftarrow> [0..<length (branches sample_prepared)], \<not> claimed (w_store ?w) sample_prepared i ''confirm'']"
    using tcc_confirm_trace [OF claims_world_facts(1) get sample_prepared_facts(2,5,6) each] by blast
  show ?thesis using run ev by (simp add: claims_world_facts(3,4) sample_prepared_facts cd upt_rec)
qed

theorem tcc_cancel_trace_witness:
  "\<exists>w' tx'. cancel_tcc (quiet sample_dtm mem_ops) ''t1'' (claims_world [(''t1'', ''b1'', ''try'')] sample_prepared) = (Inr tx', w')
    \<and> tstatus tx' = Aborted \<and> w_events w' = [Invoked ''t1'' ''b1'' ''http://a/cancel'' True]"
proof -
  let ?w = "claims_world [(''t1'', ''b1'', ''try'')] sample_prepared"
  let ?called = "\<lambda>i. \<not> claimed (w_store ?w) sample_prepared i ''cancel''
    \<and> (claimed (w_store ?w) sample_prepared i ''try'' \<or> action (branches sample_prepared ! i) = [])"
  obtain c d where cd: "branches sample_prepared = [c, d]" "bid c = ''b1''" "bid d = ''b2''"
    "cancel_url c = Some ''http://a/cancel''" "cancel_url d = Some ''http://b/cancel''"
    "action c = ''http://a/try''" "action d = ''http://b/try''" by (rule sample_prepared_branches)
  have get: "bt_get (txs (w_store ?w)) ''t1'' = Some sample_prepared"
    using claims_world_facts(2) [of _ sample_prepared] by (simp add: sample_prepared_facts)
  have ok: "answers sample_dtm u" for u by (simp add: answers_def sample_dtm_def)
  have each: "\<exists>u. cancel_url (branches sample_prepared ! i) = Some u \<and> answers sample_dtm u" if "i < length (branches sample_prepared)" for i
    using that ok by (auto simp: cd less_Suc_eq)
  obtain w' tx' where run: "cancel_tcc (quiet sample_dtm mem_ops) ''t1'' ?w = (Inr tx', w')" "tstatus tx' = Aborted"
    and ev: "w_events w' = w_events ?w @ [Invoked ''t1'' (bid (branches sample_prepared ! i)) (the (cancel_url (branches sample_prepared ! i))) True.
        i \<leftarrow> [0..<length (branches sample_prepared)], ?called i]"
    using tcc_cancel_trace [OF claims_world_facts(1) get sample_prepared_facts(2,7,6) refl each] by blast
  show ?thesis using run ev by (simp add: claims_world_facts(3,4) sample_prepared_facts cd upt_rec)
qed

definition xa_calls :: "libs \<Rightarrow> mem_store \<Rightarrow> transaction \<Rightarrow> string \<Rightarrow> (branch \<Rightarrow> string option) \<Rightarrow> event list" where
  "xa_calls lib s tx oper url_of = [Invoked (gid tx) (bid (branches tx ! i))
      (projr (xa_phase2_callback_url lib (the (url_of (branches tx ! i))) (gid tx) (bid (branches tx ! i)) oper)) True.
      i \<leftarrow> [0..<length (branches tx)], \<not> claimed s tx i oper]"

definition xa_callable :: "'s dtm \<Rightarrow> mem_store \<Rightarrow> transaction \<Rightarrow> string \<Rightarrow> (branch \<Rightarrow> string option) \<Rightarrow> bool" where
  "xa_callable D s tx oper url_of \<longleftrightarrow> (\<forall>i < length (branches tx). \<not> claimed s tx i oper \<longrightarrow> (\<exists>v u. url_of (branches tx ! i) = Some v
     \<and> xa_phase2_callback_url (dtm_libs D) v (gid tx) (bid (branches tx ! i)) oper = Inr u \<and> answers D u))"

lemma xa_mem_facts:
  assumes "dtm_libs D' = dtm_libs D" "\<And>u. answers D' u = answers D u"
  shows "xa_callable D s tx oper url_of \<longleftrightarrow> (\<forall>i < length (branches tx). xa_ready D' oper url_of tx (a_claims (mem_view s)) i)"
    and "concat (map (xa_events (dtm_libs D') oper url_of tx (a_claims (mem_view s))) [0..<length (branches tx)]) = xa_calls (dtm_libs D) s tx oper url_of"
proof -
  show "xa_callable D s tx oper url_of \<longleftrightarrow> (\<forall>i < length (branches tx). xa_ready D' oper url_of tx (a_claims (mem_view s)) i)"
    by (simp add: xa_callable_def xa_ready_def claimed_view assms)
  have "xa_events (dtm_libs D') oper url_of tx (a_claims (mem_view s)) = (\<lambda>i. if \<not> claimed s tx i oper then [Invoked (gid tx) (bid (branches tx ! i))
      (projr (xa_phase2_callback_url (dtm_libs D) (the (url_of (branches tx ! i))) (gid tx) (bid (branches tx ! i)) oper)) True] else [])"
    by (auto simp: fun_eq_iff xa_events_def claimed_view assms(1))
  then show "concat (map (xa_events (dtm_libs D') oper url_of tx (a_claims (mem_view s))) [0..<length (branches tx)]) = xa_calls (dtm_libs D) s tx oper url_of"
    by (simp add: xa_calls_def)
qed

text \<open>
  C10: The second phase of XA: committing (or rolling back) an XA transaction calls, for every branch not
  resolved that way before, in order and each once, the phase-two URL made of its callback, of
  its identity and of the operation, and ends with the stored transaction succeeded (or aborted).
\<close>

theorem xa_second_phase_trace:
  assumes "mem_good (w_store w)" and "bt_get (txs (w_store w)) g = Some tx"
    and "tkind tx = Xa" and "distinct (map bid (branches tx))"
  shows "(tstatus tx \<in> {Prepared, Succeeding} \<and> xa_callable D (w_store w) tx ''commit'' confirm \<longrightarrow>
      (\<exists>w' tx' t. commit_xa (quiet D mem_ops) g w = (Inr tx', w') \<and> bt_get (txs (w_store w')) g = Some (tx'\<lparr>updated_at_millis := t\<rparr>)
         \<and> tstatus tx' = Succeeded \<and> w_events w' = w_events w @ xa_calls (dtm_libs D) (w_store w) tx ''commit'' confirm))
    \<and> (tstatus tx \<in> {Submitted, Prepared, Aborting} \<and> xa_callable D (w_store w) tx ''rollback'' cancel \<longrightarrow>
      (\<exists>w' tx' t. rollback_xa (quiet D mem_ops) g w = (Inr tx', w') \<and> bt_get (txs (w_store w')) g = Some (tx'\<lparr>updated_at_millis := t\<rparr>)
         \<and> tstatus tx' = Aborted \<and> w_events w' = w_events w @ xa_calls (dtm_libs D) (w_store w) tx ''rollback'' cancel))"
proof -
  have g: "gid tx = g" using assms(1,2) by (auto simp: mem_good_def)
  have start: "holds mem_good mem_view w tx (a_claims (mem_view (w_store w))) (w_events w)" using assms(1,2) g by (intro holds_mem) simp_all
  have libs: "dtm_libs (quiet D mem_ops) = dtm_libs D" by (simp add: quiet_def alone_def)
  note phases = mem_quiet.xa_second_phase_at [OF start assms(3,4), where D = D, unfolded xa_mem_facts(2) [OF libs answers_quiet(1)] g]
  note ready = xa_mem_facts(1) [OF libs answers_quiet(1), of "w_store w" tx]
  show ?thesis
  proof (intro conjI impI; elim conjE)
    assume "tstatus tx \<in> {Prepared, Succeeding}" "xa_callable D (w_store w) tx ''commit'' confirm"
    then obtain w' tx' C' where run: "commit_xa (quiet D mem_ops) g w = (Inr tx', w')" "gid tx' = g" "tstatus tx' = Succeeded"
      and last: "holds mem_good mem_view w' tx' C' (w_events w @ xa_calls (dtm_libs D) (w_store w) tx ''commit'' confirm)"
      using phases(1) by (auto simp: ready)
    then show "\<exists>w' tx' t. commit_xa (quiet D mem_ops) g w = (Inr tx', w') \<and> bt_get (txs (w_store w')) g = Some (tx'\<lparr>updated_at_millis := t\<rparr>)
         \<and> tstatus tx' = Succeeded \<and> w_events w' = w_events w @ xa_calls (dtm_libs D) (w_store w) tx ''commit'' confirm"
      using holds_memD [OF last] by metis
  next
    assume "tstatus tx \<in> {Submitted, Prepared, Aborting}" "xa_callable D (w_store w) tx ''rollback'' cancel"
    then obtain w' tx' C' where run: "rollback_xa (quiet D mem_ops) g w = (Inr tx', w')" "gid tx' = g" "tstatus tx' = Aborted"
      and last: "holds mem_good mem_view w' tx' C' (w_events w @ xa_calls (dtm_libs D) (w_store w) tx ''rollback'' cancel)"
      using phases(2) by (auto simp: ready)
    then show "\<exists>w' tx' t. rollback_xa (quiet D mem_ops) g w = (Inr tx', w') \<and> bt_get (txs (w_store w')) g = Some (tx'\<lparr>updated_at_millis := t\<rparr>)
         \<and> tstatus tx' = Aborted \<and> w_events w' = w_events w @ xa_calls (dtm_libs D) (w_store w) tx ''rollback'' cancel"
      using holds_memD [OF last] by metis
  qed
qed

definition sample_xa :: transaction where
  "sample_xa = set_status Prepared (transaction_xa 1000 ''g1'' [branch_xa ''b1'' ''http://h/xa?op=rollback&k=v'' ''http://h/xa?op=rollback&k=v'' JNull])"

theorem xa_second_phase_trace_witness:
  "\<exists>w' tx'. commit_xa (quiet sample_dtm mem_ops) ''g1'' (sample_world sample_xa) = (Inr tx', w')
    \<and> tstatus tx' = Succeeded \<and> w_events w' = [Invoked ''g1'' ''b1'' sample_phase2 True]"
proof -
  let ?w = "sample_world sample_xa"
  have g: "gid sample_xa = ''g1''" "tkind sample_xa = Xa" "tstatus sample_xa = Prepared" "distinct (map bid (branches sample_xa))"
    by (simp_all add: sample_xa_def transaction_xa_def transaction_new_def branch_constructor_defs set_status_def)
  have url: "xa_phase2_callback_url sample_url_libs ''http://h/xa?op=rollback&k=v'' ''g1'' ''b1'' ''commit'' = Inr sample_phase2"
    by (simp add: xa_phase2_callback_url_def parse_branch_url_def sample_url_libs_def sample_url_def)
  have libs: "dtm_libs sample_dtm = sample_url_libs" by (simp add: sample_dtm_def)
  have b: "length (branches sample_xa) = 1" "bid (branches sample_xa ! 0) = ''b1''" "confirm (branches sample_xa ! 0) = Some ''http://h/xa?op=rollback&k=v''"
    by (simp_all add: sample_xa_def transaction_xa_def transaction_new_def branch_constructor_defs set_status_def)
  have callable: "xa_callable sample_dtm (w_store ?w) sample_xa ''commit'' confirm"
    by (simp add: xa_callable_def b g url libs answers_def) (simp add: sample_dtm_def)
  have calls: "xa_calls (dtm_libs sample_dtm) (w_store ?w) sample_xa ''commit'' confirm = [Invoked ''g1'' ''b1'' sample_phase2 True]"
    by (simp add: xa_calls_def b g url libs sample_unclaimed)
  show ?thesis
    using xa_second_phase_trace [OF sample_world_good _ g(2,4), of sample_xa "''g1''" sample_dtm] callable sample_world_get [of sample_xa] g
    unfolding calls by (auto simp: sample_world_def)
qed

section \<open>Where recovery goes wrong\<close>

lemma quiet_store [simp]: "dtm_store (quiet D ops) = ops" and quiet_clock [simp]: "clock (quiet D ops) = clock D"
  by (simp_all add: quiet_def alone_def)

text \<open>
  C35: A TCC that is decided to commit but not yet confirmed when its timeout passes is lost to recovery: every
  attempt to recover it tries to cancel it, which is refused, so that nothing is called and nothing
  changes. The recovery scan stops with the same error: the transactions listed after it are not recovered either.
\<close>

theorem expired_committed_tcc_blocks_recovery:
  assumes "mem_good (w_store w)" and "bt_get (txs (w_store w)) g = Some tx" and "bt_values (txs (w_store w)) = tx # rest"
    and "tkind tx = Tcc" and "tstatus tx = Succeeding" and "\<And>n. is_expired tx (clock D n)"
  shows "fst (recover (quiet D mem_ops) g w) = Inl (NonReplayable g Succeeding)
    \<and> fst (tick_recover_once (quiet D mem_ops) w) = Inl (NonReplayable g Succeeding)
    \<and> (\<forall>run \<in> {void (recover (quiet D mem_ops) g), void (tick_recover_once (quiet D mem_ops))}.
        w_store (snd (run w)) = w_store w \<and> w_events (snd (run w)) = w_events w)"
proof -
  let ?D = "quiet D mem_ops"
  have g: "gid tx = g" using assms(1,2) by (auto simp: mem_good_def)
  have op: "store_op ?D m v = (fst (m (clock D (w_step v)) (w_store v)),
      v\<lparr>w_store := snd (m (clock D (w_step v)) (w_store v)), w_step := Suc (w_step v)\<rparr>)" for m :: "u64 \<Rightarrow> (mem_store, dtm_error, 'x) act" and v
    by (simp add: store_op_def quiet_def alone_def Let_def)
  have fetch: "fetch ?D g v = (Inr tx, v\<lparr>w_step := Suc (w_step v)\<rparr>)" if "w_store v = w_store w" for v
    using assms(2) that by (simp add: fetch_def act_simps op mem_get_transaction_def)
  have cancel: "cancel_tcc ?D g v = (Inl (NonReplayable g Succeeding), v\<lparr>w_step := Suc (w_step v)\<rparr>)" if "w_store v = w_store w" for v
    using fetch [OF that] g assms(4,5) by (simp add: cancel_tcc_def transaction_of_kind_def act_simps ensure_kind_def ensure_status_def)
  show ?thesis
    using fetch cancel assms(3-6) g
    by (simp add: recover_def tick_recover_once_def void_def act_simps current_millis_def op scan_one_def recover_expired_def
        mem_list_transactions_def)
qed


theorem expired_committed_tcc_blocks_recovery_witness:
  "fst (tick_recover_once (quiet (sample_dtm\<lparr>clock := (\<lambda>_. 61000)\<rparr>) mem_ops)
      (sample_world (committed_tcc\<lparr>timeout_millis := Some 60000\<rparr>))) = Inl (NonReplayable ''g1'' Succeeding)"
proof -
  let ?tx = "committed_tcc\<lparr>timeout_millis := Some 60000\<rparr>" and ?D = "sample_dtm\<lparr>clock := (\<lambda>_. 61000)\<rparr>"
  have tx: "gid ?tx = ''g1''" "tkind ?tx = Tcc" "tstatus ?tx = Succeeding"
    by (simp_all add: committed_tcc_def sample_defs)
  have expired: "is_expired ?tx (clock ?D n)" for n
    by (simp add: is_expired_def committed_tcc_def sample_defs sat_sub_def set_status_def)
  have all: "bt_values (txs (w_store (sample_world ?tx))) = ?tx # []" by (simp add: sample_world_def bt_values_def)
  show ?thesis
    using expired_committed_tcc_blocks_recovery [OF sample_world_good _ all tx(2,3) expired] sample_world_get [of ?tx] tx(1) by simp
qed

text \<open>
  C36: A Workflow of one branch forgets a compensation that fails. When the only branch of a workflow is compensated and its service
  refuses, the branch stays in compensation and the workflow is to be aborted again; the next attempt calls nothing
  and reports the workflow aborted, although the compensation never succeeded.
\<close>

theorem workflow_compensation_lost:
  assumes "mem_good (w_store w)" and "bt_get (txs (w_store w)) g = Some tx"
    and "tkind tx = Workflow" and "tstatus tx \<in> {Submitted, Prepared, Succeeding, Aborting}"
    and "branches tx = [b]" and "bstatus b = BSucceeded" and "compensate b = Some u" and "refuses D u"
    and "\<not> claimed (w_store w) tx 0 ''workflow_rollback''"
  shows "\<exists>w1 w2 tx1 tx2 al. abort_workflow (quiet D mem_ops) g w = (Inr tx1, w1) \<and> tstatus tx1 = Aborting
    \<and> abort_workflow (quiet D mem_ops) g w1 = (Inr tx2, w2) \<and> tstatus tx2 = Aborted
    \<and> w_events w2 = w_events w @ [Invoked g (bid b) u False, Alerted al]"
proof -
  let ?D = "quiet D mem_ops" and ?C = "a_claims (mem_view (w_store w))" and ?bar = "branch_barrier_of tx 0 ''workflow_rollback''"
  have g: "gid tx = g" using assms(1,2) by (auto simp: mem_good_def)
  have start: "holds mem_good mem_view w tx ?C (w_events w)" using assms(1,2) g by (intro holds_mem) simp_all
  obtain w1 t where w1: "transaction_of_kind ?D (gid tx) Workflow w = (Inr (tx\<lparr>updated_at_millis := t\<rparr>), w1)" "holds mem_good mem_view w1 tx ?C (w_events w)"
    using mem_quiet.kind_at [OF start assms(3), where D = D] by blast
  let ?tx = "set_status Aborting (tx\<lparr>updated_at_millis := t\<rparr>)"
  have "?bar \<notin> ?C" using assms(9) by (simp add: claimed_view)
  then obtain w2 C2 where w2: "claim ?D ?bar w1 = (Inr Execute, w2)" "holds mem_good mem_view w2 tx C2 (w_events w)"
    using mem_quiet.claim_at [OF w1(2), where D = D and b = ?bar] by (auto simp: branch_barrier_of_def barrier_new_def)
  have "\<not> invoke_ok ?D (w_step w2) u (payload (attempted b)) (toptions tx)"
    using assms(8) answers_quiet(2) [of D mem_ops u] unfolding refuses_def by blast
  from mem_quiet.invoke_fail_at [OF w2(2) this, where g = g and st = Aborting]
  obtain w3 b3 al e n where w3: "invoke_branch ?D (toptions tx) g Aborting (attempted b) u w2 = (Inr (False, b3), w3)"
      "holds mem_good mem_view w3 tx C2 (w_events w @ [Invoked g (bid b) u False, Alerted al])"
    by auto
  obtain w4 C4 where w4: "release ?D ?bar w3 = (Inr (), w4)" "holds mem_good mem_view w4 tx C4 (w_events w @ [Invoked g (bid b) u False, Alerted al])"
    using mem_quiet.release_at [OF w3(2), where D = D and b = ?bar] by blast
  let ?tx4 = "set_branch 0 (marked BCompensating b3) ?tx"
  obtain w5 where w5: "persist_transaction ?D ?tx4 w4 = (Inr (next_revision ?tx4), w5)"
      "holds mem_good mem_view w5 (next_revision ?tx4) C4 (w_events w @ [Invoked g (bid b) u False, Alerted al])"
    using mem_quiet.persist_at [OF w4(2), where D = D and tx = ?tx4] by auto
  have first: "abort_workflow ?D g w = (Inr (next_revision ?tx4), w5)"
    using w1(1) w2(1) w3(1) w4(1) w5(1) assms(4-7) g
    by (auto simp: abort_workflow_def act_simps ensure_status_def Let_def branch_barrier_of_def)
  let ?tx5 = "next_revision ?tx4"
  obtain w6 t6 where w6: "transaction_of_kind ?D (gid ?tx5) Workflow w5 = (Inr (?tx5\<lparr>updated_at_millis := t6\<rparr>), w6)"
      "holds mem_good mem_view w6 ?tx5 C4 (w_events w @ [Invoked g (bid b) u False, Alerted al])"
    using mem_quiet.kind_at [OF w5(2), where D = D] assms(3) by auto
  let ?tx6 = "set_status Aborted (set_status Aborting (?tx5\<lparr>updated_at_millis := t6\<rparr>))"
  obtain w7 where w7: "persist_transaction ?D ?tx6 w6 = (Inr (next_revision ?tx6), w7)"
      "holds mem_good mem_view w7 (next_revision ?tx6) C4 (w_events w @ [Invoked g (bid b) u False, Alerted al])"
    using mem_quiet.persist_at [OF w6(2), where D = D and tx = ?tx6] by auto
  have second: "abort_workflow ?D g w5 = (Inr (next_revision ?tx6), w7)"
    using w6(1) w7(1) assms(5) g by (simp add: abort_workflow_def act_simps ensure_status_def Let_def marked_def)
  show ?thesis using first second w7(2) by (auto simp: holds_def)
qed

definition sample_workflow :: transaction where
  "sample_workflow = set_status Succeeding (transaction_workflow 1000 ''f1''
     [(branch_workflow ''b1'' ''http://a/do'' ''http://a/undo'' [] JNull)\<lparr>bstatus := BSucceeded\<rparr>])"

theorem workflow_compensation_lost_witness:
  "\<exists>w1 w2 tx1 tx2 al. abort_workflow (quiet (sample_dtm\<lparr>invoke_ok := (\<lambda>_ _ _ _. False)\<rparr>) mem_ops) ''f1'' (sample_world sample_workflow) = (Inr tx1, w1)
    \<and> abort_workflow (quiet (sample_dtm\<lparr>invoke_ok := (\<lambda>_ _ _ _. False)\<rparr>) mem_ops) ''f1'' w1 = (Inr tx2, w2) \<and> tstatus tx2 = Aborted
    \<and> w_events w2 = [Invoked ''f1'' ''b1'' ''http://a/undo'' False, Alerted al]"
proof -
  let ?b = "(branch_workflow ''b1'' ''http://a/do'' ''http://a/undo'' [] JNull)\<lparr>bstatus := BSucceeded\<rparr>"
  let ?D = "sample_dtm\<lparr>invoke_ok := (\<lambda>_ _ _ _. False)\<rparr>"
  have tx: "gid sample_workflow = ''f1''" "tkind sample_workflow = Workflow" "branches sample_workflow = [?b]"
      "tstatus sample_workflow \<in> {Submitted, Prepared, Succeeding, Aborting}"
    by (simp_all add: sample_workflow_def transaction_workflow_def transaction_new_def set_status_def)
  have b: "bstatus ?b = BSucceeded" "compensate ?b = Some ''http://a/undo''" "bid ?b = ''b1''" by (simp_all add: branch_workflow_def branch_saga_def)
  have refused: "refuses ?D ''http://a/undo''" by (simp add: refuses_def)
  have get: "bt_get (txs (w_store (sample_world sample_workflow))) ''f1'' = Some sample_workflow"
    using sample_world_get [of sample_workflow] by (simp add: tx)
  from workflow_compensation_lost [OF sample_world_good get tx(2,4,3) b(1,2) refused sample_unclaimed]
  show ?thesis unfolding b(3) by (auto simp: sample_world_def)
qed

end
