(* ===== verification/Http_Invoker.thy ===== *)
theory Http_Invoker
  imports Transitions
begin

text \<open>
  Calls to the outside (\<^verbatim>\<open>src/lib.rs\<close>, lines 1020--1617): the policy on branch URLs, the
  HTTP branch invoker with its alert webhook, and the three ways a callback workflow is queried (HTTP,
  JSON-RPC, gRPC), with the bounds on what is read back. The network is a
  parameter: what comes back for one request, redirects being switched off. Building a request and
  sending it are separate definitions, so that what leaves the process can be stated.
\<close>


section \<open>Text\<close>

definition continuation_byte :: "char \<Rightarrow> bool" where
  "continuation_byte c \<longleftrightarrow> 128 \<le> (of_char c :: nat) \<and> (of_char c :: nat) < 192"

text \<open>\<^verbatim>\<open>str::is_char_boundary\<close> on the bytes of the string.\<close>

definition char_boundary :: "string \<Rightarrow> nat \<Rightarrow> bool" where
  "char_boundary s i \<longleftrightarrow> i = 0 \<or> i = length s \<or> i < length s \<and> \<not> continuation_byte (s ! i)"

fun floor_boundary :: "string \<Rightarrow> nat \<Rightarrow> nat" where
  "floor_boundary s 0 = 0"
| "floor_boundary s (Suc n) = (if char_boundary s (Suc n) then Suc n else floor_boundary s n)"

definition bounded_reason :: "string \<Rightarrow> string option" where
  "bounded_reason s =
     (let v = trim s in
      if v = [] then None
      else if 4096 < length v then Some (take (floor_boundary v 4096) v) else Some v)"

definition to_ascii_lowercase :: "string \<Rightarrow> string" where
  "to_ascii_lowercase = map (\<lambda>c. if 65 \<le> (of_char c :: nat) \<and> (of_char c :: nat) \<le> 90 then char_of ((of_char c :: nat) + 32) else c)"

definition byte_char :: "u8 \<Rightarrow> char" where
  "byte_char b = char_of (unat b)"

text \<open>\<^verbatim>\<open>str::split_once\<close> and \<^verbatim>\<open>str::split\<close> at a character.\<close>

definition split_once :: "char \<Rightarrow> string \<Rightarrow> (string \<times> string) option" where
  "split_once c s = (if c \<in> set s then Some (takeWhile (\<lambda>x. x \<noteq> c) s, tl (dropWhile (\<lambda>x. x \<noteq> c) s)) else None)"

fun split_at_char :: "char \<Rightarrow> string \<Rightarrow> string list" where
  "split_at_char c [] = [[]]"
| "split_at_char c (x # xs) =
     (if x = c then [] # split_at_char c xs
      else (case split_at_char c xs of [] \<Rightarrow> [[x]] | seg # segs \<Rightarrow> (x # seg) # segs))"

text \<open>
  \<^verbatim>\<open>String::from_utf8_lossy\<close>: a maximal valid prefix of a malformed sequence becomes one replacement
  character. \<open>utf8_tail n lo hi\<close> reads \<open>n\<close> further bytes of a sequence, the first between \<open>lo\<close> and
  \<open>hi\<close>, and tells how many it could take and whether that was all.
\<close>

fun utf8_tail :: "nat \<Rightarrow> u8 \<Rightarrow> u8 \<Rightarrow> u8 list \<Rightarrow> nat \<times> bool" where
  "utf8_tail 0 lo hi bs = (0, True)"
| "utf8_tail (Suc n) lo hi [] = (0, False)"
| "utf8_tail (Suc n) lo hi (b # bs) =
     (if lo \<le> b \<and> b \<le> hi then (case utf8_tail n 0x80 0xBF bs of (k, full) \<Rightarrow> (Suc k, full)) else (0, False))"

definition utf8_more :: "u8 \<Rightarrow> (nat \<times> u8 \<times> u8) option" where
  "utf8_more b =
     (if b < 0x80 then Some (0, 0, 0)
      else if 0xC2 \<le> b \<and> b \<le> 0xDF then Some (1, 0x80, 0xBF)
      else if b = 0xE0 then Some (2, 0xA0, 0xBF)
      else if b = 0xED then Some (2, 0x80, 0x9F)
      else if 0xE1 \<le> b \<and> b \<le> 0xEF then Some (2, 0x80, 0xBF)
      else if b = 0xF0 then Some (3, 0x90, 0xBF)
      else if 0xF1 \<le> b \<and> b \<le> 0xF3 then Some (3, 0x80, 0xBF)
      else if b = 0xF4 then Some (3, 0x80, 0x8F)
      else None)"

definition utf8_first :: "u8 \<Rightarrow> u8 list \<Rightarrow> nat \<times> bool" where
  "utf8_first b bs = (case utf8_more b of None \<Rightarrow> (0, False) | Some (n, lo, hi) \<Rightarrow> utf8_tail n lo hi bs)"

function from_utf8_lossy :: "u8 list \<Rightarrow> string" where
  "from_utf8_lossy [] = []"
| "from_utf8_lossy (b # bs) =
     (case utf8_first b bs of (k, full) \<Rightarrow>
        (if full then map byte_char (b # take k bs) else [CHR 0xEF, CHR 0xBF, CHR 0xBD])
        @ from_utf8_lossy (drop k bs))"
  by pat_completeness auto
termination by (relation "measure length") (auto simp: le_imp_less_Suc)

section \<open>The policy on branch URLs\<close>

datatype invoke_error =
    Rejected dtm_error
  | OriginNotBare
  | OriginNotAllowed
  | InvalidGrpcCallback
  | InvalidWebhook
  | CallbackRequest string
  | SendFailed
  | UnexpectedStatus nat
  | ResponseTooLong
  | InvalidResponse string

definition map_err :: "('e \<Rightarrow> 'f) \<Rightarrow> 'e + 'a \<Rightarrow> 'f + 'a" where
  "map_err f r = (case r of Inl e \<Rightarrow> Inl (f e) | Inr x \<Rightarrow> Inr x)"

text \<open>\<open>None\<close>: every origin is allowed.\<close>

record branch_url_policy =
  allowed_origins :: "string list option"

definition allow_all :: branch_url_policy where
  "allow_all = \<lparr>allowed_origins = None\<rparr>"

definition bare_origin :: "libs \<Rightarrow> string \<Rightarrow> invoke_error + string" where
  "bare_origin L value =
     res_bind (map_err Rejected (parse_branch_url L value)) (\<lambda>u.
     res_seq (ensure (path u = ''/'' \<and> query u = None \<and> fragment u = None) OriginNotBare)
     (Inr (origin u)))"

definition from_allowed_origins :: "libs \<Rightarrow> string list \<Rightarrow> invoke_error + branch_url_policy" where
  "from_allowed_origins L values =
     res_bind (res_map (bare_origin L) values) (\<lambda>os. Inr \<lparr>allowed_origins = Some (remdups os)\<rparr>)"

definition policy_validate :: "libs \<Rightarrow> branch_url_policy \<Rightarrow> string \<Rightarrow> invoke_error + unit" where
  "policy_validate L P value =
     res_bind (map_err Rejected (parse_branch_url L value)) (\<lambda>u.
     case allowed_origins P of None \<Rightarrow> Inr () | Some os \<Rightarrow> ensure (origin u \<in> set os) OriginNotAllowed)"

record grpc_callback_target =
  endpoint :: string
  grpc_method :: string

definition grpc_scheme :: "string \<Rightarrow> string \<times> string" where
  "grpc_scheme value =
     (case strip_prefix ''grpc://'' value of Some r \<Rightarrow> (''http'', r)
      | None \<Rightarrow> (case strip_prefix ''http://'' value of Some r \<Rightarrow> (''http'', r)
      | None \<Rightarrow> (case strip_prefix ''grpcs://'' value of Some r \<Rightarrow> (''https'', r)
      | None \<Rightarrow> (case strip_prefix ''https://'' value of Some r \<Rightarrow> (''https'', r)
      | None \<Rightarrow> (''http'', value)))))"

definition parse_grpc_callback_target :: "libs \<Rightarrow> string \<Rightarrow> invoke_error + grpc_callback_target" where
  "parse_grpc_callback_target L value =
     res_seq (ensure (value \<noteq> [] \<and> length value \<le> 2048) InvalidGrpcCallback)
     (case grpc_scheme value of (sch, remainder) \<Rightarrow>
      res_bind (ok_or (split_once (CHR ''/'') remainder) InvalidGrpcCallback) (\<lambda>(authority, method).
      res_seq (ensure (authority \<noteq> [] \<and> method \<noteq> [] \<and> CHR ''?'' \<notin> set method \<and> CHR ''#'' \<notin> set method
                 \<and> list_all (\<lambda>seg. seg \<noteq> []) (split_at_char (CHR ''/'') method)) InvalidGrpcCallback)
      (let ep = sch @ ''://'' @ authority in
       res_bind (map_err Rejected (parse_branch_url L ep)) (\<lambda>parsed.
       res_seq (ensure (path parsed = ''/'' \<and> query parsed = None) InvalidGrpcCallback)
       (Inr \<lparr>endpoint = ep, grpc_method = CHR ''/'' # method\<rparr>)))))"

definition validate_callback :: "libs \<Rightarrow> branch_url_policy \<Rightarrow> string \<Rightarrow> invoke_error + unit" where
  "validate_callback L P value =
     (if starts_with ''http://'' value \<or> starts_with ''https://'' value then policy_validate L P value
      else res_bind (parse_grpc_callback_target L value) (\<lambda>target. policy_validate L P (endpoint target)))"

section \<open>The invoker\<close>

text \<open>A duration counts nanoseconds.\<close>

type_synonym duration = nat

definition from_millis :: "u64 \<Rightarrow> duration" where
  "from_millis ms = unat ms * 1000000"

record alert_webhook_config =
  hook_url :: string
  hook_retry_limit :: u32
  hook_timeout :: duration

definition webhook_validate :: "libs \<Rightarrow> alert_webhook_config \<Rightarrow> invoke_error + unit" where
  "webhook_validate L c =
     res_bind (map_err Rejected (parse_branch_url L (hook_url c))) (\<lambda>_.
     res_seq (ensure (1 \<le> hook_retry_limit c \<and> hook_retry_limit c \<le> 10000) InvalidWebhook)
     (ensure (from_millis 1 \<le> hook_timeout c \<and> hook_timeout c \<le> 120 * 1000000000) InvalidWebhook))"

record http_invoker =
  url_policy :: branch_url_policy
  default_timeout :: "duration option"
  alert_webhook :: "alert_webhook_config option"

datatype http_body = NoBody | JsonBody json | RawBody "u8 list"

record http_request =
  rq_method :: string
  rq_url :: url
  rq_body :: http_body
  rq_headers :: "(string \<times> string) list"
  rq_timeout :: "duration option"

text \<open>A body arrives in chunks; \<open>None\<close> among them is a failure of the connection.\<close>

record http_response =
  rs_status :: nat
  rs_content_length :: "u64 option"
  rs_chunks :: "u8 list option list"

type_synonym network = "http_request \<Rightarrow> http_response option"

definition request_to :: "libs \<Rightarrow> string \<Rightarrow> http_body \<Rightarrow> invoke_error + http_request" where
  "request_to L value body =
     res_bind (ok_or (parse_url L value) SendFailed) (\<lambda>u.
     Inr \<lparr>rq_method = ''POST'', rq_url = u, rq_body = body, rq_headers = [], rq_timeout = None\<rparr>)"

definition apply_http_transaction_options :: "transaction_options \<Rightarrow> http_request \<Rightarrow> http_request" where
  "apply_http_transaction_options opts rq =
     (let rq1 = (case request_timeout_millis opts of None \<Rightarrow> rq
                 | Some t \<Rightarrow> rq\<lparr>rq_timeout := Some (from_millis t)\<rparr>) in
      rq1\<lparr>rq_headers := rq_headers rq1 @ branch_headers opts\<rparr>)"

definition invoke_request :: "libs \<Rightarrow> http_invoker \<Rightarrow> string \<Rightarrow> json \<Rightarrow> transaction_options \<Rightarrow> invoke_error + http_request" where
  "invoke_request L hi value pl opts =
     res_seq (policy_validate L (url_policy hi) value)
     (res_seq (map_err Rejected (options_validate L opts))
     (res_bind (request_to L value (JsonBody pl)) (\<lambda>rq. Inr (apply_http_transaction_options opts rq))))"

definition is_success :: "nat \<Rightarrow> bool" where
  "is_success st \<longleftrightarrow> 200 \<le> st \<and> st < 300"

definition invoke_with_options ::
  "libs \<Rightarrow> http_invoker \<Rightarrow> network \<Rightarrow> string \<Rightarrow> json \<Rightarrow> transaction_options \<Rightarrow> invoke_error + unit" where
  "invoke_with_options L hi net value pl opts =
     res_bind (invoke_request L hi value pl opts) (\<lambda>rq.
     res_bind (ok_or (net rq) SendFailed) (\<lambda>response.
     ensure (is_success (rs_status response)) (UnexpectedStatus (rs_status response))))"

definition alert_json :: "branch_failure_alert \<Rightarrow> json" where
  "alert_json a = JObject [(''gid'', JString (alert_gid a)), (''status'', JString (alert_status a)),
     (''branch'', JString (alert_branch a)), (''error'', JString (alert_error a)),
     (''retry_count'', JInt (uint (alert_retry_count a)))]"

definition alert_request :: "libs \<Rightarrow> http_invoker \<Rightarrow> branch_failure_alert \<Rightarrow> (invoke_error + http_request) option" where
  "alert_request L hi a =
     (case alert_webhook hi of None \<Rightarrow> None
      | Some hook \<Rightarrow>
          if branch_alert_due (alert_retry_count a) (hook_retry_limit hook)
          then Some (request_to L (hook_url hook) (JsonBody (alert_json a))) else None)"

definition http_notify_branch_failure :: "libs \<Rightarrow> http_invoker \<Rightarrow> network \<Rightarrow> branch_failure_alert \<Rightarrow> invoke_error + unit" where
  "http_notify_branch_failure L hi net a =
     (case alert_request L hi a of None \<Rightarrow> Inr ()
      | Some built \<Rightarrow>
          res_bind built (\<lambda>rq.
          res_bind (ok_or (net rq) SendFailed) (\<lambda>response.
          ensure (is_success (rs_status response)) (UnexpectedStatus (rs_status response)))))"

section \<open>Querying a callback workflow\<close>

definition json_get :: "json \<Rightarrow> string \<Rightarrow> json option" where
  "json_get j k = (case j of JObject fs \<Rightarrow> map_of fs k | _ \<Rightarrow> None)"

definition as_i64_json :: "json \<Rightarrow> int option" where
  "as_i64_json j = (case j of JInt n \<Rightarrow> if - (2 ^ 63) \<le> n \<and> n < 2 ^ 63 then Some n else None | _ \<Rightarrow> None)"

definition json_from_slice :: "libs \<Rightarrow> u8 list \<Rightarrow> json option" where
  "json_from_slice L bs = parse_json L (map byte_char bs)"

fun read_chunks :: "nat \<Rightarrow> u8 list \<Rightarrow> u8 list option list \<Rightarrow> invoke_error + u8 list" where
  "read_chunks limit body [] = Inr body"
| "read_chunks limit body (None # cs) = Inl SendFailed"
| "read_chunks limit body (Some chunk # cs) =
     (if length body + length chunk \<le> limit then read_chunks limit (body @ chunk) cs else Inl ResponseTooLong)"

definition limited_response_bytes :: "http_response \<Rightarrow> nat \<Rightarrow> invoke_error + u8 list" where
  "limited_response_bytes response limit =
     (if (case rs_content_length response of None \<Rightarrow> False | Some n \<Rightarrow> limit < unat n) then Inl ResponseTooLong
      else read_chunks limit [] (rs_chunks response))"

definition limited_response_text :: "http_response \<Rightarrow> nat \<Rightarrow> invoke_error + string option" where
  "limited_response_text response limit =
     res_bind (limited_response_bytes response limit) (\<lambda>body. Inr (bounded_reason (from_utf8_lossy body)))"

definition decode_json_rpc_callback_response :: "libs \<Rightarrow> http_response \<Rightarrow> invoke_error + workflow_callback_result" where
  "decode_json_rpc_callback_response L response =
     res_bind (limited_response_bytes response (64 * 1024)) (\<lambda>body.
     res_bind (ok_or (json_from_slice L body) (InvalidResponse ''json'')) (\<lambda>v.
     case json_get v ''error'' of
       None \<Rightarrow> Inr Completed
     | Some err \<Rightarrow>
         if err = JNull then Inr Completed
         else res_bind (ok_or (Option.bind (json_get err ''code'') as_i64_json) (InvalidResponse ''code'')) (\<lambda>code.
           if code = - 32901 then Inr (CallbackFailed (Option.bind (Option.bind (json_get err ''message'') as_str) bounded_reason))
           else if code = - 32902 then Inr Ongoing
           else Inl (InvalidResponse ''unexpected error code''))))"

definition add_workflow_callback_params :: "workflow_callback_request \<Rightarrow> (string \<times> json) list \<Rightarrow> (string \<times> json) list" where
  "add_workflow_callback_params cb fs =
     bt_insert ''op'' (JString (cb_operation cb)) (bt_insert ''branch_id'' (JString ''00'')
       (bt_insert ''trans_type'' (JString ''workflow'') (bt_insert ''gid'' (JString (cb_gid cb)) fs)))"

definition json_rpc_request :: "libs \<Rightarrow> workflow_callback_request \<Rightarrow> url \<Rightarrow> invoke_error + http_request" where
  "json_rpc_request L cb u =
     res_bind (ok_or (case find (\<lambda>p. fst p = ''method'') (query_pairs u) of None \<Rightarrow> None
                      | Some p \<Rightarrow> if snd p \<noteq> [] then Some (snd p) else None) (CallbackRequest ''method'')) (\<lambda>method.
     res_bind (if cb_data cb = [] then Inr []
               else res_bind (ok_or (json_from_slice L (cb_data cb)) (CallbackRequest ''data''))
                      (\<lambda>v. ok_or (as_object v) (CallbackRequest ''object''))) (\<lambda>fs.
     Inr \<lparr>rq_method = ''POST'', rq_url = u,
          rq_body = JsonBody (JObject [(''jsonrpc'', JString ''2.0''), (''id'', JString (cb_gid cb)),
            (''method'', JString method), (''params'', JObject (add_workflow_callback_params cb fs))]),
          rq_headers = [], rq_timeout = None\<rparr>))"

definition http_callback_request :: "workflow_callback_request \<Rightarrow> url \<Rightarrow> http_request" where
  "http_callback_request cb u =
     (let u' = u\<lparr>query := Some (query_pairs u @ [(''gid'', cb_gid cb), (''trans_type'', ''workflow''),
                   (''branch_id'', ''00''), (''op'', cb_operation cb)])\<rparr> in
      if cb_data cb = []
      then \<lparr>rq_method = ''GET'', rq_url = u', rq_body = NoBody, rq_headers = [], rq_timeout = None\<rparr>
      else \<lparr>rq_method = ''POST'', rq_url = u', rq_body = RawBody (cb_data cb),
            rq_headers = [(''content-type'', ''application/json'')], rq_timeout = None\<rparr>)"

definition callback_request ::
  "libs \<Rightarrow> http_invoker \<Rightarrow> workflow_callback_request \<Rightarrow> transaction_options \<Rightarrow> bool \<Rightarrow> invoke_error + http_request" where
  "callback_request L hi cb opts json_rpc =
     res_seq (policy_validate L (url_policy hi) (cb_url cb))
     (res_bind (ok_or (parse_url L (cb_url cb)) (CallbackRequest ''url'')) (\<lambda>u.
     res_bind (if json_rpc then json_rpc_request L cb u else Inr (http_callback_request cb u)) (\<lambda>rq.
     Inr (apply_http_transaction_options opts rq))))"

definition query_http_workflow_callback ::
  "libs \<Rightarrow> http_invoker \<Rightarrow> network \<Rightarrow> workflow_callback_request \<Rightarrow> transaction_options \<Rightarrow> bool \<Rightarrow> invoke_error + workflow_callback_result" where
  "query_http_workflow_callback L hi net cb opts json_rpc =
     res_bind (callback_request L hi cb opts json_rpc) (\<lambda>rq.
     res_bind (ok_or (net rq) SendFailed) (\<lambda>response.
     if rs_status response = 200 then
       if json_rpc then decode_json_rpc_callback_response L response else Inr Completed
     else if rs_status response = 409 then
       res_bind (limited_response_text response 4096) (\<lambda>reason. Inr (CallbackFailed reason))
     else if rs_status response = 425 then Inr Ongoing
     else Inl (UnexpectedStatus (rs_status response))))"

text \<open>
  gRPC: connecting to an endpoint, which metadata entries the library accepts, and what a unary call returns
  (\<open>None\<close> without an error, otherwise the code and the message of the status).
\<close>

datatype grpc_code = GrpcAborted | GrpcFailedPrecondition | GrpcOther

record grpc_request =
  gq_endpoint :: string
  gq_method :: string
  gq_data :: "u8 list"
  gq_metadata :: "(string \<times> string) list"
  gq_timeout :: "duration option"

record grpc_network =
  gn_connect :: "string \<Rightarrow> bool"
  gn_metadata_ok :: "string \<Rightarrow> string \<Rightarrow> bool"
  gn_unary :: "grpc_request \<Rightarrow> (grpc_code \<times> string) option"

definition insert_grpc_metadata ::
  "grpc_network \<Rightarrow> string \<Rightarrow> string \<Rightarrow> grpc_request \<Rightarrow> invoke_error + grpc_request" where
  "insert_grpc_metadata gn name v rq =
     res_seq (ensure (gn_metadata_ok gn name v) (CallbackRequest ''metadata''))
     (Inr (rq\<lparr>gq_metadata := filter (\<lambda>p. fst p \<noteq> name) (gq_metadata rq) @ [(name, v)]\<rparr>))"

definition grpc_metadata :: "workflow_callback_request \<Rightarrow> transaction_options \<Rightarrow> (string \<times> string) list" where
  "grpc_metadata cb opts =
     [(''dtm-gid'', cb_gid cb), (''dtm-trans_type'', ''workflow''), (''dtm-branch_id'', ''00''),
      (''dtm-op'', cb_operation cb), (''dtm-dtm'', [])]
     @ map (\<lambda>(name, v). (to_ascii_lowercase name, v)) (branch_headers opts)"

definition grpc_callback_request ::
  "libs \<Rightarrow> http_invoker \<Rightarrow> grpc_network \<Rightarrow> workflow_callback_request \<Rightarrow> transaction_options \<Rightarrow> invoke_error + grpc_request" where
  "grpc_callback_request L hi gn cb opts =
     res_bind (parse_grpc_callback_target L (cb_url cb)) (\<lambda>target.
     res_seq (policy_validate L (url_policy hi) (endpoint target))
     (res_seq (ensure (gn_connect gn (endpoint target)) SendFailed)
     (res_fold (\<lambda>(name, v) rq. insert_grpc_metadata gn name v rq) (grpc_metadata cb opts)
        \<lparr>gq_endpoint = endpoint target, gq_method = grpc_method target, gq_data = cb_data cb, gq_metadata = [],
         gq_timeout = (case request_timeout_millis opts of Some t \<Rightarrow> Some (from_millis t) | None \<Rightarrow> default_timeout hi)\<rparr>)))"

definition query_grpc_workflow_callback ::
  "libs \<Rightarrow> http_invoker \<Rightarrow> grpc_network \<Rightarrow> workflow_callback_request \<Rightarrow> transaction_options \<Rightarrow> invoke_error + workflow_callback_result" where
  "query_grpc_workflow_callback L hi gn cb opts =
     res_bind (grpc_callback_request L hi gn cb opts) (\<lambda>rq.
     case gn_unary gn rq of
       None \<Rightarrow> Inr Completed
     | Some (GrpcAborted, message) \<Rightarrow> Inr (CallbackFailed (bounded_reason message))
     | Some (GrpcFailedPrecondition, _) \<Rightarrow> Inr Ongoing
     | Some (GrpcOther, _) \<Rightarrow> Inl SendFailed)"

definition http_query_workflow_callback ::
  "libs \<Rightarrow> http_invoker \<Rightarrow> network \<Rightarrow> grpc_network \<Rightarrow> workflow_callback_request \<Rightarrow> transaction_options
    \<Rightarrow> invoke_error + workflow_callback_result" where
  "http_query_workflow_callback L hi net gn cb opts =
     res_seq (map_err Rejected (options_validate L opts))
     (case cb_protocol cb of
        Http \<Rightarrow> query_http_workflow_callback L hi net cb opts False
      | JsonRpc \<Rightarrow> query_http_workflow_callback L hi net cb opts True
      | Grpc \<Rightarrow> query_grpc_workflow_callback L hi gn cb opts)"

section \<open>What leaves the process\<close>

lemma map_err_eq_Inr [simp]: "map_err f r = Inr x \<longleftrightarrow> r = Inr x"
  by (cases r) (simp_all add: map_err_def)

definition admitted :: "libs \<Rightarrow> branch_url_policy \<Rightarrow> string \<Rightarrow> url \<Rightarrow> bool" where
  "admitted L P value u \<longleftrightarrow> parse_url L value = Some u \<and> scheme u \<in> {''http'', ''https''} \<and> host u \<noteq> None
     \<and> username u = [] \<and> password u = None \<and> (case allowed_origins P of None \<Rightarrow> True | Some os \<Rightarrow> origin u \<in> set os)"

lemma parse_branch_url_iff:
  "parse_branch_url L v = Inr u \<longleftrightarrow> v \<noteq> [] \<and> length v \<le> 2048 \<and> parse_url L v = Some u
     \<and> scheme u \<in> {''http'', ''https''} \<and> host u \<noteq> None \<and> username u = [] \<and> password u = None \<and> fragment u = None"
  by (auto simp: parse_branch_url_def res_bind_eq_Inr)

lemma policy_admits: "policy_validate L P v = Inr x \<Longrightarrow> \<exists>u. admitted L P v u"
  by (auto simp: policy_validate_def res_bind_eq_Inr parse_branch_url_iff admitted_def split: option.splits)

lemma allowed_origins_bare:
  assumes "from_allowed_origins L values = Inr P"
  shows "\<exists>os. allowed_origins P = Some os \<and> set os = {origin u | u v. v \<in> set values \<and> parse_branch_url L v = Inr u \<and> path u = ''/'' \<and> query u = None}
     \<and> (\<forall>v \<in> set values. \<exists>u. parse_branch_url L v = Inr u \<and> path u = ''/'' \<and> query u = None)"
proof -
  obtain os where os: "list_all2 (\<lambda>v o'. bare_origin L v = Inr o') values os" and P: "allowed_origins P = Some (remdups os)"
    using assms by (auto simp: from_allowed_origins_def res_bind_eq_Inr res_map_eq_Inr)
  have bare: "bare_origin L v = Inr o' \<longleftrightarrow> (\<exists>u. parse_branch_url L v = Inr u \<and> path u = ''/'' \<and> query u = None \<and> o' = origin u)" for v o'
    by (auto simp: bare_origin_def res_bind_eq_Inr parse_branch_url_iff)
  have all: "\<exists>u. parse_branch_url L v = Inr u \<and> path u = ''/'' \<and> query u = None" if "v \<in> set values" for v
    using os that unfolding list_all2_iff bare by (auto simp: in_set_conv_nth set_zip) blast
  have "set os = {origin u | u v. v \<in> set values \<and> parse_branch_url L v = Inr u \<and> path u = ''/'' \<and> query u = None}" (is "_ = ?O")
  proof
    show "set os \<subseteq> ?O"
      using os unfolding bare by (auto simp: list_all2_conv_all_nth in_set_conv_nth) (metis nth_mem)
    show "?O \<subseteq> set os"
      using os unfolding bare by (auto simp: list_all2_conv_all_nth in_set_conv_nth) (metis Inr_inject)
  qed
  then show ?thesis using P all by auto
qed

lemma apply_options_url [simp]: "rq_url (apply_http_transaction_options opts rq) = rq_url rq"
  by (simp add: apply_http_transaction_options_def Let_def split: option.splits)

text \<open>Two URLs that differ in the query only.\<close>

definition same_target :: "url \<Rightarrow> url \<Rightarrow> bool" where
  "same_target u v \<longleftrightarrow> (\<exists>q. v = u\<lparr>query := q\<rparr>)"

lemma same_target_refl [simp]: "same_target u u" "same_target u (u\<lparr>query := q\<rparr>)"
  by (auto simp: same_target_def intro: exI [of _ "query u"])

lemma callback_request_admitted:
  assumes "callback_request L hi cb opts rpc = Inr rq"
  shows "\<exists>u. admitted L (url_policy hi) (cb_url cb) u \<and> same_target u (rq_url rq)"
proof -
  from assms obtain x u where u: "policy_validate L (url_policy hi) (cb_url cb) = Inr x" "parse_url L (cb_url cb) = Some u"
    and rq: "same_target u (rq_url rq)"
    by (auto simp: callback_request_def res_bind_eq_Inr json_rpc_request_def http_callback_request_def Let_def split: if_splits)
  show ?thesis using policy_admits [OF u(1)] u(2) rq by (auto simp: admitted_def)
qed

lemma res_fold_metadata_endpoint:
  "res_fold (\<lambda>(name, v) rq. insert_grpc_metadata gn name v rq) ps rq = Inr rq' \<Longrightarrow> gq_endpoint rq' = gq_endpoint rq"
  by (induction ps arbitrary: rq) (auto simp: res_bind_eq_Inr insert_grpc_metadata_def)

lemma grpc_request_admitted:
  assumes "grpc_callback_request L hi gn cb opts = Inr rq"
  shows "\<exists>u. admitted L (url_policy hi) (gq_endpoint rq) u"
proof -
  have "\<exists>v. policy_validate L (url_policy hi) v = Inr () \<and> gq_endpoint rq = v"
    using assms by (auto simp: grpc_callback_request_def res_bind_eq_Inr dest!: res_fold_metadata_endpoint split: option.splits)
  then show ?thesis using policy_admits by blast
qed

text \<open>
  C16: Nothing but the configured services is called. Under a policy made from configured origins, every request
  the invoker sends for a branch or for a workflow callback (over HTTP, JSON-RPC or gRPC) goes by HTTP or HTTPS, without
  credentials in the URL, to the origin of one of the configured URLs; for HTTP, only the query can differ from the URL given.
\<close>

theorem invoker_respects_policy:
  assumes "from_allowed_origins L values = Inr (url_policy hi)"
  defines "configured u \<equiv> scheme u \<in> {''http'', ''https''} \<and> username u = [] \<and> password u = None
      \<and> (\<exists>v \<in> set values. \<exists>c. parse_url L v = Some c \<and> origin u = origin c)"
  shows "(invoke_request L hi value pl opts = Inr rq \<longrightarrow> parse_url L value = Some (rq_url rq) \<and> configured (rq_url rq))
    \<and> (callback_request L hi cb opts rpc = Inr crq \<longrightarrow>
        (\<exists>u. parse_url L (cb_url cb) = Some u \<and> configured u \<and> (\<exists>q. rq_url crq = u\<lparr>query := q\<rparr>)))
    \<and> (grpc_callback_request L hi gn cb opts = Inr grq \<longrightarrow>
        (\<exists>u. parse_url L (gq_endpoint grq) = Some u \<and> configured u))"
proof -
  obtain os where os: "allowed_origins (url_policy hi) = Some os"
      "set os = {origin u | u v. v \<in> set values \<and> parse_branch_url L v = Inr u \<and> path u = ''/'' \<and> query u = None}"
    using allowed_origins_bare [OF assms(1)] by blast
  have conf: "parse_url L v = Some u \<and> configured u" if "admitted L (url_policy hi) v u" for v u
  proof -
    have u: "parse_url L v = Some u" "scheme u \<in> {''http'', ''https''}" "username u = []" "password u = None" "origin u \<in> set os"
      using that os(1) by (simp_all add: admitted_def)
    then obtain w c where "w \<in> set values" "parse_branch_url L w = Inr c" "origin u = origin c" unfolding os(2) by blast
    then show ?thesis using u unfolding configured_def parse_branch_url_iff by blast
  qed
  have branch: "parse_url L value = Some (rq_url rq) \<and> configured (rq_url rq)" if "invoke_request L hi value pl opts = Inr rq"
  proof -
    from that obtain x where x: "policy_validate L (url_policy hi) value = Inr x" "parse_url L value = Some (rq_url rq)"
      by (auto simp: invoke_request_def request_to_def res_bind_eq_Inr)
    then have "admitted L (url_policy hi) value (rq_url rq)" using policy_admits [OF x(1)] by (auto simp: admitted_def)
    then show ?thesis by (rule conf)
  qed
  have callback: "\<exists>u. parse_url L (cb_url cb) = Some u \<and> configured u \<and> (\<exists>q. rq_url crq = u\<lparr>query := q\<rparr>)" if "callback_request L hi cb opts rpc = Inr crq"
    using callback_request_admitted [OF that] conf unfolding same_target_def by blast
  have grpc: "\<exists>u. parse_url L (gq_endpoint grq) = Some u \<and> configured u" if "grpc_callback_request L hi gn cb opts = Inr grq"
    using grpc_request_admitted [OF that] conf by blast
  show ?thesis using branch callback grpc by blast
qed

section \<open>What comes back\<close>

lemma floor_boundary_le: "floor_boundary s n \<le> n"
  by (induction n) auto

lemma bounded_reason_length: "bounded_reason s = Some r \<Longrightarrow> length r \<le> 4096"
  using floor_boundary_le [of "trim s" 4096] by (auto simp: bounded_reason_def Let_def split: if_splits)

lemma read_chunks_bounded:
  "read_chunks limit body cs = Inr bs \<Longrightarrow> length body \<le> limit \<Longrightarrow> length bs \<le> limit"
  by (induction limit body cs rule: read_chunks.induct) (auto split: if_splits)

lemma response_reason_bounded:
  "limited_response_text response n = Inr (Some r) \<Longrightarrow> length r \<le> 4096"
  by (auto simp: limited_response_text_def res_bind_eq_Inr bounded_reason_length)

lemma grpc_reason_bounded:
  assumes "query_grpc_workflow_callback L hi gn cb opts = Inr (CallbackFailed (Some r))"
  shows "length r \<le> 4096"
proof -
  obtain rq where "(case gn_unary gn rq of None \<Rightarrow> Inr Completed | Some (GrpcAborted, message) \<Rightarrow> Inr (CallbackFailed (bounded_reason message))
     | Some (GrpcFailedPrecondition, _) \<Rightarrow> Inr Ongoing | Some (GrpcOther, _) \<Rightarrow> Inl SendFailed) = Inr (CallbackFailed (Some r))"
    using assms by (auto simp: query_grpc_workflow_callback_def res_bind_eq_Inr)
  then obtain message where "bounded_reason message = Some r"
    by (cases "gn_unary gn rq") (auto split: grpc_code.splits)
  then show ?thesis by (rule bounded_reason_length)
qed

lemma callback_reason_bounded:
  assumes "http_query_workflow_callback L hi net gn cb opts = Inr (CallbackFailed (Some r))"
  shows "length r \<le> 4096"
  using assms
  by (auto simp: http_query_workflow_callback_def query_http_workflow_callback_def grpc_reason_bounded
      decode_json_rpc_callback_response_def res_bind_eq_Inr response_reason_bounded bind_eq_Some_conv bounded_reason_length
      split: workflow_callback_protocol.splits if_splits option.splits)

text \<open>
  A failure that a callback service reports can always be recorded: whatever the service answers, over whatever
  protocol, the reason that the invoker reads is within the bound of the completion, so that a prepared callback
  workflow is completed as failed with that reason.
\<close>

theorem callback_failure_recorded:
  assumes "http_query_workflow_callback L hi net gn cb opts = Inr (CallbackFailed (Some r))" and "r \<noteq> []"
    and "is_callback_workflow tx" and "tstatus tx = Prepared"
  shows "\<exists>tx'. apply_workflow_completion now tx Failed (Some r) None = Inr tx'
    \<and> tstatus tx' = Failed \<and> bt_get (metadata tx') ''rollback_reason'' = Some r"
  using callback_reason_bounded [OF assms(1)] assms(2-4)
  by (auto simp: apply_workflow_completion_def ensure_callback_workflow_def ensure_status_def set_or_remove_def
      is_callback_workflow_def bump_transaction_revision_def)

text \<open>A policy with one origin, a branch URL under it, and a service that reports a failure.\<close>

definition open_libs :: libs where
  "open_libs = sample_url_libs\<lparr>parse_url := (\<lambda>v. case strip_prefix ''http://h'' v of None \<Rightarrow> None
     | Some r \<Rightarrow> Some \<lparr>scheme = ''http'', host = Some ''h'', username = [], password = None,
         path = (if r = [] then ''/'' else r), query = None, fragment = None, origin = ''http://h''\<rparr>)\<rparr>"

definition sample_invoker :: http_invoker where
  "sample_invoker = \<lparr>url_policy = \<lparr>allowed_origins = Some [''http://h'']\<rparr>, default_timeout = None, alert_webhook = None\<rparr>"

theorem invoker_respects_policy_witness:
  "\<exists>rq. invoke_request open_libs sample_invoker ''http://h/do'' JNull default_transaction_options = Inr rq
    \<and> parse_url open_libs ''http://h/do'' = Some (rq_url rq) \<and> origin (rq_url rq) = ''http://h''"
proof -
  have policy: "from_allowed_origins open_libs [''http://h''] = Inr (url_policy sample_invoker)"
    by (simp add: from_allowed_origins_def bare_origin_def parse_branch_url_def open_libs_def strip_prefix_def sample_invoker_def map_err_def)
  have "\<exists>rq. invoke_request open_libs sample_invoker ''http://h/do'' JNull default_transaction_options = Inr rq"
    by (simp add: invoke_request_def policy_validate_def parse_branch_url_def open_libs_def strip_prefix_def sample_invoker_def map_err_def
        options_validate_def default_transaction_options_def request_to_def)
  then obtain rq where rq: "invoke_request open_libs sample_invoker ''http://h/do'' JNull default_transaction_options = Inr rq" by blast
  have parsed: "parse_url open_libs ''http://h/do'' = Some (rq_url rq)"
    using invoker_respects_policy [OF policy] rq by blast
  have "origin u = ''http://h''" if "parse_url open_libs ''http://h/do'' = Some u" for u
    using that by (auto simp: open_libs_def strip_prefix_def)
  then show ?thesis using rq parsed by blast
qed

definition sample_callback_request :: workflow_callback_request where
  "sample_callback_request = \<lparr>cb_gid = ''w1'', cb_url = ''http://h/q'', cb_operation = ''op'', cb_data = [], cb_protocol = Http\<rparr>"

theorem callback_failure_recorded_witness:
  "\<exists>tx'. apply_workflow_completion 5 (sample_callback\<lparr>tstatus := Prepared\<rparr>) Failed (Some ''no'') None = Inr tx' \<and> tstatus tx' = Failed
    \<and> bt_get (metadata tx') ''rollback_reason'' = Some ''no''"
proof -
  let ?net = "\<lambda>_. Some \<lparr>rs_status = 409, rs_content_length = None, rs_chunks = [Some [110], Some [111]]\<rparr>"
  have tx: "is_callback_workflow (sample_callback\<lparr>tstatus := Prepared\<rparr>)" "tstatus (sample_callback\<lparr>tstatus := Prepared\<rparr>) = Prepared"
    by (simp_all add: is_callback_workflow_def sample_defs bt_get_def)
  have "(of_char CHR ''n'' :: nat) = 110" "(of_char CHR ''o'' :: nat) = 111" by simp_all
  then have "char_of (110 :: nat) = CHR ''n''" "char_of (111 :: nat) = CHR ''o''" by (metis char_of_char)+
  then have utf8: "from_utf8_lossy [110, 111] = ''no''"
    by (simp add: utf8_first_def utf8_more_def byte_char_def)
  have trimmed: "trim ''no'' = ''no''"
    by (simp add: trim_def trim_start.simps trim_end.simps starts_with_def ends_with_def white_spaces_def)
  have "http_query_workflow_callback open_libs sample_invoker ?net gn sample_callback_request default_transaction_options
      = Inr (CallbackFailed (Some ''no''))" for gn
    by (simp add: http_query_workflow_callback_def query_http_workflow_callback_def callback_request_def policy_validate_def
        parse_branch_url_def open_libs_def strip_prefix_def sample_invoker_def map_err_def options_validate_def sample_callback_request_def
        default_transaction_options_def limited_response_text_def limited_response_bytes_def utf8 bounded_reason_def trimmed del: from_utf8_lossy.simps)
  from callback_failure_recorded [OF this _ tx] show ?thesis by simp
qed

end
