(* ===== verification/Service_Requests.thy ===== *)
theory Service_Requests
  imports Http_Invoker Topics
begin

text \<open>
  How the service (\<^verbatim>\<open>service/src/main.rs\<close>) turns requests into transactions: the native
  API (\<^verbatim>\<open>build_transaction\<close>), the API compatible with dtm-labs (\<^verbatim>\<open>compat_transaction\<close> and
  \<^verbatim>\<open>compat_registration_from_request\<close>), and the gRPC requests (\<^verbatim>\<open>service/src/grpc.rs\<close>) that are translated
  to the latter; and the names of kinds and states on the wire. Deserialisation is a parameter: a
  request is the record that was read.
\<close>

section \<open>Names\<close>

fun kind_name :: "transaction_kind \<Rightarrow> string" where
  "kind_name Tcc = ''tcc''"
| "kind_name Saga = ''saga''"
| "kind_name Workflow = ''workflow''"
| "kind_name Message = ''message''"
| "kind_name Xa = ''xa''"

fun compat_kind_name :: "transaction_kind \<Rightarrow> string" where
  "compat_kind_name Message = ''msg''"
| "compat_kind_name k = kind_name k"

fun status_name :: "transaction_status \<Rightarrow> string" where
  "status_name Submitted = ''submitted''"
| "status_name Trying = ''trying''"
| "status_name Prepared = ''prepared''"
| "status_name Succeeding = ''succeeding''"
| "status_name Succeeded = ''succeeded''"
| "status_name Aborting = ''aborting''"
| "status_name Aborted = ''aborted''"
| "status_name Failed = ''failed''"

fun compat_status_name :: "transaction_status \<Rightarrow> string" where
  "compat_status_name Submitted = ''submitted''"
| "compat_status_name Trying = ''submitted''"
| "compat_status_name Succeeding = ''submitted''"
| "compat_status_name Prepared = ''prepared''"
| "compat_status_name Succeeded = ''succeed''"
| "compat_status_name Aborting = ''aborting''"
| "compat_status_name Aborted = ''failed''"
| "compat_status_name Failed = ''failed''"

fun compat_workflow_status_name :: "transaction_status \<Rightarrow> string" where
  "compat_workflow_status_name Submitted = ''submitted''"
| "compat_workflow_status_name Trying = ''submitted''"
| "compat_workflow_status_name Succeeding = ''submitted''"
| "compat_workflow_status_name Prepared = ''prepared''"
| "compat_workflow_status_name Succeeded = ''succeed''"
| "compat_workflow_status_name Aborting = ''aborting''"
| "compat_workflow_status_name Aborted = ''failed''"
| "compat_workflow_status_name Failed = ''failed''"

fun branch_status_name :: "branch_status \<Rightarrow> string" where
  "branch_status_name BPending = ''pending''"
| "branch_status_name BRunning = ''running''"
| "branch_status_name BCompensating = ''compensating''"
| "branch_status_name BSucceeded = ''succeeded''"
| "branch_status_name BFailed = ''failed''"
| "branch_status_name BSkipped = ''skipped''"

fun workflow_progress_status_name :: "workflow_progress_status \<Rightarrow> string" where
  "workflow_progress_status_name ProgressSucceeded = ''succeed''"
| "workflow_progress_status_name ProgressFailed = ''failed''"

definition parse_kind :: "string \<Rightarrow> string + transaction_kind" where
  "parse_kind value =
     (let v = to_ascii_lowercase value in
      if v = ''tcc'' then Inr Tcc
      else if v = ''saga'' then Inr Saga
      else if v = ''workflow'' then Inr Workflow
      else if v = ''message'' \<or> v = ''msg'' then Inr Message
      else if v = ''xa'' then Inr Xa
      else Inl ''kind must be tcc, saga, workflow, message, or xa'')"

definition parse_status :: "string \<Rightarrow> string + transaction_status" where
  "parse_status value =
     (let v = to_ascii_lowercase value in
      if v = ''submitted'' then Inr Submitted
      else if v = ''trying'' then Inr Trying
      else if v = ''prepared'' then Inr Prepared
      else if v = ''succeeding'' then Inr Succeeding
      else if v = ''succeeded'' then Inr Succeeded
      else if v = ''aborting'' then Inr Aborting
      else if v = ''aborted'' then Inr Aborted
      else if v = ''failed'' then Inr Failed
      else Inl ''invalid transaction status'')"

section \<open>Native submissions\<close>

record branch_request =
  br_id :: string
  br_kind :: "branch_kind option"
  br_action :: string
  br_compensate :: "string option"
  br_confirm :: "string option"
  br_cancel :: "string option"
  br_payload :: json
  br_dependencies :: "string list"

record submit_transaction_request =
  sr_gid :: string
  sr_kind :: "transaction_kind option"
  sr_branches :: "branch_request list"
  sr_timeout_millis :: "u64 option"
  sr_metadata :: "(string, string) btree_map"
  sr_options :: transaction_options

definition policy_ok :: "libs \<Rightarrow> branch_url_policy \<Rightarrow> string \<Rightarrow> bool" where
  "policy_ok L P u = is_ok (policy_validate L P u)"

definition allowed_url :: "libs \<Rightarrow> branch_url_policy \<Rightarrow> string option \<Rightarrow> string option" where
  "allowed_url L P u = (case u of None \<Rightarrow> None | Some v \<Rightarrow> if policy_ok L P v then Some v else None)"

fun build_branch :: "libs \<Rightarrow> branch_url_policy \<Rightarrow> transaction_kind \<Rightarrow> branch_request \<Rightarrow> string + branch" where
  "build_branch L P Tcc b =
     res_seq (ensure (opt_all (\<lambda>k. k = TccTry) (br_kind b)) ''TCC branches must use TccTry kind'')
     (case (allowed_url L P (br_confirm b), allowed_url L P (br_cancel b)) of
        (Some confirm_url, Some cancel_url) \<Rightarrow> Inr (branch_tcc_try (br_id b) (br_action b) confirm_url cancel_url (br_payload b))
      | _ \<Rightarrow> Inl ''TCC branches require valid confirm and cancel URLs'')"
| "build_branch L P Saga b =
     res_seq (ensure (opt_all (\<lambda>k. k = SagaAction) (br_kind b)) ''Saga branches must use SagaAction kind'')
     (case allowed_url L P (br_compensate b) of
        Some u \<Rightarrow> Inr ((branch_saga (br_id b) (br_action b) u (br_payload b))\<lparr>dependencies := br_dependencies b\<rparr>)
      | None \<Rightarrow> Inl ''Saga branches require a valid compensate URL'')"
| "build_branch L P Workflow b =
     res_bind (ok_or (allowed_url L P (br_compensate b)) ''Workflow branches require a valid compensate URL'') (\<lambda>u.
       Inr (branch_workflow (br_id b) (br_action b) u (br_dependencies b) (br_payload b)))"
| "build_branch L P Message b =
     res_seq (ensure (br_dependencies b = []) ''Message branches do not support dependencies'')
     (Inr (branch_message (br_id b) (br_action b) (br_payload b)))"
| "build_branch L P Xa b =
     res_bind (ok_or (allowed_url L P (case br_cancel b of Some u \<Rightarrow> Some u | None \<Rightarrow> br_compensate b))
        ''XA branches require a valid rollback URL'') (\<lambda>u.
       Inr (branch_xa (br_id b) (br_action b) u (br_payload b)))"

definition action_is_topic :: "transaction_kind \<Rightarrow> string \<Rightarrow> bool" where
  "action_is_topic k a \<longleftrightarrow> k = Message \<and> starts_with ''topic://'' a \<and> length ''topic://'' < length a"

primrec build_branches ::
  "libs \<Rightarrow> branch_url_policy \<Rightarrow> transaction_kind \<Rightarrow> string list \<Rightarrow> branch_request list \<Rightarrow> string + branch list" where
  "build_branches L P k ids [] = Inr []"
| "build_branches L P k ids (b # bs) =
     res_seq (ensure (\<not> (trim (br_id b) = [] \<or> 128 < length (br_id b) \<or> br_id b \<in> set ids
          \<or> \<not> action_is_topic k (br_action b) \<and> \<not> policy_ok L P (br_action b))) ''branch id or action URL is invalid'')
     (res_bind (build_branch L P k b) (\<lambda>x.
      res_bind (build_branches L P k (br_id b # ids) bs) (\<lambda>rest. Inr (x # rest))))"

definition metadata_bounded :: "(string, string) btree_map \<Rightarrow> bool" where
  "metadata_bounded m \<longleftrightarrow> length m \<le> 32 \<and> list_all (\<lambda>(k, v). k \<noteq> [] \<and> length k \<le> 64 \<and> length v \<le> 256) m"

definition build_transaction ::
  "u64 \<Rightarrow> libs \<Rightarrow> branch_url_policy \<Rightarrow> transaction_kind \<Rightarrow> submit_transaction_request \<Rightarrow> string + transaction" where
  "build_transaction now L P k rq =
     (let g = trim (sr_gid rq) in
      res_seq (ensure (g \<noteq> [] \<and> length g \<le> 128) ''gid must contain between 1 and 128 bytes'')
      (res_seq (ensure (opt_all (\<lambda>rk. rk = k) (sr_kind rq)) ''transaction kind does not match endpoint'')
      (res_seq (ensure (sr_branches rq \<noteq> [] \<and> length (sr_branches rq) \<le> 100) ''branches must contain between 1 and 100 items'')
      (res_seq (ensure (metadata_bounded (sr_metadata rq)) ''metadata exceeds bounded key or value limits'')
      (res_bind (build_branches L P k [] (sr_branches rq)) (\<lambda>bs.
       let tx = (transaction_new now g k bs)\<lparr>metadata := sr_metadata rq\<rparr> in
       res_seq (map_err (\<lambda>_. ''transaction options are invalid'') (options_validate L (sr_options rq)))
       (res_seq (ensure (k = Message \<or> delay_millis (sr_options rq) = None) ''delay_millis is only supported by Message transactions'')
       (let tx = tx\<lparr>toptions := sr_options rq\<rparr> in
        res_seq (map_err (\<lambda>_. ''concurrent options or Saga dependencies are invalid'') (validate_transaction_dependencies tx))
        (case sr_timeout_millis rq of
           None \<Rightarrow> Inr tx
         | Some t \<Rightarrow>
             res_seq (ensure (1000 \<le> t \<and> t \<le> 86400000) ''timeout_millis must be between 1000 and 86400000'')
             (Inr (tx\<lparr>timeout_millis := Some t\<rparr>)))))))))))"

section \<open>Compatible requests\<close>

datatype compat_protocol = ViaHttp | ViaJsonRpc | ViaGrpc

fun protocol_name :: "compat_protocol \<Rightarrow> string" where
  "protocol_name ViaHttp = ''http''"
| "protocol_name ViaJsonRpc = ''json-rpc''"
| "protocol_name ViaGrpc = ''grpc''"

datatype compat_operation = OpPrepare | OpSubmit | OpAbort

record compat_transaction_request =
  cr_gid :: string
  cr_trans_type :: string
  cr_steps :: "(string, string) btree_map list"
  cr_payloads :: "json list"
  cr_timeout_to_fail :: "u64 option"
  cr_rollback_reason :: "string option"
  cr_custom_data :: "string option"
  cr_query_prepared :: "string option"
  cr_wait_result :: bool
  cr_concurrent :: bool
  cr_retry_interval :: "u64 option"
  cr_request_timeout :: "u64 option"
  cr_retry_limit :: "u64 option"
  cr_branch_headers :: "(string, string) btree_map"
  cr_req_extra :: "(string, string) btree_map"
  cr_protocol :: compat_protocol

record compat_branch_request =
  cb_req_gid :: string
  cb_trans_type :: string
  cb_branch_id :: string
  cb_text :: "string option"
  cb_op :: "string option"
  cb_status :: "string option"
  cb_confirm :: "string option"
  cb_cancel :: "string option"
  cb_url2 :: "string option"
  cb_binary :: "u8 list option"

record compat_saga_custom =
  custom_concurrent :: bool
  custom_orders :: "(nat, nat list) btree_map"

record rpc_request =
  rpc_jsonrpc :: string
  rpc_id :: json
  rpc_method :: string
  rpc_params :: json

text \<open>Serialisation by third-party code, as far as the service uses it.\<close>

record codecs =
  decode_message_custom :: "json \<Rightarrow> u64 option"
  decode_saga_custom :: "json \<Rightarrow> compat_saga_custom option"
  encode_map :: "(string, string) btree_map \<Rightarrow> string"
  decode_map :: "string \<Rightarrow> (string, string) btree_map option"
  decode_steps :: "string \<Rightarrow> (string, string) btree_map list option"
  print_json :: "json \<Rightarrow> string"
  base64_encode :: "u8 list \<Rightarrow> string"
  decode_rpc :: "json \<Rightarrow> rpc_request option"
  decode_transaction_request :: "json \<Rightarrow> compat_transaction_request option"
  decode_branch_request :: "json \<Rightarrow> compat_branch_request option"

datatype svc_error =
    Refused string
  | FromDtm dtm_error
  | FromPolicy invoke_error

type_synonym 'a svc = "svc_error + 'a"

definition string_bytes :: "string \<Rightarrow> u8 list" where
  "string_bytes s = map (\<lambda>c. of_nat (of_char c)) s"

definition nonempty :: "string option \<Rightarrow> string option" where
  "nonempty v = (case v of Some s \<Rightarrow> if s = [] then None else Some s | None \<Rightarrow> None)"

text \<open>\<^verbatim>\<open>u32::try_from\<close> of a 64-bit number.\<close>

definition u32_try_from :: "u64 \<Rightarrow> u32 option" where
  "u32_try_from v = (if unat v < 2 ^ 32 then Some (ucast v) else None)"

definition compat_transaction_options :: "libs \<Rightarrow> compat_transaction_request \<Rightarrow> transaction_options svc" where
  "compat_transaction_options L rq =
     res_bind (case cr_retry_limit rq of None \<Rightarrow> Inr None
               | Some v \<Rightarrow> (case u32_try_from v of None \<Rightarrow> Inl (Refused ''retry limit'') | Some n \<Rightarrow> Inr (Some n))) (\<lambda>limit.
     let opts = \<lparr>wait_result = cr_wait_result rq, concurrent = cr_concurrent rq, delay_millis = None,
       retry_interval_millis = map_option (\<lambda>s. sat_mul s 1000) (cr_retry_interval rq),
       request_timeout_millis = map_option (\<lambda>s. sat_mul s 1000) (cr_request_timeout rq),
       retry_limit = limit, branch_headers = cr_branch_headers rq\<rparr> in
     res_seq (map_err FromDtm (options_validate L opts)) (Inr opts))"

definition step_payload :: "libs \<Rightarrow> compat_transaction_request \<Rightarrow> nat \<Rightarrow> json" where
  "step_payload L rq i =
     (case (if i < length (cr_payloads rq) then cr_payloads rq ! i else JNull) of
        JString encoded \<Rightarrow> (case parse_json L encoded of Some v \<Rightarrow> v | None \<Rightarrow> JString encoded)
      | v \<Rightarrow> v)"

definition step_url :: "libs \<Rightarrow> branch_url_policy \<Rightarrow> (string, string) btree_map \<Rightarrow> string \<Rightarrow> string svc" where
  "step_url L P step k =
     res_bind (ok_or (bt_get step k) (Refused (''step '' @ k @ '' is required''))) (\<lambda>u.
     res_seq (map_err FromPolicy (policy_validate L P u)) (Inr u))"

definition compat_branch ::
  "libs \<Rightarrow> branch_url_policy \<Rightarrow> transaction_kind \<Rightarrow> compat_transaction_request \<Rightarrow> nat \<times> (string, string) btree_map \<Rightarrow> branch svc" where
  "compat_branch L P k rq = (\<lambda>(i, step).
     let pl = step_payload L rq i; b = show_nat_02 (i + 1) in
     res_bind (ok_or (bt_get step ''action'') (Refused ''step action is required'')) (\<lambda>act.
     res_seq (if k \<noteq> Message \<or> \<not> starts_with ''topic://'' act then map_err FromPolicy (policy_validate L P act) else Inr ())
     (case k of
        Saga \<Rightarrow> res_bind (step_url L P step ''compensate'') (\<lambda>cmp. Inr (branch_saga b act cmp pl))
      | Workflow \<Rightarrow> res_bind (step_url L P step ''compensate'') (\<lambda>cmp.
          Inr (branch_workflow b act cmp (if i = 0 then [] else [show_nat_02 i]) pl))
      | Message \<Rightarrow> Inr (branch_message b act pl)
      | _ \<Rightarrow> Inl (Refused ''tcc and xa branches must be registered dynamically''))))"

definition apply_compat_message_custom :: "libs \<Rightarrow> codecs \<Rightarrow> compat_transaction_request \<Rightarrow> transaction \<Rightarrow> transaction svc" where
  "apply_compat_message_custom L C rq tx =
     (case nonempty (cr_custom_data rq) of None \<Rightarrow> Inr tx
      | Some text \<Rightarrow>
          res_bind (ok_or (parse_json L text) (Refused ''Message custom_data must be valid JSON'')) (\<lambda>v.
          if json_get v ''delay'' = None then Inr tx
          else res_bind (ok_or (decode_message_custom C v) (Refused ''Message custom_data.delay must be a non-negative integer'')) (\<lambda>delay.
            if 0 < delay then
              (if unat delay * 1000 < 2 ^ 64 then Inr (tx\<lparr>toptions := (toptions tx)\<lparr>delay_millis := Some (delay * 1000)\<rparr>\<rparr>)
               else Inl (Refused ''Message delay exceeds the supported range''))
            else Inr tx)))"

definition apply_order :: "nat \<times> nat list \<Rightarrow> transaction \<Rightarrow> transaction svc" where
  "apply_order = (\<lambda>(i, deps) tx.
     res_seq (ensure (i < length (branches tx)) (Refused ''Saga order branch index is out of range''))
     (res_seq (ensure (list_all (\<lambda>d. d < i) deps) (Refused ''Saga order dependencies must precede their branch''))
     (Inr (tx\<lparr>branches := (branches tx)[i := (branches tx ! i)\<lparr>dependencies := map (\<lambda>d. bid (branches tx ! d)) deps\<rparr>]\<rparr>))))"

definition apply_compat_saga_custom :: "libs \<Rightarrow> codecs \<Rightarrow> compat_transaction_request \<Rightarrow> transaction \<Rightarrow> transaction svc" where
  "apply_compat_saga_custom L C rq tx =
     (case nonempty (cr_custom_data rq) of None \<Rightarrow> Inr tx
      | Some text \<Rightarrow>
          (case parse_json L text of None \<Rightarrow> Inr tx
           | Some v \<Rightarrow>
               if json_get v ''concurrent'' = None \<and> json_get v ''orders'' = None then Inr tx
               else res_bind (ok_or (decode_saga_custom C v) (Refused ''Saga custom_data must contain valid concurrent options'')) (\<lambda>custom.
                 res_seq (ensure (custom_concurrent custom \<or> custom_orders custom = []) (Refused ''Saga orders require concurrent=true''))
                 (res_fold apply_order (custom_orders custom)
                    (tx\<lparr>toptions := (toptions tx)\<lparr>concurrent := custom_concurrent custom\<rparr>\<rparr>)))))"

definition compat_transaction ::
  "u64 \<Rightarrow> libs \<Rightarrow> codecs \<Rightarrow> branch_url_policy \<Rightarrow> transaction_kind \<Rightarrow> compat_transaction_request \<Rightarrow> transaction svc" where
  "compat_transaction now L C P k rq =
     res_bind (res_map (compat_branch L P k rq) (zip [0..<length (cr_steps rq)] (cr_steps rq))) (\<lambda>bs.
     let tx = (case k of
         Tcc \<Rightarrow> transaction_tcc now (cr_gid rq) []
       | Xa \<Rightarrow> transaction_xa now (cr_gid rq) []
       | Saga \<Rightarrow> transaction_saga now (cr_gid rq) bs
       | Workflow \<Rightarrow> transaction_workflow now (cr_gid rq) bs
       | Message \<Rightarrow> transaction_message now (cr_gid rq) bs) in
     res_bind (compat_transaction_options L rq) (\<lambda>opts.
     let tx = tx\<lparr>toptions := opts\<rparr> in
     if k = Saga then apply_compat_saga_custom L C rq tx
     else if k = Message then apply_compat_message_custom L C rq tx
     else Inr tx))"

definition insert_some :: "string \<Rightarrow> string option \<Rightarrow> (string, string) btree_map \<Rightarrow> (string, string) btree_map" where
  "insert_some k v m = (case v of None \<Rightarrow> m | Some x \<Rightarrow> bt_insert k x m)"

definition preserve_compat_metadata :: "codecs \<Rightarrow> compat_transaction_request \<Rightarrow> transaction \<Rightarrow> transaction" where
  "preserve_compat_metadata C rq tx =
     (let m1 = insert_some ''dtm.query_prepared'' (nonempty (cr_query_prepared rq))
                 (insert_some ''dtm.custom_data'' (nonempty (cr_custom_data rq)) (metadata tx));
          m2 = bt_insert ''dtm.protocol'' (protocol_name (cr_protocol rq))
                 (bt_insert ''dtm.wait_result'' (if cr_wait_result rq then ''true'' else ''false'') m1);
          m3 = insert_some ''dtm.retry_limit'' (map_option show_word (cr_retry_limit rq))
                 (insert_some ''dtm.request_timeout'' (map_option show_word (cr_request_timeout rq))
                    (insert_some ''dtm.retry_interval'' (map_option show_word (cr_retry_interval rq)) m2));
          m4 = (if cr_branch_headers rq = [] then m3 else bt_insert ''dtm.branch_headers'' (encode_map C (cr_branch_headers rq)) m3);
          m5 = (if cr_req_extra rq = [] then m4 else bt_insert ''dtm.req_extra'' (encode_map C (cr_req_extra rq)) m4)
      in tx\<lparr>metadata := m5\<rparr>)"

record callback_workflow_completion =
  cc_status :: transaction_status
  cc_rollback_reason :: "string option"
  cc_result :: "string option"

definition callback_workflow_completion_of ::
  "transaction_kind \<Rightarrow> compat_operation \<Rightarrow> compat_transaction_request \<Rightarrow> callback_workflow_completion option svc" where
  "callback_workflow_completion_of k oper rq =
     (if k \<noteq> Workflow \<or> oper \<noteq> OpSubmit then Inr None
      else case bt_get (cr_req_extra rq) ''status'' of
        None \<Rightarrow> Inr None
      | Some st \<Rightarrow>
          res_bind (if st = ''succeed'' \<or> st = ''succeeded'' then Inr Succeeded else if st = ''failed'' then Inr Failed
                    else Inl (Refused ''callback workflow status must be succeed or failed'')) (\<lambda>status.
          Inr (Some \<lparr>cc_status = status, cc_rollback_reason = bt_get (cr_req_extra rq) ''rollback_reason'',
            cc_result = bt_get (cr_req_extra rq) ''result''\<rparr>)))"

section \<open>Dynamic registration\<close>

datatype compat_registration = RegisterOne branch | RegisterProgress workflow_progress

definition registration_progress :: "compat_branch_request \<Rightarrow> compat_registration svc" where
  "registration_progress rq =
     res_bind (case cb_status rq of
         Some st \<Rightarrow> if st = ''succeed'' \<or> st = ''succeeded'' then Inr ProgressSucceeded
                    else if st = ''failed'' then Inr ProgressFailed
                    else Inl (Refused ''workflow progress status must be succeed or failed'')
       | None \<Rightarrow> Inl (Refused ''workflow progress status must be succeed or failed'')) (\<lambda>st.
     let bytes = (case cb_binary rq of Some b \<Rightarrow> b
                  | None \<Rightarrow> (case cb_text rq of Some t \<Rightarrow> string_bytes t | None \<Rightarrow> [])) in
     res_bind (ok_or (cb_op rq) (Refused ''workflow progress operation is required'')) (\<lambda>oper.
     let p = \<lparr>wp_branch_id = cb_branch_id rq, wp_operation = oper, wp_status = st, wp_data = bytes\<rparr> in
     res_seq (map_err FromDtm (progress_validate p)) (Inr (RegisterProgress p))))"

definition compat_registration_from_request ::
  "libs \<Rightarrow> branch_url_policy \<Rightarrow> compat_branch_request \<Rightarrow> compat_registration svc" where
  "compat_registration_from_request L P rq =
     res_bind (map_err Refused (parse_kind (cb_trans_type rq))) (\<lambda>k.
     let pl = (case cb_text rq of None \<Rightarrow> JNull | Some t \<Rightarrow> (case parse_json L t of None \<Rightarrow> JNull | Some v \<Rightarrow> v)) in
     case k of
       Workflow \<Rightarrow> registration_progress rq
     | Tcc \<Rightarrow>
         res_bind (ok_or (cb_confirm rq) (Refused ''TCC confirm URL is required'')) (\<lambda>confirm_url.
         res_bind (ok_or (cb_cancel rq) (Refused ''TCC cancel URL is required'')) (\<lambda>cancel_url.
         res_seq (ensure (policy_ok L P confirm_url \<and> policy_ok L P cancel_url) (Refused ''branch URL is not allowed''))
         (Inr (RegisterOne ((branch_tcc_try (cb_branch_id rq) [] confirm_url cancel_url pl)\<lparr>bstatus := BSucceeded\<rparr>)))))
     | Xa \<Rightarrow>
         res_bind (ok_or (cb_url2 rq) (Refused ''XA phase2 URL is required'')) (\<lambda>u.
         res_seq (ensure (policy_ok L P u) (Refused ''branch URL is not allowed''))
         (Inr (RegisterOne (branch_xa (cb_branch_id rq) u u pl))))
     | _ \<Rightarrow> Inl (Refused ''dynamic registration supports tcc and xa''))"

section \<open>gRPC requests\<close>

text \<open>The messages of the gRPC API (generated code reads them); signed fields are 64-bit words read as signed numbers.\<close>

record dtm_trans_options =
  gt_wait_result :: bool
  gt_timeout_to_fail :: u64
  gt_retry_interval :: u64
  gt_request_timeout :: u64
  gt_retry_limit :: u64
  gt_branch_headers :: "(string, string) btree_map"

definition default_trans_options :: dtm_trans_options where
  "default_trans_options = \<lparr>gt_wait_result = False, gt_timeout_to_fail = 0, gt_retry_interval = 0, gt_request_timeout = 0,
     gt_retry_limit = 0, gt_branch_headers = []\<rparr>"

record dtm_request =
  gr_gid :: string
  gr_trans_type :: string
  gr_trans_options :: "dtm_trans_options option"
  gr_customed_data :: string
  gr_bin_payloads :: "u8 list list"
  gr_query_prepared :: string
  gr_steps :: string
  gr_req_extra :: "(string, string) btree_map"
  gr_rollback_reason :: string

record dtm_branch_request =
  gb_gid :: string
  gb_trans_type :: string
  gb_branch_id :: string
  gb_op :: string
  gb_data :: "(string, string) btree_map"
  gb_busi_payload :: "u8 list"

definition positive_u64 :: "u64 \<Rightarrow> u64 option" where
  "positive_u64 v = (if 0 < sint v then Some v else None)"

definition payload_value :: "libs \<Rightarrow> u8 list \<Rightarrow> json" where
  "payload_value L bs = (case json_from_slice L bs of Some v \<Rightarrow> v | None \<Rightarrow> JArray (map (\<lambda>b. JInt (uint b)) bs))"

definition some_nonempty :: "string \<Rightarrow> string option" where
  "some_nonempty s = (if s = [] then None else Some s)"

definition grpc_compat_request :: "libs \<Rightarrow> codecs \<Rightarrow> dtm_request \<Rightarrow> compat_transaction_request svc" where
  "grpc_compat_request L C rq =
     res_bind (if trim (gr_steps rq) = [] then Inr []
               else ok_or (decode_steps C (gr_steps rq)) (Refused ''invalid transaction steps'')) (\<lambda>steps.
     let opts = (case gr_trans_options rq of Some o' \<Rightarrow> o' | None \<Rightarrow> default_trans_options) in
     Inr \<lparr>cr_gid = gr_gid rq, cr_trans_type = gr_trans_type rq, cr_steps = steps,
       cr_payloads = map (payload_value L) (gr_bin_payloads rq),
       cr_timeout_to_fail = positive_u64 (gt_timeout_to_fail opts),
       cr_rollback_reason = some_nonempty (gr_rollback_reason rq), cr_custom_data = some_nonempty (gr_customed_data rq),
       cr_query_prepared = some_nonempty (gr_query_prepared rq), cr_wait_result = gt_wait_result opts,
       cr_concurrent = False, cr_retry_interval = positive_u64 (gt_retry_interval opts),
       cr_request_timeout = positive_u64 (gt_request_timeout opts), cr_retry_limit = positive_u64 (gt_retry_limit opts),
       cr_branch_headers = gt_branch_headers opts, cr_req_extra = gr_req_extra rq, cr_protocol = ViaGrpc\<rparr>)"

definition grpc_branch_request :: "libs \<Rightarrow> codecs \<Rightarrow> dtm_branch_request \<Rightarrow> compat_branch_request" where
  "grpc_branch_request L C rq =
     \<lparr>cb_req_gid = gb_gid rq, cb_trans_type = gb_trans_type rq, cb_branch_id = gb_branch_id rq,
      cb_text = Some (print_json C (payload_value L (gb_busi_payload rq))),
      cb_op = (case bt_get (gb_data rq) ''op'' of Some v \<Rightarrow> Some v | None \<Rightarrow> some_nonempty (gb_op rq)),
      cb_status = bt_get (gb_data rq) ''status'', cb_confirm = bt_get (gb_data rq) ''confirm'',
      cb_cancel = bt_get (gb_data rq) ''cancel'', cb_url2 = bt_get (gb_data rq) ''url'',
      cb_binary = Some (gb_busi_payload rq)\<rparr>"

end
