(* ===== verification/Service_Views.thy ===== *)
theory Service_Views
  imports Service_Requests
begin

text \<open>
  What the service shows of the stored transactions (\<^verbatim>\<open>service/src/main.rs\<close>): pages with an offset, the
  pages with a cursor of the compatible API, the wire form of a transaction and its branches
  there, with times as RFC 3339 text, the statistics and the dashboard, and the reconciliation of XA transactions.
\<close>

section \<open>Times\<close>

definition pad :: "nat \<Rightarrow> nat \<Rightarrow> string" where
  "pad w n = replicate (w - length (show_nat n)) (CHR ''0'') @ show_nat n"

text \<open>The date of a day, counted from the first of January 1970, as year, month and day.\<close>

definition civil_from_days :: "int \<Rightarrow> int \<times> int \<times> int" where
  "civil_from_days days =
     (let z = days + 719468;
          era = (if z \<ge> 0 then z else z - 146096) div 146097;
          day_of_era = z - era * 146097;
          year_of_era = (day_of_era - day_of_era div 1460 + day_of_era div 36524 - day_of_era div 146096) div 365;
          year = year_of_era + era * 400;
          day_of_year = day_of_era - (365 * year_of_era + year_of_era div 4 - year_of_era div 100);
          month_prime = (5 * day_of_year + 2) div 153;
          day = day_of_year - (153 * month_prime + 2) div 5 + 1;
          month = month_prime + (if month_prime < 10 then 3 else - 9)
      in (year + (if month \<le> 2 then 1 else 0), month, day))"

definition compat_rfc3339 :: "u64 \<Rightarrow> string" where
  "compat_rfc3339 millis =
     (let seconds = unat millis div 1000; milliseconds = unat millis mod 1000;
          seconds_of_day = seconds mod 86400;
          (year, month, day) = civil_from_days (int (seconds div 86400));
          hour = seconds_of_day div 3600; minute = seconds_of_day mod 3600 div 60; second = seconds_of_day mod 60
      in pad 4 (nat year) @ ''-'' @ pad 2 (nat month) @ ''-'' @ pad 2 (nat day) @ ''T'' @ pad 2 hour @ '':'' @ pad 2 minute
         @ '':'' @ pad 2 second @ (if milliseconds = 0 then ''Z'' else ''.'' @ pad 3 milliseconds @ ''Z''))"

definition millis_to_seconds :: "u64 \<Rightarrow> u64" where
  "millis_to_seconds v = sat_add v 999 div 1000"

section \<open>Sorting, counting and minima\<close>

text \<open>A stable sort by a strict order (\<^verbatim>\<open>sort_by\<close>, \<^verbatim>\<open>sort_by_key\<close>).\<close>

fun insert_by :: "('a \<Rightarrow> 'a \<Rightarrow> bool) \<Rightarrow> 'a \<Rightarrow> 'a list \<Rightarrow> 'a list" where
  "insert_by before x [] = [x]"
| "insert_by before x (y # ys) = (if before y x then y # insert_by before x ys else x # y # ys)"

definition sort_by :: "('a \<Rightarrow> 'a \<Rightarrow> bool) \<Rightarrow> 'a list \<Rightarrow> 'a list" where
  "sort_by before xs = foldr (insert_by before) xs []"

definition tally :: "string \<Rightarrow> (string, nat) btree_map \<Rightarrow> (string, nat) btree_map" where
  "tally k m = bt_insert k (case bt_get m k of None \<Rightarrow> 1 | Some n \<Rightarrow> Suc n) m"

definition min_of :: "u64 list \<Rightarrow> u64 option" where
  "min_of xs = (case xs of [] \<Rightarrow> None | y # ys \<Rightarrow> Some (fold min ys y))"

definition branch_retry :: "transaction \<Rightarrow> u64 option" where
  "branch_retry tx = min_of (List.map_filter next_retry_millis (branches tx))"

definition total_attempts_of :: "transaction \<Rightarrow> u64" where
  "total_attempts_of tx = sum_list (map (\<lambda>b. ucast (attempts b)) (branches tx))"

section \<open>Pages with an offset\<close>

record transaction_query =
  tq_gid :: "string option"
  tq_kind :: "string option"
  tq_status :: "string option"
  tq_offset :: nat
  tq_limit :: "nat option"

record 'a page =
  items :: "'a list"
  page_offset :: nat
  page_limit :: nat
  page_total :: nat

definition transpose_opt :: "'a option \<Rightarrow> ('a \<Rightarrow> string + 'b) \<Rightarrow> string + 'b option" where
  "transpose_opt v f = (case v of None \<Rightarrow> Inr None | Some x \<Rightarrow> res_bind (f x) (\<lambda>y. Inr (Some y)))"

definition selects :: "string option \<Rightarrow> transaction_kind option \<Rightarrow> transaction_status option \<Rightarrow> transaction \<Rightarrow> bool" where
  "selects g k st tx \<longleftrightarrow> opt_all (\<lambda>v. gid tx = v) g \<and> opt_all (\<lambda>v. tkind tx = v) k \<and> opt_all (\<lambda>v. tstatus tx = v) st"

record page_filter =
  pf_limit :: nat
  pf_kind :: "transaction_kind option"
  pf_status :: "transaction_status option"

definition page_filter_of :: "transaction_query \<Rightarrow> string + page_filter" where
  "page_filter_of q =
     (let limit = (case tq_limit q of None \<Rightarrow> 50 | Some n \<Rightarrow> n) in
      res_seq (ensure (\<not> (limit = 0 \<or> 200 < limit \<or> 1000000 < tq_offset q)) ''invalid pagination'')
      (res_bind (transpose_opt (tq_kind q) parse_kind) (\<lambda>k.
       res_bind (transpose_opt (tq_status q) parse_status) (\<lambda>st.
       Inr \<lparr>pf_limit = limit, pf_kind = k, pf_status = st\<rparr>))))"

definition transaction_page :: "(transaction \<Rightarrow> 'a) \<Rightarrow> transaction_query \<Rightarrow> page_filter \<Rightarrow> transaction list \<Rightarrow> 'a page" where
  "transaction_page row q f txs0 =
     (let filtered = filter (selects (tq_gid q) (pf_kind f) (pf_status f)) txs0 in
      \<lparr>items = map row (take (pf_limit f) (drop (tq_offset q) filtered)), page_offset = tq_offset q,
       page_limit = pf_limit f, page_total = length filtered\<rparr>)"

section \<open>XA reconciliation and the dashboard\<close>

fun xa_reconciliation_state :: "transaction \<Rightarrow> string option" where
  "xa_reconciliation_state tx =
     (if tkind tx \<noteq> Xa then None
      else if tstatus tx \<in> {Submitted, Prepared} then Some ''awaiting_decision''
      else if tstatus tx \<in> {Succeeding, Aborting} then Some ''phase2_in_progress''
      else if tstatus tx = Failed then Some ''manual_reconciliation_required''
      else None)"

record xa_reconciliation_row =
  xr_gid :: string
  xr_status :: string
  xr_state :: string
  xr_branch_count :: nat
  xr_unresolved_branch_count :: nat
  xr_total_attempts :: u64
  xr_next_retry_millis :: "u64 option"
  xr_updated_at_millis :: u64

record xa_reconciliation_snapshot =
  xs_generated_at_millis :: u64
  xs_awaiting_decision :: nat
  xs_phase2_in_progress :: nat
  xs_manual_reconciliation_required :: nat
  xs_items :: "xa_reconciliation_row list"

definition xa_row :: "transaction \<Rightarrow> string \<Rightarrow> xa_reconciliation_row" where
  "xa_row tx st = \<lparr>xr_gid = gid tx, xr_status = status_name (tstatus tx), xr_state = st,
     xr_branch_count = length (branches tx),
     xr_unresolved_branch_count = length (filter (\<lambda>b. bstatus b \<notin> {BSucceeded, BSkipped}) (branches tx)),
     xr_total_attempts = total_attempts_of tx, xr_next_retry_millis = branch_retry tx,
     xr_updated_at_millis = updated_at_millis tx\<rparr>"

definition xa_count :: "transaction \<Rightarrow> xa_reconciliation_snapshot \<Rightarrow> xa_reconciliation_snapshot" where
  "xa_count tx s =
     (case xa_reconciliation_state tx of None \<Rightarrow> s
      | Some st \<Rightarrow>
          (let s1 = (if st = ''awaiting_decision'' then s\<lparr>xs_awaiting_decision := Suc (xs_awaiting_decision s)\<rparr>
             else if st = ''phase2_in_progress'' then s\<lparr>xs_phase2_in_progress := Suc (xs_phase2_in_progress s)\<rparr>
             else if st = ''manual_reconciliation_required''
             then s\<lparr>xs_manual_reconciliation_required := Suc (xs_manual_reconciliation_required s)\<rparr> else s)
           in s1\<lparr>xs_items := xs_items s1 @ [xa_row tx st]\<rparr>))"

definition build_xa_reconciliation :: "u64 \<Rightarrow> transaction list \<Rightarrow> xa_reconciliation_snapshot" where
  "build_xa_reconciliation now txs0 =
     (let s = fold xa_count txs0 \<lparr>xs_generated_at_millis = now, xs_awaiting_decision = 0, xs_phase2_in_progress = 0,
                xs_manual_reconciliation_required = 0, xs_items = []\<rparr>
      in s\<lparr>xs_items := sort_by (\<lambda>x y. xr_updated_at_millis y < xr_updated_at_millis x) (xs_items s)\<rparr>)"

definition dashboard_next_retry_millis :: "transaction \<Rightarrow> u64 option" where
  "dashboard_next_retry_millis tx =
     (let delivery = (if tkind tx = Message \<and> tstatus tx = Succeeding \<and> list_all (\<lambda>b. attempts b = 0) (branches tx)
        then map_option (sat_add (created_at_millis tx)) (delay_millis (toptions tx)) else None) in
      case (branch_retry tx, delivery) of
        (Some b, Some d) \<Rightarrow> Some (min b d)
      | (Some b, None) \<Rightarrow> Some b
      | (None, d) \<Rightarrow> d)"

definition dashboard_available_actions :: "transaction \<Rightarrow> string list" where
  "dashboard_available_actions tx =
     (if is_terminal (tstatus tx) then []
      else (if list_ex retrying (branches tx) \<or> is_callback_workflow tx then [''reset-retry''] else []) @ [''force-stop''])"

record dashboard_transaction_row =
  dr_gid :: string
  dr_kind :: string
  dr_status :: string
  dr_branch_count :: nat
  dr_completed_branch_count :: nat
  dr_failed_branch_count :: nat
  dr_total_attempts :: u64
  dr_next_retry_millis :: "u64 option"
  dr_created_at_millis :: u64
  dr_updated_at_millis :: u64
  dr_timeout_millis :: "u64 option"
  dr_terminal :: bool
  dr_xa_reconciliation_state :: "string option"
  dr_available_actions :: "string list"

definition dashboard_row :: "transaction \<Rightarrow> dashboard_transaction_row" where
  "dashboard_row tx = \<lparr>dr_gid = gid tx, dr_kind = kind_name (tkind tx), dr_status = status_name (tstatus tx),
     dr_branch_count = length (branches tx),
     dr_completed_branch_count = length (filter (\<lambda>b. bstatus b \<in> {BSucceeded, BSkipped}) (branches tx)),
     dr_failed_branch_count = length (filter (\<lambda>b. bstatus b = BFailed) (branches tx)),
     dr_total_attempts = total_attempts_of tx, dr_next_retry_millis = dashboard_next_retry_millis tx,
     dr_created_at_millis = created_at_millis tx, dr_updated_at_millis = updated_at_millis tx,
     dr_timeout_millis = timeout_millis tx, dr_terminal = is_terminal (tstatus tx),
     dr_xa_reconciliation_state = xa_reconciliation_state tx, dr_available_actions = dashboard_available_actions tx\<rparr>"

record dashboard_summary =
  ds_total :: nat
  ds_active :: nat
  ds_succeeded :: nat
  ds_aborted :: nat
  ds_failed :: nat
  ds_retry_scheduled :: nat
  ds_xa_awaiting_decision :: nat
  ds_xa_phase2_in_progress :: nat
  ds_xa_manual_reconciliation_required :: nat
  ds_by_kind :: "(string, nat) btree_map"
  ds_by_status :: "(string, nat) btree_map"

definition count_xa :: "transaction \<Rightarrow> dashboard_summary \<Rightarrow> dashboard_summary" where
  "count_xa tx s =
     (case xa_reconciliation_state tx of None \<Rightarrow> s
      | Some st \<Rightarrow>
          if st = ''awaiting_decision'' then s\<lparr>ds_xa_awaiting_decision := Suc (ds_xa_awaiting_decision s)\<rparr>
          else if st = ''phase2_in_progress'' then s\<lparr>ds_xa_phase2_in_progress := Suc (ds_xa_phase2_in_progress s)\<rparr>
          else if st = ''manual_reconciliation_required''
          then s\<lparr>ds_xa_manual_reconciliation_required := Suc (ds_xa_manual_reconciliation_required s)\<rparr> else s)"

definition count_status :: "transaction \<Rightarrow> dashboard_summary \<Rightarrow> dashboard_summary" where
  "count_status tx s =
     (case tstatus tx of
        Succeeded \<Rightarrow> s\<lparr>ds_succeeded := Suc (ds_succeeded s)\<rparr>
      | Aborted \<Rightarrow> s\<lparr>ds_aborted := Suc (ds_aborted s)\<rparr>
      | Failed \<Rightarrow> s\<lparr>ds_failed := Suc (ds_failed s)\<rparr>
      | _ \<Rightarrow> s\<lparr>ds_active := Suc (ds_active s)\<rparr>)"

definition count_transaction :: "transaction \<Rightarrow> dashboard_summary \<Rightarrow> dashboard_summary" where
  "count_transaction tx s =
     (let s1 = count_xa tx s;
          s2 = s1\<lparr>ds_by_kind := tally (kind_name (tkind tx)) (ds_by_kind s1),
                  ds_by_status := tally (status_name (tstatus tx)) (ds_by_status s1)\<rparr>;
          s3 = count_status tx s2
      in if dashboard_next_retry_millis tx \<noteq> None then s3\<lparr>ds_retry_scheduled := Suc (ds_retry_scheduled s3)\<rparr> else s3)"

definition dashboard_summary_of :: "transaction list \<Rightarrow> dashboard_summary" where
  "dashboard_summary_of txs0 = fold count_transaction txs0
     \<lparr>ds_total = length txs0, ds_active = 0, ds_succeeded = 0, ds_aborted = 0, ds_failed = 0, ds_retry_scheduled = 0,
      ds_xa_awaiting_decision = 0, ds_xa_phase2_in_progress = 0, ds_xa_manual_reconciliation_required = 0,
      ds_by_kind = [], ds_by_status = []\<rparr>"

record transaction_stats =
  ts_total :: nat
  ts_by_kind :: "(string, nat) btree_map"
  ts_by_status :: "(string, nat) btree_map"

definition transaction_stats_of :: "transaction list \<Rightarrow> transaction_stats" where
  "transaction_stats_of txs0 =
     \<lparr>ts_total = length txs0, ts_by_kind = fold (\<lambda>tx. tally (kind_name (tkind tx))) txs0 [],
      ts_by_status = fold (\<lambda>tx. tally (status_name (tstatus tx))) txs0 []\<rparr>"

section \<open>The compatible API\<close>

record compat_query =
  cq_gid :: "string option"
  cq_trans_type :: "string option"
  cq_status :: "string option"
  cq_position :: "string option"
  cq_limit :: "nat option"
  cq_create_time_start :: "u64 option"
  cq_create_time_end :: "u64 option"

record compat_global_transaction =
  cg_create_time :: string
  cg_update_time :: string
  cg_gid :: string
  cg_trans_type :: string
  cg_status :: string
  cg_protocol :: string
  cg_finish_time :: "string option"
  cg_rollback_time :: "string option"
  cg_result :: string
  cg_rollback_reason :: string
  cg_options :: string
  cg_custom_data :: string
  cg_query_prepared :: string
  cg_next_cron_interval :: "u64 option"
  cg_next_cron_time :: "string option"
  cg_timeout_to_fail :: "u64 option"
  cg_request_timeout :: "u64 option"
  cg_retry_interval :: "u64 option"
  cg_wait_result :: bool
  cg_branch_headers :: "(string, string) btree_map"
  cg_concurrent :: bool
  cg_retry_limit :: "u32 option"

definition insert_json_some :: "string \<Rightarrow> u64 option \<Rightarrow> (string, json) btree_map \<Rightarrow> (string, json) btree_map" where
  "insert_json_some k v m = (case v of None \<Rightarrow> m | Some n \<Rightarrow> bt_insert k (JInt (uint n)) m)"

definition compat_options_json ::
  "codecs \<Rightarrow> transaction \<Rightarrow> u64 option \<Rightarrow> u64 option \<Rightarrow> u64 option \<Rightarrow> (string, string) btree_map \<Rightarrow> string" where
  "compat_options_json C tx timeout_to_fail request_timeout retry_interval headers =
     (let m1 = (if wait_result (toptions tx) then bt_insert ''wait_result'' (JBool True) [] else []);
          m2 = insert_json_some ''retry_limit'' (map_option ucast (retry_limit (toptions tx)))
                 (insert_json_some ''retry_interval'' retry_interval
                    (insert_json_some ''request_timeout'' request_timeout
                       (insert_json_some ''timeout_to_fail'' timeout_to_fail m1)));
          m3 = (if headers = [] then m2 else bt_insert ''branch_headers'' (JObject (map (\<lambda>(k, v). (k, JString v)) headers)) m2)
      in print_json C (JObject (bt_insert ''concurrent'' (JBool (concurrent (toptions tx))) m3)))"

definition compat_global_transaction_of :: "codecs \<Rightarrow> transaction \<Rightarrow> compat_global_transaction" where
  "compat_global_transaction_of C tx =
     (let retry_interval = map_option millis_to_seconds (retry_interval_millis (toptions tx));
          request_timeout = map_option millis_to_seconds (request_timeout_millis (toptions tx));
          timeout_to_fail = map_option millis_to_seconds (timeout_millis tx);
          headers = (case Option.bind (bt_get (metadata tx) ''dtm.branch_headers'') (decode_map C) of None \<Rightarrow> [] | Some m \<Rightarrow> m)
      in \<lparr>cg_create_time = compat_rfc3339 (created_at_millis tx), cg_update_time = compat_rfc3339 (updated_at_millis tx),
          cg_gid = gid tx, cg_trans_type = compat_kind_name (tkind tx), cg_status = compat_status_name (tstatus tx),
          cg_protocol = (case bt_get (metadata tx) ''dtm.protocol'' of None \<Rightarrow> ''http'' | Some p \<Rightarrow> p),
          cg_finish_time = (if is_terminal (tstatus tx) then Some (compat_rfc3339 (updated_at_millis tx)) else None),
          cg_rollback_time = (if tstatus tx \<in> {Aborted, Failed} then Some (compat_rfc3339 (updated_at_millis tx)) else None),
          cg_result = meta_or_empty tx ''dtm.workflow.result'', cg_rollback_reason = meta_or_empty tx ''rollback_reason'',
          cg_options = compat_options_json C tx timeout_to_fail request_timeout retry_interval headers,
          cg_custom_data = meta_or_empty tx ''dtm.custom_data'', cg_query_prepared = meta_or_empty tx ''dtm.query_prepared'',
          cg_next_cron_interval = retry_interval, cg_next_cron_time = map_option compat_rfc3339 (branch_retry tx),
          cg_timeout_to_fail = timeout_to_fail, cg_request_timeout = request_timeout, cg_retry_interval = retry_interval,
          cg_wait_result = wait_result (toptions tx), cg_branch_headers = headers, cg_concurrent = concurrent (toptions tx),
          cg_retry_limit = retry_limit (toptions tx)\<rparr>)"

definition compat_selects :: "compat_query \<Rightarrow> transaction \<Rightarrow> bool" where
  "compat_selects q tx \<longleftrightarrow>
     opt_all (\<lambda>g. gid tx = g) (cq_gid q)
     \<and> opt_all (\<lambda>k. compat_kind_name (tkind tx) = k \<or> tkind tx = Message \<and> k = ''message'') (cq_trans_type q)
     \<and> opt_all (\<lambda>st. compat_status_name (tstatus tx) = st \<or> tstatus tx = Succeeded \<and> st = ''succeeded'') (cq_status q)
     \<and> opt_all (\<lambda>start. start \<le> created_at_millis tx) (cq_create_time_start q)
     \<and> opt_all (\<lambda>stop. created_at_millis tx \<le> stop) (cq_create_time_end q)"

definition newer :: "transaction \<Rightarrow> transaction \<Rightarrow> bool" where
  "newer x y \<longleftrightarrow> created_at_millis y < created_at_millis x \<or> created_at_millis x = created_at_millis y \<and> gid y < gid x"

fun index_of :: "('a \<Rightarrow> bool) \<Rightarrow> 'a list \<Rightarrow> nat option" where
  "index_of P [] = None"
| "index_of P (x # xs) = (if P x then Some 0 else map_option Suc (index_of P xs))"

definition compat_limit :: "compat_query \<Rightarrow> nat" where
  "compat_limit q = max 1 (min 200 (case cq_limit q of None \<Rightarrow> 100 | Some n \<Rightarrow> n))"

definition compat_position :: "string \<Rightarrow> transaction list \<Rightarrow> string + nat" where
  "compat_position cursor filtered =
     (if cursor = [] then Inr 0
      else if length cursor \<le> 128
      then (case index_of (\<lambda>tx. gid tx = cursor) filtered of None \<Rightarrow> Inl ''invalid transaction position'' | Some i \<Rightarrow> Inr (Suc i))
      else Inl ''invalid transaction position'')"

definition build_compat_all_response ::
  "codecs \<Rightarrow> transaction list \<Rightarrow> compat_query \<Rightarrow> string + (compat_global_transaction list \<times> string)" where
  "build_compat_all_response C txs0 q =
     res_seq (case (cq_create_time_start q, cq_create_time_end q) of
        (Some start, Some stop) \<Rightarrow> ensure (start \<le> stop) ''createTimeStart must not exceed createTimeEnd''
      | _ \<Rightarrow> Inr ())
     (let filtered = sort_by newer (filter (compat_selects q) txs0) in
      res_bind (compat_position (unwrap_or_default (cq_position q)) filtered) (\<lambda>position.
      let shown = take (compat_limit q) (drop position filtered);
          has_more = position + length shown < length filtered
      in Inr (map (compat_global_transaction_of C) shown, if has_more \<and> shown \<noteq> [] then gid (last shown) else [])))"

record compat_branch_transaction =
  ct_create_time :: string
  ct_update_time :: string
  ct_gid :: string
  ct_url :: string
  ct_bin_data :: string
  ct_branch_id :: string
  ct_op :: string
  ct_status :: string
  ct_finish_time :: "string option"
  ct_rollback_time :: "string option"

fun compat_branch_operations :: "transaction_kind \<Rightarrow> branch \<Rightarrow> (branch \<times> string \<times> string) list" where
  "compat_branch_operations Saga b = [(b, ''compensate'', unwrap_or_default (compensate b)), (b, ''action'', action b)]"
| "compat_branch_operations Tcc b = [(b, ''cancel'', unwrap_or_default (cancel b)), (b, ''confirm'', unwrap_or_default (confirm b))]"
| "compat_branch_operations Xa b = [(b, ''rollback'', unwrap_or_default (cancel b)), (b, ''commit'', unwrap_or_default (confirm b))]"
| "compat_branch_operations Message b = [(b, ''action'', action b)]"
| "compat_branch_operations Workflow b = []"

definition compat_branch_status :: "transaction_status \<Rightarrow> branch_status \<Rightarrow> string \<Rightarrow> string" where
  "compat_branch_status st bst oper =
     (if bst = BFailed then ''failed''
      else (let commit_operation = oper \<in> {''action'', ''confirm'', ''commit''};
                rollback_operation = oper \<in> {''compensate'', ''cancel'', ''rollback''};
                successful_operation = (if st \<in> {Aborting, Aborted} then rollback_operation else commit_operation)
            in if bst = BSucceeded \<and> successful_operation then ''succeed'' else ''prepared''))"

definition compat_branch_row :: "codecs \<Rightarrow> transaction \<Rightarrow> branch \<times> string \<times> string \<Rightarrow> compat_branch_transaction" where
  "compat_branch_row C tx = (\<lambda>(b, oper, u).
     let st = compat_branch_status (tstatus tx) (bstatus b) oper;
         terminal = (if st = ''succeed'' \<or> st = ''failed'' then Some (compat_rfc3339 (updated_at_millis tx)) else None)
     in \<lparr>ct_create_time = compat_rfc3339 (created_at_millis tx), ct_update_time = compat_rfc3339 (updated_at_millis tx),
         ct_gid = gid tx, ct_url = u, ct_bin_data = base64_encode C (string_bytes (print_json C (payload b))),
         ct_branch_id = bid b, ct_op = oper, ct_status = st, ct_finish_time = terminal,
         ct_rollback_time = (if oper \<in> {''compensate'', ''cancel'', ''rollback''} then terminal else None)\<rparr>)"

definition compat_progress_row :: "codecs \<Rightarrow> transaction \<Rightarrow> workflow_progress \<Rightarrow> compat_branch_transaction" where
  "compat_progress_row C tx p =
     \<lparr>ct_create_time = compat_rfc3339 (created_at_millis tx), ct_update_time = compat_rfc3339 (updated_at_millis tx),
      ct_gid = gid tx, ct_url = [], ct_bin_data = base64_encode C (wp_data p), ct_branch_id = wp_branch_id p,
      ct_op = wp_operation p, ct_status = workflow_progress_status_name (wp_status p),
      ct_finish_time = Some (compat_rfc3339 (updated_at_millis tx)), ct_rollback_time = None\<rparr>"

definition compat_branch_transactions :: "codecs \<Rightarrow> transaction \<Rightarrow> compat_branch_transaction list" where
  "compat_branch_transactions C tx =
     (if tkind tx = Workflow then map (compat_progress_row C tx) (workflow_progresses tx)
      else map (compat_branch_row C tx) (concat (map (compat_branch_operations (tkind tx)) (branches tx))))"

record compat_workflow_progress =
  pr_status :: string
  pr_bin_data :: string
  pr_branch_id :: string
  pr_op :: string

record compat_workflow_reply =
  rp_gid :: string
  rp_status :: string
  rp_rollback_reason :: string
  rp_result :: string
  rp_progresses :: "compat_workflow_progress list"

definition compat_workflow_response :: "codecs \<Rightarrow> transaction \<Rightarrow> compat_workflow_reply" where
  "compat_workflow_response C tx =
     \<lparr>rp_gid = gid tx, rp_status = compat_workflow_status_name (tstatus tx),
      rp_rollback_reason = meta_or_empty tx ''rollback_reason'', rp_result = meta_or_empty tx ''dtm.workflow.result'',
      rp_progresses = map (\<lambda>p. \<lparr>pr_status = workflow_progress_status_name (wp_status p),
        pr_bin_data = base64_encode C (wp_data p), pr_branch_id = wp_branch_id p, pr_op = wp_operation p\<rparr>) (workflow_progresses tx)\<rparr>"

record compat_kv_entry =
  ck_create_time :: string
  ck_update_time :: string
  ck_cat :: string
  ck_k :: string
  ck_v :: string
  ck_version :: u64

definition compat_kv_entry_of :: "kv_entry \<Rightarrow> compat_kv_entry" where
  "compat_kv_entry_of e =
     \<lparr>ck_create_time = compat_rfc3339 (kv_created_at_millis e), ck_update_time = compat_rfc3339 (kv_updated_at_millis e),
      ck_cat = kv_category e, ck_k = kv_key e, ck_v = kv_value e, ck_version = kv_version e\<rparr>"

end
