(* ===== verification/Redis_Store.thy ===== *)
theory Redis_Store
  imports Sql_Store
begin

text \<open>
  The Redis store (\<^verbatim>\<open>src/redis_store.rs\<close>). A namespace holds hashes for transactions, key-value
  entries, barriers and leases, one set of barrier fields per transaction, and sees the server's
  clock. Redis runs a command or a Lua script atomically; what other clients do between two
  commands of one operation is a parameter of the operation. JSON and base64
  are parameters: payloads and barrier fields are opaque values, and the encoders
  of field names are injective. Lua numbers are unbounded here; the ones that occur (milliseconds,
  epochs) are exact in Redis below \<^verbatim>\<open>2^53\<close>.
\<close>

section \<open>Values and scripts\<close>

record ('p, 'q, 'f) redis_codec = "'p codec" +
  kv_to_json :: "kv_entry \<Rightarrow> 'q"
  kv_from_json :: "'q \<Rightarrow> kv_entry option"
  tuple_json :: "string \<times> string \<times> string \<Rightarrow> 'f"
  string_json :: "string \<Rightarrow> string"
  base64_url :: "string \<Rightarrow> string"

record ('p, 'q, 'f) redis_db =
  r_transactions :: "(string, 'p) btree_map"
  r_kv :: "(string, 'q) btree_map"
  r_barriers :: "'f set"
  r_index :: "string \<Rightarrow> 'f set"
  r_leases :: "(string, string) btree_map"
  r_time :: nat

definition barrier_field :: "('p, 'q, 'f) redis_codec \<Rightarrow> string \<Rightarrow> string \<Rightarrow> string \<Rightarrow> 'f" where
  "barrier_field C g b oper = tuple_json C (g, b, oper)"

text \<open>The sets of barrier fields are named by a prefix of the namespace and the gid as JSON text; the model leaves the prefix out.\<close>

definition barrier_index_key :: "('p, 'q, 'f) redis_codec \<Rightarrow> string \<Rightarrow> string" where
  "barrier_index_key C g = string_json C g"

definition lease_fields :: "('p, 'q, 'f) redis_codec \<Rightarrow> string \<Rightarrow> string \<times> string \<times> string" where
  "lease_fields C name =
     (let lease = base64_url C name in (lease @ '':owner'', lease @ '':expiry'', lease @ '':epoch''))"

definition kv_field :: "string \<Rightarrow> string \<Rightarrow> string" where
  "kv_field cat k = show_nat (length cat) @ '':'' @ cat @ k"

text \<open>\<^verbatim>\<open>CAS_HASH_FIELD\<close>\<close>

definition cas_hash_field :: "string \<Rightarrow> 'v \<Rightarrow> 'v \<Rightarrow> (string, 'v) btree_map \<Rightarrow> int \<times> (string, 'v) btree_map" where
  "cas_hash_field field old new h =
     (case bt_get h field of None \<Rightarrow> (-1, h)
      | Some current \<Rightarrow> if current \<noteq> old then (0, h) else (1, bt_insert field new h))"

definition lua_number :: "string option \<Rightarrow> nat option" where
  "lua_number v = (case v of None \<Rightarrow> Some 0 | Some s \<Rightarrow> parse_uint s)"

definition lease_number :: "string \<Rightarrow> ('p, 'q, 'f) redis_db \<Rightarrow> nat option" where
  "lease_number field db = lua_number (bt_get (r_leases db) field)"

text \<open>
  The guard of the fenced scripts: the lease must still have the owner and the epoch of the fence
  and not have expired. A stored value that is not a number makes the comparison with
  \<^verbatim>\<open><=\<close> fail; the guard does not hold then.
\<close>

definition fence_valid :: "('p, 'q, 'f) redis_codec \<Rightarrow> recovery_lease_fence \<Rightarrow> ('p, 'q, 'f) redis_db \<Rightarrow> bool" where
  "fence_valid C f db =
     (case lease_fields C (fence_name f) of (owner_field, expiry_field, epoch_field) \<Rightarrow>
        bt_get (r_leases db) owner_field = Some (fence_owner f)
        \<and> (case lease_number expiry_field db of None \<Rightarrow> False | Some expiry \<Rightarrow> r_time db < expiry)
        \<and> lease_number epoch_field db = Some (unat (fence_epoch f)))"

text \<open>The script that writes a transaction, without and with a fence.\<close>

type_synonym ('p, 'q, 'f) script = "string \<Rightarrow> 'p \<Rightarrow> 'p \<Rightarrow> ('p, 'q, 'f) redis_db \<Rightarrow> int \<times> ('p, 'q, 'f) redis_db"

definition cas_transaction :: "('p, 'q, 'f) script" where
  "cas_transaction g old new db =
     (case cas_hash_field g old new (r_transactions db) of (code, h) \<Rightarrow> (code, db\<lparr>r_transactions := h\<rparr>))"

definition fenced_cas_transaction ::
  "('p, 'q, 'f) redis_codec \<Rightarrow> recovery_lease_fence \<Rightarrow> ('p, 'q, 'f) script" where
  "fenced_cas_transaction C f g old new db =
     (if \<not> fence_valid C f db then (-2, db) else cas_transaction g old new db)"

text \<open>\<^verbatim>\<open>BARRIER_DECISION\<close> and \<^verbatim>\<open>FENCED_BARRIER_DECISION\<close>\<close>

definition barrier_script ::
  "('p, 'q, 'f) redis_codec \<Rightarrow> branch_barrier \<Rightarrow> ('p, 'q, 'f) redis_db \<Rightarrow> string \<times> ('p, 'q, 'f) redis_db" where
  "barrier_script C b db =
     (let field = barrier_field C (bb_gid b) (bb_branch_id b) (bb_op b);
          cancel_field = barrier_field C (bb_gid b) (bb_branch_id b) ''cancel'';
          try_field = barrier_field C (bb_gid b) (bb_branch_id b) ''try'';
          index = barrier_index_key C (bb_gid b);
          claim = db\<lparr>r_barriers := insert field (r_barriers db),
                     r_index := (r_index db)(index := insert field (r_index db index))\<rparr> in
      if field \<in> r_barriers db then (''duplicate'', db)
      else if bb_op b = ''try'' \<and> cancel_field \<in> r_barriers db then (''cancelled_try'', db)
      else if bb_op b = ''cancel'' \<and> try_field \<notin> r_barriers db then (''null_compensation'', claim)
      else (''execute'', claim))"

definition fenced_barrier_script ::
  "('p, 'q, 'f) redis_codec \<Rightarrow> recovery_lease_fence \<Rightarrow> branch_barrier
    \<Rightarrow> ('p, 'q, 'f) redis_db \<Rightarrow> string \<times> ('p, 'q, 'f) redis_db" where
  "fenced_barrier_script C f b db = (if \<not> fence_valid C f db then (''fence_lost'', db) else barrier_script C b db)"

definition decode_decision :: "string \<Rightarrow> barrier_decision res" where
  "decode_decision s =
     (if s = ''execute'' then Inr Execute
      else if s = ''duplicate'' then Inr SkipDuplicate
      else if s = ''null_compensation'' then Inr SkipNullCompensation
      else if s = ''cancelled_try'' then Inr SkipCancelledTry
      else if s = ''fence_lost'' then Inl (StoreError FenceLost)
      else Inl (StoreError StoreFault))"

section \<open>Validation\<close>

definition validate_redis_namespace :: "string \<Rightarrow> bool" where
  "validate_redis_namespace ns \<longleftrightarrow> ns \<noteq> [] \<and> length ns \<le> 64
     \<and> list_all (\<lambda>c. c \<in> set (map char_of [48..<58]) \<or> c \<in> set (map char_of [65..<91])
         \<or> c \<in> set (map char_of [97..<123]) \<or> c = CHR ''-'' \<or> c = CHR ''_'') ns"

record redis_store_keys =
  k_transactions :: string
  k_kv :: string
  k_barriers :: string
  k_barrier_index_prefix :: string
  k_leases :: string

definition redis_store_keys_of :: "string \<Rightarrow> redis_store_keys option" where
  "redis_store_keys_of ns =
     (if \<not> validate_redis_namespace ns then None
      else (let prefix = ''roze-dtm:{'' @ ns @ ''}'' in
        Some \<lparr>k_transactions = prefix @ '':transactions'', k_kv = prefix @ '':kv'',
          k_barriers = prefix @ '':barriers'', k_barrier_index_prefix = prefix @ '':barrier-index:'',
          k_leases = prefix @ '':leases''\<rparr>))"

definition validate_recovery_lease_input :: "string \<Rightarrow> string \<Rightarrow> u64 \<Rightarrow> unit res" where
  "validate_recovery_lease_input name owner ttl_millis =
     res_seq (ensure (name \<noteq> [] \<and> length name \<le> 128) (StoreError (InvalidLease ''name'')))
     (res_seq (ensure (owner \<noteq> [] \<and> length owner \<le> 128) (StoreError (InvalidLease ''owner'')))
       (ensure (1 \<le> ttl_millis \<and> ttl_millis \<le> 86400000) (StoreError (InvalidLease ''TTL''))))"

definition validate_recovery_fence :: "recovery_lease_fence \<Rightarrow> unit res" where
  "validate_recovery_fence f =
     res_seq (validate_recovery_lease_input (fence_name f) (fence_owner f) 1)
       (ensure (0 < fence_epoch f) (StoreError (InvalidLease ''epoch'')))"

section \<open>Transactions\<close>

definition redis_decode :: "('p, 'q, 'f) redis_codec \<Rightarrow> 'p \<Rightarrow> transaction res" where
  "redis_decode C p = ok_or (from_json C p) (StoreError InvalidPayload)"

definition redis_insert_transaction :: "('p, 'q, 'f) redis_codec \<Rightarrow> transaction \<Rightarrow> (('p, 'q, 'f) redis_db, dtm_error, unit) act" where
  "redis_insert_transaction C tx db =
     (if bt_get (r_transactions db) (gid tx) \<noteq> None then (Inl (TransactionAlreadyExists (gid tx)), db)
      else (Inr (), db\<lparr>r_transactions := bt_insert (gid tx) (to_json C tx) (r_transactions db)\<rparr>))"

definition redis_get_transaction ::
  "('p, 'q, 'f) redis_codec \<Rightarrow> string \<Rightarrow> (('p, 'q, 'f) redis_db, dtm_error, transaction option) act" where
  "redis_get_transaction C g db =
     (case bt_get (r_transactions db) g of
        None \<Rightarrow> (Inr None, db)
      | Some p \<Rightarrow> (map_sum id Some (redis_decode C p), db))"

text \<open>\<^verbatim>\<open>update_transaction\<close> and \<^verbatim>\<open>update_transaction_fenced_inner\<close>: \<open>mid\<close> acts between the read and the script.\<close>

definition redis_update_with ::
  "('p, 'q, 'f) redis_codec \<Rightarrow> ('p, 'q, 'f) script \<Rightarrow> (('p, 'q, 'f) redis_db \<Rightarrow> ('p, 'q, 'f) redis_db)
    \<Rightarrow> u64 \<Rightarrow> transaction \<Rightarrow> (('p, 'q, 'f) redis_db, dtm_error, unit) act" where
  "redis_update_with C script mid now tx db =
     (case bt_get (r_transactions db) (gid tx) of
        None \<Rightarrow> (Inl (TransactionNotFound (gid tx)), db)
      | Some previous \<Rightarrow>
          (case redis_decode C previous of
             Inl e \<Rightarrow> (Inl e, db)
           | Inr current \<Rightarrow>
               if revision current \<noteq> revision tx then (Inl (StoreError RevisionConflict), db)
               else (case script (gid tx) previous (to_json C (bump_transaction_revision now tx)) (mid db) of
                 (changed, db') \<Rightarrow>
                   (if changed = 1 then Inr ()
                    else if changed = 0 then Inl (StoreError RevisionConflict)
                    else if changed = -1 then Inl (TransactionNotFound (gid tx))
                    else if changed = -2 then Inl (StoreError FenceLost)
                    else Inl (StoreError StoreFault), db'))))"

definition redis_update_transaction where
  "redis_update_transaction C = redis_update_with C cas_transaction"

definition redis_update_transaction_fenced where
  "redis_update_transaction_fenced C mid now tx f db =
     (case validate_recovery_fence f of Inl e \<Rightarrow> (Inl e, db)
      | Inr _ \<Rightarrow> redis_update_with C (fenced_cas_transaction C f) mid now tx db)"

primrec redis_mutate_loop ::
  "nat \<Rightarrow> ('p, 'q, 'f) redis_codec \<Rightarrow> ('p, 'q, 'f) script \<Rightarrow> (nat \<Rightarrow> ('p, 'q, 'f) redis_db \<Rightarrow> ('p, 'q, 'f) redis_db)
    \<Rightarrow> string \<Rightarrow> string \<Rightarrow> (transaction \<Rightarrow> transaction res) \<Rightarrow> (('p, 'q, 'f) redis_db, dtm_error, transaction) act" where
  "redis_mutate_loop 0 C script mid what g f db = (Inl (StoreError (Contended what)), db)"
| "redis_mutate_loop (Suc n) C script mid what g f db =
     (case bt_get (r_transactions db) g of
        None \<Rightarrow> (Inl (TransactionNotFound g), db)
      | Some previous \<Rightarrow>
          (case res_bind (redis_decode C previous) f of
             Inl e \<Rightarrow> (Inl e, db)
           | Inr tx \<Rightarrow>
               (case script g previous (to_json C tx) (mid n db) of
                  (changed, db') \<Rightarrow>
                    if changed = 1 then (Inr tx, db')
                    else if changed = 0 then redis_mutate_loop n C script mid what g f db'
                    else if changed = -1 then (Inl (TransactionNotFound g), db')
                    else if changed = -2 then (Inl (StoreError FenceLost), db')
                    else (Inl (StoreError StoreFault), db'))))"

definition mutate_transaction where
  "mutate_transaction C mid what g f = redis_mutate_loop 16 C cas_transaction mid what g f"

definition mutate_transaction_fenced where
  "mutate_transaction_fenced C mid what g fence f db =
     (case validate_recovery_fence fence of Inl e \<Rightarrow> (Inl e, db)
      | Inr _ \<Rightarrow> redis_mutate_loop 16 C (fenced_cas_transaction C fence) mid what g f db)"

text \<open>\<^verbatim>\<open>hash_values\<close>: a complete scan, refused above a million entries.\<close>

definition hash_values :: "(string, 'v) btree_map \<Rightarrow> 'v list res" where
  "hash_values h = (if length h \<le> 1000000 then Inr (bt_values h) else Inl (StoreError StoreFault))"

definition redis_list_transactions ::
  "('p, 'q, 'f) redis_codec \<Rightarrow> (('p, 'q, 'f) redis_db, dtm_error, transaction list) act" where
  "redis_list_transactions C db =
     (res_bind (hash_values (r_transactions db)) (\<lambda>ps.
      res_bind (res_map (redis_decode C) ps) (\<lambda>txs.
        Inr (sort_key (\<lambda>tx. (updated_at_millis tx, gid tx)) txs))), db)"

definition barrier_operations :: "branch_kind \<Rightarrow> string list" where
  "barrier_operations k =
     (if k \<in> {SagaAction, SagaCompensate} then [''action'', ''compensate'']
      else if k \<in> {TccTry, TccConfirm, TccCancel} then [''try'', ''confirm'', ''cancel'']
      else if k = WorkflowAction then [''workflow'', ''workflow_rollback'']
      else if k = MessageAction then [''message'']
      else [''commit'', ''rollback''])"

definition transaction_barrier_fields :: "('p, 'q, 'f) redis_codec \<Rightarrow> transaction \<Rightarrow> 'f list" where
  "transaction_barrier_fields C tx =
     concat (map (\<lambda>b. map (barrier_field C (gid tx) (bid b)) (barrier_operations (bkind b))) (branches tx))"

text \<open>
  \<^verbatim>\<open>DELETE_TRANSACTION_IF_UNCHANGED\<close>, for a transaction with no more claimed barriers than Lua's \<^verbatim>\<open>unpack\<close> can pass on
  at once (some thousands).
\<close>

definition delete_script ::
  "('p, 'q, 'f) redis_codec \<Rightarrow> string \<Rightarrow> 'p \<Rightarrow> 'f list \<Rightarrow> ('p, 'q, 'f) redis_db \<Rightarrow> int \<times> ('p, 'q, 'f) redis_db" where
  "delete_script C g old listed db =
     (case bt_get (r_transactions db) g of None \<Rightarrow> (-1, db)
      | Some current \<Rightarrow>
          if current \<noteq> old then (0, db)
          else (let index = barrier_index_key C g in
            (1, db\<lparr>r_transactions := bt_remove g (r_transactions db),
                   r_barriers := r_barriers db - r_index db index - set listed,
                   r_index := (r_index db)(index := {})\<rparr>)))"

definition redis_delete_if_unchanged ::
  "('p, 'q, 'f) redis_codec \<Rightarrow> (('p, 'q, 'f) redis_db \<Rightarrow> ('p, 'q, 'f) redis_db) \<Rightarrow> transaction
    \<Rightarrow> (('p, 'q, 'f) redis_db, dtm_error, bool) act" where
  "redis_delete_if_unchanged C mid tx db =
     (case bt_get (r_transactions db) (gid tx) of
        None \<Rightarrow> (Inr False, db)
      | Some p \<Rightarrow>
          (case redis_decode C p of
             Inl e \<Rightarrow> (Inl e, db)
           | Inr current \<Rightarrow>
               if current \<noteq> tx then (Inr False, db)
               else (case delete_script C (gid tx) p (transaction_barrier_fields C tx) (mid db) of
                 (code, db') \<Rightarrow>
                   (if code = 1 then Inr True
                    else if code = 0 \<or> code = -1 then Inr False
                    else Inl (StoreError StoreFault), db'))))"

section \<open>Key-value entries\<close>

definition redis_kv_decode :: "('p, 'q, 'f) redis_codec \<Rightarrow> 'q \<Rightarrow> kv_entry res" where
  "redis_kv_decode C q = ok_or (kv_from_json C q) (StoreError InvalidPayload)"

definition redis_get_kv :: "('p, 'q, 'f) redis_codec \<Rightarrow> string \<Rightarrow> string \<Rightarrow> (('p, 'q, 'f) redis_db, dtm_error, kv_entry option) act" where
  "redis_get_kv C cat k db =
     (case bt_get (r_kv db) (kv_field cat k) of
        None \<Rightarrow> (Inr None, db)
      | Some q \<Rightarrow> (map_sum id Some (redis_kv_decode C q), db))"

definition redis_list_kv ::
  "('p, 'q, 'f) redis_codec \<Rightarrow> string option \<Rightarrow> string option \<Rightarrow> nat \<Rightarrow> nat \<Rightarrow> (('p, 'q, 'f) redis_db, dtm_error, kv_entry list) act" where
  "redis_list_kv C cat k offset limit db =
     (res_bind (hash_values (r_kv db)) (\<lambda>qs.
      res_bind (res_map (redis_kv_decode C) qs) (\<lambda>entries.
        Inr (take limit (drop offset (sort_key (\<lambda>e. (kv_category e, kv_key e)) (filter (kv_matches cat k) entries)))))), db)"

definition redis_create_kv :: "('p, 'q, 'f) redis_codec \<Rightarrow> kv_entry \<Rightarrow> (('p, 'q, 'f) redis_db, dtm_error, bool) act" where
  "redis_create_kv C e db =
     (let field = kv_field (kv_category e) (kv_key e) in
      if bt_get (r_kv db) field \<noteq> None then (Inr False, db)
      else (Inr True, db\<lparr>r_kv := bt_insert field (kv_to_json C e) (r_kv db)\<rparr>))"

definition redis_update_kv ::
  "('p, 'q, 'f) redis_codec \<Rightarrow> (('p, 'q, 'f) redis_db \<Rightarrow> ('p, 'q, 'f) redis_db) \<Rightarrow> kv_entry \<Rightarrow> u64
    \<Rightarrow> (('p, 'q, 'f) redis_db, dtm_error, bool) act" where
  "redis_update_kv C mid e expected_version db =
     (if kv_version e \<noteq> sat_add expected_version 1 then (Inl (StoreError InvalidKvVersion), db)
      else (let field = kv_field (kv_category e) (kv_key e) in
        case bt_get (r_kv db) field of
          None \<Rightarrow> (Inr False, db)
        | Some previous \<Rightarrow>
            (case redis_kv_decode C previous of
               Inl err \<Rightarrow> (Inl err, db)
             | Inr entry \<Rightarrow>
                 if kv_version entry \<noteq> expected_version then (Inr False, db)
                 else (let db = mid db in
                   case cas_hash_field field previous (kv_to_json C e) (r_kv db) of
                     (changed, h) \<Rightarrow>
                       (if changed = 1 then Inr True
                        else if changed = 0 \<or> changed = -1 then Inr False
                        else Inl (StoreError StoreFault), db\<lparr>r_kv := h\<rparr>)))))"

definition redis_delete_kv :: "string \<Rightarrow> string \<Rightarrow> (('p, 'q, 'f) redis_db, dtm_error, bool) act" where
  "redis_delete_kv cat k db =
     (Inr (bt_get (r_kv db) (kv_field cat k) \<noteq> None), db\<lparr>r_kv := bt_remove (kv_field cat k) (r_kv db)\<rparr>)"

section \<open>Barriers and leases\<close>

definition redis_barrier :: "('p, 'q, 'f) redis_codec \<Rightarrow> branch_barrier \<Rightarrow> (('p, 'q, 'f) redis_db, dtm_error, barrier_decision) act" where
  "redis_barrier C b db = (case barrier_script C b db of (decision, db') \<Rightarrow> (decode_decision decision, db'))"

definition redis_barrier_fenced ::
  "('p, 'q, 'f) redis_codec \<Rightarrow> branch_barrier \<Rightarrow> recovery_lease_fence \<Rightarrow> (('p, 'q, 'f) redis_db, dtm_error, barrier_decision) act" where
  "redis_barrier_fenced C b f db =
     (case validate_recovery_fence f of Inl e \<Rightarrow> (Inl e, db)
      | Inr _ \<Rightarrow> (case fenced_barrier_script C f b db of (decision, db') \<Rightarrow> (decode_decision decision, db')))"

definition redis_release_barrier ::
  "('p, 'q, 'f) redis_codec \<Rightarrow> (('p, 'q, 'f) redis_db \<Rightarrow> ('p, 'q, 'f) redis_db) \<Rightarrow> branch_barrier
    \<Rightarrow> (('p, 'q, 'f) redis_db, dtm_error, unit) act" where
  "redis_release_barrier C mid b db =
     (let field = barrier_field C (bb_gid b) (bb_branch_id b) (bb_op b);
          index = barrier_index_key C (bb_gid b);
          db = mid (db\<lparr>r_barriers := r_barriers db - {field}\<rparr>) in
      (Inr (), db\<lparr>r_index := (r_index db)(index := r_index db index - {field})\<rparr>))"

definition redis_release_barrier_fenced ::
  "('p, 'q, 'f) redis_codec \<Rightarrow> branch_barrier \<Rightarrow> recovery_lease_fence \<Rightarrow> (('p, 'q, 'f) redis_db, dtm_error, unit) act" where
  "redis_release_barrier_fenced C b f db =
     (case validate_recovery_fence f of Inl e \<Rightarrow> (Inl e, db)
      | Inr _ \<Rightarrow>
          if \<not> fence_valid C f db then (Inl (StoreError FenceLost), db)
          else (let field = barrier_field C (bb_gid b) (bb_branch_id b) (bb_op b);
                    index = barrier_index_key C (bb_gid b) in
            (Inr (), db\<lparr>r_barriers := r_barriers db - {field},
                        r_index := (r_index db)(index := r_index db index - {field})\<rparr>)))"

text \<open>
  \<^verbatim>\<open>ACQUIRE_RECOVERY_LEASE\<close>: nothing if the script fails, otherwise whether the lease was acquired and its epoch.
\<close>

definition write_lease :: "('p, 'q, 'f) redis_codec \<Rightarrow> string \<Rightarrow> string \<Rightarrow> nat \<Rightarrow> nat \<Rightarrow> ('p, 'q, 'f) redis_db \<Rightarrow> ('p, 'q, 'f) redis_db" where
  "write_lease C name owner expiry epoch db =
     (case lease_fields C name of (owner_field, expiry_field, epoch_field) \<Rightarrow>
        db\<lparr>r_leases := bt_insert epoch_field (show_nat epoch)
             (bt_insert expiry_field (show_nat expiry) (bt_insert owner_field owner (r_leases db)))\<rparr>)"

definition acquire_script ::
  "('p, 'q, 'f) redis_codec \<Rightarrow> string \<Rightarrow> string \<Rightarrow> nat \<Rightarrow> ('p, 'q, 'f) redis_db \<Rightarrow> (bool \<times> nat) option \<times> ('p, 'q, 'f) redis_db" where
  "acquire_script C name owner ttl db =
     (case lease_fields C name of (owner_field, expiry_field, epoch_field) \<Rightarrow>
        (case (bt_get (r_leases db) owner_field, lease_number expiry_field db, lease_number epoch_field db) of
           (current_owner, Some expiry, Some epoch) \<Rightarrow>
             if current_owner \<noteq> None \<and> r_time db < expiry then
               if current_owner \<noteq> Some owner then (Some (False, epoch), db)
               else (let epoch = (if epoch < 1 then 1 else epoch) in
                 (Some (True, epoch), write_lease C name owner (r_time db + ttl) epoch db))
             else (Some (True, epoch + 1), write_lease C name owner (r_time db + ttl) (epoch + 1) db)
         | _ \<Rightarrow> (None, db)))"

definition redis_acquire_lease ::
  "('p, 'q, 'f) redis_codec \<Rightarrow> string \<Rightarrow> string \<Rightarrow> u64 \<Rightarrow> (('p, 'q, 'f) redis_db, dtm_error, recovery_lease_fence option) act" where
  "redis_acquire_lease C name owner ttl_millis db =
     (case validate_recovery_lease_input name owner ttl_millis of Inl e \<Rightarrow> (Inl e, db)
      | Inr _ \<Rightarrow>
          (case acquire_script C name owner (unat ttl_millis) db of
             (None, db') \<Rightarrow> (Inl (StoreError StoreFault), db')
           | (Some (acquired, epoch), db') \<Rightarrow>
               (if 2 ^ 63 \<le> epoch then Inl (StoreError StoreFault)
                else if \<not> acquired then Inr None
                else Inr (Some \<lparr>fence_name = name, fence_owner = owner, fence_epoch = of_nat epoch\<rparr>), db')))"

definition redis_try_acquire_lease ::
  "('p, 'q, 'f) redis_codec \<Rightarrow> string \<Rightarrow> string \<Rightarrow> u64 \<Rightarrow> (('p, 'q, 'f) redis_db, dtm_error, bool) act" where
  "redis_try_acquire_lease C name owner ttl_millis =
     then_ok (redis_acquire_lease C name owner ttl_millis) (\<lambda>f. ok (f \<noteq> None))"

definition redis_ops :: "('p, 'q, 'f) redis_codec \<Rightarrow> ('p, 'q, 'f) redis_db store_ops" where
  "redis_ops C = \<lparr>
     insert_transaction = redis_insert_transaction C,
     get_transaction = redis_get_transaction C,
     update_transaction = redis_update_transaction C id,
     update_transaction_fenced = redis_update_transaction_fenced C id,
     register_branch = (\<lambda>now g b. mutate_transaction C (\<lambda>_. id) ''branch registration'' g
       (\<lambda>tx. append_dynamic_branch now tx b)),
     record_progress = (\<lambda>now g p. mutate_transaction C (\<lambda>_. id) ''workflow progress update'' g
       (\<lambda>tx. append_workflow_progress now tx p)),
     record_progress_fenced = (\<lambda>now g p f. mutate_transaction_fenced C (\<lambda>_. id) ''workflow progress update'' g f
       (\<lambda>tx. append_workflow_progress now tx p)),
     finish_workflow = (\<lambda>now g st rr rs. mutate_transaction C (\<lambda>_. id) ''workflow completion'' g
       (\<lambda>tx. apply_workflow_completion now tx st rr rs)),
     finish_workflow_fenced = (\<lambda>now g st rr rs f. mutate_transaction_fenced C (\<lambda>_. id) ''workflow completion'' g f
       (\<lambda>tx. apply_workflow_completion now tx st rr rs)),
     defer_recovery = (\<lambda>now g d. mutate_transaction C (\<lambda>_. id) ''workflow recovery update'' g
       (\<lambda>tx. defer_workflow_recovery now tx d)),
     defer_recovery_fenced = (\<lambda>now g d f. mutate_transaction_fenced C (\<lambda>_. id) ''workflow recovery update'' g f
       (\<lambda>tx. defer_workflow_recovery now tx d)),
     list_transactions = redis_list_transactions C,
     delete_if_unchanged = redis_delete_if_unchanged C id,
     get_kv = redis_get_kv C,
     list_kv = redis_list_kv C,
     create_kv = redis_create_kv C,
     update_kv = redis_update_kv C id,
     delete_kv = redis_delete_kv,
     barrier = (\<lambda>now. redis_barrier C),
     barrier_fenced = (\<lambda>now. redis_barrier_fenced C),
     release_barrier = redis_release_barrier C id,
     release_barrier_fenced = redis_release_barrier_fenced C,
     try_acquire_lease = (\<lambda>now. redis_try_acquire_lease C),
     acquire_lease = (\<lambda>now. redis_acquire_lease C)\<rparr>"

section \<open>The Redis store keeps the contract\<close>

text \<open>What both write scripts do: replace the expected payload, or nothing.\<close>

definition cas_like :: "('p, 'q, 'f) script \<Rightarrow> bool" where
  "cas_like script \<longleftrightarrow> (\<forall>g old new db code db'. script g old new db = (code, db') \<longrightarrow>
     code = 1 \<and> bt_get (r_transactions db) g = Some old
       \<and> db' = db\<lparr>r_transactions := bt_insert g new (r_transactions db)\<rparr>
     \<or> code \<noteq> 1 \<and> db' = db \<and> (code = 0 \<longrightarrow> bt_get (r_transactions db) g \<noteq> Some old))"

lemma cas_like_cases:
  assumes "cas_like script" and "script g old new db = (code, db')"
  obtains (written) "code = 1" "bt_get (r_transactions db) g = Some old"
      "db' = db\<lparr>r_transactions := bt_insert g new (r_transactions db)\<rparr>"
    | (refused) "code \<noteq> 1" "db' = db" "code = 0 \<Longrightarrow> bt_get (r_transactions db) g \<noteq> Some old"
  using assms unfolding cas_like_def by blast

lemma cas_transaction_like: "cas_like cas_transaction"
  by (auto simp: cas_like_def cas_transaction_def cas_hash_field_def split: option.splits if_splits)

lemma fenced_cas_like: "cas_like (fenced_cas_transaction C f)"
  by (auto simp: cas_like_def fenced_cas_transaction_def cas_transaction_def cas_hash_field_def
      split: option.splits if_splits)

definition redis_good :: "('p, 'q, 'f) redis_codec \<Rightarrow> ('p, 'q, 'f) redis_db \<Rightarrow> bool" where
  "redis_good C db \<longleftrightarrow> bt_wf (r_transactions db)
     \<and> (\<forall>g p. bt_get (r_transactions db) g = Some p \<longrightarrow> (\<exists>tx. from_json C p = Some tx \<and> gid tx = g))
     \<and> (\<forall>g. \<forall>field \<in> r_index db (barrier_index_key C g). \<exists>b oper. field = barrier_field C g b oper)"

definition redis_view :: "('p, 'q, 'f) redis_codec \<Rightarrow> ('p, 'q, 'f) redis_db \<Rightarrow> abs_store" where
  "redis_view C db =
     \<lparr>a_txs = (\<lambda>g. Option.bind (bt_get (r_transactions db) g) (from_json C)),
      a_claims = {b. barrier_field C (bb_gid b) (bb_branch_id b) (bb_op b) \<in> r_barriers db}\<rparr>"

lemma distinct_map_sort_key: "distinct (map f (sort_key k xs)) = distinct (map f xs)"
  by (rule mset_eq_imp_distinct_iff) simp

locale redis_encoding =
  fixes C :: "('p, 'q, 'f) redis_codec"
  assumes round_trip: "from_json C (to_json C tx) = Some tx"
    and kv_round_trip: "kv_from_json C (kv_to_json C e) = Some e"
    and tuple_inj: "tuple_json C t = tuple_json C t' \<longleftrightarrow> t = t'"
    and string_inj: "string_json C g = string_json C g' \<longleftrightarrow> g = g'"
    and base64_inj: "base64_url C name = base64_url C name' \<longleftrightarrow> name = name'"
begin

abbreviation "good \<equiv> redis_good C"
abbreviation "view \<equiv> redis_view C"

lemma field_inj [simp]: "barrier_field C g b oper = barrier_field C g' b' oper' \<longleftrightarrow> g = g' \<and> b = b' \<and> oper = oper'"
  by (simp add: barrier_field_def tuple_inj)

lemma index_inj [simp]: "barrier_index_key C g = barrier_index_key C g' \<longleftrightarrow> g = g'"
  by (simp add: barrier_index_key_def string_inj)

lemma good_payload:
  assumes "good db" and "bt_get (r_transactions db) g = Some p"
  obtains tx where "from_json C p = Some tx" "gid tx = g" "redis_decode C p = Inr tx" "a_txs (view db) g = Some tx"
proof -
  obtain tx where "from_json C p = Some tx" "gid tx = g" using assms unfolding redis_good_def by blast
  then show thesis using assms(2) by (intro that) (simp_all add: redis_decode_def redis_view_def)
qed

lemma view_None: "bt_get (r_transactions db) g = None \<Longrightarrow> a_txs (view db) g = None"
  by (simp add: redis_view_def)

lemma own_gid: "good db \<Longrightarrow> a_txs (view db) g = Some tx \<Longrightarrow> gid tx = g"
  by (cases "bt_get (r_transactions db) g") (auto simp: view_None elim: good_payload)

lemma claimed_iff: "b \<in> a_claims (view db) \<longleftrightarrow> barrier_field C (bb_gid b) (bb_branch_id b) (bb_op b) \<in> r_barriers db"
  by (simp add: redis_view_def)

lemma write_payload:
  assumes "good db" and "gid tx = g"
  defines "db' \<equiv> db\<lparr>r_transactions := bt_insert g (to_json C tx) (r_transactions db)\<rparr>"
  shows "good db'" and "view db' = (view db)\<lparr>a_txs := (a_txs (view db))(g \<mapsto> tx)\<rparr>"
proof -
  show "good db'" using assms by (auto simp: redis_good_def round_trip)
  show "view db' = (view db)\<lparr>a_txs := (a_txs (view db))(g \<mapsto> tx)\<rparr>"
    unfolding db'_def redis_view_def by (auto simp: round_trip fun_eq_iff)
qed

lemma insert_faithful: "faithful good view (redis_insert_transaction C tx) (spec_insert tx)"
proof (rule faithfulI)
  fix s r s' assume good: "good s" and run: "redis_insert_transaction C tx s = (r, s')"
  show "good s' \<and> spec_insert tx (view s) = (r, view s')"
  proof (cases "bt_get (r_transactions s) (gid tx)")
    case None
    then show ?thesis
      using run write_payload [OF good, of tx] view_None [OF None] by (auto simp: redis_insert_transaction_def spec_insert_def)
  next
    case (Some p)
    then obtain old where "a_txs (view s) (gid tx) = Some old" using good_payload [OF good] by blast
    then show ?thesis using run good Some by (auto simp: redis_insert_transaction_def spec_insert_def)
  qed
qed

lemma get_faithful: "faithful good view (redis_get_transaction C g) (spec_get g)"
proof (rule faithfulI)
  fix s r s' assume good: "good s" and run: "redis_get_transaction C g s = (r, s')"
  show "good s' \<and> spec_get g (view s) = (r, view s')"
  proof (cases "bt_get (r_transactions s) g")
    case None
    then show ?thesis using run good by (auto simp: redis_get_transaction_def spec_get_def view_None)
  next
    case (Some p)
    then obtain tx where "redis_decode C p = Inr tx" "a_txs (view s) g = Some tx" using good_payload [OF good] by blast
    then show ?thesis using Some run good by (simp add: redis_get_transaction_def spec_get_def)
  qed
qed

text \<open>
  The update, with others acting between its read and its write: if it succeeds, the
  transaction it replaces still had the revision the caller started from.
\<close>

lemma update_sound:
  assumes "cas_like script" and "good db" and "good (mid db)"
    and "redis_update_with C script mid now tx db = (r, db')"
  shows "(\<exists>e. r = Inl e) \<and> db' \<in> {db, mid db}
    \<or> r = Inr () \<and> good db' \<and> spec_update now tx (view (mid db)) = (Inr (), view db')
      \<and> (\<exists>old. a_txs (view (mid db)) (gid tx) = Some old \<and> revision old = revision tx)"
proof (cases "bt_get (r_transactions db) (gid tx)")
  case None
  then show ?thesis using assms(4) by (auto simp: redis_update_with_def)
next
  case (Some p)
  then obtain old where old: "from_json C p = Some old" "redis_decode C p = Inr old" using good_payload [OF assms(2)] by blast
  show ?thesis
  proof (cases "revision old = revision tx")
    case False
    then show ?thesis using assms(4) Some old by (auto simp: redis_update_with_def)
  next
    case True
    let ?tx = "bump_transaction_revision now tx"
    obtain code db1 where run: "script (gid tx) p (to_json C ?tx) (mid db) = (code, db1)" by fastforce
    have r: "db' = db1" "r = Inr () \<longleftrightarrow> code = 1"
      using assms(4) Some old True run by (auto simp: redis_update_with_def split: if_splits)
    from assms(1) run show ?thesis
    proof (cases rule: cas_like_cases)
      case written
      have own: "gid ?tx = gid tx" by (simp add: bump_transaction_revision_def)
      have "a_txs (view (mid db)) (gid tx) = Some old" using written(2) old(1) by (simp add: redis_view_def)
      then show ?thesis
        using write_payload [OF assms(3) own] written r True by (auto simp: spec_update_def)
    next
      case refused
      then have "r \<noteq> Inr ()" using r by simp
      then have "\<exists>e. r = Inl e" by (cases r) auto
      then show ?thesis using refused r by simp
    qed
  qed
qed

text \<open>
  A change by compare-and-swap, with others acting before each write: it has the effect of the
  atomic change at one moment of its run, or fails without any effect.
\<close>

lemma mutate_sound:
  assumes "cas_like script" and "good db" and "\<And>n db. good db \<Longrightarrow> good (mid n db)"
    and "\<And>tx tx'. f tx = Inr tx' \<Longrightarrow> gid tx' = gid tx"
    and "redis_mutate_loop n C script mid what g f db = (r, db')"
  shows "\<exists>j \<le> n. good (meanwhile mid n j db)
    \<and> (spec_mutate g f (view (meanwhile mid n j db)) = (r, view db') \<and> good db'
       \<or> (\<exists>e. r = Inl e) \<and> db' = meanwhile mid n j db)"
  using assms(2,5)
proof (induction n arbitrary: db)
  case 0
  then show ?case by auto
next
  case (Suc n)
  show ?case
  proof (cases "bt_get (r_transactions db) g")
    case None
    then show ?thesis using Suc.prems by (intro exI [of _ 0]) auto
  next
    case (Some p)
    then obtain tx where tx: "from_json C p = Some tx" "gid tx = g" "redis_decode C p = Inr tx"
      using good_payload [OF Suc.prems(1)] by blast
    note mid = assms(3) [OF Suc.prems(1), of n]
    show ?thesis
    proof (cases "f tx")
      case (Inl e)
      then have "r = Inl e" "db' = db" using Suc.prems(2) Some tx by simp_all
      then show ?thesis using Suc.prems(1) by (intro exI [of _ 0]) simp
    next
      case (Inr tx')
      then have own: "gid tx' = g" using assms(4) tx(2) by metis
      obtain code db1 where run: "script g p (to_json C tx') (mid n db) = (code, db1)" by fastforce
      from assms(1) run show ?thesis
      proof (cases rule: cas_like_cases)
        case written
        then have r: "r = Inr tx'" "db' = db1" using Suc.prems(2) Some tx Inr run by simp_all
        have "a_txs (view (mid n db)) g = Some tx" using written(2) tx(1) by (simp add: redis_view_def)
        from spec_mutate_cases(3) [of _ g tx f tx', OF this Inr] show ?thesis
          using write_payload [OF mid own] written r mid by (intro exI [of _ 1]) auto
      next
        case refused
        show ?thesis
        proof (cases "code = 0")
          case True
          then have "redis_mutate_loop n C script mid what g f (mid n db) = (r, db')"
            using Suc.prems(2) Some tx Inr run refused(2) by simp
          from Suc.IH [OF mid this] obtain j where "j \<le> n" "good (meanwhile mid n j (mid n db))"
            "spec_mutate g f (view (meanwhile mid n j (mid n db))) = (r, view db') \<and> good db'
               \<or> (\<exists>e. r = Inl e) \<and> db' = meanwhile mid n j (mid n db)" by blast
          then show ?thesis by (intro exI [of _ "Suc j"]) auto
        next
          case False
          then show ?thesis
            using Suc.prems(2) Some tx Inr run refused mid by (intro exI [of _ 1]) (auto split: if_splits)
        qed
      qed
    qed
  qed
qed

lemma meanwhile_id: "meanwhile (\<lambda>_. id) n j s = s"
  by (induction j arbitrary: n) simp_all

lemma mutate_implements:
  assumes "cas_like script" and "\<And>tx tx'. f tx = Inr tx' \<Longrightarrow> gid tx' = gid tx"
  shows "implements good view (redis_mutate_loop n C script (\<lambda>_. id) what g f) (spec_mutate g f)"
  unfolding implements_def
proof (intro allI impI, simp only: split_def)
  fix s assume good: "good s"
  let ?out = "redis_mutate_loop n C script (\<lambda>_. id) what g f s"
  have "?out = (fst ?out, snd ?out)" by simp
  from mutate_sound [OF assms(1) good _ assms(2) this]
  show "good (snd ?out) \<and> ((fst ?out, view (snd ?out)) = spec_mutate g f (view s)
      \<or> (\<exists>e. fst ?out = Inl e) \<and> view (snd ?out) = view s)"
    using good by (auto simp: meanwhile_id)
qed

lemma update_implements:
  assumes "cas_like script"
  shows "implements good view (redis_update_with C script id now tx) (spec_update now tx)"
  unfolding implements_def
proof (intro allI impI, simp only: split_def)
  fix s assume good: "good s"
  let ?out = "redis_update_with C script id now tx s"
  have "?out = (fst ?out, snd ?out)" by simp
  from update_sound [OF assms good _ this] good
  show "good (snd ?out) \<and> ((fst ?out, view (snd ?out)) = spec_update now tx (view s)
      \<or> (\<exists>e. fst ?out = Inl e) \<and> view (snd ?out) = view s)"
    by auto
qed

lemma guarded_implements:
  assumes "implements good view m spec"
  shows "implements good view (\<lambda>db. case v of Inl e \<Rightarrow> (Inl e, db) | Inr _ \<Rightarrow> m db) spec"
  using assms by (cases v) (auto simp: implements_def)

lemma barrier_faithful: "faithful good view (redis_barrier C b) (spec_barrier (=) b)"
proof (rule faithfulI)
  fix s r s' assume good: "good s" and run: "redis_barrier C b s = (r, s')"
  let ?field = "barrier_field C (bb_gid b) (bb_branch_id b) (bb_op b)" and ?index = "barrier_index_key C (bb_gid b)"
  let ?claim = "s\<lparr>r_barriers := insert ?field (r_barriers s), r_index := (r_index s)(?index := insert ?field (r_index s ?index))\<rparr>"
  have claim: "good ?claim" "view ?claim = (view s)\<lparr>a_claims := a_claims (view s) \<union> {c. b = c}\<rparr>"
    using good by (auto simp: redis_good_def redis_view_def)
  have siblings: "sibling b oper \<in> a_claims (view s) \<longleftrightarrow> barrier_field C (bb_gid b) (bb_branch_id b) oper \<in> r_barriers s" for oper
    by (simp add: claimed_iff)
  show "good s' \<and> spec_barrier (=) b (view s) = (r, view s')"
    using run good claim
    by (auto simp: redis_barrier_def barrier_script_def decode_decision_def spec_barrier_def Let_def claimed_iff siblings
        split: if_splits)
qed

lemma barrier_fenced_implements: "implements good view (redis_barrier_fenced C b f) (spec_barrier (=) b)"
proof -
  have "implements good view (\<lambda>db. case fenced_barrier_script C f b db of (decision, db') \<Rightarrow> (decode_decision decision, db')) (spec_barrier (=) b)"
    using faithful_implements [OF barrier_faithful [of b]]
    by (auto simp: implements_def fenced_barrier_script_def redis_barrier_def decode_decision_def split: if_splits)
  from guarded_implements [OF this, of "validate_recovery_fence f"] show ?thesis unfolding redis_barrier_fenced_def by simp
qed

lemma release_faithful: "faithful good view (redis_release_barrier C id b) (spec_release (=) b)"
  by (rule faithfulI)
    (auto simp: redis_release_barrier_def spec_release_def redis_good_def redis_view_def Let_def)

lemma release_fenced_implements: "implements good view (redis_release_barrier_fenced C b f) (spec_release (=) b)"
proof -
  have "implements good view
      (\<lambda>db. if \<not> fence_valid C f db then (Inl (StoreError FenceLost), db) else redis_release_barrier C id b db)
      (spec_release (=) b)"
    using faithful_implements [OF release_faithful [of b]] by (auto simp: implements_def)
  moreover have "redis_release_barrier_fenced C b f = (\<lambda>db. case validate_recovery_fence f of Inl e \<Rightarrow> (Inl e, db)
      | Inr _ \<Rightarrow> if \<not> fence_valid C f db then (Inl (StoreError FenceLost), db) else redis_release_barrier C id b db)"
    by (simp add: fun_eq_iff redis_release_barrier_fenced_def redis_release_barrier_def Let_def split: sum.split)
  ultimately show ?thesis using guarded_implements by simp
qed

lemma frameI: "good db \<Longrightarrow> r_transactions db' = r_transactions db \<Longrightarrow> r_barriers db' = r_barriers db \<Longrightarrow>
    r_index db' = r_index db \<Longrightarrow> good db' \<and> view db' = view db"
  by (simp add: redis_good_def redis_view_def)

lemma frame_laws:
  "good db \<Longrightarrow> redis_get_kv C cat key db = (kr, db') \<Longrightarrow> good db' \<and> view db' = view db"
  "good db \<Longrightarrow> redis_list_kv C cato keyo offset limit db = (ke, db') \<Longrightarrow> good db' \<and> view db' = view db"
  "good db \<Longrightarrow> redis_create_kv C e db = (kb, db') \<Longrightarrow> good db' \<and> view db' = view db"
  "good db \<Longrightarrow> redis_update_kv C id e v db = (kb, db') \<Longrightarrow> good db' \<and> view db' = view db"
  "good db \<Longrightarrow> redis_delete_kv cat key db = (kb, db') \<Longrightarrow> good db' \<and> view db' = view db"
  by (erule frameI; auto simp: redis_get_kv_def redis_list_kv_def redis_create_kv_def redis_update_kv_def redis_delete_kv_def Let_def
      split: if_splits option.splits sum.splits prod.splits)+

lemma acquire_script_frame:
  "\<exists>h. snd (acquire_script C name owner ttl db) = db\<lparr>r_leases := h\<rparr>"
proof -
  have same: "\<exists>h. db = db\<lparr>r_leases := h\<rparr>" by (rule exI [of _ "r_leases db"]) simp
  have writes: "\<exists>h. write_lease C name owner x e db = db\<lparr>r_leases := h\<rparr>" for x e
    by (auto simp: write_lease_def lease_fields_def Let_def)
  show ?thesis
    unfolding acquire_script_def lease_fields_def Let_def
    by (simp add: same writes split: option.split)
qed

lemma acquire_frame:
  assumes "redis_acquire_lease C name owner ttl db = (l, db')"
  shows "\<exists>h. db' = db\<lparr>r_leases := h\<rparr>"
proof (cases "validate_recovery_lease_input name owner ttl")
  case (Inl e)
  then have "db' = db\<lparr>r_leases := r_leases db\<rparr>" using assms by (simp add: redis_acquire_lease_def)
  then show ?thesis ..
next
  case (Inr u)
  then have "db' = snd (acquire_script C name owner (unat ttl) db)"
    using assms by (auto simp: redis_acquire_lease_def split: prod.splits option.splits)
  then show ?thesis using acquire_script_frame by simp
qed

lemma lease_law: "good db \<Longrightarrow> redis_acquire_lease C name owner ttl db = (l, db') \<Longrightarrow> good db' \<and> view db' = view db"
  by (drule acquire_frame, elim exE, erule frameI) simp_all

lemma list_law:
  assumes "good db"
  shows "\<exists>listed. redis_list_transactions C db = (listed, db)
    \<and> (\<forall>txs. listed = Inr txs \<longrightarrow> set txs = ran (a_txs (view db)) \<and> distinct (map gid txs))"
proof -
  let ?t = "r_transactions db" and ?tx = "\<lambda>p. the (from_json C p)"
  have wf: "bt_wf ?t" using assms by (simp add: redis_good_def)
  have row: "from_json C p = Some (?tx p) \<and> gid (?tx p) = g" if "bt_get ?t g = Some p" for g p
    by (rule good_payload [OF assms that]) simp
  have decode: "redis_decode C p = Inr (?tx p)" if "p \<in> set (bt_values ?t)" for p
    using that row unfolding bt_values_mem [OF wf] redis_decode_def by fastforce
  have found: "?tx ` set (bt_values ?t) = ran (a_txs (view db))"
  proof (intro set_eqI iffI)
    fix tx assume "tx \<in> ?tx ` set (bt_values ?t)"
    then obtain g p where "bt_get ?t g = Some p" "tx = ?tx p" unfolding image_iff Bex_def bt_values_mem [OF wf] by blast
    then show "tx \<in> ran (a_txs (view db))" using row [of g p] by (intro ranI [of _ g]) (simp add: redis_view_def)
  next
    fix tx assume "tx \<in> ran (a_txs (view db))"
    then obtain g p where "bt_get ?t g = Some p" "from_json C p = Some tx"
      by (auto simp: ran_def redis_view_def bind_eq_Some_conv)
    then show "tx \<in> ?tx ` set (bt_values ?t)" unfolding image_iff Bex_def bt_values_mem [OF wf] by force
  qed
  have "gid (?tx p) = g" if "(g, p) \<in> set ?t" for g p using row that bt_get_eq_Some [OF wf, of g p] by blast
  then have "map (gid \<circ> ?tx) (bt_values ?t) = map fst ?t" by (auto simp: bt_values_def)
  then have "distinct (map gid (map ?tx (bt_values ?t)))" using bt_wf_distinct [OF wf] by simp
  then show ?thesis
    using found res_map_total [of "bt_values ?t" "redis_decode C" ?tx, OF decode]
    by (simp add: redis_list_transactions_def hash_values_def distinct_map_sort_key del: map_map)
qed

lemma listed_field: "field \<in> set (transaction_barrier_fields C tx) \<Longrightarrow> \<exists>b oper. field = barrier_field C (gid tx) b oper"
  by (auto simp: transaction_barrier_fields_def)

lemma delete_law:
  assumes "good db" and "redis_delete_if_unchanged C id tx db = (r, db')"
  shows "good db' \<and> spec_delete (=) tx (view db) r (view db')"
proof (cases "a_txs (view db) (gid tx) = Some tx")
  case True
  then obtain p where row: "bt_get (r_transactions db) (gid tx) = Some p" "from_json C p = Some tx"
    by (auto simp: redis_view_def bind_eq_Some_conv)
  let ?index = "barrier_index_key C (gid tx)"
  have r: "r = Inr True" and db': "db' = db\<lparr>r_transactions := bt_remove (gid tx) (r_transactions db),
      r_barriers := r_barriers db - r_index db ?index - set (transaction_barrier_fields C tx),
      r_index := (r_index db)(?index := {})\<rparr>"
    using assms(2) row by (auto simp: redis_delete_if_unchanged_def delete_script_def redis_decode_def Let_def)
  have good: "good db'" using assms(1) by (auto simp: db' redis_good_def)
  have index: "\<exists>b oper. field = barrier_field C (gid tx) b oper" if "field \<in> r_index db ?index" for field
    using assms(1) that unfolding redis_good_def by blast
  have "bb_gid b = gid tx" if "b \<in> a_claims (view db)" "b \<notin> a_claims (view db')" for b
    using that index listed_field [of _ tx] by (force simp: claimed_iff db')
  moreover have "a_claims (view db') \<subseteq> a_claims (view db)" by (auto simp: claimed_iff db')
  moreover have "a_txs (view db') = (a_txs (view db))(gid tx := None)" by (auto simp: redis_view_def db' fun_eq_iff)
  ultimately show ?thesis using good True r by (auto simp: spec_delete_def)
next
  case False
  have "r = Inr False \<and> db' = db"
  proof (cases "bt_get (r_transactions db) (gid tx)")
    case None
    then show ?thesis using assms(2) by (simp add: redis_delete_if_unchanged_def)
  next
    case (Some p)
    then obtain tx' where "redis_decode C p = Inr tx'" "a_txs (view db) (gid tx) = Some tx'"
      using good_payload [OF assms(1)] by blast
    then show ?thesis using assms(2) Some False by (auto simp: redis_delete_if_unchanged_def)
  qed
  then show ?thesis using False assms(1) by (simp add: spec_delete_def)
qed

lemma update_reliable:
  assumes "good db" and "a_txs (view db) (gid tx) = Some old" and "revision old = revision tx"
  shows "fst (redis_update_transaction C id now tx db) = Inr ()"
proof -
  obtain p where "bt_get (r_transactions db) (gid tx) = Some p" "from_json C p = Some old"
    using assms(2) by (auto simp: redis_view_def bind_eq_Some_conv)
  then show ?thesis
    using assms(3) by (simp add: redis_update_transaction_def redis_update_with_def redis_decode_def
        cas_transaction_def cas_hash_field_def)
qed

lemma ops_simps:
  "update_transaction (redis_ops C) now tx = redis_update_with C cas_transaction id now tx"
  "update_transaction_fenced (redis_ops C) now tx fe =
     (\<lambda>db. case validate_recovery_fence fe of Inl e \<Rightarrow> (Inl e, db)
       | Inr _ \<Rightarrow> redis_update_with C (fenced_cas_transaction C fe) id now tx db)"
  "register_branch (redis_ops C) now g br = redis_mutate_loop 16 C cas_transaction (\<lambda>_. id) ''branch registration'' g
     (\<lambda>tx. append_dynamic_branch now tx br)"
  "record_progress (redis_ops C) now g pr = redis_mutate_loop 16 C cas_transaction (\<lambda>_. id) ''workflow progress update'' g
     (\<lambda>tx. append_workflow_progress now tx pr)"
  "record_progress_fenced (redis_ops C) now g pr fe =
     (\<lambda>db. case validate_recovery_fence fe of Inl e \<Rightarrow> (Inl e, db)
       | Inr _ \<Rightarrow> redis_mutate_loop 16 C (fenced_cas_transaction C fe) (\<lambda>_. id) ''workflow progress update'' g
           (\<lambda>tx. append_workflow_progress now tx pr) db)"
  "finish_workflow (redis_ops C) now g st rr rs = redis_mutate_loop 16 C cas_transaction (\<lambda>_. id) ''workflow completion'' g
     (\<lambda>tx. apply_workflow_completion now tx st rr rs)"
  "finish_workflow_fenced (redis_ops C) now g st rr rs fe =
     (\<lambda>db. case validate_recovery_fence fe of Inl e \<Rightarrow> (Inl e, db)
       | Inr _ \<Rightarrow> redis_mutate_loop 16 C (fenced_cas_transaction C fe) (\<lambda>_. id) ''workflow completion'' g
           (\<lambda>tx. apply_workflow_completion now tx st rr rs) db)"
  "defer_recovery (redis_ops C) now g d = redis_mutate_loop 16 C cas_transaction (\<lambda>_. id) ''workflow recovery update'' g
     (\<lambda>tx. defer_workflow_recovery now tx d)"
  "defer_recovery_fenced (redis_ops C) now g d fe =
     (\<lambda>db. case validate_recovery_fence fe of Inl e \<Rightarrow> (Inl e, db)
       | Inr _ \<Rightarrow> redis_mutate_loop 16 C (fenced_cas_transaction C fe) (\<lambda>_. id) ''workflow recovery update'' g
           (\<lambda>tx. defer_workflow_recovery now tx d) db)"
  by (simp_all add: redis_ops_def redis_update_transaction_def redis_update_transaction_fenced_def mutate_transaction_def
      mutate_transaction_fenced_def fun_eq_iff)

lemma ops_fields:
  "insert_transaction (redis_ops C) = redis_insert_transaction C" "get_transaction (redis_ops C) = redis_get_transaction C"
  "list_transactions (redis_ops C) = redis_list_transactions C" "delete_if_unchanged (redis_ops C) = redis_delete_if_unchanged C id"
  "get_kv (redis_ops C) = redis_get_kv C" "list_kv (redis_ops C) = redis_list_kv C" "create_kv (redis_ops C) = redis_create_kv C"
  "update_kv (redis_ops C) = redis_update_kv C id" "delete_kv (redis_ops C) = redis_delete_kv"
  "barrier (redis_ops C) now = redis_barrier C" "barrier_fenced (redis_ops C) now = redis_barrier_fenced C"
  "release_barrier (redis_ops C) = redis_release_barrier C id"
  "release_barrier_fenced (redis_ops C) = redis_release_barrier_fenced C"
  "acquire_lease (redis_ops C) now = redis_acquire_lease C"
  by (simp_all add: redis_ops_def)

lemmas redis_updates = update_implements [OF cas_transaction_like] guarded_implements [OF update_implements [OF fenced_cas_like]]

lemma redis_mutations:
  assumes "cas_like script"
  shows "implements good view (redis_mutate_loop n C script (\<lambda>_. id) what g (\<lambda>tx. append_dynamic_branch now tx br))
      (spec_mutate g (\<lambda>tx. append_dynamic_branch now tx br))"
    and "implements good view (redis_mutate_loop n C script (\<lambda>_. id) what g (\<lambda>tx. append_workflow_progress now tx pr))
      (spec_mutate g (\<lambda>tx. append_workflow_progress now tx pr))"
    and "implements good view (redis_mutate_loop n C script (\<lambda>_. id) what g (\<lambda>tx. apply_workflow_completion now tx st rr rs))
      (spec_mutate g (\<lambda>tx. apply_workflow_completion now tx st rr rs))"
    and "implements good view (redis_mutate_loop n C script (\<lambda>_. id) what g (\<lambda>tx. defer_workflow_recovery now tx d))
      (spec_mutate g (\<lambda>tx. defer_workflow_recovery now tx d))"
  by (rule mutate_implements [OF assms], erule transitions_keep_gid)+

lemma redis_store: "reliable_store (redis_ops C) good view (=)"
proof unfold_locales
  show "good s \<Longrightarrow> a_txs (view s) (gid tx) = Some old \<Longrightarrow> revision old = revision tx \<Longrightarrow>
      fst (update_transaction (redis_ops C) now tx s) = Inr ()" for s tx old now
    using update_reliable [of s tx old now] by (simp add: ops_simps redis_update_transaction_def)
qed (unfold ops_simps ops_fields, (assumption | rule refl own_gid insert_faithful get_faithful barrier_faithful release_faithful
    faithful_implements [OF insert_faithful] faithful_implements [OF barrier_faithful] faithful_implements [OF release_faithful]
    barrier_fenced_implements release_fenced_implements redis_updates redis_mutations [OF cas_transaction_like]
    guarded_implements [OF redis_mutations(2) [OF fenced_cas_like]] guarded_implements [OF redis_mutations(3) [OF fenced_cas_like]]
    guarded_implements [OF redis_mutations(4) [OF fenced_cas_like]] list_law delete_law frame_laws lease_law)+)

end

sublocale redis_encoding \<subseteq> redis: reliable_store "redis_ops C" "redis_good C" "redis_view C" "(=)"
  by (rule redis_store)

text \<open>Encoders that meet the assumptions.\<close>

definition plain_redis :: "(transaction, kv_entry, string \<times> string \<times> string) redis_codec" where
  "plain_redis = \<lparr>to_json = id, from_json = Some, kv_to_json = id, kv_from_json = Some, tuple_json = id,
     string_json = id, base64_url = id\<rparr>"

interpretation plain_redis: redis_encoding plain_redis
  by unfold_locales (simp_all add: plain_redis_def)

section \<open>Leases and fences\<close>

text \<open>What happens on the server: somebody asks for a lease, or anything else happens and time passes.\<close>

inductive server_run :: "('p, 'q, 'f) redis_codec \<Rightarrow> ('p, 'q, 'f) redis_db \<Rightarrow> ('p, 'q, 'f) redis_db \<Rightarrow> bool" for C where
  here: "server_run C db db"
| lease: "server_run C db db1 \<Longrightarrow> redis_acquire_lease C name owner ttl db1 = (r, db') \<Longrightarrow> server_run C db db'"
| other: "server_run C db db1 \<Longrightarrow> r_leases db' = r_leases db1 \<Longrightarrow> r_time db1 \<le> r_time db' \<Longrightarrow> server_run C db db'"

definition lease_owner_of :: "('p, 'q, 'f) redis_codec \<Rightarrow> string \<Rightarrow> ('p, 'q, 'f) redis_db \<Rightarrow> string option" where
  "lease_owner_of C name db = bt_get (r_leases db) (base64_url C name @ '':owner'')"

definition lease_epoch_of :: "('p, 'q, 'f) redis_codec \<Rightarrow> string \<Rightarrow> ('p, 'q, 'f) redis_db \<Rightarrow> nat option" where
  "lease_epoch_of C name db = lease_number (base64_url C name @ '':epoch'') db"

lemma last_append_ne: "ys \<noteq> [] \<Longrightarrow> zs \<noteq> [] \<Longrightarrow> last ys \<noteq> last zs \<Longrightarrow> xs @ ys \<noteq> xs' @ zs"
  by (metis last_appendR)

lemma lease_suffixes [simp]:
  "xs @ '':owner'' \<noteq> ys @ '':epoch''" "xs @ '':epoch'' \<noteq> ys @ '':owner''"
  "xs @ '':owner'' \<noteq> ys @ '':expiry''" "xs @ '':expiry'' \<noteq> ys @ '':owner''"
  "xs @ '':expiry'' \<noteq> ys @ '':epoch''" "xs @ '':epoch'' \<noteq> ys @ '':expiry''"
  by (rule last_append_ne; simp)+

lemma write_lease_reads:
  assumes "\<And>a b. base64_url C a = base64_url C b \<longleftrightarrow> a = b"
  shows "lease_owner_of C name (write_lease C name' owner x e db) = (if name = name' then Some owner else lease_owner_of C name db)"
    and "lease_epoch_of C name (write_lease C name' owner x e db) = (if name = name' then Some e else lease_epoch_of C name db)"
  by (auto simp: lease_owner_of_def lease_epoch_of_def lease_number_def write_lease_def lease_fields_def Let_def assms
      lua_number_def parse_uint_show_nat simp del: append_eq_append_conv)

text \<open>
  An acquisition refuses and changes nothing, renews the lease of its owner with the epoch it
  has, or starts a new epoch.
\<close>

lemma acquire_cases:
  assumes "redis_acquire_lease C name owner ttl db = (r, db')"
  obtains (refused) "db' = db" "\<And>f. r \<noteq> Inr (Some f)"
    | (renewed) e x where "lease_owner_of C name db = Some owner" "lease_epoch_of C name db = Some e"
        "db' = write_lease C name owner x (max e 1) db"
        "\<And>f. r = Inr (Some f) \<Longrightarrow> fence_name f = name \<and> fence_owner f = owner \<and> unat (fence_epoch f) = max e 1"
    | (fresh) e x where "lease_epoch_of C name db = Some e" "db' = write_lease C name owner x (e + 1) db"
        "\<And>f. r = Inr (Some f) \<Longrightarrow> fence_name f = name \<and> fence_owner f = owner \<and> unat (fence_epoch f) = e + 1"
proof (cases "validate_recovery_lease_input name owner ttl")
  case (Inl e)
  then show thesis using assms by (intro refused) (auto simp: redis_acquire_lease_def)
next
  case (Inr u)
  have fence: "r = Inr (Some f) \<Longrightarrow> fence_name f = name \<and> fence_owner f = owner \<and> unat (fence_epoch f) = e"
    if "acquire_script C name owner (unat ttl) db = (Some (True, e), db')" for e f
    using assms Inr that by (auto simp: redis_acquire_lease_def unat_of_nat split: if_splits)
  have db': "db' = snd (acquire_script C name owner (unat ttl) db)"
    using assms Inr by (auto simp: redis_acquire_lease_def split: prod.splits option.splits)
  let ?o = "lease_owner_of C name db" and ?e = "lease_epoch_of C name db"
    and ?x = "lease_number (base64_url C name @ '':expiry'') db"
  show thesis
  proof (cases "\<exists>x e. ?x = Some x \<and> ?e = Some e")
    case False
    then have "acquire_script C name owner (unat ttl) db = (None, db)"
      by (auto simp: acquire_script_def lease_fields_def Let_def lease_epoch_of_def split: option.splits)
    then show thesis using assms Inr by (intro refused) (auto simp: redis_acquire_lease_def)
  next
    case True
    then obtain x e where xe: "?x = Some x" "?e = Some e" by blast
    note unfolds = acquire_script_def lease_fields_def Let_def lease_epoch_of_def lease_owner_of_def
    consider (taken) "?o \<noteq> None" "r_time db < x" "?o \<noteq> Some owner" | (own) "r_time db < x" "?o = Some owner"
      | (free) "?o = None \<or> \<not> r_time db < x"
      by (cases "?o = None"; cases "r_time db < x"; cases "?o = Some owner") auto
    then show thesis
    proof cases
      case taken
      then have "acquire_script C name owner (unat ttl) db = (Some (False, e), db)" using xe by (simp add: unfolds)
      then show thesis using assms Inr by (intro refused) (auto simp: redis_acquire_lease_def split: if_splits)
    next
      case own
      then have run: "acquire_script C name owner (unat ttl) db
          = (Some (True, max e 1), write_lease C name owner (r_time db + unat ttl) (max e 1) db)"
        using xe by (auto simp: unfolds max_def le_Suc_eq)
      then show thesis using own xe fence [of "max e 1"] db' by (intro renewed) simp_all
    next
      case free
      then have run: "acquire_script C name owner (unat ttl) db
          = (Some (True, e + 1), write_lease C name owner (r_time db + unat ttl) (e + 1) db)"
        using xe by (auto simp: unfolds)
      then show thesis using xe fence [of "e + 1"] db' by (intro fresh) simp_all
    qed
  qed
qed

text \<open>
  From the moment \<open>owner\<close> holds epoch \<open>e\<close> of a lease: the lease still has that epoch and that
  owner, or a later epoch.
\<close>

definition held_since :: "('p, 'q, 'f) redis_codec \<Rightarrow> string \<Rightarrow> string \<Rightarrow> nat \<Rightarrow> ('p, 'q, 'f) redis_db \<Rightarrow> bool" where
  "held_since C name owner e db \<longleftrightarrow> 1 \<le> e
     \<and> (\<exists>e'. lease_epoch_of C name db = Some e' \<and> (e < e' \<or> e' = e \<and> lease_owner_of C name db = Some owner))"

definition superseded :: "('p, 'q, 'f) redis_codec \<Rightarrow> string \<Rightarrow> nat \<Rightarrow> ('p, 'q, 'f) redis_db \<Rightarrow> bool" where
  "superseded C name e db \<longleftrightarrow> (\<exists>e'. lease_epoch_of C name db = Some e' \<and> e < e')"

lemma leases_only:
  "r_leases db' = r_leases db \<Longrightarrow> lease_epoch_of C name db' = lease_epoch_of C name db
    \<and> lease_owner_of C name db' = lease_owner_of C name db"
  by (simp add: lease_epoch_of_def lease_owner_of_def lease_number_def)

context redis_encoding
begin

lemmas reads = write_lease_reads [where C = C, OF base64_inj]

lemma held_acquired:
  assumes "redis_acquire_lease C name owner ttl db = (Inr (Some f), db')"
  shows "held_since C name owner (unat (fence_epoch f)) db'" and "fence_name f = name"
  using assms by (cases rule: acquire_cases; auto simp: held_since_def reads)+

lemma held_step:
  assumes "held_since C name owner e db" and "redis_acquire_lease C name' owner' ttl db = (r, db')"
  shows "held_since C name owner e db'"
  using assms(2) by (cases rule: acquire_cases) (use assms(1) in \<open>auto simp: held_since_def reads max_def\<close>)

lemma held_run: "server_run C db db' \<Longrightarrow> held_since C name owner e db \<Longrightarrow> held_since C name owner e db'"
proof (induction rule: server_run.induct)
  case (other db1 db')
  then show ?case using leases_only [OF other.hyps(2)] by (simp add: held_since_def)
qed (auto intro: held_step)

lemma superseded_acquired:
  assumes "held_since C name owner e db" and "redis_acquire_lease C name owner' ttl db = (Inr (Some f'), db')" and "owner' \<noteq> owner"
  shows "superseded C name e db'"
  using assms(2) by (cases rule: acquire_cases) (use assms(1,3) in \<open>auto simp: held_since_def superseded_def reads max_def\<close>)

lemma superseded_run:
  assumes "server_run C db db'" and "superseded C name e db"
  shows "superseded C name e db'"
  using assms
proof (induction rule: server_run.induct)
  case (lease db1 name' owner ttl r db')
  from lease.hyps(2) show ?case
    by (cases rule: acquire_cases) (use lease.IH lease.prems in \<open>auto simp: superseded_def reads max_def\<close>)
next
  case (other db1 db')
  then show ?case using leases_only [OF other.hyps(2)] by (simp add: superseded_def)
qed simp

lemma superseded_invalid: "superseded C (fence_name f) (unat (fence_epoch f)) db \<Longrightarrow> \<not> fence_valid C f db"
  by (auto simp: superseded_def fence_valid_def lease_fields_def Let_def lease_epoch_of_def)

text \<open>With an invalid fence a write fails and changes nothing.\<close>

lemma fenced_update_refused:
  assumes "\<not> fence_valid C f (mid db)"
  shows "\<exists>e. redis_update_transaction_fenced C mid now tx f db \<in> {(Inl e, db), (Inl e, mid db)}"
  using assms by (auto simp: redis_update_transaction_fenced_def redis_update_with_def fenced_cas_transaction_def
      split: sum.split option.split)

lemma fenced_mutate_refused:
  assumes "\<not> fence_valid C f (mid 15 db)"
  shows "\<exists>e. mutate_transaction_fenced C mid what g f h db \<in> {(Inl e, db), (Inl e, mid 15 db)}"
proof -
  have step: "\<exists>e. redis_mutate_loop (Suc n) C (fenced_cas_transaction C f) mid what g h db \<in> {(Inl e, db), (Inl e, mid n db)}"
    if "\<not> fence_valid C f (mid n db)" for n
    using that by (auto simp: fenced_cas_transaction_def split: sum.split option.split)
  have sixteen: "Suc 15 = (16 :: nat)" by simp
  show ?thesis
    using step [OF assms, unfolded sixteen] by (auto simp: mutate_transaction_fenced_def split: sum.split)
qed

end

section \<open>Properties\<close>

text \<open>
  C21: The Redis store refines the abstract store, whatever the encoders, as long as JSON decodes
  what it encodes and the encoders of field names are injective. Unlike the other stores it
  refuses an update computed from an outdated revision.
\<close>

theorem redis_store_refines:
  assumes "\<And>tx. from_json C (to_json C tx) = Some tx" and "\<And>e. kv_from_json C (kv_to_json C e) = Some e"
    and "\<And>t t'. tuple_json C t = tuple_json C t' \<longleftrightarrow> t = t'" and "\<And>g g'. string_json C g = string_json C g' \<longleftrightarrow> g = g'"
    and "\<And>a b. base64_url C a = base64_url C b \<longleftrightarrow> a = b"
  shows "reliable_store (redis_ops C) (redis_good C) (redis_view C) (=)"
  by (rule redis_encoding.redis_store) (unfold_locales, simp_all add: assms)

theorem redis_store_refines_witness:
  "reliable_store (redis_ops plain_redis) (redis_good plain_redis) (redis_view plain_redis) (=)"
  by (rule redis_store_refines) (simp_all add: plain_redis_def)

text \<open>
  C18: A Redis update is never lost. Other clients may do anything between its read and its
  write; if it reports success, the transaction it replaced had at that moment the revision the caller
  started from, and exactly the new value with the next revision was stored in its place; otherwise
  the update has changed nothing.
\<close>

theorem redis_update_not_lost:
  assumes "\<And>tx. from_json C (to_json C tx) = Some tx" and "\<And>e. kv_from_json C (kv_to_json C e) = Some e"
    and "\<And>t t'. tuple_json C t = tuple_json C t' \<longleftrightarrow> t = t'" and "\<And>g g'. string_json C g = string_json C g' \<longleftrightarrow> g = g'"
    and "\<And>a b. base64_url C a = base64_url C b \<longleftrightarrow> a = b"
    and "redis_good C db" and "redis_good C (mid db)"
    and "redis_update_transaction C mid now tx db = (r, db')"
  shows "(\<exists>e. r = Inl e) \<and> db' \<in> {db, mid db}
    \<or> r = Inr () \<and> (\<exists>old. a_txs (redis_view C (mid db)) (gid tx) = Some old \<and> revision old = revision tx)
      \<and> redis_view C db' = (redis_view C (mid db))\<lparr>a_txs :=
          (a_txs (redis_view C (mid db)))(gid tx \<mapsto> bump_transaction_revision now tx)\<rparr>"
proof -
  have C: "redis_encoding C" by unfold_locales (simp_all add: assms(1-5))
  from redis_encoding.update_sound [OF C cas_transaction_like assms(6,7) assms(8) [unfolded redis_update_transaction_def]]
  show ?thesis by (auto simp: spec_update_def)
qed

definition sample_redis :: "(transaction, kv_entry, string \<times> string \<times> string) redis_db" where
  "sample_redis = \<lparr>r_transactions = [(''g1'', sample_tcc)], r_kv = [], r_barriers = {}, r_index = (\<lambda>_. {}),
     r_leases = [], r_time = 1000\<rparr>"

lemma sample_redis_good: "redis_good plain_redis sample_redis"
  by (simp add: sample_redis_def redis_good_def plain_redis_def bt_wf_def bt_get_def sample_defs)

text \<open>Somebody else updates the transaction between the read and the write: the update is refused.\<close>

theorem redis_update_not_lost_witness:
  "\<exists>e. fst (redis_update_transaction plain_redis
     (\<lambda>db. snd (redis_update_transaction plain_redis id 1500 sample_tcc db)) 2000 sample_tcc sample_redis) = Inl e"
proof -
  let ?mid = "\<lambda>db. snd (redis_update_transaction plain_redis id 1500 sample_tcc db)"
  have mid: "?mid sample_redis = sample_redis\<lparr>r_transactions := [(''g1'', bump_transaction_revision 1500 sample_tcc)]\<rparr>"
    by (simp add: redis_update_transaction_def redis_update_with_def redis_decode_def cas_transaction_def cas_hash_field_def
        sample_redis_def plain_redis_def bt_get_def sample_defs)
  have good: "redis_good plain_redis (?mid sample_redis)"
    unfolding mid by (simp add: sample_redis_def redis_good_def plain_redis_def bt_wf_def bt_get_def sample_defs bump_transaction_revision_def)
  obtain r db' where run: "redis_update_transaction plain_redis ?mid 2000 sample_tcc sample_redis = (r, db')" by fastforce
  have "revision old \<noteq> revision sample_tcc"
    if "a_txs (redis_view plain_redis (?mid sample_redis)) (gid sample_tcc) = Some old" for old
    using that unfolding mid
    by (auto simp: redis_view_def plain_redis_def bt_get_def sample_defs bump_transaction_revision_def sat_add_def)
  moreover have "(\<exists>e. r = Inl e) \<and> db' \<in> {sample_redis, ?mid sample_redis}
      \<or> r = Inr () \<and> (\<exists>old. a_txs (redis_view plain_redis (?mid sample_redis)) (gid sample_tcc) = Some old
          \<and> revision old = revision sample_tcc)
        \<and> redis_view plain_redis db' = (redis_view plain_redis (?mid sample_redis))\<lparr>a_txs :=
          (a_txs (redis_view plain_redis (?mid sample_redis)))(gid sample_tcc \<mapsto> bump_transaction_revision 2000 sample_tcc)\<rparr>"
    by (rule redis_update_not_lost [OF _ _ _ _ _ sample_redis_good good run]) (simp_all add: plain_redis_def)
  ultimately show ?thesis using run by auto
qed

text \<open>
  C19: A recovery worker that has lost its lease cannot write. Once another owner has acquired
  the lease, whatever happens on the server afterwards, every fenced operation that still
  carries the old fence fails and changes nothing: updates, workflow changes, barriers and their release.
  The old owner gets a new, larger epoch if it acquires the lease again.
\<close>

theorem stale_fence_powerless:
  assumes "\<And>tx. from_json C (to_json C tx) = Some tx" and "\<And>e. kv_from_json C (kv_to_json C e) = Some e"
    and "\<And>t t'. tuple_json C t = tuple_json C t' \<longleftrightarrow> t = t'" and "\<And>g g'. string_json C g = string_json C g' \<longleftrightarrow> g = g'"
    and "\<And>a b. base64_url C a = base64_url C b \<longleftrightarrow> a = b"
    and "redis_acquire_lease C name owner ttl db0 = (Inr (Some f), db1)" and "server_run C db1 db2"
    and "redis_acquire_lease C name taker ttl' db2 = (Inr (Some f'), db3)" and "taker \<noteq> owner" and "server_run C db3 db4"
  shows "(\<exists>e. redis_barrier_fenced C b f db4 = (Inl e, db4))
    \<and> (\<exists>e. redis_release_barrier_fenced C b f db4 = (Inl e, db4))
    \<and> (\<forall>mid. server_run C db4 (mid db4) \<longrightarrow>
         (\<exists>e. redis_update_transaction_fenced C mid now tx f db4 \<in> {(Inl e, db4), (Inl e, mid db4)}))
    \<and> (\<forall>mid. server_run C db4 (mid 15 db4) \<longrightarrow>
         (\<exists>e. mutate_transaction_fenced C mid what g f h db4 \<in> {(Inl e, db4), (Inl e, mid 15 db4)}))
    \<and> (\<forall>ttl2 f2 db5. redis_acquire_lease C name owner ttl2 db4 = (Inr (Some f2), db5) \<longrightarrow> fence_epoch f < fence_epoch f2)"
proof -
  have C: "redis_encoding C" by unfold_locales (simp_all add: assms(1-5))
  note held = redis_encoding.held_acquired [OF C assms(6)]
  have "held_since C name owner (unat (fence_epoch f)) db2"
    using redis_encoding.held_run [OF C assms(7) held(1)] .
  from redis_encoding.superseded_acquired [OF C this assms(8,9)]
  have "superseded C name (unat (fence_epoch f)) db3" .
  from redis_encoding.superseded_run [OF C assms(10) this]
  have gone: "superseded C name (unat (fence_epoch f)) db4" .
  have invalid: "\<not> fence_valid C f db" if "server_run C db4 db" for db
    using redis_encoding.superseded_run [OF C that gone] redis_encoding.superseded_invalid [OF C, of f db] held(2) by simp
  have now: "\<not> fence_valid C f db4" by (rule invalid) (rule server_run.here)
  have "fence_epoch f < fence_epoch f2" if "redis_acquire_lease C name owner ttl2 db4 = (Inr (Some f2), db5)" for ttl2 f2 db5
    using that by (cases rule: acquire_cases) (use gone in \<open>auto simp: superseded_def word_less_nat_alt max_def\<close>)
  moreover have "\<exists>e. redis_barrier_fenced C b f db4 = (Inl e, db4)" "\<exists>e. redis_release_barrier_fenced C b f db4 = (Inl e, db4)"
    using now by (auto simp: redis_barrier_fenced_def redis_release_barrier_fenced_def fenced_barrier_script_def
        decode_decision_def split: sum.split)
  moreover have "\<exists>e. redis_update_transaction_fenced C mid now tx f db4 \<in> {(Inl e, db4), (Inl e, mid db4)}"
    if "server_run C db4 (mid db4)" for mid
    by (rule redis_encoding.fenced_update_refused [of C f mid db4 now tx, OF C invalid [OF that]])
  moreover have "\<exists>e. mutate_transaction_fenced C mid what g f h db4 \<in> {(Inl e, db4), (Inl e, mid 15 db4)}"
    if "server_run C db4 (mid 15 db4)" for mid
    by (rule redis_encoding.fenced_mutate_refused [of C f mid db4 what g h, OF C invalid [OF that]])
  ultimately show ?thesis by blast
qed

text \<open>Worker \<open>a\<close> takes the lease for 50 ms at time 1000, worker \<open>b\<close> takes it over at time 1050.\<close>

definition lease_a :: "(transaction, kv_entry, string \<times> string \<times> string) redis_db" where
  "lease_a = write_lease plain_redis ''r'' ''a'' 1050 1 sample_redis"

definition lease_b :: "(transaction, kv_entry, string \<times> string \<times> string) redis_db" where
  "lease_b = write_lease plain_redis ''r'' ''b'' 1100 (Suc 1) (lease_a\<lparr>r_time := 1050\<rparr>)"

lemmas acquire_eval = redis_acquire_lease_def validate_recovery_lease_input_def acquire_script_def lease_fields_def
  lease_number_def lua_number_def parse_uint_show_nat Let_def plain_redis_def sample_redis_def

lemma sample_takeover:
  "redis_acquire_lease plain_redis ''r'' ''a'' 50 sample_redis
     = (Inr (Some \<lparr>fence_name = ''r'', fence_owner = ''a'', fence_epoch = 1\<rparr>), lease_a)"
  "redis_acquire_lease plain_redis ''r'' ''b'' 50 (lease_a\<lparr>r_time := 1050\<rparr>)
     = (Inr (Some \<lparr>fence_name = ''r'', fence_owner = ''b'', fence_epoch = 2\<rparr>), lease_b)"
  by (simp add: lease_a_def acquire_eval, simp add: lease_b_def lease_a_def write_lease_def acquire_eval bt_get_def)

theorem stale_fence_powerless_witness:
  "\<exists>e. redis_barrier_fenced plain_redis (barrier_new ''g1'' ''b1'' ''try'')
     \<lparr>fence_name = ''r'', fence_owner = ''a'', fence_epoch = 1\<rparr> lease_b = (Inl e, lease_b)"
proof -
  let ?f = "\<lparr>fence_name = ''r'', fence_owner = ''a'', fence_epoch = 1 :: u64\<rparr>"
  have "r_time lease_a = 1000" by (simp add: lease_a_def write_lease_def sample_redis_def lease_fields_def Let_def)
  then have later: "server_run plain_redis lease_a (lease_a\<lparr>r_time := 1050\<rparr>)"
    by (intro server_run.other [OF server_run.here]) simp_all
  have "(\<exists>e. redis_barrier_fenced plain_redis (barrier_new ''g1'' ''b1'' ''try'') ?f lease_b = (Inl e, lease_b))"
    by (rule conjunct1 [OF stale_fence_powerless [OF _ _ _ _ _ sample_takeover(1) later sample_takeover(2) _ server_run.here]]) (simp_all add: plain_redis_def)
  then show ?thesis .
qed

lemma parse_digits_only: "parse_digits acc s = Some n \<Longrightarrow> c \<in> set s \<Longrightarrow> char_digit c \<noteq> None"
  by (induction s arbitrary: acc) (auto split: option.splits)

lemma show_nat_no_colon: "CHR '':'' \<notin> set (show_nat n)"
  using parse_digits_only [OF parse_digits_show_nat, of "CHR '':''" n] by (auto simp: char_digit_def)

lemma prefix_split:
  "xs @ c # ys = xs' @ c # ys' \<Longrightarrow> c \<notin> set xs \<Longrightarrow> c \<notin> set xs' \<Longrightarrow> xs = xs' \<and> ys = ys'"
proof (induction xs arbitrary: xs')
  case Nil
  then show ?case by (cases xs') auto
next
  case (Cons x xs)
  then show ?case by (cases xs') auto
qed

text \<open>
  The Redis field of a key-value entry determines its category and its key, although it
  is their plain concatenation: the length of the category comes first.
\<close>

theorem kv_field_injective: "kv_field cat k = kv_field cat' k' \<longleftrightarrow> cat = cat' \<and> k = k'"
proof
  assume "kv_field cat k = kv_field cat' k'"
  then have eq: "show_nat (length cat) @ CHR '':'' # (cat @ k) = show_nat (length cat') @ CHR '':'' # (cat' @ k')"
    by (simp add: kv_field_def)
  then have "show_nat (length cat) = show_nat (length cat')" "cat @ k = cat' @ k'"
    using prefix_split [OF eq] show_nat_no_colon by blast+
  moreover from this have "length cat = length cat'" using parse_digits_show_nat by (metis option.inject)
  ultimately show "cat = cat' \<and> k = k'" by simp
qed simp

end
