(* ===== verification/Service_Config.thy ===== *)
theory Service_Config
  imports Http_Invoker Redis_Store
begin

text \<open>
  The configuration of the service (\<^verbatim>\<open>service/src/main.rs\<close>, lines 33--380 and 3635--3702): its fields with
  their defaults, and the checks made before anything is started. A configuration error carries the name of the
  setting. Reading the certificate file is not modelled.
\<close>

section \<open>The settings\<close>

datatype store_kind = Memory | Sqlite | Postgres | Mysql | Redis

record store_config =
  st_kind :: store_kind
  database_url :: "string option"
  redis_url :: "string option"
  redis_cluster_urls :: "string list"
  redis_namespace :: string
  redis_operation_timeout_ms :: u64
  max_connections :: u32

definition default_store_config :: store_config where
  "default_store_config = \<lparr>st_kind = Memory, database_url = None, redis_url = None, redis_cluster_urls = [],
     redis_namespace = ''roze-dtm'', redis_operation_timeout_ms = 5000, max_connections = 10\<rparr>"

record dtm_config =
  cfg_store :: store_config
  cfg_max_attempts :: u32
  retry_backoff_ms :: u64
  max_retry_backoff_ms :: u64
  branch_call_timeout_ms :: u64
  transaction_timeout_ms :: u64
  control_token :: "string option"
  release_revision :: "string option"
  recover_interval_ms :: u64
  recovery_lease_ttl_ms :: u64
  data_expire_seconds :: u64
  finished_data_expire_seconds :: u64
  retention_interval_ms :: u64
  retention_batch_size :: nat
  worker_id :: string
  allowed_branch_origins :: "string list"
  branch_tls_ca_file :: "string option"
  alert_webhook_url :: "string option"
  alert_retry_limit :: u32
  alert_webhook_timeout_ms :: u64

definition default_worker_id :: string where
  "default_worker_id = ''roze-dtm-local''"

definition default_dtm_config :: dtm_config where
  "default_dtm_config = \<lparr>cfg_store = default_store_config, cfg_max_attempts = 5, retry_backoff_ms = 1000,
     max_retry_backoff_ms = 30000, branch_call_timeout_ms = 5000, transaction_timeout_ms = 60000,
     control_token = None, release_revision = None, recover_interval_ms = 1000, recovery_lease_ttl_ms = 5000,
     data_expire_seconds = 604800, finished_data_expire_seconds = 86400, retention_interval_ms = 60000,
     retention_batch_size = 256, worker_id = default_worker_id, allowed_branch_origins = [],
     branch_tls_ca_file = None, alert_webhook_url = None, alert_retry_limit = 3, alert_webhook_timeout_ms = 3000\<rparr>"

section \<open>Validation\<close>

datatype config_error = ConfigError string

type_synonym 'a cfg = "config_error + 'a"

definition is_hex_digit :: "char \<Rightarrow> bool" where
  "is_hex_digit c \<longleftrightarrow> (let n = (of_char c :: nat) in 48 \<le> n \<and> n \<le> 57 \<or> 65 \<le> n \<and> n \<le> 70 \<or> 97 \<le> n \<and> n \<le> 102)"

definition is_valid_release_revision :: "string \<Rightarrow> bool" where
  "is_valid_release_revision v \<longleftrightarrow> length v = 40 \<and> list_all is_hex_digit v \<and> list_ex (\<lambda>c. c \<noteq> CHR ''0'') v"

text \<open>\<^verbatim>\<open>u64::checked_mul\<close>.\<close>

definition checked_mul :: "u64 \<Rightarrow> u64 \<Rightarrow> u64 option" where
  "checked_mul a b = (if unat a * unat b < 2 ^ 64 then Some (a * b) else None)"

definition cfg_retention_policy :: "dtm_config \<Rightarrow> retention_policy cfg" where
  "cfg_retention_policy c =
     res_bind (ok_or (checked_mul (data_expire_seconds c) 1000) (ConfigError ''data_expire_seconds'')) (\<lambda>d.
     res_bind (ok_or (checked_mul (finished_data_expire_seconds c) 1000) (ConfigError ''finished_data_expire_seconds'')) (\<lambda>f.
     map_err (\<lambda>_. ConfigError ''retention'')
       (retention_validate \<lparr>data_expire_millis = d, finished_data_expire_millis = f, batch_size = retention_batch_size c\<rparr>)))"

definition alert_webhook_config_of :: "libs \<Rightarrow> dtm_config \<Rightarrow> alert_webhook_config option cfg" where
  "alert_webhook_config_of L c =
     (case alert_webhook_url c of None \<Rightarrow> Inr None
      | Some u \<Rightarrow>
          res_seq (ensure (trim u \<noteq> []) (ConfigError ''alert_webhook_url''))
          (let config = \<lparr>hook_url = u, hook_retry_limit = alert_retry_limit c, hook_timeout = from_millis (alert_webhook_timeout_ms c)\<rparr> in
           res_seq (map_err (\<lambda>_. ConfigError ''alert webhook'') (webhook_validate L config)) (Inr (Some config))))"

definition validate_store_url :: "store_config \<Rightarrow> string list \<Rightarrow> unit cfg" where
  "validate_store_url sc schemes =
     res_seq (ensure (1 \<le> max_connections sc \<and> max_connections sc \<le> 1000) (ConfigError ''max_connections''))
     (res_bind (ok_or (case database_url sc of None \<Rightarrow> None | Some u \<Rightarrow> if trim u \<noteq> [] then Some u else None)
        (ConfigError ''database_url'')) (\<lambda>u.
      ensure (list_ex (\<lambda>sch. starts_with sch u) schemes) (ConfigError ''database_url scheme'')))"

definition validate_redis :: "store_config \<Rightarrow> unit cfg" where
  "validate_redis sc =
     res_seq (ensure (database_url sc = None) (ConfigError ''database_url''))
     (let standalone = (case redis_url sc of None \<Rightarrow> [] | Some u \<Rightarrow> if trim u \<noteq> [] then [u] else []) in
      res_seq (ensure (standalone \<noteq> [] \<or> redis_cluster_urls sc \<noteq> []) (ConfigError ''redis_url''))
      (res_seq (ensure (list_all (\<lambda>u. starts_with ''redis://'' u \<or> starts_with ''rediss://'' u)
           (standalone @ redis_cluster_urls sc)) (ConfigError ''redis_url scheme''))
      (res_seq (ensure (validate_redis_namespace (redis_namespace sc)) (ConfigError ''redis_namespace''))
       (ensure (1 \<le> redis_operation_timeout_ms sc \<and> redis_operation_timeout_ms sc \<le> 120000)
          (ConfigError ''redis_operation_timeout_ms'')))))"

fun validate_store :: "bool \<Rightarrow> store_config \<Rightarrow> unit cfg" where
  "validate_store production sc =
     (case st_kind sc of
        Memory \<Rightarrow> ensure (\<not> production) (ConfigError ''memory store'')
      | Sqlite \<Rightarrow> validate_store_url sc [''sqlite:'']
      | Postgres \<Rightarrow> validate_store_url sc [''postgres://'', ''postgresql://'']
      | Mysql \<Rightarrow> validate_store_url sc [''mysql://'']
      | Redis \<Rightarrow> validate_redis sc)"

definition validate_secrets :: "bool \<Rightarrow> dtm_config \<Rightarrow> unit cfg" where
  "validate_secrets production c =
     (if production then
        res_seq (ensure (case control_token c of None \<Rightarrow> False | Some t \<Rightarrow> 32 \<le> length t) (ConfigError ''control_token''))
        (ensure (case release_revision c of None \<Rightarrow> False | Some r \<Rightarrow> is_valid_release_revision r) (ConfigError ''release_revision''))
      else (case release_revision c of None \<Rightarrow> Inr ()
            | Some r \<Rightarrow> ensure (is_valid_release_revision r) (ConfigError ''release_revision'')))"

definition config_validate :: "libs \<Rightarrow> bool \<Rightarrow> dtm_config \<Rightarrow> unit cfg" where
  "config_validate L production c =
     res_seq (ensure (0 < cfg_max_attempts c) (ConfigError ''max_attempts''))
     (res_seq (ensure (0 < retry_backoff_ms c) (ConfigError ''retry_backoff_ms''))
     (res_seq (ensure (retry_backoff_ms c \<le> max_retry_backoff_ms c) (ConfigError ''max_retry_backoff_ms''))
     (res_seq (ensure (0 < branch_call_timeout_ms c) (ConfigError ''branch_call_timeout_ms''))
     (res_seq (ensure (branch_call_timeout_ms c \<le> transaction_timeout_ms c) (ConfigError ''transaction_timeout_ms''))
     (res_seq (validate_secrets production c)
     (res_seq (ensure (100 \<le> recover_interval_ms c \<and> recover_interval_ms c \<le> 3600000) (ConfigError ''recover_interval_ms''))
     (res_seq (ensure (sat_mul (recover_interval_ms c) 2 \<le> recovery_lease_ttl_ms c \<and> recovery_lease_ttl_ms c \<le> 86400000)
        (ConfigError ''recovery_lease_ttl_ms''))
     (res_seq (ensure (1000 \<le> retention_interval_ms c \<and> retention_interval_ms c \<le> 86400000) (ConfigError ''retention_interval_ms''))
     (res_bind (cfg_retention_policy c) (\<lambda>_.
     res_seq (ensure (trim (worker_id c) \<noteq> [] \<and> length (worker_id c) \<le> 128) (ConfigError ''worker_id''))
     (res_seq (ensure (production \<longrightarrow> worker_id c \<noteq> default_worker_id) (ConfigError ''worker_id not unique''))
     (res_seq (ensure (allowed_branch_origins c \<noteq> []) (ConfigError ''allowed_branch_origins''))
     (res_bind (map_err (\<lambda>_. ConfigError ''allowed_branch_origins'') (from_allowed_origins L (allowed_branch_origins c))) (\<lambda>_.
     res_seq (ensure (opt_all (\<lambda>f. f \<noteq> []) (branch_tls_ca_file c)) (ConfigError ''branch_tls_ca_file''))
     (res_bind (alert_webhook_config_of L c) (\<lambda>_.
     validate_store production (cfg_store c)))))))))))))))))"

definition config_options :: "dtm_config \<Rightarrow> dtm_options" where
  "config_options c = \<lparr>opt_max_attempts = cfg_max_attempts c, retry_backoff_millis = retry_backoff_ms c,
     max_retry_backoff_millis = max_retry_backoff_ms c, branch_call_timeout_millis = branch_call_timeout_ms c,
     transaction_timeout_millis = transaction_timeout_ms c\<rparr>"

definition store_url :: "store_config \<Rightarrow> string cfg" where
  "store_url sc = ok_or (database_url sc) (ConfigError ''validated DTM database URL missing'')"

section \<open>What a validated configuration gives\<close>

lemma validated_store_url: "validate_store_url sc schemes = Inr u \<Longrightarrow> \<exists>v. database_url sc = Some v"
  by (auto simp: validate_store_url_def res_bind_eq_Inr split: option.splits if_splits)

lemma trim_nonempty: "trim s \<noteq> [] \<Longrightarrow> s \<noteq> []"
proof
  assume trimmed: "trim s \<noteq> []" and "s = []"
  have none: "find (\<lambda>w. P w) white_spaces = None" if "\<And>w. P w \<Longrightarrow> w = []" for P
    using that find_white_space [of P] by (cases "find P white_spaces") (auto simp: find_Some_iff)
  have "find (\<lambda>w. starts_with w []) white_spaces = None" "find (\<lambda>w. ends_with w []) white_spaces = None"
    by (rule none, simp add: starts_with_def ends_with_def)+
  then have "trim [] = []" by (simp add: trim_def trim_start.simps [of "[]"] trim_end.simps [of "[]"])
  with trimmed \<open>s = []\<close> show False by simp
qed

text \<open>
  A configuration that passes validation can be started and used: the policy on branch origins, the retention
  policy and the alert webhook it describes can be built, an SQL store has a URL, a Redis store has keys, the recovery worker's
  name and lease time are accepted by the store, and outside development there is a control token of at least 32 bytes and
  a durable store.
\<close>

theorem validated_config_usable:
  assumes "config_validate L production c = Inr ()"
  shows "(\<exists>P. from_allowed_origins L (allowed_branch_origins c) = Inr P \<and> allowed_origins P \<noteq> None)
    \<and> (\<exists>p. cfg_retention_policy c = Inr p \<and> retention_validate p = Inr p)
    \<and> (\<exists>h. alert_webhook_config_of L c = Inr h \<and> (\<forall>w. h = Some w \<longrightarrow> webhook_validate L w = Inr ()))
    \<and> (st_kind (cfg_store c) \<in> {Sqlite, Postgres, Mysql} \<longrightarrow> (\<exists>u. store_url (cfg_store c) = Inr u))
    \<and> (st_kind (cfg_store c) = Redis \<longrightarrow> redis_store_keys_of (redis_namespace (cfg_store c)) \<noteq> None)
    \<and> validate_recovery_lease_input ''roze-dtm-recovery'' (worker_id c) (recovery_lease_ttl_ms c) = Inr ()
    \<and> (production \<longrightarrow> (\<exists>t. control_token c = Some t \<and> 32 \<le> length t) \<and> st_kind (cfg_store c) \<noteq> Memory)"
proof -
  have P: "\<exists>P. from_allowed_origins L (allowed_branch_origins c) = Inr P" and R: "\<exists>p. cfg_retention_policy c = Inr p"
    and A: "\<exists>h. alert_webhook_config_of L c = Inr h" and S: "validate_store production (cfg_store c) = Inr ()"
    and T: "validate_secrets production c = Inr ()" and W: "trim (worker_id c) \<noteq> []" "length (worker_id c) \<le> 128"
    and I: "100 \<le> recover_interval_ms c" "sat_mul (recover_interval_ms c) 2 \<le> recovery_lease_ttl_ms c" "recovery_lease_ttl_ms c \<le> 86400000"
    using assms by (auto simp: config_validate_def res_bind_eq_Inr simp del: validate_store.simps)
  have origins: "\<exists>P. from_allowed_origins L (allowed_branch_origins c) = Inr P \<and> allowed_origins P \<noteq> None"
    using P by (auto simp: from_allowed_origins_def res_bind_eq_Inr)
  have retention: "\<exists>p. cfg_retention_policy c = Inr p \<and> retention_validate p = Inr p"
    using R by (auto simp: cfg_retention_policy_def res_bind_eq_Inr retention_validate_ok)
  have alert: "\<exists>h. alert_webhook_config_of L c = Inr h \<and> (\<forall>w. h = Some w \<longrightarrow> webhook_validate L w = Inr ())"
    using A by (auto simp: alert_webhook_config_of_def Let_def res_bind_eq_Inr split: option.splits)
  have sql: "\<exists>u. store_url (cfg_store c) = Inr u" if "st_kind (cfg_store c) \<in> {Sqlite, Postgres, Mysql}"
    using S that validated_store_url by (fastforce simp: store_url_def)
  have redis: "redis_store_keys_of (redis_namespace (cfg_store c)) \<noteq> None" if "st_kind (cfg_store c) = Redis"
    using S that by (auto simp: validate_redis_def redis_store_keys_of_def res_bind_eq_Inr Let_def)
  have "1 \<le> recovery_lease_ttl_ms c"
  proof -
    have "unat (sat_mul (recover_interval_ms c) 2) = min (unat (recover_interval_ms c) * 2) (2 ^ 64 - 1)" by (simp add: unat_sat_mul)
    moreover have "100 \<le> unat (recover_interval_ms c)" using I(1) by (simp add: word_le_nat_alt)
    ultimately have "200 \<le> unat (sat_mul (recover_interval_ms c) 2)" by simp
    then show ?thesis using I(2) by (simp add: word_le_nat_alt)
  qed
  then have lease: "validate_recovery_lease_input ''roze-dtm-recovery'' (worker_id c) (recovery_lease_ttl_ms c) = Inr ()"
    using W I(3) trim_nonempty by (simp add: validate_recovery_lease_input_def)
  have prod: "(\<exists>t. control_token c = Some t \<and> 32 \<le> length t) \<and> st_kind (cfg_store c) \<noteq> Memory" if production
    using S T that by (auto simp: validate_secrets_def res_bind_eq_Inr split: option.splits)
  show ?thesis using origins retention alert sql redis lease prod by blast
qed

theorem validated_config_usable_witness:
  "config_validate open_libs False (default_dtm_config\<lparr>allowed_branch_origins := [''http://h'']\<rparr>) = Inr ()
    \<and> validate_recovery_lease_input ''roze-dtm-recovery'' default_worker_id 5000 = Inr ()"
proof -
  let ?c = "default_dtm_config\<lparr>allowed_branch_origins := [''http://h'']\<rparr>"
  have trimmed: "trim ''roze-dtm-local'' \<noteq> []"
    by (simp add: trim_def trim_start.simps [of "''roze-dtm-local''"] trim_end.simps [of "''roze-dtm-local''"] starts_with_def ends_with_def white_spaces_def)
  have retention: "\<exists>p. cfg_retention_policy ?c = Inr p"
    by (simp add: cfg_retention_policy_def checked_mul_def default_dtm_config_def retention_validate_def map_err_def)
  have origins: "\<exists>P. from_allowed_origins open_libs [''http://h''] = Inr P"
    by (simp add: from_allowed_origins_def bare_origin_def parse_branch_url_def open_libs_def strip_prefix_def map_err_def)
  have valid: "config_validate open_libs False ?c = Inr ()"
    using retention origins trimmed
    by (auto simp: config_validate_def default_dtm_config_def default_store_config_def validate_secrets_def alert_webhook_config_of_def
        default_worker_id_def sat_mul_def map_err_def)
  show ?thesis using valid validated_config_usable [OF valid] by (simp add: default_dtm_config_def)
qed

end
