(* ===== verification/Service_Control.thy ===== *)
theory Service_Control
  imports Service_Views Service_Config Lifecycle
begin

text \<open>
  The service itself (\<^verbatim>\<open>service/src/main.rs\<close>, \<^verbatim>\<open>service/src/grpc.rs\<close>): authorisation by a control token,
  the audit history and the metrics, every handler of the HTTP, JSON-RPC and gRPC interfaces, and one
  tick of the recovery and of the retention worker. A handler is an action on the control state, the world of
  the coordinator together with what the service keeps in memory; every handler answers, so its error type is only used on
  the way. Serialisation, the text of most errors and the readiness of the process are parameters.
\<close>

unbundle bit_operations_syntax

section \<open>The control state\<close>

record audit_event =
  ae_sequence :: u64
  ae_occurred_at_millis :: u64
  ae_event :: string
  ae_outcome :: string
  ae_resource_id :: "string option"
  ae_status :: "string option"

record audit_history =
  next_sequence :: u64
  audit_events :: "audit_event list"

definition dashboard_audit_capacity :: nat where
  "dashboard_audit_capacity = 200"

definition dashboard_audit_limit :: nat where
  "dashboard_audit_limit = 50"

definition record_event ::
  "u64 \<Rightarrow> string \<Rightarrow> string \<Rightarrow> string option \<Rightarrow> string option \<Rightarrow> audit_history \<Rightarrow> audit_history" where
  "record_event now event oc resource status h =
     (let sequence = next_sequence h + 1 in
      \<lparr>next_sequence = sequence,
       audit_events = take dashboard_audit_capacity (\<lparr>ae_sequence = sequence, ae_occurred_at_millis = now, ae_event = event,
         ae_outcome = oc, ae_resource_id = resource, ae_status = status\<rparr> # audit_events h)\<rparr>)"

definition latest :: "audit_history \<Rightarrow> audit_event list" where
  "latest h = take dashboard_audit_limit (audit_events h)"

text \<open>A counter of the metric registry: its name and labels.\<close>

type_synonym counter = "string \<times> (string \<times> string) list"

type_synonym registry = "(counter \<times> nat) list"

fun inc_counter :: "counter \<Rightarrow> nat \<Rightarrow> registry \<Rightarrow> registry" where
  "inc_counter c n [] = [(c, n)]"
| "inc_counter c n ((c', m) # r) = (if c' = c then (c', m + n) # r else (c', m) # inc_counter c n r)"

definition transition_counter :: "transaction_kind \<Rightarrow> transaction_status \<Rightarrow> string \<Rightarrow> counter" where
  "transition_counter k st operation = (''roze_dtm_transaction_transitions_total'',
     [(''kind'', kind_name k), (''status'', status_name st), (''operation'', operation)])"

definition branch_counter :: "transaction_kind \<Rightarrow> branch_status \<Rightarrow> counter" where
  "branch_counter k st = (''roze_dtm_branch_state_observations_total'', [(''kind'', kind_name k), (''status'', branch_status_name st)])"

definition retry_counter :: "transaction_kind \<Rightarrow> counter" where
  "retry_counter k = (''roze_dtm_retry_scheduled_observations_total'', [(''kind'', kind_name k)])"

definition observe_branch :: "transaction_kind \<Rightarrow> branch \<Rightarrow> registry \<Rightarrow> registry" where
  "observe_branch k b r =
     (let r1 = inc_counter (branch_counter k (bstatus b)) 1 r
      in if next_retry_millis b \<noteq> None then inc_counter (retry_counter k) 1 r1 else r1)"

definition record_dtm_transition :: "string \<Rightarrow> transaction \<Rightarrow> registry \<Rightarrow> registry" where
  "record_dtm_transition operation tx r =
     fold (observe_branch (tkind tx)) (branches tx) (inc_counter (transition_counter (tkind tx) (tstatus tx) operation) 1 r)"

record 's service =
  sv_dtm :: "'s dtm"
  sv_policy :: branch_url_policy
  sv_token :: "string option"
  sv_revision :: "string option"
  sv_ready :: "nat \<Rightarrow> bool"
  sv_codecs :: codecs
  sv_error_text :: "dtm_error \<Rightarrow> string"

record 's control =
  c_world :: "'s world"
  c_audit :: audit_history
  c_metrics :: registry
  c_gids :: u64

type_synonym ('s, 'a) ctl = "('s control, svc_error, 'a) act"

text \<open>A step of the coordinator inside the service.\<close>

definition on_dtm :: "('s, 'a) run \<Rightarrow> ('s, 'a) ctl" where
  "on_dtm m c = (case m (c_world c) of (r, w) \<Rightarrow> (map_err FromDtm r, c\<lparr>c_world := w\<rparr>))"

definition unix_millis :: "'s service \<Rightarrow> ('s, u64) ctl" where
  "unix_millis S = on_dtm (current_millis (sv_dtm S))"

section \<open>Authorisation\<close>

definition byte_at :: "u8 list \<Rightarrow> nat \<Rightarrow> u8" where
  "byte_at bs i = (if i < length bs then bs ! i else 0)"

definition constant_time_eq :: "u8 list \<Rightarrow> u8 list \<Rightarrow> bool" where
  "constant_time_eq l r =
     (fold (\<lambda>i d. d OR unat (byte_at l i XOR byte_at r i)) [0..<max (length l) (length r)] (length l XOR length r) = 0)"

text \<open>The header is the text of \<^verbatim>\<open>Authorization\<close>, when there is one and it is text.\<close>

definition authorize :: "'s service \<Rightarrow> string option \<Rightarrow> bool" where
  "authorize S header =
     (case sv_token S of None \<Rightarrow> True
      | Some expected \<Rightarrow>
          (case Option.bind header (strip_prefix ''Bearer '') of None \<Rightarrow> False
           | Some provided \<Rightarrow> constant_time_eq (string_bytes provided) (string_bytes expected)))"

section \<open>Audit\<close>

definition audit_record :: "'s service \<Rightarrow> string \<Rightarrow> string \<Rightarrow> string option \<Rightarrow> string option \<Rightarrow> ('s, unit) ctl" where
  "audit_record S event oc resource status =
     then_ok (unix_millis S) (\<lambda>now c. (Inr (), c\<lparr>c_audit := record_event now event oc resource status (c_audit c)\<rparr>))"

definition metrics_record :: "string \<Rightarrow> transaction \<Rightarrow> ('s, unit) ctl" where
  "metrics_record operation tx c = (Inr (), c\<lparr>c_metrics := record_dtm_transition operation tx (c_metrics c)\<rparr>)"

definition audit_transition :: "'s service \<Rightarrow> string \<Rightarrow> transaction \<Rightarrow> ('s, unit) ctl" where
  "audit_transition S event tx =
     then_ok (metrics_record event tx) (\<lambda>_.
     audit_record S event
       (if list_ex (\<lambda>b. bstatus b \<in> {BFailed, BCompensating}) (branches tx) then ''pending_retry'' else ''success'')
       (Some (gid tx)) (Some (status_name (tstatus tx))))"

definition audit_compat_failure :: "'s service \<Rightarrow> string \<Rightarrow> string option \<Rightarrow> ('s, unit) ctl" where
  "audit_compat_failure S event resource = audit_record S event ''failed'' resource None"

definition audit_batch_operation :: "'s service \<Rightarrow> string \<Rightarrow> ('s, unit) ctl" where
  "audit_batch_operation S event = audit_record S event ''success'' None None"

definition audit_resource_operation :: "'s service \<Rightarrow> string \<Rightarrow> string \<Rightarrow> string \<Rightarrow> ('s, unit) ctl" where
  "audit_resource_operation S event resource oc = audit_record S event oc (Some resource) None"

section \<open>Replies\<close>

record dashboard_snapshot =
  sn_generated_at_millis :: u64
  sn_summary :: dashboard_summary
  sn_transactions :: "dashboard_transaction_row page"
  sn_audit :: "audit_event list"

datatype reply_body =
    Static string
  | OkText string
  | OkTransaction transaction
  | OkPage "transaction page"
  | OkStats transaction_stats
  | OkDashboard dashboard_snapshot
  | OkXa xa_reconciliation_snapshot
  | OkRecovered "transaction list" nat
  | ErrorBody string
  | CompatSuccess
  | CompatFailure string
  | CompatVersionBody "string option"
  | CompatGid string
  | CompatOne compat_global_transaction "compat_branch_transaction list"
  | CompatMany "compat_global_transaction list" string
  | CompatReset nat bool
  | CompatKv "compat_kv_entry list" "string option"
  | CompatWorkflowBody compat_workflow_reply
  | MetricsBody registry
  | RpcResult json json
  | RpcError json int string

record http_reply =
  reply_status :: nat
  reply_body_of :: reply_body

definition ok_response :: "reply_body \<Rightarrow> http_reply" where
  "ok_response b = \<lparr>reply_status = 200, reply_body_of = b\<rparr>"

definition error_response :: "nat \<Rightarrow> string \<Rightarrow> http_reply" where
  "error_response st message = \<lparr>reply_status = st, reply_body_of = ErrorBody message\<rparr>"

definition unauthorized_response :: http_reply where
  "unauthorized_response = error_response 401 ''unauthorized''"

definition compat_failure :: "string \<Rightarrow> http_reply" where
  "compat_failure message = \<lparr>reply_status = 400, reply_body_of = CompatFailure message\<rparr>"

text \<open>The names that \<^verbatim>\<open>{:?}\<close> prints.\<close>

fun debug_kind :: "transaction_kind \<Rightarrow> string" where
  "debug_kind Tcc = ''Tcc''"
| "debug_kind Saga = ''Saga''"
| "debug_kind Workflow = ''Workflow''"
| "debug_kind Message = ''Message''"
| "debug_kind Xa = ''Xa''"

fun debug_status :: "transaction_status \<Rightarrow> string" where
  "debug_status Submitted = ''Submitted''"
| "debug_status Trying = ''Trying''"
| "debug_status Prepared = ''Prepared''"
| "debug_status Succeeding = ''Succeeding''"
| "debug_status Succeeded = ''Succeeded''"
| "debug_status Aborting = ''Aborting''"
| "debug_status Aborted = ''Aborted''"
| "debug_status Failed = ''Failed''"

text \<open>
  The text of an error. The parameter \<open>sv_error_text\<close> gives the words of the errors whose class on the wire
  does not depend on them, and the words before the gid of a non-replayable transaction, which differ for a callback workflow.
\<close>

definition error_text :: "'s service \<Rightarrow> svc_error \<Rightarrow> string" where
  "error_text S e =
     (case e of
        FromDtm (TransactionNotFound g) \<Rightarrow> ''transaction not found: '' @ g
      | FromDtm (WrongKind g k expected) \<Rightarrow>
          ''transaction '' @ g @ '' is '' @ debug_kind k @ '', expected '' @ debug_kind expected
      | FromDtm (NonReplayable g st) \<Rightarrow>
          sv_error_text S (NonReplayable g st) @ g @ '' is in non-replayable state '' @ debug_status st
      | FromDtm other \<Rightarrow> sv_error_text S other
      | _ \<Rightarrow> [])"

fun contains :: "string \<Rightarrow> string \<Rightarrow> bool" where
  "contains p [] = (p = [])"
| "contains p (x # xs) = (starts_with p (x # xs) \<or> contains p xs)"

definition operation_error :: "'s service \<Rightarrow> string \<Rightarrow> string option \<Rightarrow> svc_error \<Rightarrow> ('s, http_reply) ctl" where
  "operation_error S operation g e =
     (let message = error_text S e;
          (status, public_message) =
            (if starts_with ''transaction not found:'' message then (404, ''transaction not found'')
             else if contains ''expected'' message \<or> contains ''non-replayable state'' message
             then (409, ''transaction state conflict'')
             else (502, ''DTM operation failed''))
      in then_ok (audit_record S operation ''failed'' g None) (\<lambda>_. ok (error_response status public_message)))"

text \<open>A handler behind the control token.\<close>

definition guarded :: "'s service \<Rightarrow> string option \<Rightarrow> ('s, http_reply) ctl \<Rightarrow> ('s, http_reply) ctl" where
  "guarded S header m = (if authorize S header then m else ok unauthorized_response)"

text \<open>Both branches of a \<^verbatim>\<open>match\<close> on the result of an operation.\<close>

definition branch_on :: "('s, 'a) ctl \<Rightarrow> ('a \<Rightarrow> ('s, 'b) ctl) \<Rightarrow> (svc_error \<Rightarrow> ('s, 'b) ctl) \<Rightarrow> ('s, 'b) ctl" where
  "branch_on m good bad = catch m (\<lambda>r. case r of Inl e \<Rightarrow> bad e | Inr x \<Rightarrow> good x)"

section \<open>New transaction ids\<close>

definition hex_char :: "nat \<Rightarrow> char" where
  "hex_char d = (if d < 10 then char_of (48 + d) else char_of (87 + d))"

fun show_hex :: "nat \<Rightarrow> string" where
  "show_hex n = (if n < 16 then [hex_char n] else show_hex (n div 16) @ [hex_char (n mod 16)])"

declare show_hex.simps [simp del]

definition pad_hex :: "nat \<Rightarrow> nat \<Rightarrow> string" where
  "pad_hex w n = replicate (w - length (show_hex n)) (CHR ''0'') @ show_hex n"

definition generate_gid :: "'s service \<Rightarrow> ('s, string) ctl" where
  "generate_gid S =
     then_ok (unix_millis S) (\<lambda>millis c.
       (Inr (show_hex (unat millis) @ pad_hex 8 (unat (c_gids c))), c\<lparr>c_gids := c_gids c + 1\<rparr>))"

section \<open>Compatible operations\<close>

fun operation_event :: "compat_operation \<Rightarrow> compat_protocol \<Rightarrow> string" where
  "operation_event OpPrepare ViaHttp = ''dtm.compat.http.prepare''"
| "operation_event OpSubmit ViaHttp = ''dtm.compat.http.submit''"
| "operation_event OpAbort ViaHttp = ''dtm.compat.http.abort''"
| "operation_event OpPrepare ViaJsonRpc = ''dtm.compat.json_rpc.prepare''"
| "operation_event OpSubmit ViaJsonRpc = ''dtm.compat.json_rpc.submit''"
| "operation_event OpAbort ViaJsonRpc = ''dtm.compat.json_rpc.abort''"
| "operation_event OpPrepare ViaGrpc = ''dtm.compat.grpc.prepare''"
| "operation_event OpSubmit ViaGrpc = ''dtm.compat.grpc.submit''"
| "operation_event OpAbort ViaGrpc = ''dtm.compat.grpc.abort''"

definition lookup :: "'s service \<Rightarrow> string \<Rightarrow> ('s, transaction option) ctl" where
  "lookup S g = on_dtm (store_op (sv_dtm S) (\<lambda>_. get_transaction (dtm_store (sv_dtm S)) g))"

definition list_all_transactions :: "'s service \<Rightarrow> ('s, transaction list) ctl" where
  "list_all_transactions S = on_dtm (store_op (sv_dtm S) (\<lambda>_. list_transactions (dtm_store (sv_dtm S))))"

text \<open>The transaction a compatible request describes, with what it keeps of the request.\<close>

definition compat_prepared ::
  "u64 \<Rightarrow> 's service \<Rightarrow> transaction_kind \<Rightarrow> compat_transaction_request \<Rightarrow> transaction svc" where
  "compat_prepared now S k rq =
     (let L = dtm_libs (sv_dtm S) in
      res_bind (compat_transaction now L (sv_codecs S) (sv_policy S) k rq) (\<lambda>tx.
      let tx = (case cr_timeout_to_fail rq of None \<Rightarrow> tx | Some s \<Rightarrow> tx\<lparr>timeout_millis := Some (sat_mul s 1000)\<rparr>);
          tx = preserve_compat_metadata (sv_codecs S) rq tx in
      res_seq (if k = Workflow \<and> nonempty (cr_query_prepared rq) \<noteq> None
        then res_bind (map_err FromDtm (workflow_callback_request_of L tx)) (\<lambda>cb.
               map_err FromPolicy (validate_callback L (sv_policy S) (cb_url cb)))
        else Inr ())
      (Inr (case cr_rollback_reason rq of None \<Rightarrow> tx
            | Some reason \<Rightarrow> tx\<lparr>metadata := bt_insert ''rollback_reason'' reason (metadata tx)\<rparr>))))"

definition compat_create :: "'s service \<Rightarrow> transaction_kind \<Rightarrow> compat_transaction_request \<Rightarrow> ('s, transaction) ctl" where
  "compat_create S k rq =
     then_ok (unix_millis S) (\<lambda>now.
     then_ok (lift_res (compat_prepared now S k rq)) (\<lambda>tx. on_dtm (submit (sv_dtm S) tx)))"

fun compat_handler :: "transaction_kind \<Rightarrow> compat_operation \<Rightarrow> handler option" where
  "compat_handler Tcc OpPrepare = Some PrepareTcc"
| "compat_handler Tcc OpSubmit = Some ConfirmTcc"
| "compat_handler Tcc OpAbort = Some CancelTcc"
| "compat_handler Xa OpPrepare = Some PrepareXa"
| "compat_handler Xa OpSubmit = Some CommitXa"
| "compat_handler Xa OpAbort = Some RollbackXa"
| "compat_handler Message OpPrepare = Some PrepareMessage"
| "compat_handler Message OpSubmit = Some DispatchMessage"
| "compat_handler Message OpAbort = Some AbortMessage"
| "compat_handler Saga OpSubmit = Some StartSaga"
| "compat_handler Saga OpAbort = Some AbortSaga"
| "compat_handler Workflow OpSubmit = Some StartWorkflow"
| "compat_handler Workflow OpAbort = Some AbortWorkflow"
| "compat_handler Workflow OpPrepare = Some PrepareWorkflow"
| "compat_handler Saga OpPrepare = None"

definition compat_dispatch ::
  "'s service \<Rightarrow> transaction_kind \<Rightarrow> compat_operation \<Rightarrow> bool \<Rightarrow> string \<Rightarrow> ('s, transaction) ctl" where
  "compat_dispatch S k oper wait g =
     (if \<not> wait \<and> oper = OpSubmit then on_dtm (handle (sv_dtm S) ScheduleSubmit g)
      else if \<not> wait \<and> oper = OpAbort then on_dtm (handle (sv_dtm S) ScheduleAbort g)
      else (case compat_handler k oper of
              Some h \<Rightarrow> on_dtm (handle (sv_dtm S) h g)
            | None \<Rightarrow> then_ok (lookup S g) (\<lambda>found. lift_res (ok_or found (Refused ''transaction not found'')))))"

definition is_callback_target :: "transaction_kind \<Rightarrow> compat_transaction_request \<Rightarrow> transaction option \<Rightarrow> bool" where
  "is_callback_target k rq existing \<longleftrightarrow>
     k = Workflow \<and> (nonempty (cr_query_prepared rq) \<noteq> None
       \<or> (case existing of None \<Rightarrow> False
          | Some tx \<Rightarrow> branches tx = [] \<and> nonempty (bt_get (metadata tx) ''dtm.query_prepared'') \<noteq> None))"

definition compat_apply ::
  "'s service \<Rightarrow> compat_transaction_request \<Rightarrow> compat_operation \<Rightarrow> ('s, transaction) ctl" where
  "compat_apply S rq oper =
     then_ok (lift_res (map_err Refused (parse_kind (cr_trans_type rq)))) (\<lambda>k.
     let g = trim (cr_gid rq) in
     then_ok (lift_res (callback_workflow_completion_of k oper rq)) (\<lambda>completion.
     then_ok (lift_res (ensure (g \<noteq> [] \<and> length g \<le> 128) (Refused ''invalid gid''))) (\<lambda>_.
     then_ok (lookup S g) (\<lambda>existing.
     then_ok (lift_res (ensure (completion = None \<or> existing \<noteq> None)
       (Refused ''callback workflow must be prepared before completion''))) (\<lambda>_.
     then_ok (lift_res (ensure (\<not> is_callback_target k rq existing \<or> oper \<noteq> OpSubmit \<or> completion \<noteq> None)
       (Refused ''callback workflow completion status is required''))) (\<lambda>_.
     then_ok (case existing of Some _ \<Rightarrow> ok () | None \<Rightarrow> then_ok (compat_create S k rq) (\<lambda>_. ok ())) (\<lambda>_.
     case completion of
       Some cc \<Rightarrow> on_dtm (finish_callback_workflow (sv_dtm S) g (cc_status cc) (cc_rollback_reason cc) (cc_result cc))
     | None \<Rightarrow> compat_dispatch S k oper (cr_wait_result rq) g)))))))"

text \<open>An operation on a transaction that is audited either way, as its result.\<close>

definition audited :: "'s service \<Rightarrow> string \<Rightarrow> string \<Rightarrow> ('s, transaction) ctl \<Rightarrow> ('s, transaction) ctl" where
  "audited S event g m =
     branch_on m (\<lambda>tx. then_ok (audit_transition S event tx) (\<lambda>_. ok tx))
       (\<lambda>e. then_ok (audit_compat_failure S event (Some g)) (\<lambda>_. fail e))"

definition compat_reply :: "('s, transaction) ctl \<Rightarrow> string \<Rightarrow> ('s, http_reply) ctl" where
  "compat_reply m message = branch_on m (\<lambda>_. ok (ok_response CompatSuccess)) (\<lambda>_. ok (compat_failure message))"

definition compat_write ::
  "'s service \<Rightarrow> string option \<Rightarrow> compat_operation \<Rightarrow> compat_transaction_request \<Rightarrow> ('s, http_reply) ctl" where
  "compat_write S header oper rq =
     guarded S header (compat_reply (audited S (operation_event oper (cr_protocol rq)) (cr_gid rq) (compat_apply S rq oper))
       ''compatibility operation failed'')"

definition compat_admin_operation :: "'s service \<Rightarrow> string option \<Rightarrow> string \<Rightarrow> bool \<Rightarrow> ('s, http_reply) ctl" where
  "compat_admin_operation S header g stop =
     guarded S header (compat_reply
       (audited S (if stop then ''dtm.compat.http.force_stop'' else ''dtm.compat.http.reset_retry'') g
          (on_dtm (handle (sv_dtm S) (if stop then ForceStop else ResetRetry) g)))
       ''administrative operation failed'')"

definition compat_prepare_workflow :: "'s service \<Rightarrow> string option \<Rightarrow> compat_transaction_request \<Rightarrow> ('s, http_reply) ctl" where
  "compat_prepare_workflow S header rq =
     guarded S header (branch_on
       (audited S ''dtm.compat.http.prepare_workflow'' (cr_gid rq) (compat_apply S (rq\<lparr>cr_trans_type := ''workflow''\<rparr>) OpPrepare))
       (\<lambda>tx. ok (ok_response (CompatWorkflowBody (compat_workflow_response (sv_codecs S) tx))))
       (\<lambda>_. ok (compat_failure ''workflow preparation failed'')))"

definition apply_compat_registration :: "'s service \<Rightarrow> string \<Rightarrow> compat_registration \<Rightarrow> ('s, transaction) ctl" where
  "apply_compat_registration S g registration =
     then_ok (lift_res (ensure (g \<noteq> [] \<and> length g \<le> 128) (Refused ''invalid gid''))) (\<lambda>_.
     case registration of
       RegisterOne b \<Rightarrow> on_dtm (register_dynamic_branch (sv_dtm S) g b)
     | RegisterProgress p \<Rightarrow> on_dtm (record_workflow_progress (sv_dtm S) g p))"

definition compat_register_branch :: "'s service \<Rightarrow> string option \<Rightarrow> compat_branch_request \<Rightarrow> ('s, http_reply) ctl" where
  "compat_register_branch S header rq =
     guarded S header
     (case compat_registration_from_request (dtm_libs (sv_dtm S)) (sv_policy S) rq of
        Inl _ \<Rightarrow> ok (compat_failure ''invalid branch registration'')
      | Inr registration \<Rightarrow>
          compat_reply (audited S ''dtm.compat.http.register_branch'' (cb_req_gid rq)
            (apply_compat_registration S (cb_req_gid rq) registration)) ''branch registration failed'')"

section \<open>Batches, topics and the key-value store\<close>

record compat_reset_cron_query =
  rq_reset_timeout :: "u64 option"
  rq_reset_limit :: "nat option"

record topic_query =
  tp_topic :: string
  tp_url :: string
  tp_remark :: string

record kv_query =
  kq_cat :: "string option"
  kq_key :: "string option"
  kq_position :: "string option"
  kq_limit :: "nat option"

definition compat_reset_retry_batch :: "'s service \<Rightarrow> string option \<Rightarrow> compat_reset_cron_query \<Rightarrow> ('s, http_reply) ctl" where
  "compat_reset_retry_batch S header q =
     guarded S header
     (let limit = max 1 (min 1000 (case rq_reset_limit q of None \<Rightarrow> 100 | Some n \<Rightarrow> n));
          seconds = (case rq_reset_timeout q of None \<Rightarrow> 105 | Some n \<Rightarrow> n) in
      if 31536000 < seconds then ok (compat_failure ''invalid resetCronTime timeout'')
      else branch_on (on_dtm (reset_retry_batch_after (sv_dtm S) (sat_mul seconds 1000) limit))
        (\<lambda>(reset, has_remaining).
           then_ok (\<lambda>c. (Inr (), c\<lparr>c_metrics := fold (record_dtm_transition ''dtm.compat.http.reset_retry_batch'') reset (c_metrics c)\<rparr>)) (\<lambda>_.
           then_ok (audit_batch_operation S ''dtm.compat.http.reset_retry_batch'') (\<lambda>_.
           ok (ok_response (CompatReset (length reset) has_remaining)))))
        (\<lambda>_. then_ok (audit_compat_failure S ''dtm.compat.http.reset_retry_batch'' None) (\<lambda>_.
           ok (compat_failure ''batch retry reset failed''))))"

text \<open>An operation on a topic that is audited either way, as its result.\<close>

definition audited_topic :: "'s service \<Rightarrow> string \<Rightarrow> string \<Rightarrow> ('s, 'a) ctl \<Rightarrow> ('s, 'a) ctl" where
  "audited_topic S event t m =
     branch_on m (\<lambda>x. then_ok (audit_resource_operation S event t ''success'') (\<lambda>_. ok x))
       (\<lambda>e. then_ok (audit_resource_operation S event t ''failed'') (\<lambda>_. fail e))"

definition compat_subscribe :: "'s service \<Rightarrow> string option \<Rightarrow> topic_query \<Rightarrow> ('s, http_reply) ctl" where
  "compat_subscribe S header q =
     guarded S header
     (if \<not> policy_ok (dtm_libs (sv_dtm S)) (sv_policy S) (tp_url q) then ok (compat_failure ''subscriber URL is not allowed'')
      else branch_on (audited_topic S ''dtm.compat.http.subscribe'' (tp_topic q)
               (on_dtm (subscribe (sv_dtm S) (tp_topic q) (tp_url q) (tp_remark q))))
        (\<lambda>_. ok (ok_response CompatSuccess)) (\<lambda>_. ok (compat_failure ''topic subscription failed'')))"

definition compat_unsubscribe :: "'s service \<Rightarrow> string option \<Rightarrow> topic_query \<Rightarrow> ('s, http_reply) ctl" where
  "compat_unsubscribe S header q =
     guarded S header
     (branch_on (audited_topic S ''dtm.compat.http.unsubscribe'' (tp_topic q) (on_dtm (unsubscribe (sv_dtm S) (tp_topic q) (tp_url q))))
        (\<lambda>_. ok (ok_response CompatSuccess)) (\<lambda>_. ok (compat_failure ''topic unsubscription failed'')))"

text \<open>Deleting a topic tells whether there was one.\<close>

definition delete_topic_audited :: "'s service \<Rightarrow> string \<Rightarrow> string \<Rightarrow> ('s, bool) ctl" where
  "delete_topic_audited S event t =
     branch_on (on_dtm (delete_topic (sv_dtm S) t))
       (\<lambda>found. then_ok (audit_resource_operation S event t (if found then ''success'' else ''not_found'')) (\<lambda>_. ok found))
       (\<lambda>e. then_ok (audit_resource_operation S event t ''failed'') (\<lambda>_. fail e))"

definition compat_delete_topic :: "'s service \<Rightarrow> string option \<Rightarrow> string \<Rightarrow> ('s, http_reply) ctl" where
  "compat_delete_topic S header t =
     guarded S header (branch_on (delete_topic_audited S ''dtm.compat.http.delete_topic'' t)
       (\<lambda>found. ok (if found then ok_response CompatSuccess else compat_failure ''topic not found''))
       (\<lambda>_. ok (compat_failure ''topic deletion failed'')))"

definition list_kv_entries :: "'s service \<Rightarrow> string option \<Rightarrow> string option \<Rightarrow> nat \<Rightarrow> nat \<Rightarrow> ('s, kv_entry list) ctl" where
  "list_kv_entries S cat k offset limit =
     on_dtm (store_op (sv_dtm S) (\<lambda>_. list_kv (dtm_store (sv_dtm S)) cat k offset limit))"

definition kv_position :: "kv_query \<Rightarrow> nat option" where
  "kv_position q =
     (case unwrap_or_default (kq_position q) of [] \<Rightarrow> Some 0
      | v \<Rightarrow> (case parse_uint v of None \<Rightarrow> None | Some n \<Rightarrow> if n \<le> 1000000 then Some n else None))"

definition compat_scan_kv :: "'s service \<Rightarrow> string option \<Rightarrow> kv_query \<Rightarrow> ('s, http_reply) ctl" where
  "compat_scan_kv S header q =
     guarded S header
     (let limit = max 1 (min 200 (case kq_limit q of None \<Rightarrow> 100 | Some n \<Rightarrow> n)) in
      case kv_position q of None \<Rightarrow> ok (compat_failure ''invalid KV position'')
      | Some position \<Rightarrow>
          branch_on (list_kv_entries S (nonempty (kq_cat q)) None position limit)
            (\<lambda>entries. ok (ok_response (CompatKv (map compat_kv_entry_of entries)
               (Some (if length entries = limit then show_nat (position + limit) else [])))))
            (\<lambda>_. ok (compat_failure ''KV scan failed'')))"

definition compat_query_kv :: "'s service \<Rightarrow> string option \<Rightarrow> kv_query \<Rightarrow> ('s, http_reply) ctl" where
  "compat_query_kv S header q =
     guarded S header
     (branch_on (list_kv_entries S (nonempty (kq_cat q)) (nonempty (kq_key q)) 0 200)
        (\<lambda>entries. ok (ok_response (CompatKv (map compat_kv_entry_of entries) None)))
        (\<lambda>_. ok (compat_failure ''KV query failed'')))"

section \<open>JSON-RPC\<close>

definition json_rpc_error :: "json \<Rightarrow> int \<Rightarrow> string \<Rightarrow> http_reply" where
  "json_rpc_error i code message = \<lparr>reply_status = 200, reply_body_of = RpcError i code message\<rparr>"

definition rpc_operation :: "string \<Rightarrow> compat_operation option" where
  "rpc_operation m = (if m = ''prepare'' then Some OpPrepare else if m = ''submit'' then Some OpSubmit
     else if m = ''abort'' then Some OpAbort else None)"

definition rpc_write :: "'s service \<Rightarrow> compat_operation \<Rightarrow> json \<Rightarrow> ('s, json) ctl" where
  "rpc_write S oper params =
     then_ok (lift_res (ok_or (decode_transaction_request (sv_codecs S) params) (Refused ''params''))) (\<lambda>decoded.
     let rq = decoded\<lparr>cr_protocol := ViaJsonRpc\<rparr> in
     then_ok (audited S (operation_event oper ViaJsonRpc) (cr_gid rq) (compat_apply S rq oper)) (\<lambda>_. ok (JObject [])))"

definition rpc_register :: "'s service \<Rightarrow> json \<Rightarrow> ('s, json) ctl" where
  "rpc_register S params =
     then_ok (lift_res (ok_or (decode_branch_request (sv_codecs S) params) (Refused ''params''))) (\<lambda>rq.
     then_ok (lift_res (compat_registration_from_request (dtm_libs (sv_dtm S)) (sv_policy S) rq)) (\<lambda>registration.
     then_ok (audited S ''dtm.compat.json_rpc.register_branch'' (cb_req_gid rq)
       (apply_compat_registration S (cb_req_gid rq) registration)) (\<lambda>_. ok (JObject []))))"

definition rpc_method_result :: "'s service \<Rightarrow> rpc_request \<Rightarrow> ('s, json) ctl option" where
  "rpc_method_result S rq =
     (if rpc_method rq = ''newGid'' then Some (then_ok (generate_gid S) (\<lambda>g. ok (JObject [(''gid'', JString g)])))
      else case rpc_operation (rpc_method rq) of
        Some oper \<Rightarrow> Some (rpc_write S oper (rpc_params rq))
      | None \<Rightarrow> if rpc_method rq = ''registerBranch'' then Some (rpc_register S (rpc_params rq)) else None)"

definition json_rpc :: "'s service \<Rightarrow> string option \<Rightarrow> string \<Rightarrow> ('s, http_reply) ctl" where
  "json_rpc S header body =
     (case parse_json (dtm_libs (sv_dtm S)) body of
        None \<Rightarrow> ok (json_rpc_error JNull (- 32700) ''parse error'')
      | Some v \<Rightarrow>
          (case decode_rpc (sv_codecs S) v of
             None \<Rightarrow> ok (json_rpc_error (case json_get v ''id'' of None \<Rightarrow> JNull | Some i \<Rightarrow> i) (- 32600) ''invalid request'')
           | Some rq \<Rightarrow>
               if \<not> authorize S header then ok (json_rpc_error (rpc_id rq) (- 32001) ''unauthorized'')
               else if rpc_jsonrpc rq \<noteq> ''2.0'' \<or> rpc_id rq = JNull
               then ok (json_rpc_error (rpc_id rq) (- 32600) ''invalid request'')
               else (case rpc_method_result S rq of
                       None \<Rightarrow> ok (json_rpc_error (rpc_id rq) (- 32601) ''method not found'')
                     | Some m \<Rightarrow> branch_on m (\<lambda>result. ok (ok_response (RpcResult (rpc_id rq) result)))
                         (\<lambda>_. ok (json_rpc_error (rpc_id rq) (- 32603) ''operation failed'')))))"

section \<open>The native interface\<close>

definition submit_transaction ::
  "'s service \<Rightarrow> string option \<Rightarrow> transaction_kind \<Rightarrow> submit_transaction_request \<Rightarrow> ('s, http_reply) ctl" where
  "submit_transaction S header k rq =
     guarded S header
     (then_ok (unix_millis S) (\<lambda>now.
      case build_transaction now (dtm_libs (sv_dtm S)) (sv_policy S) k rq of
        Inl message \<Rightarrow> ok (error_response 400 message)
      | Inr tx \<Rightarrow>
          branch_on (on_dtm (submit (sv_dtm S) tx))
            (\<lambda>tx. then_ok (audit_transition S ''dtm.transaction.submit'' tx) (\<lambda>_. ok (ok_response (OkTransaction tx))))
            (operation_error S ''dtm.transaction.submit'' (Some (sr_gid rq)))))"

text \<open>The event of a transition that has a route of its own.\<close>

fun transition_event :: "handler \<Rightarrow> string option" where
  "transition_event PrepareTcc = Some ''dtm.tcc.prepare''"
| "transition_event ConfirmTcc = Some ''dtm.tcc.confirm''"
| "transition_event CancelTcc = Some ''dtm.tcc.cancel''"
| "transition_event StartSaga = Some ''dtm.saga.start''"
| "transition_event AbortSaga = Some ''dtm.saga.abort''"
| "transition_event StartWorkflow = Some ''dtm.workflow.start''"
| "transition_event AbortWorkflow = Some ''dtm.workflow.abort''"
| "transition_event PrepareMessage = Some ''dtm.message.prepare''"
| "transition_event DispatchMessage = Some ''dtm.message.dispatch''"
| "transition_event AbortMessage = Some ''dtm.message.abort''"
| "transition_event PrepareXa = Some ''dtm.xa.prepare''"
| "transition_event CommitXa = Some ''dtm.xa.commit''"
| "transition_event RollbackXa = Some ''dtm.xa.rollback''"
| "transition_event Recover = Some ''dtm.transaction.recover''"
| "transition_event ForceStop = Some ''dtm.transaction.force_stop''"
| "transition_event ResetRetry = Some ''dtm.transaction.reset_retry''"
| "transition_event _ = None"

definition transition_handler :: "'s service \<Rightarrow> string option \<Rightarrow> handler \<Rightarrow> string \<Rightarrow> string \<Rightarrow> ('s, http_reply) ctl" where
  "transition_handler S header h event g =
     guarded S header
     (branch_on (on_dtm (handle (sv_dtm S) h g))
        (\<lambda>tx. then_ok (audit_transition S event tx) (\<lambda>_. ok (ok_response (OkTransaction tx))))
        (operation_error S event (Some g)))"

definition get_transaction_handler :: "'s service \<Rightarrow> string option \<Rightarrow> string \<Rightarrow> ('s, http_reply) ctl" where
  "get_transaction_handler S header g =
     guarded S header
     (branch_on (lookup S g)
        (\<lambda>found. ok (case found of Some tx \<Rightarrow> ok_response (OkTransaction tx)
                     | None \<Rightarrow> error_response 404 ''transaction not found''))
        (operation_error S ''dtm.transaction.get'' (Some g)))"

definition list_transactions_handler :: "'s service \<Rightarrow> string option \<Rightarrow> transaction_query \<Rightarrow> ('s, http_reply) ctl" where
  "list_transactions_handler S header q =
     guarded S header
     (case page_filter_of q of
        Inl message \<Rightarrow> ok (error_response 400 message)
      | Inr f \<Rightarrow> branch_on (list_all_transactions S) (\<lambda>ts. ok (ok_response (OkPage (transaction_page id q f ts))))
          (operation_error S ''dtm.transaction.list'' None))"

definition recover_all :: "'s service \<Rightarrow> string option \<Rightarrow> ('s, http_reply) ctl" where
  "recover_all S header =
     guarded S header
     (branch_on (on_dtm (tick_recover_once (sv_dtm S)))
        (\<lambda>recovered.
           then_ok (\<lambda>c. (Inr (), c\<lparr>c_metrics := fold (record_dtm_transition ''dtm.recovery.tick'') recovered (c_metrics c)\<rparr>)) (\<lambda>_.
           then_ok (audit_record S ''dtm.recovery.tick'' ''success'' None None) (\<lambda>_.
           ok (ok_response (OkRecovered recovered (length recovered))))))
        (operation_error S ''dtm.recovery.tick'' None))"

definition stats :: "'s service \<Rightarrow> string option \<Rightarrow> ('s, http_reply) ctl" where
  "stats S header =
     guarded S header
     (branch_on (list_all_transactions S) (\<lambda>ts. ok (ok_response (OkStats (transaction_stats_of ts))))
        (operation_error S ''dtm.stats.get'' None))"

definition build_dashboard_snapshot ::
  "u64 \<Rightarrow> transaction list \<Rightarrow> transaction_query \<Rightarrow> audit_event list \<Rightarrow> string + dashboard_snapshot" where
  "build_dashboard_snapshot now ts q events =
     res_bind (page_filter_of q) (\<lambda>f.
     Inr \<lparr>sn_generated_at_millis = now, sn_summary = dashboard_summary_of ts,
          sn_transactions = transaction_page dashboard_row q f ts, sn_audit = events\<rparr>)"

definition dashboard_snapshot_handler :: "'s service \<Rightarrow> string option \<Rightarrow> transaction_query \<Rightarrow> ('s, http_reply) ctl" where
  "dashboard_snapshot_handler S header q =
     guarded S header
     (branch_on (list_all_transactions S)
        (\<lambda>ts. then_ok (unix_millis S) (\<lambda>now c.
           (Inr (case build_dashboard_snapshot now ts q (latest (c_audit c)) of
              Inr snapshot \<Rightarrow> ok_response (OkDashboard snapshot)
            | Inl message \<Rightarrow> error_response 400 message), c)))
        (operation_error S ''dtm.dashboard.get'' None))"

definition xa_reconciliation :: "'s service \<Rightarrow> string option \<Rightarrow> ('s, http_reply) ctl" where
  "xa_reconciliation S header =
     guarded S header
     (branch_on (list_all_transactions S)
        (\<lambda>ts. then_ok (unix_millis S) (\<lambda>now. ok (ok_response (OkXa (build_xa_reconciliation now ts)))))
        (operation_error S ''dtm.xa.reconciliation.get'' None))"

definition ready :: "'s service \<Rightarrow> ('s, http_reply) ctl" where
  "ready S c =
     (if \<not> sv_ready S (w_step (c_world c)) then (Inr (error_response 503 ''DTM service is not ready''), c)
      else branch_on (lookup S ''__roze_health__'') (\<lambda>_. ok (ok_response (OkText ''ready'')))
        (\<lambda>_. ok (error_response 503 ''DTM store is not ready'')) c)"

definition compat_new_gid :: "'s service \<Rightarrow> string option \<Rightarrow> ('s, http_reply) ctl" where
  "compat_new_gid S header =
     guarded S header (then_ok (generate_gid S) (\<lambda>g. ok (ok_response (CompatGid g))))"

definition compat_query_handler :: "'s service \<Rightarrow> string option \<Rightarrow> compat_query \<Rightarrow> ('s, http_reply) ctl" where
  "compat_query_handler S header q =
     guarded S header
     (case cq_gid q of None \<Rightarrow> ok (compat_failure ''no gid specified'')
      | Some g \<Rightarrow>
          branch_on (lookup S g)
            (\<lambda>found. ok (case found of
                Some tx \<Rightarrow> ok_response (CompatOne (compat_global_transaction_of (sv_codecs S) tx)
                  (compat_branch_transactions (sv_codecs S) tx))
              | None \<Rightarrow> compat_failure ''transaction not found''))
            (\<lambda>_. ok (compat_failure ''storage failure'')))"

definition compat_all :: "'s service \<Rightarrow> string option \<Rightarrow> compat_query \<Rightarrow> ('s, http_reply) ctl" where
  "compat_all S header q =
     guarded S header
     (branch_on (list_all_transactions S)
        (\<lambda>ts. ok (case build_compat_all_response (sv_codecs S) ts q of
            Inr (rows, next_position) \<Rightarrow> ok_response (CompatMany rows next_position)
          | Inl message \<Rightarrow> compat_failure message))
        (\<lambda>_. ok (compat_failure ''storage failure'')))"

section \<open>The router\<close>

datatype http_call =
    DashboardPage | OpenapiPage | Health | Ready | MetricsPage | CompatVersion
  | SubmitNative transaction_kind submit_transaction_request
  | Transition handler string
  | XaReconciliation | ListTransactions transaction_query | GetTransaction string | RecoverAll | Stats
  | DashboardData transaction_query
  | CompatNewGid | CompatQuery compat_query | CompatAll compat_query
  | CompatWrite compat_operation compat_transaction_request
  | CompatRegisterBranch compat_branch_request
  | CompatPrepareWorkflow compat_transaction_request
  | CompatForceStop compat_transaction_request | CompatResetRetry compat_transaction_request
  | CompatResetBatch compat_reset_cron_query
  | CompatSubscribe topic_query | CompatUnsubscribe topic_query | CompatDeleteTopic string
  | CompatScanKv kv_query | CompatQueryKv kv_query
  | JsonRpcCall string

fun control_router :: "'s service \<Rightarrow> string option \<Rightarrow> http_call \<Rightarrow> ('s, http_reply) ctl" where
  "control_router S header DashboardPage = ok (ok_response (Static ''dashboard.html''))"
| "control_router S header OpenapiPage = ok (ok_response (Static ''openapi.json''))"
| "control_router S header Health = ok (ok_response (OkText ''ok''))"
| "control_router S header Ready = ready S"
| "control_router S header MetricsPage = (\<lambda>c. (Inr (ok_response (MetricsBody (c_metrics c))), c))"
| "control_router S header CompatVersion = ok (ok_response (CompatVersionBody (sv_revision S)))"
| "control_router S header (SubmitNative k rq) = submit_transaction S header k rq"
| "control_router S header (Transition h g) =
     (case transition_event h of Some event \<Rightarrow> transition_handler S header h event g | None \<Rightarrow> ok (error_response 404 []))"
| "control_router S header XaReconciliation = xa_reconciliation S header"
| "control_router S header (ListTransactions q) = list_transactions_handler S header q"
| "control_router S header (GetTransaction g) = get_transaction_handler S header g"
| "control_router S header RecoverAll = recover_all S header"
| "control_router S header Stats = stats S header"
| "control_router S header (DashboardData q) = dashboard_snapshot_handler S header q"
| "control_router S header CompatNewGid = compat_new_gid S header"
| "control_router S header (CompatQuery q) = compat_query_handler S header q"
| "control_router S header (CompatAll q) = compat_all S header q"
| "control_router S header (CompatWrite oper rq) = compat_write S header oper rq"
| "control_router S header (CompatRegisterBranch rq) = compat_register_branch S header rq"
| "control_router S header (CompatPrepareWorkflow rq) = compat_prepare_workflow S header rq"
| "control_router S header (CompatForceStop rq) = compat_admin_operation S header (cr_gid rq) True"
| "control_router S header (CompatResetRetry rq) = compat_admin_operation S header (cr_gid rq) False"
| "control_router S header (CompatResetBatch q) = compat_reset_retry_batch S header q"
| "control_router S header (CompatSubscribe q) = compat_subscribe S header q"
| "control_router S header (CompatUnsubscribe q) = compat_unsubscribe S header q"
| "control_router S header (CompatDeleteTopic t) = compat_delete_topic S header t"
| "control_router S header (CompatScanKv q) = compat_scan_kv S header q"
| "control_router S header (CompatQueryKv q) = compat_query_kv S header q"
| "control_router S header (JsonRpcCall body) = json_rpc S header body"

section \<open>gRPC\<close>

text \<open>The progress of a workflow as gRPC sends it: the data is not encoded.\<close>

record grpc_progress =
  gp_status :: string
  gp_bin_data :: "u8 list"
  gp_branch_id :: string
  gp_op :: string

record grpc_progresses =
  gs_gid :: string
  gs_status :: string
  gs_rollback_reason :: string
  gs_result :: string
  gs_progresses :: "grpc_progress list"

definition grpc_progresses_of :: "transaction \<Rightarrow> grpc_progresses" where
  "grpc_progresses_of tx =
     \<lparr>gs_gid = gid tx, gs_status = compat_workflow_status_name (tstatus tx),
      gs_rollback_reason = meta_or_empty tx ''rollback_reason'', gs_result = meta_or_empty tx ''dtm.workflow.result'',
      gs_progresses = map (\<lambda>p. \<lparr>gp_status = workflow_progress_status_name (wp_status p), gp_bin_data = wp_data p,
        gp_branch_id = wp_branch_id p, gp_op = wp_operation p\<rparr>) (workflow_progresses tx)\<rparr>"

datatype grpc_reply = GrpcEmpty | GrpcGid string | GrpcProgresses grpc_progresses

datatype grpc_status = Unauthenticated | BadRequest string | FailedPrecondition string | NotFound string

type_synonym grpc_result = "grpc_status + grpc_reply"

definition grpc_guarded :: "'s service \<Rightarrow> string option \<Rightarrow> ('s, grpc_result) ctl \<Rightarrow> ('s, grpc_result) ctl" where
  "grpc_guarded S header m = (if authorize S header then m else ok (Inl Unauthenticated))"

definition grpc_done :: "('s, 'a) ctl \<Rightarrow> ('a \<Rightarrow> grpc_reply) \<Rightarrow> string \<Rightarrow> ('s, grpc_result) ctl" where
  "grpc_done m reply message = branch_on m (\<lambda>x. ok (Inr (reply x))) (\<lambda>_. ok (Inl (FailedPrecondition message)))"

definition grpc_new_gid :: "'s service \<Rightarrow> string option \<Rightarrow> ('s, grpc_result) ctl" where
  "grpc_new_gid S header = grpc_guarded S header (then_ok (generate_gid S) (\<lambda>g. ok (Inr (GrpcGid g))))"

definition grpc_apply_transaction :: "'s service \<Rightarrow> string option \<Rightarrow> compat_operation \<Rightarrow> dtm_request \<Rightarrow> ('s, grpc_result) ctl" where
  "grpc_apply_transaction S header oper rq =
     grpc_guarded S header
     (case grpc_compat_request (dtm_libs (sv_dtm S)) (sv_codecs S) rq of
        Inl _ \<Rightarrow> ok (Inl (BadRequest ''invalid transaction steps''))
      | Inr input \<Rightarrow>
          grpc_done (audited S (operation_event oper (cr_protocol input)) (cr_gid input) (compat_apply S input oper))
            (\<lambda>_. GrpcEmpty) ''transaction operation failed'')"

definition grpc_register_branch :: "'s service \<Rightarrow> string option \<Rightarrow> dtm_branch_request \<Rightarrow> ('s, grpc_result) ctl" where
  "grpc_register_branch S header rq =
     grpc_guarded S header
     (case compat_registration_from_request (dtm_libs (sv_dtm S)) (sv_policy S)
             (grpc_branch_request (dtm_libs (sv_dtm S)) (sv_codecs S) rq) of
        Inl _ \<Rightarrow> ok (Inl (BadRequest ''invalid branch registration''))
      | Inr registration \<Rightarrow>
          grpc_done (audited S ''dtm.compat.grpc.register_branch'' (gb_gid rq) (apply_compat_registration S (gb_gid rq) registration))
            (\<lambda>_. GrpcEmpty) ''branch registration failed'')"

definition grpc_prepare_workflow :: "'s service \<Rightarrow> string option \<Rightarrow> dtm_request \<Rightarrow> ('s, grpc_result) ctl" where
  "grpc_prepare_workflow S header rq =
     grpc_guarded S header
     (case grpc_compat_request (dtm_libs (sv_dtm S)) (sv_codecs S) rq of
        Inl _ \<Rightarrow> ok (Inl (BadRequest ''invalid transaction steps''))
      | Inr input \<Rightarrow>
          grpc_done (audited S ''dtm.compat.grpc.prepare_workflow'' (cr_gid input)
              (compat_apply S (input\<lparr>cr_trans_type := ''workflow''\<rparr>) OpPrepare))
            (\<lambda>tx. GrpcProgresses (grpc_progresses_of tx)) ''workflow preparation failed'')"

definition grpc_subscribe :: "'s service \<Rightarrow> string option \<Rightarrow> topic_query \<Rightarrow> ('s, grpc_result) ctl" where
  "grpc_subscribe S header q =
     grpc_guarded S header
     (if \<not> policy_ok (dtm_libs (sv_dtm S)) (sv_policy S) (tp_url q) then ok (Inl (BadRequest ''subscriber URL is not allowed''))
      else grpc_done (audited_topic S ''dtm.compat.grpc.subscribe'' (tp_topic q)
               (on_dtm (subscribe (sv_dtm S) (tp_topic q) (tp_url q) (tp_remark q))))
             (\<lambda>_. GrpcEmpty) ''topic subscription failed'')"

definition grpc_unsubscribe :: "'s service \<Rightarrow> string option \<Rightarrow> topic_query \<Rightarrow> ('s, grpc_result) ctl" where
  "grpc_unsubscribe S header q =
     grpc_guarded S header
     (grpc_done (audited_topic S ''dtm.compat.grpc.unsubscribe'' (tp_topic q) (on_dtm (unsubscribe (sv_dtm S) (tp_topic q) (tp_url q))))
        (\<lambda>_. GrpcEmpty) ''topic unsubscription failed'')"

definition grpc_delete_topic :: "'s service \<Rightarrow> string option \<Rightarrow> string \<Rightarrow> ('s, grpc_result) ctl" where
  "grpc_delete_topic S header t =
     grpc_guarded S header
     (branch_on (delete_topic_audited S ''dtm.compat.grpc.delete_topic'' t)
        (\<lambda>found. ok (if found then Inr GrpcEmpty else Inl (NotFound ''topic not found'')))
        (\<lambda>_. ok (Inl (FailedPrecondition ''topic deletion failed''))))"

datatype grpc_call =
    GrpcNewGid | GrpcApply compat_operation dtm_request | GrpcRegisterBranch dtm_branch_request
  | GrpcPrepareWorkflow dtm_request | GrpcSubscribe topic_query | GrpcUnsubscribe topic_query | GrpcDeleteTopic string

fun grpc_service :: "'s service \<Rightarrow> string option \<Rightarrow> grpc_call \<Rightarrow> ('s, grpc_result) ctl" where
  "grpc_service S header GrpcNewGid = grpc_new_gid S header"
| "grpc_service S header (GrpcApply oper rq) = grpc_apply_transaction S header oper rq"
| "grpc_service S header (GrpcRegisterBranch rq) = grpc_register_branch S header rq"
| "grpc_service S header (GrpcPrepareWorkflow rq) = grpc_prepare_workflow S header rq"
| "grpc_service S header (GrpcSubscribe q) = grpc_subscribe S header q"
| "grpc_service S header (GrpcUnsubscribe q) = grpc_unsubscribe S header q"
| "grpc_service S header (GrpcDeleteTopic t) = grpc_delete_topic S header t"

section \<open>Workers\<close>

text \<open>One tick of the recovery worker, and one of the retention worker.\<close>

definition recovery_tick :: "'s service \<Rightarrow> string \<Rightarrow> u64 \<Rightarrow> ('s, unit) ctl" where
  "recovery_tick S worker ttl =
     branch_on (on_dtm (tick_recover_once_with_lease (sv_dtm S) worker ttl))
       (\<lambda>recovered. if recovered = [] then ok ()
          else then_ok (\<lambda>c. (Inr (), c\<lparr>c_metrics := fold (record_dtm_transition ''dtm.recovery.completed'') recovered (c_metrics c)\<rparr>)) (\<lambda>_.
            audit_record S ''dtm.recovery.completed'' ''success'' None None))
       (\<lambda>_. audit_record S ''dtm.recovery.failed'' ''failed'' None None)"

definition retention_tick :: "'s service \<Rightarrow> retention_policy \<Rightarrow> ('s, unit) ctl" where
  "retention_tick S policy =
     branch_on (on_dtm (purge_expired_transactions (sv_dtm S) policy))
       (\<lambda>report. if 0 < eligible report
          then then_ok (\<lambda>c. (Inr (), c\<lparr>c_metrics := inc_counter (''roze_dtm_retention_conflicts_total'', []) (conflicts report)
                   (inc_counter (''roze_dtm_retention_deleted_total'', []) (deleted report) (c_metrics c))\<rparr>)) (\<lambda>_.
            audit_record S ''dtm.retention.completed'' ''success'' None None)
          else ok ())
       (\<lambda>_. audit_record S ''dtm.retention.failed'' ''failed'' None None)"

section \<open>The service as a whole\<close>

datatype service_input =
    HttpInput "string option" http_call
  | GrpcInput "string option" grpc_call
  | RecoveryTick string u64

fun serve :: "'s service \<Rightarrow> service_input \<Rightarrow> 's control \<Rightarrow> 's control" where
  "serve S (HttpInput header call) c = snd (control_router S header call c)"
| "serve S (GrpcInput header call) c = snd (grpc_service S header call c)"
| "serve S (RecoveryTick worker ttl) c = snd (recovery_tick S worker ttl c)"

text \<open>The state when the process has started, on a store it finds.\<close>

definition started_control :: "'s world \<Rightarrow> 's control" where
  "started_control w = \<lparr>c_world = w, c_audit = \<lparr>next_sequence = 0, audit_events = []\<rparr>, c_metrics = [], c_gids = 0\<rparr>"

end
