(* ===== verification/Service_Safety.thy ===== *)
theory Service_Safety
  imports Service_Control
begin

text \<open>
  What the service guarantees as a whole: who may use it, that it acts on the store only through requests of the
  coordinator, and that what it keeps in memory is bounded. The last two are one induction over
  the handlers, made once in a locale for any predicate on the control state that the basic steps keep.
\<close>

unbundle bit_operations_syntax

section \<open>Authorisation\<close>

lemma fold_or_zero: "fold (\<lambda>i d. d OR (f i :: nat)) is d = 0 \<longleftrightarrow> d = 0 \<and> (\<forall>i \<in> set is. f i = 0)"
  by (induction "is" arbitrary: d) (auto simp: or_eq_0_iff)

lemma xor_zero_nat: "(a XOR b = 0) = (a = b)" for a b :: nat
  by (auto simp: bit_eq_iff bit_xor_iff)

lemma xor_zero_word: "(a XOR b = 0) = (a = b)" for a b :: "'a::len word"
  by (auto simp: bit_eq_iff bit_xor_iff)

lemma constant_time_eq_iff: "constant_time_eq l r \<longleftrightarrow> l = r"
proof -
  have "constant_time_eq l r \<longleftrightarrow> length l = length r \<and> (\<forall>i < max (length l) (length r). byte_at l i = byte_at r i)"
    by (auto simp: constant_time_eq_def fold_or_zero xor_zero_nat xor_zero_word unat_eq_zero)
  also have "\<dots> \<longleftrightarrow> l = r" by (auto simp: byte_at_def list_eq_iff_nth_eq)
  finally show ?thesis .
qed

lemma string_bytes_inject: "string_bytes s = string_bytes t \<longleftrightarrow> s = t"
proof -
  have "(of_nat (of_char c) :: u8) = of_nat (of_char d) \<Longrightarrow> c = d" for c d
  proof -
    assume "(of_nat (of_char c) :: u8) = of_nat (of_char d)"
    then have "unat (of_nat (of_char c) :: u8) = unat (of_nat (of_char d) :: u8)" by simp
    then show "c = d" by (simp add: unat_of_nat)
  qed
  then have "inj (\<lambda>c. of_nat (of_char c) :: u8)" by (rule injI)
  then show ?thesis by (simp add: string_bytes_def inj_map_eq_map)
qed

lemma authorize_iff:
  "authorize S header \<longleftrightarrow> (case sv_token S of None \<Rightarrow> True | Some t \<Rightarrow> header = Some (''Bearer '' @ t))"
proof (cases "sv_token S")
  case (Some t)
  have "authorize S header \<longleftrightarrow> (\<exists>h. header = Some h \<and> strip_prefix ''Bearer '' h = Some t)"
    using Some by (auto simp: authorize_def constant_time_eq_iff string_bytes_inject split: option.splits bind_splits
        simp del: strip_prefix_eq_Some)
  then show ?thesis using Some by simp
qed (simp add: authorize_def)

text \<open>What anybody may ask: the pages, the probes, the metrics and the version.\<close>

definition public_call :: "http_call \<Rightarrow> bool" where
  "public_call call \<longleftrightarrow> call \<in> {DashboardPage, OpenapiPage, Health, Ready, MetricsPage, CompatVersion}"

definition refusal :: "http_reply \<Rightarrow> bool" where
  "refusal reply \<longleftrightarrow> reply = unauthorized_response \<or> reply = error_response 404 []
     \<or> (\<exists>i code message. reply_body_of reply = RpcError i code message)"

lemma guarded_unauthorized: "\<not> authorize S header \<Longrightarrow> guarded S header m = ok unauthorized_response"
  by (simp add: guarded_def)

lemmas handlers_guarded = submit_transaction_def transition_handler_def xa_reconciliation_def list_transactions_handler_def
  get_transaction_handler_def recover_all_def stats_def dashboard_snapshot_handler_def compat_new_gid_def compat_query_handler_def
  compat_all_def compat_write_def compat_register_branch_def compat_prepare_workflow_def compat_admin_operation_def
  compat_reset_retry_batch_def compat_subscribe_def compat_unsubscribe_def compat_delete_topic_def compat_scan_kv_def
  compat_query_kv_def

lemmas grpc_handlers_guarded = grpc_new_gid_def grpc_apply_transaction_def grpc_register_branch_def grpc_prepare_workflow_def
  grpc_subscribe_def grpc_unsubscribe_def grpc_delete_topic_def

lemma refused:
  assumes "\<not> authorize S header" and "\<not> public_call call"
  shows "\<exists>reply. control_router S header call = ok reply \<and> refusal reply"
proof -
  have "refusal unauthorized_response" "refusal (error_response 404 [])" by (simp_all add: refusal_def)
  moreover have "\<exists>reply. json_rpc S header body = ok reply \<and> refusal reply" for body
    using assms(1) by (auto simp: json_rpc_def refusal_def json_rpc_error_def split: option.splits)
  ultimately show ?thesis
    using assms by (cases call) (auto simp: public_call_def handlers_guarded guarded_unauthorized split: option.splits)
qed

lemma grpc_refused: "\<not> authorize S header \<Longrightarrow> grpc_service S header call = ok (Inl Unauthenticated)"
  by (cases call) (simp_all add: grpc_handlers_guarded grpc_guarded_def)

lemma store_op_events [simp]: "w_events (snd (store_op D m w)) = w_events w"
  by (simp add: store_op_def Let_def split: fault.splits)

lemma public_harmless:
  assumes "public_call call"
  shows "(let c' = snd (control_router S header call c) in
     c_audit c' = c_audit c \<and> c_metrics c' = c_metrics c \<and> c_gids c' = c_gids c \<and> w_events (c_world c') = w_events (c_world c))"
proof (cases "call = Ready")
  case True
  then show ?thesis
    by (auto simp: ready_def branch_on_def lookup_def on_dtm_def act_simps Let_def split: sum.splits prod.splits)
      (metis store_op_events snd_conv)+
next
  case False
  then show ?thesis using assms by (auto simp: public_call_def act_simps Let_def)
qed

text \<open>
  C15: Nobody acts through the service without the control token. When a token is configured and a request does not
  carry exactly \<^verbatim>\<open>Bearer\<close> and that token, then over gRPC and on every HTTP and JSON-RPC route except the pages, probes,
  metrics and version the request is refused with the same answer in every state, and nothing changes: no store
  operation, no branch call, no audit entry, no gid used up. On the public routes nothing changes either, except that
  the readiness probe reads the store.
\<close>

theorem unauthorized_powerless:
  assumes "sv_token S = Some t" and "header \<noteq> Some (''Bearer '' @ t)"
  shows "(\<not> public_call call \<longrightarrow>
      (\<exists>reply. refusal reply \<and> (\<forall>c. control_router S header call c = (Inr reply, c))))
    \<and> grpc_service S header rpc c = (Inr (Inl Unauthenticated), c)
    \<and> (public_call call \<longrightarrow> (let c' = snd (control_router S header call c) in
        c_audit c' = c_audit c \<and> c_metrics c' = c_metrics c \<and> c_gids c' = c_gids c \<and> w_events (c_world c') = w_events (c_world c)))"
proof -
  have no: "\<not> authorize S header" using assms by (simp add: authorize_iff)
  show ?thesis
    using refused [OF no, of call] grpc_refused [OF no, of rpc] public_harmless [of call S header c] by (auto simp: act_simps)
qed

text \<open>A service on the in-memory store, with a token, that may call one origin.\<close>

definition sample_codecs :: codecs where
  "sample_codecs = \<lparr>decode_message_custom = (\<lambda>_. None), decode_saga_custom = (\<lambda>_. None), encode_map = (\<lambda>_. []),
     decode_map = (\<lambda>_. None), decode_steps = (\<lambda>_. None), print_json = (\<lambda>_. []), base64_encode = (\<lambda>_. []),
     decode_rpc = (\<lambda>_. None), decode_transaction_request = (\<lambda>_. None), decode_branch_request = (\<lambda>_. None)\<rparr>"

definition sample_service :: "mem_store service" where
  "sample_service = \<lparr>sv_dtm = quiet (sample_dtm\<lparr>dtm_libs := open_libs\<rparr>) mem_ops, sv_policy = url_policy sample_invoker,
     sv_token = Some ''secret'', sv_revision = None, sv_ready = (\<lambda>_. True), sv_codecs = sample_codecs, sv_error_text = (\<lambda>_. [])\<rparr>"

theorem unauthorized_powerless_witness:
  "(\<exists>reply. refusal reply \<and> control_router sample_service (Some ''Bearer secre'') (Transition CancelTcc ''g1'')
      (started_control (sample_world committed_tcc)) = (Inr reply, started_control (sample_world committed_tcc)))
    \<and> \<not> public_call (Transition CancelTcc ''g1'')"
proof -
  have "sv_token sample_service = Some ''secret''" "Some ''Bearer secre'' \<noteq> Some (''Bearer '' @ ''secret'')"
    by (simp_all add: sample_service_def)
  note refused = unauthorized_powerless [OF this, of "Transition CancelTcc ''g1''"]
  have closed_call: "\<not> public_call (Transition CancelTcc ''g1'')" by (simp add: public_call_def)
  then show ?thesis using refused by blast
qed

section \<open>What every handler keeps\<close>

text \<open>The operations that label a metric or an audit entry.\<close>

definition operations :: "string list" where
  "operations = [operation_event oper protocol. oper \<leftarrow> [OpPrepare, OpSubmit, OpAbort], protocol \<leftarrow> [ViaHttp, ViaJsonRpc, ViaGrpc]]
     @ List.map_filter transition_event [PrepareTcc, ConfirmTcc, CancelTcc, StartSaga, AbortSaga, StartWorkflow, AbortWorkflow,
         PrepareMessage, DispatchMessage, AbortMessage, PrepareXa, CommitXa, RollbackXa, Recover, ForceStop, ResetRetry]
     @ [''dtm.compat.http.force_stop'', ''dtm.compat.http.reset_retry'', ''dtm.compat.http.prepare_workflow'',
        ''dtm.compat.grpc.prepare_workflow'', ''dtm.compat.http.register_branch'', ''dtm.compat.json_rpc.register_branch'',
        ''dtm.compat.grpc.register_branch'', ''dtm.compat.http.reset_retry_batch'', ''dtm.transaction.submit'',
        ''dtm.recovery.tick'', ''dtm.recovery.completed'']"

lemma operation_event_listed [simp]: "operation_event oper protocol \<in> set operations"
  by (cases oper; cases protocol) (simp_all add: operations_def)

lemma transition_event_listed: "transition_event h = Some event \<Longrightarrow> event \<in> set operations"
  by (cases h) (auto simp: operations_def List.map_filter_simps)

lemma listed [simp]:
  "''dtm.compat.http.force_stop'' \<in> set operations" "''dtm.compat.http.reset_retry'' \<in> set operations"
  "''dtm.compat.http.prepare_workflow'' \<in> set operations" "''dtm.compat.grpc.prepare_workflow'' \<in> set operations"
  "''dtm.compat.http.register_branch'' \<in> set operations" "''dtm.compat.json_rpc.register_branch'' \<in> set operations"
  "''dtm.compat.grpc.register_branch'' \<in> set operations" "''dtm.compat.http.reset_retry_batch'' \<in> set operations"
  "''dtm.transaction.submit'' \<in> set operations" "''dtm.recovery.tick'' \<in> set operations" "''dtm.recovery.completed'' \<in> set operations"
  by (simp_all add: operations_def)

locale service_invariant =
  fixes S :: "'s service" and I :: "'s control \<Rightarrow> bool"
  assumes request_law: "I c \<Longrightarrow> I (c\<lparr>c_world := snd (perform (sv_dtm S) r (c_world c))\<rparr>)"
    and audit_law: "I c \<Longrightarrow> I (c\<lparr>c_audit := record_event now event oc resource status (c_audit c)\<rparr>)"
    and metrics_law: "I c \<Longrightarrow> event \<in> set operations \<Longrightarrow> I (c\<lparr>c_metrics := record_dtm_transition event tx (c_metrics c)\<rparr>)"
    and gid_law: "I c \<Longrightarrow> I (c\<lparr>c_gids := c_gids c + 1\<rparr>)"
begin

lemma snd_void: "snd (void m w) = snd (m w)"
  by (cases "m w") (auto simp: void_def act_simps split: sum.splits)

lemma request_keeps:
  assumes "perform (sv_dtm S) r = void m"
  shows "keeps I (on_dtm m) (\<lambda>_. True)"
proof -
  have final: "I (snd (on_dtm m c))" if "I c" for c
    using request_law [OF that, of r] snd_void [of m "c_world c"] by (cases "m (c_world c)") (simp add: on_dtm_def assms)
  show ?thesis by (rule keepsI) (metis final snd_conv)+
qed

lemmas requests_keep = perform.simps [THEN request_keeps]

lemma updates_keep:
  "(\<And>c. I c \<Longrightarrow> I (f c)) \<Longrightarrow> keeps I (\<lambda>c. (Inr (x c), f c)) (\<lambda>_. True)"
  by (rule keepsI) auto

lemma millis_keeps: "keeps I (unix_millis S) (\<lambda>_. True)"
  unfolding unix_millis_def by (rule requests_keep)

lemma audit_keeps: "keeps I (audit_record S event oc resource status) (\<lambda>_. True)"
  unfolding audit_record_def by (rule keeps_then_ok [OF millis_keeps], rule updates_keep, rule audit_law)

lemma metrics_keep: "event \<in> set operations \<Longrightarrow> keeps I (metrics_record event tx) (\<lambda>_. True)"
  unfolding metrics_record_def [abs_def] by (rule updates_keep, erule (1) metrics_law)

lemma metrics_fold_keep:
  assumes "event \<in> set operations"
  shows "keeps I (\<lambda>c. (Inr (), c\<lparr>c_metrics := fold (record_dtm_transition event) ts (c_metrics c)\<rparr>)) (\<lambda>_. True)"
proof (rule updates_keep)
  fix c assume "I c"
  then show "I (c\<lparr>c_metrics := fold (record_dtm_transition event) ts (c_metrics c)\<rparr>)"
  proof (induction ts arbitrary: c)
    case (Cons tx ts)
    have "I (c\<lparr>c_metrics := record_dtm_transition event tx (c_metrics c)\<rparr>)" using Cons.prems assms by (rule metrics_law)
    from Cons.IH [OF this] show ?case by simp
  qed simp
qed

lemma gid_keeps: "keeps I (generate_gid S) (\<lambda>_. True)"
  unfolding generate_gid_def by (rule keeps_then_ok [OF millis_keeps], rule updates_keep, rule gid_law)

lemma branch_on_keeps:
  assumes "keeps I m (\<lambda>_. True)" and "\<And>x. keeps I (good x) Q" and "\<And>e. keeps I (bad e) Q"
  shows "keeps I (branch_on m good bad) Q"
  unfolding branch_on_def using assms(2,3) by (intro keeps_catch [OF assms(1)]) (simp split: sum.split)

lemma then_keeps: "keeps I m (\<lambda>_. True) \<Longrightarrow> (\<And>x. keeps I (k x) Q) \<Longrightarrow> keeps I (then_ok m k) Q"
  by (rule keeps_then_ok) auto

lemma lift_then_keeps: "(\<And>x. r = Inr x \<Longrightarrow> keeps I (k x) Q) \<Longrightarrow> keeps I (then_ok (lift_res r) k) Q"
  by (cases r) (simp_all add: keeps_fail)

lemma ok_keeps: "keeps I (ok x) (\<lambda>_. True)"
  by (rule keeps_ok) simp

lemmas basic_keeps = ok_keeps keeps_fail lift_then_keeps then_keeps branch_on_keeps keeps_if requests_keep millis_keeps audit_keeps
  metrics_keep metrics_fold_keep gid_keeps

lemma transition_keeps: "event \<in> set operations \<Longrightarrow> keeps I (audit_transition S event tx) (\<lambda>_. True)"
  unfolding audit_transition_def by (intro basic_keeps)

lemma failure_keeps: "keeps I (audit_compat_failure S event resource) (\<lambda>_. True)"
  unfolding audit_compat_failure_def by (rule audit_keeps)

lemma resource_keeps: "keeps I (audit_resource_operation S event resource oc) (\<lambda>_. True)"
  unfolding audit_resource_operation_def by (rule audit_keeps)

lemma operation_error_keeps: "keeps I (operation_error S operation g e) (\<lambda>_. True)"
  unfolding operation_error_def Let_def case_prod_unfold by (intro basic_keeps)

lemma lookup_keeps: "keeps I (lookup S g) (\<lambda>_. True)"
  unfolding lookup_def by (rule requests_keep)

lemma list_keeps: "keeps I (list_all_transactions S) (\<lambda>_. True)"
  unfolding list_all_transactions_def by (rule requests_keep)

lemma kv_keeps: "keeps I (list_kv_entries S cat k offset limit) (\<lambda>_. True)"
  unfolding list_kv_entries_def by (rule requests_keep)

lemma audited_keeps: "event \<in> set operations \<Longrightarrow> keeps I m (\<lambda>_. True) \<Longrightarrow> keeps I (audited S event g m) (\<lambda>_. True)"
  unfolding audited_def by (intro basic_keeps transition_keeps failure_keeps)

lemma audited_topic_keeps: "keeps I m (\<lambda>_. True) \<Longrightarrow> keeps I (audited_topic S event t m) (\<lambda>_. True)"
  unfolding audited_topic_def by (intro basic_keeps resource_keeps)

lemma delete_topic_keeps: "keeps I (delete_topic_audited S event t) (\<lambda>_. True)"
  unfolding delete_topic_audited_def by (intro basic_keeps resource_keeps)

lemma lift_keeps: "keeps I (lift_res r) (\<lambda>_. True)"
  by (rule keeps_lift_res) simp

lemma dispatch_keeps: "keeps I (compat_dispatch S k oper wait g) (\<lambda>_. True)"
  unfolding compat_dispatch_def
  by (cases "compat_handler k oper") (auto intro!: basic_keeps lookup_keeps lift_keeps simp del: handle.simps)

lemma compat_apply_keeps: "keeps I (compat_apply S rq oper) (\<lambda>_. True)"
proof -
  have create: "keeps I (then_ok (compat_create S k rq) (\<lambda>_. ok ())) (\<lambda>_. True)" for k
    unfolding compat_create_def by (intro basic_keeps)
  have existing: "keeps I (case existing of None \<Rightarrow> then_ok (compat_create S k rq) (\<lambda>_. ok ()) | Some _ \<Rightarrow> ok ()) (\<lambda>_. True)"
    for existing k using create by (cases existing) (auto intro: ok_keeps)
  have finish: "keeps I (case completion of None \<Rightarrow> compat_dispatch S k oper wait g
      | Some cc \<Rightarrow> on_dtm (finish_callback_workflow (sv_dtm S) g (cc_status cc) (cc_rollback_reason cc) (cc_result cc))) (\<lambda>_. True)"
    for completion k wait g by (cases completion) (auto intro: dispatch_keeps requests_keep)
  show ?thesis
    unfolding compat_apply_def Let_def by (intro lift_then_keeps then_keeps [OF lookup_keeps] then_keeps [OF existing] finish)
qed

lemma registration_keeps: "keeps I (apply_compat_registration S g registration) (\<lambda>_. True)"
  unfolding apply_compat_registration_def by (cases registration) (auto intro!: basic_keeps)

lemmas audit_keeps_all = audited_keeps audited_topic_keeps delete_topic_keeps transition_keeps failure_keeps resource_keeps
  operation_error_keeps lookup_keeps list_keeps kv_keeps compat_apply_keeps registration_keeps

lemma rpc_keeps: "rpc_method_result S rq = Some m \<Longrightarrow> keeps I m (\<lambda>_. True)"
  by (auto simp: rpc_method_result_def rpc_write_def rpc_register_def Let_def
      intro!: basic_keeps audit_keeps_all split: if_splits option.splits)

lemma json_rpc_keeps: "keeps I (json_rpc S header body) (\<lambda>_. True)"
  unfolding json_rpc_def by (auto intro!: basic_keeps rpc_keeps split: option.splits)

lemma guarded_keeps: "keeps I m (\<lambda>_. True) \<Longrightarrow> keeps I (guarded S header m) (\<lambda>_. True)"
  unfolding guarded_def by (intro basic_keeps)

lemma compat_reply_keeps: "keeps I m (\<lambda>_. True) \<Longrightarrow> keeps I (compat_reply m message) (\<lambda>_. True)"
  unfolding compat_reply_def by (intro basic_keeps)

lemma case_res_keeps:
  "(\<And>e. r = Inl e \<Longrightarrow> keeps I (bad e) Q) \<Longrightarrow> (\<And>x. r = Inr x \<Longrightarrow> keeps I (good x) Q) \<Longrightarrow>
   keeps I (case r of Inl e \<Rightarrow> bad e | Inr x \<Rightarrow> good x) Q"
  by (cases r) simp_all

lemma case_opt_keeps:
  "(r = None \<Longrightarrow> keeps I none Q) \<Longrightarrow> (\<And>x. r = Some x \<Longrightarrow> keeps I (some x) Q) \<Longrightarrow>
   keeps I (case r of None \<Rightarrow> none | Some x \<Rightarrow> some x) Q"
  by (cases r) simp_all

lemma same_state_keeps: "keeps I (\<lambda>c. (Inr (x c), c)) (\<lambda>_. True)"
  by (rule updates_keep)

lemma native_keeps:
  "keeps I (submit_transaction S header kind srq) (\<lambda>_. True)"
  "event \<in> set operations \<Longrightarrow> keeps I (transition_handler S header h event g) (\<lambda>_. True)"
  "keeps I (get_transaction_handler S header g) (\<lambda>_. True)"
  "keeps I (list_transactions_handler S header q) (\<lambda>_. True)"
  "keeps I (recover_all S header) (\<lambda>_. True)"
  "keeps I (stats S header) (\<lambda>_. True)"
  "keeps I (dashboard_snapshot_handler S header q) (\<lambda>_. True)"
  "keeps I (xa_reconciliation S header) (\<lambda>_. True)"
  unfolding submit_transaction_def transition_handler_def get_transaction_handler_def list_transactions_handler_def recover_all_def
    stats_def dashboard_snapshot_handler_def xa_reconciliation_def
  by (intro guarded_keeps case_res_keeps basic_keeps audit_keeps_all same_state_keeps; (assumption | simp))+

lemma ready_keeps: "keeps I (ready S) (\<lambda>_. True)"
proof -
  have probe: "keeps I (branch_on (lookup S g) (\<lambda>_. ok x) (\<lambda>_. ok y)) (\<lambda>_. True)" for g and x y :: http_reply
    by (intro basic_keeps lookup_keeps)
  show ?thesis
  proof (rule keepsI)
    show "I c' \<and> True" if "I c" "ready S c = (Inr x, c')" for c x c'
      using that keeps_final [OF probe that(1)] by (auto simp: ready_def split: if_splits) (metis snd_conv)
    show "I c'" if "I c" "ready S c = (Inl e, c')" for c e c'
      using that keeps_final [OF probe that(1)] by (auto simp: ready_def split: if_splits) (metis snd_conv)
  qed
qed

lemma compat_keeps:
  "keeps I (compat_new_gid S header) (\<lambda>_. True)"
  "keeps I (compat_query_handler S header q) (\<lambda>_. True)"
  "keeps I (compat_all S header q) (\<lambda>_. True)"
  "keeps I (compat_write S header oper rq) (\<lambda>_. True)"
  "keeps I (compat_register_branch S header brq) (\<lambda>_. True)"
  "keeps I (compat_prepare_workflow S header rq) (\<lambda>_. True)"
  "keeps I (compat_subscribe S header tq) (\<lambda>_. True)"
  "keeps I (compat_unsubscribe S header tq) (\<lambda>_. True)"
  "keeps I (compat_delete_topic S header t) (\<lambda>_. True)"
  "keeps I (compat_query_kv S header kq) (\<lambda>_. True)"
  unfolding compat_new_gid_def compat_query_handler_def compat_all_def compat_write_def compat_register_branch_def
    compat_prepare_workflow_def compat_subscribe_def compat_unsubscribe_def compat_delete_topic_def compat_query_kv_def
  by (intro guarded_keeps compat_reply_keeps case_res_keeps case_opt_keeps basic_keeps audit_keeps_all; simp)+

lemma admin_keeps: "keeps I (compat_admin_operation S header g stop) (\<lambda>_. True)"
  unfolding compat_admin_operation_def
  by (intro guarded_keeps compat_reply_keeps audited_keeps requests_keep) simp

lemma reset_batch_keeps: "keeps I (compat_reset_retry_batch S header rq) (\<lambda>_. True)"
  unfolding compat_reset_retry_batch_def Let_def case_prod_unfold audit_batch_operation_def
  by (intro guarded_keeps basic_keeps audit_keeps_all) simp

lemma scan_kv_keeps: "keeps I (compat_scan_kv S header kq) (\<lambda>_. True)"
  unfolding compat_scan_kv_def Let_def by (intro guarded_keeps case_opt_keeps basic_keeps audit_keeps_all)

lemma router_keeps: "keeps I (control_router S header call) (\<lambda>_. True)"
  by (cases call) (auto intro!: ok_keeps ready_keeps same_state_keeps native_keeps compat_keeps admin_keeps reset_batch_keeps
      scan_kv_keeps json_rpc_keeps transition_event_listed split: option.splits)

lemma grpc_guarded_keeps: "keeps I m (\<lambda>_. True) \<Longrightarrow> keeps I (grpc_guarded S header m) (\<lambda>_. True)"
  unfolding grpc_guarded_def by (intro basic_keeps)

lemma grpc_done_keeps: "keeps I m (\<lambda>_. True) \<Longrightarrow> keeps I (grpc_done m reply message) (\<lambda>_. True)"
  unfolding grpc_done_def by (intro basic_keeps)

lemma grpc_keeps: "keeps I (grpc_service S header call) (\<lambda>_. True)"
  by (cases call) (auto simp: grpc_handlers_guarded
      intro!: grpc_guarded_keeps grpc_done_keeps case_res_keeps basic_keeps audit_keeps_all)

lemma recovery_tick_keeps: "keeps I (recovery_tick S worker ttl) (\<lambda>_. True)"
  unfolding recovery_tick_def by (intro basic_keeps) simp

lemma serve_keeps: "I c \<Longrightarrow> I (serve S i c)"
  by (cases i) (simp_all add: keeps_final [OF router_keeps] keeps_final [OF grpc_keeps] keeps_final [OF recovery_tick_keeps])

lemma serve_all_keeps: "I c \<Longrightarrow> I (fold (serve S) is c)"
  by (induction "is" arbitrary: c) (simp_all add: serve_keeps)

end

section \<open>The service acts through the coordinator\<close>

interpretation front_end: service_invariant S "\<lambda>c. reaches (sv_dtm S) w (c_world c)" for S w
  by unfold_locales (auto intro: reaches.request)

text \<open>
  C5: The service adds nothing to what the coordinator allows. Whatever sequence of HTTP, JSON-RPC and gRPC requests it
  serves, valid or not, between whatever ticks of its recovery worker, the world it leaves is one that requests of the
  coordinator reach from the world it started in; so the life cycle of a transaction and its irrevocable decisions
  hold for every client of the service.
\<close>

theorem service_refines_coordinator:
  "reaches (sv_dtm S) (c_world c) (c_world (fold (serve S) inputs c))"
  by (rule front_end.serve_all_keeps) (rule reaches.here)

section \<open>What the service keeps in memory\<close>

definition audit_ok :: "audit_history \<Rightarrow> bool" where
  "audit_ok h \<longleftrightarrow> length (audit_events h) \<le> 200
     \<and> map ae_sequence (audit_events h) = map (\<lambda>i. next_sequence h - of_nat i) [0..<length (audit_events h)]"

lemma audit_ok_record: "audit_ok h \<Longrightarrow> audit_ok (record_event now event oc resource status h)"
proof -
  let ?seq = "\<lambda>h n. map (\<lambda>i. next_sequence h - of_nat i :: u64) [0..<n]"
  assume h: "audit_ok h"
  have "?seq (record_event now event oc resource status h) (Suc n) = (next_sequence h + 1) # ?seq h n" for n
    by (simp add: record_event_def Let_def upt_conv_Cons map_Suc_upt [symmetric] del: upt_Suc)
  then have "(next_sequence h + 1) # map ae_sequence (audit_events h) =
      ?seq (record_event now event oc resource status h) (Suc (length (audit_events h)))"
    using h by (simp add: audit_ok_def)
  moreover have "take 200 (?seq h' n) = ?seq h' (min 200 n)" for h' n
    by (cases "n \<le> 200") (simp_all add: take_map min_def)
  ultimately have "take 200 ((next_sequence h + 1) # map ae_sequence (audit_events h)) =
      ?seq (record_event now event oc resource status h) (min 200 (Suc (length (audit_events h))))" by metis
  then show ?thesis
    by (simp add: audit_ok_def record_event_def Let_def dashboard_audit_capacity_def take_map min.commute)
qed

lemma audit_ok_distinct: "audit_ok h \<Longrightarrow> distinct (map ae_sequence (audit_events h))"
proof -
  assume h: "audit_ok h"
  have "inj_on (\<lambda>i. next_sequence h - of_nat i :: u64) {0..<length (audit_events h)}"
  proof (rule inj_onI)
    fix i j assume "i \<in> {0..<length (audit_events h)}" "j \<in> {0..<length (audit_events h)}"
      and eq: "next_sequence h - of_nat i = next_sequence h - (of_nat j :: u64)"
    then have small: "i < 2 ^ 64" "j < 2 ^ 64" using h by (auto simp: audit_ok_def)
    from eq have "unat (of_nat i :: u64) = unat (of_nat j :: u64)" by simp
    then show "i = j" using small by (simp add: unat_of_nat)
  qed
  then show ?thesis using h by (simp add: audit_ok_def distinct_map)
qed

text \<open>Every counter the service can have: the labels name kinds, statuses and operations, never a transaction.\<close>

definition kinds :: "transaction_kind list" where
  "kinds = [Tcc, Saga, Workflow, Message, Xa]"

definition statuses :: "transaction_status list" where
  "statuses = [Submitted, Trying, Prepared, Succeeding, Succeeded, Aborting, Aborted, Failed]"

definition branch_statuses :: "branch_status list" where
  "branch_statuses = [BPending, BRunning, BCompensating, BSucceeded, BFailed, BSkipped]"

definition counters :: "counter list" where
  "counters = [transition_counter k st oper. k \<leftarrow> kinds, st \<leftarrow> statuses, oper \<leftarrow> operations]
     @ [branch_counter k st. k \<leftarrow> kinds, st \<leftarrow> branch_statuses] @ map retry_counter kinds"

lemma all_listed: "set kinds = UNIV" "set statuses = UNIV" "set branch_statuses = UNIV"
proof -
  have "k \<in> set kinds" for k by (cases k) (simp_all add: kinds_def)
  moreover have "st \<in> set statuses" for st by (cases st) (simp_all add: statuses_def)
  moreover have "bst \<in> set branch_statuses" for bst by (cases bst) (simp_all add: branch_statuses_def)
  ultimately show "set kinds = UNIV" "set statuses = UNIV" "set branch_statuses = UNIV" by blast+
qed

lemma counters_listed:
  "oper \<in> set operations \<Longrightarrow> transition_counter k st oper \<in> set counters"
  "branch_counter k bst \<in> set counters" "retry_counter k \<in> set counters"
  by (simp_all add: counters_def all_listed image_iff) blast+

lemma counters_length: "length counters = 1475"
proof -
  have "length operations = 36" by (simp add: operations_def List.map_filter_simps)
  then show ?thesis by (simp add: counters_def kinds_def statuses_def branch_statuses_def)
qed

definition registry_ok :: "registry \<Rightarrow> bool" where
  "registry_ok r \<longleftrightarrow> distinct (map fst r) \<and> set (map fst r) \<subseteq> set counters"

lemma inc_counter_keys: "set (map fst (inc_counter c n r)) = insert c (set (map fst r))"
  by (induction c n r rule: inc_counter.induct) auto

lemma registry_ok_inc: "registry_ok r \<Longrightarrow> c \<in> set counters \<Longrightarrow> registry_ok (inc_counter c n r)"
proof -
  have "distinct (map fst (inc_counter c n r))" if "distinct (map fst r)"
    using that
  proof (induction c n r rule: inc_counter.induct)
    case (2 c n c' m r)
    then show ?case using inc_counter_keys [of c n r] by auto
  qed simp
  then show "registry_ok r \<Longrightarrow> c \<in> set counters \<Longrightarrow> registry_ok (inc_counter c n r)"
    using inc_counter_keys [of c n r] by (auto simp: registry_ok_def)
qed

lemma registry_ok_transition:
  assumes "registry_ok r" and "oper \<in> set operations"
  shows "registry_ok (record_dtm_transition oper tx r)"
proof -
  have branch: "registry_ok (observe_branch k b r)" if "registry_ok r" for k b r
    using that by (simp add: observe_branch_def Let_def registry_ok_inc counters_listed)
  have "registry_ok (fold (observe_branch k) bs r)" if "registry_ok r" for k bs r
    using that by (induction bs arbitrary: r) (simp_all add: branch)
  then show ?thesis using assms by (simp add: record_dtm_transition_def registry_ok_inc counters_listed)
qed

interpretation memory: service_invariant S "\<lambda>c. audit_ok (c_audit c) \<and> registry_ok (c_metrics c)" for S
  by unfold_locales (auto intro: audit_ok_record registry_ok_transition)

text \<open>
  C30: What the service keeps in memory is bounded, however many requests it serves: the audit history has at most 200
  entries, the newest first, with consecutive sequence numbers that are distinct even when the counter wraps
  around, of which at most 50 are shown; and the metrics are at most 1475 counters, with labels from a fixed list that names
  no transaction and no URL.
\<close>

theorem service_memory_bounded:
  "let c = fold (serve S) inputs (started_control w); h = c_audit c in
     length (audit_events h) \<le> 200 \<and> length (latest h) \<le> 50 \<and> distinct (map ae_sequence (audit_events h))
     \<and> map ae_sequence (audit_events h) = map (\<lambda>i. next_sequence h - of_nat i) [0..<length (audit_events h)]
     \<and> distinct (map fst (c_metrics c)) \<and> set (map fst (c_metrics c)) \<subseteq> set counters \<and> length (c_metrics c) \<le> 1475"
proof -
  let ?c = "fold (serve S) inputs (started_control w)"
  have "audit_ok (c_audit ?c) \<and> registry_ok (c_metrics ?c)"
    by (rule memory.serve_all_keeps) (simp add: started_control_def audit_ok_def registry_ok_def)
  then have ok: "audit_ok (c_audit ?c)" "registry_ok (c_metrics ?c)" by auto
  have "length (c_metrics ?c) = card (set (map fst (c_metrics ?c)))"
    using ok(2) by (metis registry_ok_def distinct_card length_map)
  also have "\<dots> \<le> card (set counters)" using ok(2) by (intro card_mono) (auto simp: registry_ok_def)
  also have "\<dots> \<le> 1475" using card_length [of counters] by (simp add: counters_length)
  finally have "length (c_metrics ?c) \<le> 1475" .
  then show ?thesis
    using ok audit_ok_distinct [OF ok(1)] by (simp add: Let_def audit_ok_def registry_ok_def latest_def dashboard_audit_limit_def)
qed

end
