(* ===== verification/Service_Orphans.thy ===== *)
theory Service_Orphans
  imports Service_Safety
begin

text \<open>
  The transaction that a request of the compatible API creates is stored under the gid as it was sent, but looked up
  under the trimmed gid. What follows from that for a gid with white space around it.
\<close>

section \<open>What a compatible Saga request creates\<close>

definition saga_shape :: "compat_transaction_request \<Rightarrow> transaction \<Rightarrow> bool" where
  "saga_shape rq tx \<longleftrightarrow> gid tx = cr_gid rq \<and> tkind tx = Saga \<and> tstatus tx = Submitted \<and> delay_millis (toptions tx) = None"

lemma apply_order_shape: "apply_order o' tx = Inr tx' \<Longrightarrow> saga_shape rq tx \<Longrightarrow> saga_shape rq tx' \<and> toptions tx' = toptions tx"
  by (auto simp: apply_order_def res_bind_eq_Inr saga_shape_def split: prod.splits)

lemma orders_shape:
  "res_fold apply_order os tx = Inr tx' \<Longrightarrow> saga_shape rq tx \<Longrightarrow> saga_shape rq tx' \<and> toptions tx' = toptions tx"
  by (induction os arbitrary: tx) (auto simp: res_bind_eq_Inr dest: apply_order_shape)

lemma options_concurrent: "options_validate L (opts\<lparr>concurrent := b\<rparr>) = options_validate L opts"
  by (simp add: options_validate_def)

lemma saga_custom_shape:
  assumes "apply_compat_saga_custom L C rq tx = Inr tx'" and "saga_shape rq tx" and "options_validate L (toptions tx) = Inr ()"
  shows "saga_shape rq tx' \<and> options_validate L (toptions tx') = Inr ()"
proof -
  have "saga_shape rq (tx\<lparr>toptions := (toptions tx)\<lparr>concurrent := b\<rparr>\<rparr>)" for b using assms(2) by (simp add: saga_shape_def)
  from orders_shape [OF _ this] show ?thesis
    using assms by (auto simp: apply_compat_saga_custom_def res_bind_eq_Inr options_concurrent split: option.splits if_splits)
qed

lemma compat_saga_shape:
  assumes "compat_transaction now L C P Saga rq = Inr tx"
  shows "saga_shape rq tx \<and> options_validate L (toptions tx) = Inr ()"
proof -
  obtain bs opts where opts: "compat_transaction_options L rq = Inr opts"
      "apply_compat_saga_custom L C rq ((transaction_saga now (cr_gid rq) bs)\<lparr>toptions := opts\<rparr>) = Inr tx"
    using assms by (auto simp: compat_transaction_def res_bind_eq_Inr Let_def)
  have "options_validate L opts = Inr ()" "delay_millis opts = None"
    using opts(1) by (auto simp: compat_transaction_options_def res_bind_eq_Inr Let_def)
  then show ?thesis using saga_custom_shape [OF opts(2)] by (simp add: saga_shape_def transaction_saga_def transaction_new_def)
qed

lemma prepared_saga_shape:
  assumes "compat_prepared now S Saga rq = Inr tx"
  shows "saga_shape rq tx \<and> options_validate (dtm_libs (sv_dtm S)) (toptions tx) = Inr ()"
proof -
  obtain tx0 where tx0: "compat_transaction now (dtm_libs (sv_dtm S)) (sv_codecs S) (sv_policy S) Saga rq = Inr tx0"
      "gid tx = gid tx0" "tkind tx = tkind tx0" "tstatus tx = tstatus tx0" "toptions tx = toptions tx0"
    using assms by (auto simp: compat_prepared_def res_bind_eq_Inr Let_def preserve_compat_metadata_def split: option.splits)
  then show ?thesis using compat_saga_shape [OF tx0(1)] by (simp add: saga_shape_def)
qed

section \<open>A padded gid\<close>

text \<open>One step on a store nobody else uses and whose requests are not lost.\<close>

lemma quiet_store_op:
  "store_op (quiet D ops) m w = (fst (m (clock D (w_step w)) (w_store w)),
     w\<lparr>w_store := snd (m (clock D (w_step w)) (w_store w)), w_step := Suc (w_step w)\<rparr>)"
  by (simp add: store_op_def quiet_def alone_def Let_def)

lemma quiet_millis: "current_millis (quiet D ops) w = (Inr (clock D (w_step w)), w\<lparr>w_step := Suc (w_step w)\<rparr>)"
  by (simp add: current_millis_def quiet_def alone_def)

lemma quiet_fields [simp]: "dtm_store (quiet D ops) = ops" "dtm_libs (quiet D ops) = dtm_libs D"
    "dtm_options_of (quiet D ops) = dtm_options_of D"
  by (simp_all add: quiet_def alone_def)

lemma start_saga_missing:
  assumes "bt_get (txs (w_store w)) g = None" and "h \<in> {StartSaga, ScheduleSubmit}"
  shows "handle (quiet D mem_ops) h g w = (Inl (TransactionNotFound g), w\<lparr>w_step := Suc (w_step w)\<rparr>)"
  using assms
  by (auto simp: start_saga_def schedule_submit_def fetch_def quiet_store_op mem_get_transaction_def act_simps)

lemma submit_saga:
  assumes "saga_shape rq tx" and "options_validate (dtm_libs D) (toptions tx) = Inr ()"
    and "validate_transaction_dependencies (tx\<lparr>revision := 1\<rparr>) = Inr ()" and "bt_get (txs (w_store w)) (gid tx) = None"
  shows "\<exists>tx'. submit (quiet D mem_ops) tx w = (Inr tx', w\<lparr>w_store := (w_store w)\<lparr>txs := bt_insert (gid tx) tx' (txs (w_store w))\<rparr>,
       w_step := Suc (w_step w)\<rparr>) \<and> saga_shape rq tx' \<and> branches tx' = branches tx"
  using assms
  by (auto simp: submit_def Let_def saga_shape_def quiet_store_op mem_insert_transaction_def act_simps is_callback_workflow_def)

lemma dispatch_missing:
  assumes "sv_dtm S = quiet D mem_ops" and "bt_get (txs (w_store (c_world c))) g = None"
  shows "\<exists>c'. compat_dispatch S Saga OpSubmit wait g c = (Inl (FromDtm (TransactionNotFound g)), c')
    \<and> w_store (c_world c') = w_store (c_world c)"
  using start_saga_missing [OF assms(2), of ScheduleSubmit D] start_saga_missing [OF assms(2), of StartSaga D] assms(1)
  by (cases wait) (simp_all add: compat_dispatch_def on_dtm_def map_err_def del: handle.simps)

text \<open>
  C34: A submitted Saga is executed behind the back of its client when its gid is padded with white space. The service looks
  the transaction up, and starts it, under the trimmed gid, but creates it under the gid as sent: the client is told
  that the operation failed because there is no such transaction, while the Saga stays stored, submitted, under the padded
  gid, and the next scan of the recovery worker at which it is due and not expired starts it.
\<close>

theorem padded_saga_orphaned:
  assumes "sv_dtm S = quiet D mem_ops" and "parse_kind (cr_trans_type rq) = Inr Saga"
    and "trim (cr_gid rq) \<noteq> cr_gid rq" and "trim (cr_gid rq) \<noteq> []" and "length (trim (cr_gid rq)) \<le> 128"
    and "bt_get (txs (w_store (c_world c))) (trim (cr_gid rq)) = None" and "bt_get (txs (w_store (c_world c))) (cr_gid rq) = None"
    and "compat_prepared (clock D (Suc (w_step (c_world c)))) S Saga rq = Inr tx"
    and "validate_transaction_dependencies (tx\<lparr>revision := 1\<rparr>) = Inr ()"
  shows "\<exists>c' tx'. compat_apply S rq OpSubmit c = (Inl (FromDtm (TransactionNotFound (trim (cr_gid rq)))), c')
    \<and> bt_get (txs (w_store (c_world c'))) (cr_gid rq) = Some tx' \<and> tstatus tx' = Submitted \<and> branches tx' = branches tx
    \<and> (\<forall>now. \<not> is_expired tx' now \<and> transaction_due tx' now \<longrightarrow>
         scan_one (sv_dtm S) now tx' = Some (start_saga (sv_dtm S) (cr_gid rq)))"
proof -
  let ?w = "c_world c" and ?g = "trim (cr_gid rq)"
  let ?w2 = "?w\<lparr>w_step := Suc (Suc (w_step ?w))\<rparr>"
  have shape: "saga_shape rq tx" "options_validate (dtm_libs D) (toptions tx) = Inr ()"
    using prepared_saga_shape [OF assms(8)] assms(1) by simp_all
  have g: "gid tx = cr_gid rq" using shape(1) by (simp add: saga_shape_def)
  obtain tx' where tx': "submit (quiet D mem_ops) tx ?w2 = (Inr tx', ?w2\<lparr>w_store := (w_store ?w)\<lparr>txs := bt_insert (cr_gid rq) tx' (txs (w_store ?w))\<rparr>,
       w_step := Suc (Suc (Suc (w_step ?w)))\<rparr>)" "saga_shape rq tx'" "branches tx' = branches tx"
    using submit_saga [OF shape assms(9), of ?w2] assms(7) g by auto
  define c3 where "c3 = c\<lparr>c_world := ?w\<lparr>w_store := (w_store ?w)\<lparr>txs := bt_insert (cr_gid rq) tx' (txs (w_store ?w))\<rparr>,
       w_step := Suc (Suc (Suc (w_step ?w)))\<rparr>\<rparr>"
  have look: "lookup S ?g c = (Inr None, c\<lparr>c_world := ?w\<lparr>w_step := Suc (w_step ?w)\<rparr>\<rparr>)"
    using assms(1,6) by (simp add: lookup_def on_dtm_def quiet_store_op mem_get_transaction_def map_err_def)
  have create: "compat_create S Saga rq (c\<lparr>c_world := ?w\<lparr>w_step := Suc (w_step ?w)\<rparr>\<rparr>) = (Inr tx', c3)"
    using assms(1,8) tx'(1)
    by (simp add: compat_create_def unix_millis_def on_dtm_def quiet_millis act_simps map_err_def c3_def)
  have missing: "bt_get (txs (w_store (c_world c3))) ?g = None" using assms(3,6) by (simp add: c3_def)
  obtain c' where c': "compat_dispatch S Saga OpSubmit (cr_wait_result rq) ?g c3 = (Inl (FromDtm (TransactionNotFound ?g)), c')"
      "w_store (c_world c') = w_store (c_world c3)"
    using dispatch_missing [OF assms(1) missing] by blast
  have "compat_apply S rq OpSubmit c = (Inl (FromDtm (TransactionNotFound ?g)), c')"
    using assms(2,4,5) look create c'(1)
    by (simp add: compat_apply_def callback_workflow_completion_of_def is_callback_target_def act_simps map_err_def Let_def)
  moreover have "bt_get (txs (w_store (c_world c'))) (cr_gid rq) = Some tx'" using c'(2) by (simp add: c3_def)
  moreover have "scan_one D' now tx' = Some (start_saga D' (cr_gid rq))" if "\<not> is_expired tx' now" "transaction_due tx' now" for D' :: "mem_store dtm" and now
    using tx'(2) that by (simp add: scan_one_def scan_step_def saga_shape_def is_callback_workflow_def)
  ultimately show ?thesis using tx'(2,3) by (auto simp: saga_shape_def)
qed

text \<open>A Saga with one step, under a gid that starts with a blank.\<close>

definition padded_request :: compat_transaction_request where
  "padded_request = \<lparr>cr_gid = '' g1'', cr_trans_type = ''saga'',
     cr_steps = [[(''action'', ''http://h/do''), (''compensate'', ''http://h/undo'')]], cr_payloads = [],
     cr_timeout_to_fail = None, cr_rollback_reason = None, cr_custom_data = None, cr_query_prepared = None,
     cr_wait_result = False, cr_concurrent = False, cr_retry_interval = None, cr_request_timeout = None, cr_retry_limit = None,
     cr_branch_headers = [], cr_req_extra = [], cr_protocol = ViaHttp\<rparr>"

definition empty_world :: "mem_store world" where
  "empty_world = \<lparr>w_store = mem_new, w_step = 0, w_events = []\<rparr>"

lemma padded_prepared:
  "\<exists>tx. compat_prepared 2000 sample_service Saga padded_request = Inr tx \<and> validate_transaction_dependencies (tx\<lparr>revision := 1\<rparr>) = Inr ()"
proof -
  have policy: "policy_validate open_libs (url_policy sample_invoker) (''http://h/'' @ p) = Inr ()" if "p \<in> {''do'', ''undo''}" for p
    using that by (auto simp: policy_validate_def parse_branch_url_def open_libs_def strip_prefix_def sample_invoker_def map_err_def)
  have step: "compat_branch open_libs (url_policy sample_invoker) Saga padded_request
      (0, [(''action'', ''http://h/do''), (''compensate'', ''http://h/undo'')])
      = Inr (branch_saga (show_nat_02 1) ''http://h/do'' ''http://h/undo'' JNull)"
    using policy [of "''do''"] policy [of "''undo''"]
    by (simp add: compat_branch_def step_payload_def step_url_def padded_request_def bt_get_def map_err_def)
  have libs: "dtm_libs (sv_dtm sample_service) = open_libs" by (simp add: sample_service_def)
  have "\<exists>opts. compat_transaction_options open_libs padded_request = Inr opts \<and> \<not> concurrent opts"
    by (simp add: compat_transaction_options_def padded_request_def options_validate_def map_err_def)
  then obtain opts where opts: "compat_transaction_options open_libs padded_request = Inr opts" "\<not> concurrent opts" by blast
  let ?tx = "(transaction_saga 2000 '' g1'' [branch_saga (show_nat_02 1) ''http://h/do'' ''http://h/undo'' JNull])\<lparr>toptions := opts\<rparr>"
  have "compat_transaction 2000 open_libs (sv_codecs sample_service) (sv_policy sample_service) Saga padded_request = Inr ?tx"
    using step opts(1) unfolding compat_transaction_def
    by (simp add: sample_service_def padded_request_def apply_compat_saga_custom_def nonempty_def)
  then have "\<exists>m. compat_prepared 2000 sample_service Saga padded_request = Inr (?tx\<lparr>metadata := m\<rparr>)"
    by (auto simp: compat_prepared_def libs preserve_compat_metadata_def Let_def padded_request_def)
  moreover have "validate_transaction_dependencies (?tx\<lparr>metadata := m, revision := 1\<rparr>) = Inr ()" for m
    using opts(2) by (simp add: validate_transaction_dependencies_def no_dependencies_def transaction_saga_def transaction_new_def branch_saga_def)
  ultimately show ?thesis by fastforce
qed

theorem padded_saga_orphaned_witness:
  "\<exists>c' tx'. compat_apply sample_service padded_request OpSubmit (started_control empty_world)
      = (Inl (FromDtm (TransactionNotFound ''g1'')), c')
    \<and> bt_get (txs (w_store (c_world c'))) '' g1'' = Some tx' \<and> tstatus tx' = Submitted"
proof -
  let ?D = "sample_dtm\<lparr>dtm_libs := open_libs\<rparr>" and ?c = "started_control empty_world"
  have trimmed: "trim (cr_gid padded_request) = ''g1''" "cr_gid padded_request = '' g1''"
    by (simp_all add: padded_request_def trim_def trim_start.simps trim_end.simps starts_with_def ends_with_def white_spaces_def)
  have D: "sv_dtm sample_service = quiet ?D mem_ops" by (simp add: sample_service_def)
  have kind: "parse_kind (cr_trans_type padded_request) = Inr Saga"
    by (simp add: parse_kind_def padded_request_def to_ascii_lowercase_def Let_def)
  obtain tx where tx: "compat_prepared (clock ?D (Suc (w_step (c_world ?c)))) sample_service Saga padded_request = Inr tx"
      "validate_transaction_dependencies (tx\<lparr>revision := 1\<rparr>) = Inr ()"
    using padded_prepared by (auto simp: sample_dtm_def)
  have empty: "bt_get (txs (w_store (c_world ?c))) g = None" for g
    by (simp add: started_control_def empty_world_def mem_new_def bt_get_def)
  show ?thesis
    using padded_saga_orphaned [OF D kind _ _ _ empty empty tx] trimmed by auto
qed

end
