(* ===== verification/Service_Admission.thy ===== *)
theory Service_Admission
  imports Service_Control
begin

text \<open>
  The two halves of a submission agree: what the service accepts of a native request is what the coordinator accepts.
\<close>

definition callable_urls :: "branch \<Rightarrow> string set" where
  "callable_urls b = (if action b = [] then {} else {action b}) \<union> set_option (compensate b) \<union> set_option (confirm b)
     \<union> set_option (cancel b)"

lemma allowed_url_Some [simp]: "allowed_url L P u = Some v \<longleftrightarrow> u = Some v \<and> policy_ok L P v"
  by (auto simp: allowed_url_def split: option.splits)

lemma build_branch_ok:
  assumes "build_branch L P k b = Inr x" and "action_is_topic k (br_action b) \<or> policy_ok L P (br_action b)"
  shows "bid x = br_id b \<and> (\<forall>u \<in> callable_urls x. policy_ok L P u \<or> action_is_topic k u)"
  using assms
  by (cases k) (auto simp: res_bind_eq_Inr callable_urls_def branch_tcc_try_def branch_saga_def branch_workflow_def branch_message_def
      branch_xa_def split: option.splits)

lemma build_branches_ok:
  assumes "build_branches L P k ids bs = Inr xs"
  shows "map bid xs = map br_id bs \<and> distinct (map br_id bs) \<and> set (map br_id bs) \<inter> set ids = {}
    \<and> (\<forall>b \<in> set xs. \<forall>u \<in> callable_urls b. policy_ok L P u \<or> action_is_topic k u)"
  using assms
proof (induction bs arbitrary: ids xs)
  case (Cons b bs)
  then obtain x rest where x: "build_branch L P k b = Inr x" "build_branches L P k (br_id b # ids) bs = Inr rest" "xs = x # rest"
      and b: "br_id b \<notin> set ids" "action_is_topic k (br_action b) \<or> policy_ok L P (br_action b)"
    by (auto simp: res_bind_eq_Inr)
  show ?case using Cons.IH [OF x(2)] build_branch_ok [OF x(1) b(2)] x(3) b(1) by auto
qed simp

text \<open>
  C23: A native submission that passes the checks of the service passes those of the coordinator. The
  transaction has the trimmed gid of at most 128 bytes, the kind of its endpoint, the branches of the request with
  their distinct ids, and every URL that it can ever call is allowed by the policy or names a topic of a Message; its
  options and dependencies are valid, so that, a Message aside, submitting it is nothing but inserting it.
\<close>

theorem built_transaction_admissible:
  assumes "build_transaction now L P k rq = Inr tx"
  shows "gid tx = trim (sr_gid rq) \<and> gid tx \<noteq> [] \<and> length (gid tx) \<le> 128 \<and> tkind tx = k \<and> tstatus tx = Submitted
    \<and> map bid (branches tx) = map br_id (sr_branches rq) \<and> distinct (map bid (branches tx)) \<and> branches tx \<noteq> []
    \<and> (\<forall>b \<in> set (branches tx). \<forall>u \<in> callable_urls b. policy_ok L P u \<or> action_is_topic k u)
    \<and> (k \<noteq> Message \<and> dtm_libs D = L \<longrightarrow>
        (\<exists>tx'. branches tx' = branches tx \<and> gid tx' = gid tx \<and>
          submit D tx = then_ok (store_op D (\<lambda>_. insert_transaction (dtm_store D) tx')) (\<lambda>_. ok tx')))"
proof -
  let ?tx0 = "\<lambda>bs. (transaction_new now (trim (sr_gid rq)) k bs)\<lparr>metadata := sr_metadata rq, toptions := sr_options rq\<rparr>"
  obtain bs where bs: "build_branches L P k [] (sr_branches rq) = Inr bs"
    and g: "trim (sr_gid rq) \<noteq> []" "length (trim (sr_gid rq)) \<le> 128" "sr_branches rq \<noteq> []"
    and valid: "validate_transaction_dependencies (?tx0 bs) = Inr ()" "options_validate L (sr_options rq) = Inr ()"
      "k = Message \<or> delay_millis (sr_options rq) = None"
    and final: "(case sr_timeout_millis rq of None \<Rightarrow> Inr (?tx0 bs) | Some t \<Rightarrow>
        res_seq (ensure (1000 \<le> t \<and> t \<le> 86400000) ''timeout_millis must be between 1000 and 86400000'')
          (Inr ((?tx0 bs)\<lparr>timeout_millis := Some t\<rparr>))) = Inr tx"
    using assms unfolding build_transaction_def Let_def res_bind_eq_Inr by auto
  define tx0 where "tx0 = ?tx0 bs"
  have tx0: "tx0 = ?tx0 bs" "validate_transaction_dependencies tx0 = Inr ()" "options_validate L (sr_options rq) = Inr ()"
      "k = Message \<or> delay_millis (sr_options rq) = None" "tx = tx0 \<or> (\<exists>t. tx = tx0\<lparr>timeout_millis := Some t\<rparr>)"
    using valid final by (auto simp: tx0_def res_bind_eq_Inr split: option.splits)
  have shape: "gid tx = trim (sr_gid rq)" "tkind tx = k" "tstatus tx = Submitted" "branches tx = bs" "toptions tx = sr_options rq"
    using tx0(1,5) by (auto simp: transaction_new_def)
  have deps: "validate_transaction_dependencies (tx\<lparr>revision := 1\<rparr>) = Inr ()"
    using tx0(2,5) by (auto simp: validate_transaction_dependencies_def no_dependencies_def)
  have ids: "map bid bs = map br_id (sr_branches rq)" "distinct (map br_id (sr_branches rq))"
      "\<forall>b \<in> set bs. \<forall>u \<in> callable_urls b. policy_ok L P u \<or> action_is_topic k u"
    using build_branches_ok [OF bs] by auto
  have "\<exists>tx'. branches tx' = branches tx \<and> gid tx' = gid tx \<and>
      submit D tx = then_ok (store_op D (\<lambda>_. insert_transaction (dtm_store D) tx')) (\<lambda>_. ok tx')" if "k \<noteq> Message" "dtm_libs D = L"
  proof -
    let ?tx = "tx\<lparr>revision := 1\<rparr>"
    let ?t = "if \<not> is_callback_workflow ?tx \<and> timeout_millis ?tx = None
      then ?tx\<lparr>timeout_millis := Some (transaction_timeout_millis (dtm_options_of D))\<rparr> else ?tx"
    have "submit D tx = then_ok (store_op D (\<lambda>_. insert_transaction (dtm_store D) ?t)) (\<lambda>_. ok ?t)"
      using that shape deps tx0(3,4) by (simp add: submit_def Let_def)
    moreover have "branches ?t = branches tx \<and> gid ?t = gid tx" by simp
    ultimately show ?thesis by blast
  qed
  then show ?thesis using shape g ids by auto
qed

definition sample_submission :: submit_transaction_request where
  "sample_submission = \<lparr>sr_gid = ''s1'', sr_kind = None,
     sr_branches = [\<lparr>br_id = ''b1'', br_kind = None, br_action = ''http://h/do'', br_compensate = Some ''http://h/undo'',
       br_confirm = None, br_cancel = None, br_payload = JNull, br_dependencies = []\<rparr>],
     sr_timeout_millis = Some 5000, sr_metadata = [], sr_options = default_transaction_options\<rparr>"

theorem built_transaction_admissible_witness:
  "\<exists>tx. build_transaction 1000 open_libs (url_policy sample_invoker) Saga sample_submission = Inr tx \<and> map bid (branches tx) = [''b1'']"
proof -
  have trimmed: "trim ''s1'' = ''s1''" "trim ''b1'' = ''b1''"
    by (simp_all add: trim_def trim_start.simps trim_end.simps starts_with_def ends_with_def white_spaces_def)
  have policy: "policy_ok open_libs (url_policy sample_invoker) ''http://h/do''" "policy_ok open_libs (url_policy sample_invoker) ''http://h/undo''"
    by (simp_all add: policy_ok_def policy_validate_def parse_branch_url_def open_libs_def strip_prefix_def sample_invoker_def map_err_def)
  have "\<exists>tx. build_transaction 1000 open_libs (url_policy sample_invoker) Saga sample_submission = Inr tx"
    by (simp add: build_transaction_def sample_submission_def trimmed policy allowed_url_def metadata_bounded_def
        options_validate_def default_transaction_options_def map_err_def validate_transaction_dependencies_def no_dependencies_def
        transaction_new_def branch_saga_def)
  then obtain tx where tx: "build_transaction 1000 open_libs (url_policy sample_invoker) Saga sample_submission = Inr tx" by blast
  have "map bid (branches tx) = map br_id (sr_branches sample_submission)" using built_transaction_admissible [OF tx] by blast
  then show ?thesis using tx by (simp add: sample_submission_def)
qed

end
