(* ===== verification/Service_Paging.thy ===== *)
theory Service_Paging
  imports Service_Views "HOL-Library.Multiset"
begin

text \<open>
  Reading all transactions page by page through the compatible API: a client that follows the cursor of each page to the
  next reads every selected transaction exactly once, the newest first.
\<close>

section \<open>Sorting\<close>

lemma mset_insert_by [simp]: "mset (insert_by before x xs) = add_mset x (mset xs)"
  by (induction before x xs rule: insert_by.induct) auto

lemma mset_sort_by [simp]: "mset (sort_by before xs) = mset xs"
  unfolding sort_by_def by (induction xs) simp_all

lemma set_sort_by [simp]: "set (sort_by before xs) = set xs"
  by (metis mset_sort_by set_mset_mset)

lemma newer_trans: "newer x y \<Longrightarrow> newer y z \<Longrightarrow> newer x z"
  by (auto simp: newer_def)

lemma newer_linear: "gid x \<noteq> gid y \<Longrightarrow> newer x y \<or> newer y x"
  by (auto simp: newer_def not_less_iff_gr_or_eq)

lemma insert_newer_sorted:
  "sorted_wrt newer ys \<Longrightarrow> gid x \<notin> gid ` set ys \<Longrightarrow> sorted_wrt newer (insert_by newer x ys)"
proof (induction ys)
  case (Cons y ys)
  have set: "set (insert_by newer x ys) = insert x (set ys)" by (metis mset_insert_by set_mset_mset set_mset_add_mset_insert)
  show ?case
  proof (cases "newer y x")
    case True
    then show ?thesis using Cons set by auto
  next
    case False
    then have "newer x y" using newer_linear [of x y] Cons.prems(2) by auto
    then show ?thesis using Cons.prems False newer_trans by auto
  qed
qed simp

lemma sort_newer_sorted: "distinct (map gid xs) \<Longrightarrow> sorted_wrt newer (sort_by newer xs)"
proof (induction xs)
  case (Cons x xs)
  have "sort_by newer (x # xs) = insert_by newer x (sort_by newer xs)" by (simp add: sort_by_def)
  then show ?case using Cons by (auto intro!: insert_newer_sorted)
qed (simp add: sort_by_def)

lemma distinct_sort_by: "distinct (map gid (sort_by before xs)) \<longleftrightarrow> distinct (map gid xs)"
  by (metis mset_map mset_sort_by distinct_count_atmost_1 set_mset_mset set_map set_sort_by)

section \<open>Following the cursor\<close>

lemma index_of_nth:
  assumes "distinct (map gid xs)" and "i < length xs"
  shows "index_of (\<lambda>tx. gid tx = gid (xs ! i)) xs = Some i"
  using assms
proof (induction xs arbitrary: i)
  case (Cons x xs)
  then show ?case by (cases i) (auto simp: image_iff)
qed simp

primrec read_pages :: "nat \<Rightarrow> codecs \<Rightarrow> transaction list \<Rightarrow> compat_query \<Rightarrow> string \<Rightarrow> compat_global_transaction list option" where
  "read_pages 0 C ts q cursor = None"
| "read_pages (Suc n) C ts q cursor =
     (case build_compat_all_response C ts (q\<lparr>cq_position := Some cursor\<rparr>) of
        Inl _ \<Rightarrow> None
      | Inr (rows, next_position) \<Rightarrow>
          if next_position = [] then Some rows
          else map_option (\<lambda>more. rows @ more) (read_pages n C ts q next_position))"

definition listed_transactions :: "compat_query \<Rightarrow> transaction list \<Rightarrow> transaction list" where
  "listed_transactions q ts = sort_by newer (filter (compat_selects q) ts)"

definition cursor_at :: "transaction list \<Rightarrow> nat \<Rightarrow> string" where
  "cursor_at f p = (if p = 0 then [] else gid (f ! (p - 1)))"

definition valid_range :: "compat_query \<Rightarrow> bool" where
  "valid_range q \<longleftrightarrow> (case (cq_create_time_start q, cq_create_time_end q) of (Some start, Some stop) \<Rightarrow> start \<le> stop | _ \<Rightarrow> True)"

lemma position_irrelevant [simp]:
  "compat_selects (q\<lparr>cq_position := x\<rparr>) = compat_selects q" "compat_limit (q\<lparr>cq_position := x\<rparr>) = compat_limit q"
  by (simp_all add: fun_eq_iff compat_selects_def compat_limit_def)

lemma page_from:
  assumes "valid_range q" and "compat_position cursor (listed_transactions q ts) = Inr p"
  shows "build_compat_all_response C ts (q\<lparr>cq_position := Some cursor\<rparr>) =
    (let f = listed_transactions q ts; shown = take (compat_limit q) (drop p f) in
     Inr (map (compat_global_transaction_of C) shown,
       if p + length shown < length f \<and> shown \<noteq> [] then gid (last shown) else []))"
proof -
  have "(case (cq_create_time_start q, cq_create_time_end q) of
      (Some start, Some stop) \<Rightarrow> ensure (start \<le> stop) m | _ \<Rightarrow> Inr ()) = Inr ()" for m :: string
    using assms(1) by (auto simp: valid_range_def split: option.splits)
  then show ?thesis
    using assms(2) unfolding build_compat_all_response_def listed_transactions_def by (simp add: Let_def)
qed

lemma compat_limit_pos: "0 < compat_limit q"
  by (simp add: compat_limit_def)

lemma position_at:
  assumes "distinct (map gid f)" and "\<forall>tx \<in> set f. gid tx \<noteq> [] \<and> length (gid tx) \<le> 128" and "p \<le> length f"
  shows "compat_position (cursor_at f p) f = Inr p"
proof (cases p)
  case (Suc i)
  then have "i < length f" using assms(3) by simp
  then have "gid (f ! i) \<noteq> [] \<and> length (gid (f ! i)) \<le> 128" using assms(2) by simp
  then show ?thesis using Suc index_of_nth [OF assms(1) \<open>i < length f\<close>] by (simp add: compat_position_def cursor_at_def)
qed (simp add: compat_position_def cursor_at_def)

lemma read_pages_from:
  assumes "f = listed_transactions q ts" and "distinct (map gid f)" and "\<forall>tx \<in> set f. gid tx \<noteq> [] \<and> length (gid tx) \<le> 128"
    and "valid_range q" and "p \<le> length f" and "length f - p < n"
  shows "read_pages n C ts q (cursor_at f p) = Some (map (compat_global_transaction_of C) (drop p f))"
  using assms(5,6)
proof (induction n arbitrary: p)
  case (Suc n)
  let ?k = "compat_limit q" and ?row = "compat_global_transaction_of C"
  have page: "build_compat_all_response C ts (q\<lparr>cq_position := Some (cursor_at f p)\<rparr>) =
      Inr (map ?row (take ?k (drop p f)), if p + ?k < length f then cursor_at f (p + ?k) else [])"
  proof (cases "p + ?k < length f")
    case True
    then have "last (take ?k (drop p f)) = f ! (p + ?k - 1)" using compat_limit_pos [of q] by (subst last_conv_nth) (auto simp: min_def)
    then show ?thesis
      using True compat_limit_pos [of q] page_from [OF assms(4), of "cursor_at f p" ts p C] position_at [OF assms(2,3) Suc.prems(1)]
      by (simp add: assms(1) [symmetric] Let_def min_def cursor_at_def)
  next
    case False
    then show ?thesis
      using page_from [OF assms(4), of "cursor_at f p" ts p C] position_at [OF assms(2,3) Suc.prems(1)] Suc.prems(1)
      by (simp add: assms(1) [symmetric] Let_def min_def)
  qed
  show ?case
  proof (cases "p + ?k < length f")
    case True
    have "cursor_at f (p + ?k) \<noteq> []" using assms(3) True compat_limit_pos [of q] by (simp add: cursor_at_def)
    moreover have "read_pages n C ts q (cursor_at f (p + ?k)) = Some (map ?row (drop (p + ?k) f))"
      using True Suc.prems compat_limit_pos [of q] by (intro Suc.IH) simp_all
    ultimately show ?thesis
      using page True append_take_drop_id [of ?k "drop p f"] by (simp add: map_append [symmetric] add.commute del: map_append)
  next
    case False
    then show ?thesis using page by simp
  qed
qed simp

text \<open>
  C31: A client that follows the cursor reads everything exactly once. Over a fixed list of transactions with distinct gids of 1
  to 128 bytes and a valid time range, for every filter and page size, starting without a cursor and asking for the page
  after each cursor until none is returned takes at most one request more than there are transactions, and the pages
  together are the selected transactions, each once, the newest first.
\<close>

theorem compat_pages_complete:
  assumes "distinct (map gid ts)" and "\<forall>tx \<in> set ts. gid tx \<noteq> [] \<and> length (gid tx) \<le> 128" and "valid_range q"
  shows "\<exists>listed. read_pages (Suc (length ts)) C ts q [] = Some (map (compat_global_transaction_of C) listed)
    \<and> mset listed = mset (filter (compat_selects q) ts) \<and> sorted_wrt newer listed"
proof -
  let ?f = "listed_transactions q ts"
  have mset: "mset ?f = mset (filter (compat_selects q) ts)" by (simp add: listed_transactions_def)
  have distinct: "distinct (map gid (filter (compat_selects q) ts))" using assms(1) by (simp add: distinct_map_filter)
  have "length ?f \<le> length ts" using mset_eq_length [OF mset] by simp
  then have "read_pages (Suc (length ts)) C ts q (cursor_at ?f 0) = Some (map (compat_global_transaction_of C) (drop 0 ?f))"
    using distinct assms(2,3) by (intro read_pages_from) (auto simp: listed_transactions_def distinct_sort_by)
  then have "read_pages (Suc (length ts)) C ts q [] = Some (map (compat_global_transaction_of C) ?f)" by (simp add: cursor_at_def)
  moreover have "sorted_wrt newer ?f" using sort_newer_sorted [OF distinct] by (simp add: listed_transactions_def)
  ultimately show ?thesis using mset by blast
qed

definition single_page_query :: compat_query where
  "single_page_query = \<lparr>cq_gid = None, cq_trans_type = Some ''saga'', cq_status = None, cq_position = None, cq_limit = Some 1,
     cq_create_time_start = Some 500, cq_create_time_end = Some 5000\<rparr>"

theorem compat_pages_complete_witness:
  "\<forall>C. \<exists>listed. read_pages 4 C [transaction_saga 1000 ''a'' [], transaction_saga 2000 ''b'' [], transaction_tcc 1500 ''c'' []] single_page_query []
      = Some (map (compat_global_transaction_of C) listed) \<and> map gid listed = [''b'', ''a'']"
proof
  fix C
  let ?ts = "[transaction_saga 1000 ''a'' [], transaction_saga 2000 ''b'' [], transaction_tcc 1500 ''c'' []]"
  have range: "valid_range single_page_query" by (simp add: valid_range_def single_page_query_def)
  have "distinct (map gid ?ts)" "\<forall>tx \<in> set ?ts. gid tx \<noteq> [] \<and> length (gid tx) \<le> 128"
    by (simp_all add: transaction_saga_def transaction_tcc_def transaction_new_def)
  from compat_pages_complete [OF this range, of C] obtain listed
    where listed: "read_pages (Suc (length ?ts)) C ?ts single_page_query [] = Some (map (compat_global_transaction_of C) listed)"
      "mset listed = mset (filter (compat_selects single_page_query) ?ts)" "sorted_wrt newer listed" by blast
  have sel: "filter (compat_selects single_page_query) ?ts = [transaction_saga 1000 ''a'' [], transaction_saga 2000 ''b'' []]"
    by (simp add: compat_selects_def single_page_query_def transaction_saga_def transaction_tcc_def transaction_new_def)
  have newer: "newer (transaction_saga 2000 ''b'' []) (transaction_saga 1000 ''a'' [])" "\<not> newer (transaction_saga 1000 ''a'' []) (transaction_saga 2000 ''b'' [])"
    by (simp_all add: newer_def transaction_saga_def transaction_new_def)
  have "length listed = 2" using listed(2) sel by (metis mset_eq_length length_Cons list.size(3) numeral_2_eq_2)
  then obtain x y where xy: "listed = [x, y]" by (metis (no_types) length_0_conv length_Suc_conv numeral_2_eq_2)
  have "x = transaction_saga 1000 ''a'' [] \<and> y = transaction_saga 2000 ''b'' [] \<or> x = transaction_saga 2000 ''b'' [] \<and> y = transaction_saga 1000 ''a'' []"
    using listed(2) unfolding sel xy by (auto simp: add_eq_conv_ex)
  then have "map gid listed = [''b'', ''a'']"
    using listed(3) newer xy by (auto simp: transaction_saga_def transaction_new_def)
  then show "\<exists>listed. read_pages 4 C ?ts single_page_query [] = Some (map (compat_global_transaction_of C) listed) \<and> map gid listed = [''b'', ''a'']"
    using listed(1) by (auto simp: numeral_eq_Suc)
qed

end
