(* ===== verification/Service_Time.thy ===== *)
theory Service_Time
  imports Service_Views
begin

text \<open>
  The times that the compatible API prints: the arithmetic that turns a count of days into a date is compared with the
  Gregorian calendar, given by the lengths of its months and the step from a day to the next.
\<close>

section \<open>The Gregorian calendar\<close>

definition leap :: "int \<Rightarrow> bool" where
  "leap y \<longleftrightarrow> y mod 4 = 0 \<and> (y mod 100 \<noteq> 0 \<or> y mod 400 = 0)"

definition days_in_month :: "int \<Rightarrow> int \<Rightarrow> int" where
  "days_in_month y m = (if m = 2 then if leap y then 29 else 28 else if m \<in> {4, 6, 9, 11} then 30 else 31)"

definition next_day :: "int \<times> int \<times> int \<Rightarrow> int \<times> int \<times> int" where
  "next_day = (\<lambda>(y, m, d). if d < days_in_month y m then (y, m, d + 1) else if m < 12 then (y, m + 1, 1) else (y + 1, 1, 1))"

section \<open>Years that start in March\<close>

definition year_start :: "int \<Rightarrow> int" where
  "year_start y = 365 * y + y div 4 - y div 100"

definition year_index :: "int \<Rightarrow> int" where
  "year_index doe = (doe - doe div 1460 + doe div 36524 - doe div 146096) div 365"

definition year_stop :: "int \<Rightarrow> int" where
  "year_stop y = (if y = 399 then 146097 else year_start (y + 1))"

definition year_ok :: "int \<Rightarrow> bool" where
  "year_ok y \<longleftrightarrow> year_index (year_start y) = y \<and> year_index (year_stop y - 1) = y
     \<and> year_stop y - year_start y = (if leap (y + 1) then 366 else 365)"

lemma years_ok: "list_all year_ok (map int [0..<400])"
  by code_simp

definition month_len :: "int \<Rightarrow> int" where
  "month_len mp = (if mp = 11 then 29 else if mp \<in> {1, 3, 6, 8} then 30 else 31)"

definition month_index :: "int \<Rightarrow> int" where
  "month_index doy = (5 * doy + 2) div 153"

definition month_day :: "int \<Rightarrow> int" where
  "month_day doy = doy - (153 * month_index doy + 2) div 5 + 1"

definition day_ok :: "int \<Rightarrow> bool" where
  "day_ok doy \<longleftrightarrow> 0 \<le> month_index doy \<and> month_index doy \<le> 11
     \<and> (if month_day doy < month_len (month_index doy)
        then month_index (doy + 1) = month_index doy \<and> month_day (doy + 1) = month_day doy + 1
        else month_day doy = month_len (month_index doy) \<and> month_index (doy + 1) = month_index doy + 1 \<and> month_day (doy + 1) = 1)"

lemma days_ok: "list_all day_ok (map int [0..<365])"
  by code_simp

lemma year_okD: "0 \<le> y \<Longrightarrow> y < 400 \<Longrightarrow> year_ok y"
proof -
  assume "0 \<le> y" "y < 400"
  then have "y = int (nat y)" "nat y \<in> set [0..<400]" by auto
  then show "year_ok y" using years_ok unfolding list_all_iff by (metis imageI set_map)
qed

lemma day_okD: "0 \<le> doy \<Longrightarrow> doy < 365 \<Longrightarrow> day_ok doy"
proof -
  assume "0 \<le> doy" "doy < 365"
  then have "doy = int (nat doy)" "nat doy \<in> set [0..<365]" by auto
  then show "day_ok doy" using days_ok unfolding list_all_iff by (metis imageI set_map)
qed

lemma sub_div_mono:
  fixes a b k :: int
  assumes "a \<le> b" and "1 \<le> k"
  shows "a - a div k \<le> b - b div k"
proof -
  have "b div k \<le> (a + (b - a) * k) div k"
    using assms mult_left_mono [of 1 k "b - a"] by (intro zdiv_mono1) simp_all
  then show ?thesis using assms by simp
qed

lemma year_index_mono: "a \<le> b \<Longrightarrow> year_index a \<le> year_index b"
proof -
  assume "a \<le> b"
  have split: "n div 146096 = n div 36524 div 4" for n :: int by (simp add: zdiv_zmult2_eq [of 4 n 36524])
  have "a - a div 1460 \<le> b - b div 1460" using sub_div_mono [OF \<open>a \<le> b\<close>] by simp
  moreover have "a div 36524 - a div 146096 \<le> b div 36524 - b div 146096"
    unfolding split using \<open>a \<le> b\<close> by (intro sub_div_mono zdiv_mono1) simp_all
  ultimately show ?thesis unfolding year_index_def by (intro zdiv_mono1) simp_all
qed

text \<open>The year of a day of an era of 400 years is the one it lies in.\<close>

lemma year_index_in:
  assumes "0 \<le> y" and "y < 400" and "year_start y \<le> doe" and "doe < year_stop y"
  shows "year_index doe = y"
proof -
  have "year_index (year_start y) = y" "year_index (year_stop y - 1) = y" using year_okD [OF assms(1,2)] by (simp_all add: year_ok_def)
  moreover have "year_index (year_start y) \<le> year_index doe" "year_index doe \<le> year_index (year_stop y - 1)"
    using assms(3,4) by (intro year_index_mono; simp)+
  ultimately show ?thesis by simp
qed

lemma year_exists:
  assumes "0 \<le> doe" and "doe < 146097"
  shows "\<exists>y. 0 \<le> y \<and> y < 400 \<and> year_start y \<le> doe \<and> doe < year_stop y"
proof -
  have "\<exists>y < n. year_start (int y) \<le> doe \<and> doe < year_stop (int y)" if "doe < year_stop (int n - 1)" "0 < n" "n \<le> 400" for n
    using that
  proof (induction n)
    case (Suc n)
    show ?case
    proof (cases "year_start (int n) \<le> doe")
      case True
      then show ?thesis using Suc.prems by auto
    next
      case False
      then have pos: "0 < n" using assms(1) by (cases n) (simp_all add: year_start_def)
      then have "year_stop (int n - 1) = year_start (int n)" using Suc.prems(3) by (simp add: year_stop_def)
      then show ?thesis using Suc.IH False pos Suc.prems(3) by (auto intro: less_SucI)
    qed
  qed simp
  from this [of 400] obtain y where "y < 400" "year_start (int y) \<le> doe" "doe < year_stop (int y)"
    using assms(2) by (auto simp: year_stop_def)
  then show ?thesis by (intro exI [of _ "int y"]) auto
qed

section \<open>Dates\<close>

definition march_date :: "int \<Rightarrow> int \<Rightarrow> int \<times> int \<times> int" where
  "march_date y doy = (if month_index doy < 10 then (y, month_index doy + 3, month_day doy) else (y + 1, month_index doy - 9, month_day doy))"

definition year_len :: "int \<Rightarrow> int" where
  "year_len y = (if leap (y + 1) then 366 else 365)"

lemma month_range:
  assumes "0 \<le> doy" and "doy < 366"
  shows "0 \<le> month_index doy" and "month_index doy \<le> 11"
proof -
  have "0 \<le> month_index doy \<and> month_index doy \<le> 11"
  proof (cases "doy = 365")
    case True
    then show ?thesis by (simp add: month_index_def)
  next
    case False
    then show ?thesis using day_okD [OF assms(1)] assms(2) by (simp add: day_ok_def)
  qed
  then show "0 \<le> month_index doy" "month_index doy \<le> 11" by simp_all
qed

lemma civil_date:
  assumes "days + 719468 = era * 146097 + doe" and "0 \<le> days" and "0 \<le> y" and "y < 400" and "year_start y \<le> doe" and "doe < year_stop y"
  shows "civil_from_days days = march_date (y + era * 400) (doe - year_start y)"
proof -
  let ?doy = "doe - year_start y"
  have ok: "year_ok y" using year_okD [OF assms(3,4)] .
  have doe: "0 \<le> doe" "doe < 146097"
  proof -
    have "0 \<le> year_start y" using assms(3) by (simp add: year_start_def)
    then show "0 \<le> doe" using assms(5) by simp
    show "doe < 146097" using assms(4,6) by (auto simp: year_stop_def year_start_def split: if_splits)
  qed
  have era: "(if 0 \<le> days + 719468 then days + 719468 else days + 719468 - 146096) div 146097 = era"
    using assms(1,2) doe by simp
  have rest: "days + 719468 - era * 146097 = doe" using assms(1) by simp
  have y: "(doe - doe div 1460 + doe div 36524 - doe div 146096) div 365 = y"
    using year_index_in [OF assms(3-6)] by (simp only: year_index_def)
  have month: "0 \<le> month_index ?doy" "month_index ?doy \<le> 11"
    using assms(5,6) ok by (auto simp: year_ok_def intro!: month_range split: if_splits)
  show ?thesis
    using month unfolding civil_from_days_def Let_def era rest y march_date_def year_start_def [symmetric] month_index_def [symmetric]
    by (auto simp: month_day_def)
qed

lemma next_march_day:
  assumes "0 \<le> doy" and "doy + 1 < year_len y"
  shows "next_day (march_date y doy) = march_date y (doy + 1)"
proof -
  have doy: "doy < 365" using assms(2) by (auto simp: year_len_def split: if_splits)
  have ok: "day_ok doy" using day_okD [OF assms(1) doy] .
  note range = month_range [OF assms(1)]
  show ?thesis
  proof (cases "month_index doy = 11")
    case True
    then have d: "month_day doy = doy - 336" by (simp add: month_day_def)
    then have "month_day doy < days_in_month (y + 1) 2" "month_day doy < 29"
      using assms(2) doy by (auto simp: days_in_month_def year_len_def split: if_splits)
    then show ?thesis using ok True by (simp add: day_ok_def month_len_def march_date_def next_day_def)
  next
    case False
    have len: "month_len m = days_in_month y (m + 3)" if "m < 10" "0 \<le> m" for m
      using that by (auto simp: month_len_def days_in_month_def)
    have jan: "month_len 10 = days_in_month (y + 1) 1" by (simp add: month_len_def days_in_month_def)
    show ?thesis
    proof (cases "month_index doy < 10")
      case True
      then show ?thesis
        using ok range(1) doy len [OF True]
        by (cases "month_day doy < month_len (month_index doy)") (auto simp: day_ok_def march_date_def next_day_def)
    next
      case last: False
      then have "month_index doy = 10" using False range(2) doy by simp
      then show ?thesis
        using ok jan by (cases "month_day doy < month_len 10") (auto simp: day_ok_def march_date_def next_day_def)
    qed
  qed
qed

lemma next_march_year:
  assumes "doy + 1 = year_len y"
  shows "next_day (march_date y doy) = march_date (y + 1) 0"
proof -
  have first: "march_date (y + 1) 0 = (y + 1, 3, 1)" by (simp add: march_date_def month_index_def month_day_def)
  have last: "march_date y 365 = (y + 1, 2, 29)" "march_date y 364 = (y + 1, 2, 28)"
    by (simp_all add: march_date_def month_index_def month_day_def)
  show ?thesis
  proof (cases "leap (y + 1)")
    case True
    then have "doy = 365" using assms by (simp add: year_len_def)
    then show ?thesis using True first last by (simp add: next_day_def days_in_month_def)
  next
    case False
    then have "doy = 364" using assms by (simp add: year_len_def)
    then show ?thesis using False first last by (simp add: next_day_def days_in_month_def)
  qed
qed

lemma leap_era: "leap (y + era * 400 + 1) \<longleftrightarrow> leap (y + 1)"
proof -
  have "(y + 1 + era * 400) mod 4 = (y + 1) mod 4" "(y + 1 + era * 400) mod 100 = (y + 1) mod 100"
    using mod_mult_self1 [of "y + 1" "era * 100" 4] mod_mult_self1 [of "y + 1" "era * 4" 100] by (simp_all add: mult.assoc)
  moreover have "y + era * 400 + 1 = y + 1 + era * 400" by simp
  ultimately show ?thesis by (simp only: leap_def mod_mult_self1)
qed

lemma civil_next:
  assumes "0 \<le> days"
  shows "civil_from_days (days + 1) = next_day (civil_from_days days)"
proof -
  define era doe where "era = (days + 719468) div 146097" and "doe = (days + 719468) mod 146097"
  have z: "days + 719468 = era * 146097 + doe" by (simp add: era_def doe_def)
  have "0 \<le> doe" "doe < 146097" by (simp_all add: doe_def)
  then obtain y where y: "0 \<le> y" "y < 400" "year_start y \<le> doe" "doe < year_stop y" using year_exists by blast
  let ?y = "y + era * 400" and ?doy = "doe - year_start y"
  have today: "civil_from_days days = march_date ?y ?doy" by (rule civil_date [OF z assms y])
  have len: "year_stop y - year_start y = year_len ?y"
    using year_okD [OF y(1,2)] leap_era [of y era] by (simp add: year_ok_def year_len_def)
  show ?thesis
  proof (cases "doe + 1 < year_stop y")
    case True
    have "civil_from_days (days + 1) = march_date ?y (doe + 1 - year_start y)"
      using z assms y True by (intro civil_date) simp_all
    moreover have "next_day (march_date ?y ?doy) = march_date ?y (?doy + 1)" using True len y(3) by (intro next_march_day) simp_all
    ultimately show ?thesis using today by (simp add: algebra_simps)
  next
    case False
    then have stop: "doe + 1 = year_stop y" using y(4) by simp
    have tomorrow: "civil_from_days (days + 1) = march_date (?y + 1) 0"
    proof (cases "y = 399")
      case True
      then have "civil_from_days (days + 1) = march_date (0 + (era + 1) * 400) (0 - year_start 0)"
        using z assms stop by (intro civil_date) (simp_all add: year_stop_def year_start_def)
      then show ?thesis using True by (simp add: year_start_def algebra_simps)
    next
      case earlier: False
      then have start: "year_start (y + 1) = doe + 1" using stop by (simp add: year_stop_def)
      moreover have "doe + 1 < year_stop (y + 1)" using year_okD [of "y + 1"] start y earlier by (simp add: year_ok_def split: if_splits)
      ultimately have "civil_from_days (days + 1) = march_date (y + 1 + era * 400) (doe + 1 - year_start (y + 1))"
        using z assms y earlier by (intro civil_date) simp_all
      then show ?thesis using start by (simp add: algebra_simps)
    qed
    have "next_day (march_date ?y ?doy) = march_date (?y + 1) 0" using stop len by (intro next_march_year) simp
    then show ?thesis using today tomorrow by simp
  qed
qed

lemma civil_start: "civil_from_days 0 = (1970, 1, 1)"
  by code_simp

lemma civil_iterates: "civil_from_days (int n) = (next_day ^^ n) (1970, 1, 1)"
proof (induction n)
  case 0
  show ?case using civil_start by simp
next
  case (Suc n)
  have "int (Suc n) = int n + 1" by simp
  then show ?case using civil_next [of "int n"] Suc by (simp only: funpow.simps comp_apply)
qed

text \<open>Days, seconds of the day and milliseconds; hours, minutes and seconds.\<close>

lemma millis_split:
  fixes n :: nat
  shows "n = n div 86400000 * 86400000 + n div 1000 mod 86400 * 1000 + n mod 1000"
proof -
  have "n div 1000 div 86400 = n div 86400000" by (simp flip: div_mult2_eq)
  then have "n div 1000 = n div 86400000 * 86400 + n div 1000 mod 86400" using div_mult_mod_eq [of "n div 1000" 86400] by simp
  then show ?thesis using div_mult_mod_eq [of n 1000] by linarith
qed

lemma day_split:
  fixes s :: nat
  shows "s = (s div 3600 * 60 + s mod 3600 div 60) * 60 + s mod 60"
proof -
  have "s mod 3600 mod 60 = s mod 60" by (rule mod_mod_cancel) simp
  then have minutes: "s mod 3600 div 60 * 60 + s mod 60 = s mod 3600" using div_mult_mod_eq [of "s mod 3600" 60] by simp
  have regroup: "(a * 60 + b) * 60 + c = a * 3600 + (b * 60 + c)" for a b c :: nat by simp
  show ?thesis unfolding regroup minutes by (rule div_mult_mod_eq [symmetric])
qed

lemma rfc3339_fields:
  assumes "(next_day ^^ (unat millis div 86400000)) (1970, 1, 1) = (y, m, d)"
  defines "s \<equiv> unat millis div 1000 mod 86400"
  shows "compat_rfc3339 millis = pad 4 (nat y) @ ''-'' @ pad 2 (nat m) @ ''-'' @ pad 2 (nat d) @ ''T'' @ pad 2 (s div 3600) @ '':''
      @ pad 2 (s mod 3600 div 60) @ '':'' @ pad 2 (s mod 60)
      @ (if unat millis mod 1000 = 0 then ''Z'' else ''.'' @ pad 3 (unat millis mod 1000) @ ''Z'')"
proof -
  have "unat millis div 1000 div 86400 = unat millis div 86400000" by (simp flip: div_mult2_eq)
  then have "civil_from_days (int (unat millis div 1000 div 86400)) = (y, m, d)" using assms(1) by (simp only: civil_iterates)
  then show ?thesis unfolding compat_rfc3339_def Let_def s_def by (simp only: prod.case)
qed

text \<open>
  C32: The times on the wire are those of the Gregorian calendar: for every 64-bit count of milliseconds the printed
  date is the one reached from the first of January 1970 by as many steps from a day to the next as there are whole
  days in it, and the printed hour, minute, second and milliseconds are within their ranges and add up to the rest.
\<close>

theorem rfc3339_gregorian:
  "let days = unat millis div 86400000; (y, m, d) = (next_day ^^ days) (1970, 1, 1) in
     \<exists>hour minute second milli. hour < 24 \<and> minute < 60 \<and> second < 60 \<and> milli < 1000
       \<and> unat millis = days * 86400000 + ((hour * 60 + minute) * 60 + second) * 1000 + milli
       \<and> compat_rfc3339 millis = pad 4 (nat y) @ ''-'' @ pad 2 (nat m) @ ''-'' @ pad 2 (nat d) @ ''T'' @ pad 2 hour @ '':''
           @ pad 2 minute @ '':'' @ pad 2 second @ (if milli = 0 then ''Z'' else ''.'' @ pad 3 milli @ ''Z'')"
proof -
  define n s where "n = unat millis" and "s = n div 1000 mod 86400"
  obtain y m d where date: "(next_day ^^ (n div 86400000)) (1970, 1, 1) = (y, m, d)" by (metis prod_cases3)
  have sum: "n = n div 86400000 * 86400000 + ((s div 3600 * 60 + s mod 3600 div 60) * 60 + s mod 60) * 1000 + n mod 1000"
    using millis_split [of n] day_split [of s] unfolding s_def [symmetric] by simp
  have "s < 24 * 3600" by (simp add: s_def)
  then have bounds: "s div 3600 < 24" "s mod 3600 div 60 < 60" "s mod 60 < 60" "n mod 1000 < 1000"
    by (simp_all add: less_mult_imp_div_less)
  note printed = rfc3339_fields [of millis y m d, folded n_def, OF date, folded s_def]
  show ?thesis
    unfolding Let_def n_def [symmetric] date prod.case
    by (rule exI [of _ "s div 3600"], rule exI [of _ "s mod 3600 div 60"], rule exI [of _ "s mod 60"], rule exI [of _ "n mod 1000"])
      (use sum bounds printed in blast)
qed

end
