(* ===== verification/Client_Sdk.thy ===== *)
theory Client_Sdk
  imports Service_Control
begin

text \<open>
  The client libraries: \<^verbatim>\<open>DtmHttpClient\<close> (\<^verbatim>\<open>src/client.rs\<close>) and \<^verbatim>\<open>DtmGrpcClient\<close>
  (\<^verbatim>\<open>src/grpc_client.rs\<close>). A method is an action on the world behind the wire; the wire is a parameter,
  it gives back a response or nothing when the exchange failed. JSON that the source spells out with
  \<^verbatim>\<open>serde_json::json!\<close> is spelled out here; so is the reading of the structures the source declares with
  \<^verbatim>\<open>#[derive(Deserialize)]\<close>, from the fields of a JSON object (an array of the fields in
  their order, which serde would take as well, is not read). How a whole transaction is read and written is a parameter.
\<close>

section \<open>Reading JSON\<close>

fun as_u64 :: "json \<Rightarrow> u64 option" where
  "as_u64 (JInt i) = (if 0 \<le> i \<and> i < 2 ^ 64 then Some (of_int i) else None)"
| "as_u64 _ = None"

fun as_bool :: "json \<Rightarrow> bool option" where
  "as_bool (JBool b) = Some b"
| "as_bool _ = None"

fun as_list :: "(json \<Rightarrow> 'a option) \<Rightarrow> json \<Rightarrow> 'a list option" where
  "as_list d (JArray vs) = those (map d vs)"
| "as_list d _ = None"

fun as_string_map :: "json \<Rightarrow> (string, string) btree_map option" where
  "as_string_map (JObject fs) =
     map_option (\<lambda>vs. fold (\<lambda>(k, v). bt_insert k v) (zip (map fst fs) vs) []) (those (map (\<lambda>(k, v). as_str v) fs))"
| "as_string_map _ = None"

text \<open>\<^verbatim>\<open>null\<close> is the absent value of an \<^verbatim>\<open>Option\<close>.\<close>

definition as_option :: "(json \<Rightarrow> 'a option) \<Rightarrow> json \<Rightarrow> 'a option option" where
  "as_option d v = (if v = JNull then Some None else map_option Some (d v))"

text \<open>A required field, and one with a default.\<close>

definition req_field :: "(string \<times> json) list \<Rightarrow> string \<Rightarrow> (json \<Rightarrow> 'a option) \<Rightarrow> 'a option" where
  "req_field fs k d = Option.bind (map_of fs k) d"

definition def_field :: "(string \<times> json) list \<Rightarrow> string \<Rightarrow> 'a \<Rightarrow> (json \<Rightarrow> 'a option) \<Rightarrow> 'a option" where
  "def_field fs k x d = (case map_of fs k of None \<Rightarrow> Some x | Some v \<Rightarrow> d v)"

definition opt_field :: "(string \<times> json) list \<Rightarrow> string \<Rightarrow> (json \<Rightarrow> 'a option) \<Rightarrow> 'a option option" where
  "opt_field fs k d = def_field fs k None (as_option d)"

section \<open>The wire\<close>

text \<open>What a method sends: \<^verbatim>\<open>Authorization\<close> is the text of that header. A response is its status and its JSON, if it is JSON.\<close>

record client_request =
  sq_method :: string
  sq_url :: string
  sq_params :: "(string \<times> string) list"
  sq_json :: "json option"
  sq_authorization :: "string option"

record client_response =
  cs_status :: nat
  cs_json :: "json option"

type_synonym 'w http_wire = "client_request \<Rightarrow> 'w \<Rightarrow> client_response option \<times> 'w"

datatype client_error =
    InvalidBaseUrl
  | InvalidXaGid
  | InvalidXaBranchId
  | InvalidXaUrl
  | InvalidWorkflowName
  | WorkflowDataTooLong
  | NotUtf8
  | InvalidToken
  | SendingFailed
  | NotJson
  | StatusFailed nat
  | NotSuccessful
  | FieldMissing string
  | NotDecodable
  | NotBase64
  | UnknownProgressStatus
  | GrpcFailed "grpc_status option"
  | RollbackNotPersisted client_error
  | BusinessFailed string

type_synonym ('w, 'a) client_act = "('w, client_error, 'a) act"

record http_client =
  base_url :: string
  bearer_token :: "string option"

definition trim_end_slashes :: "string \<Rightarrow> string" where
  "trim_end_slashes s = rev (dropWhile (\<lambda>c. c = CHR ''/'') (rev s))"

definition http_client_new :: "string \<Rightarrow> client_error + http_client" where
  "http_client_new url =
     (let base = trim_end_slashes url in
      res_seq (ensure (starts_with ''http://'' base \<or> starts_with ''https://'' base) InvalidBaseUrl)
      (Inr \<lparr>base_url = base, bearer_token = None\<rparr>))"

definition with_bearer_token :: "string \<Rightarrow> http_client \<Rightarrow> http_client" where
  "with_bearer_token token cl = cl\<lparr>bearer_token := Some token\<rparr>"

definition bearer :: "string option \<Rightarrow> string option" where
  "bearer token = map_option (\<lambda>t. ''Bearer '' @ t) token"

text \<open>\<^verbatim>\<open>authorized(..).send()\<close>: a URL that does not parse or a header value that is not allowed fails before anything is sent.\<close>

definition send_authorized ::
  "libs \<Rightarrow> 'w http_wire \<Rightarrow> http_client \<Rightarrow> string \<Rightarrow> string \<Rightarrow> (string \<times> string) list \<Rightarrow> json option \<Rightarrow> ('w, client_response) client_act" where
  "send_authorized L W cl method url params body =
     then_ok (lift_res (ensure (parse_url L url \<noteq> None \<and> opt_all (header_value_ok L) (bearer (bearer_token cl))) SendingFailed)) (\<lambda>_ w.
       case W \<lparr>sq_method = method, sq_url = url, sq_params = params, sq_json = body,
                sq_authorization = bearer (bearer_token cl)\<rparr> w of
         (None, w') \<Rightarrow> (Inl SendingFailed, w')
       | (Some response, w') \<Rightarrow> (Inr response, w'))"

section \<open>Reading responses\<close>

definition status_success :: "nat \<Rightarrow> bool" where
  "status_success st \<longleftrightarrow> 200 \<le> st \<and> st < 300"

definition json_of_response :: "client_response \<Rightarrow> client_error + json" where
  "json_of_response r = ok_or (cs_json r) NotJson"

definition decode_compat_success :: "client_response \<Rightarrow> client_error + unit" where
  "decode_compat_success r =
     res_bind (json_of_response r) (\<lambda>v.
     res_seq (ensure (status_success (cs_status r)) (StatusFailed (cs_status r)))
     (ensure (Option.bind (json_get v ''dtm_result'') as_str = Some ''SUCCESS'') NotSuccessful))"

definition client_decode_transaction :: "(json \<Rightarrow> transaction option) \<Rightarrow> client_response \<Rightarrow> client_error + transaction" where
  "client_decode_transaction from_value r =
     res_bind (json_of_response r) (\<lambda>v.
     res_seq (ensure (status_success (cs_status r)) (StatusFailed (cs_status r)))
     (res_bind (ok_or (json_get v ''data'') (FieldMissing ''data'')) (\<lambda>d. ok_or (from_value d) NotDecodable)))"

record callback_workflow_progress =
  cp_branch_id :: string
  cp_operation :: string
  cp_status :: workflow_progress_status
  cp_data :: "u8 list"

record callback_workflow_snapshot =
  cw_gid :: string
  cw_status :: string
  cw_rollback_reason :: string
  cw_result :: "u8 list"
  cw_progresses :: "callback_workflow_progress list"

text \<open>The structures of the wire, read from the fields of an object; the progress is read before its data is decoded.\<close>

record progress_wire =
  pw_status :: string
  pw_bin_data :: string
  pw_branch_id :: string
  pw_op :: string

definition progress_wire_of :: "json \<Rightarrow> progress_wire option" where
  "progress_wire_of v = (case v of JObject fs \<Rightarrow>
     Option.bind (req_field fs ''status'' as_str) (\<lambda>st.
     Option.bind (def_field fs ''bin_data'' [] as_str) (\<lambda>bin.
     Option.bind (req_field fs ''branch_id'' as_str) (\<lambda>br.
     Option.bind (req_field fs ''op'' as_str) (\<lambda>op.
     Some \<lparr>pw_status = st, pw_bin_data = bin, pw_branch_id = br, pw_op = op\<rparr>)))) | _ \<Rightarrow> None)"

record workflow_wire =
  ww_gid :: string
  ww_status :: string
  ww_rollback_reason :: string
  ww_result :: string
  ww_progresses :: "progress_wire list"

definition workflow_wire_of :: "json \<Rightarrow> workflow_wire option" where
  "workflow_wire_of v = (case v of JObject fs \<Rightarrow>
     Option.bind (map_of fs ''transaction'') (\<lambda>t. case t of JObject ts \<Rightarrow>
       Option.bind (req_field ts ''gid'' as_str) (\<lambda>g.
       Option.bind (req_field ts ''status'' as_str) (\<lambda>st.
       Option.bind (def_field ts ''rollback_reason'' [] as_str) (\<lambda>reason.
       Option.bind (def_field ts ''result'' [] as_str) (\<lambda>result.
       Option.bind (def_field fs ''progresses'' [] (as_list progress_wire_of)) (\<lambda>ps.
       Some \<lparr>ww_gid = g, ww_status = st, ww_rollback_reason = reason, ww_result = result, ww_progresses = ps\<rparr>)))))
     | _ \<Rightarrow> None) | _ \<Rightarrow> None)"

definition decode_progress :: "libs \<Rightarrow> progress_wire \<Rightarrow> client_error + callback_workflow_progress" where
  "decode_progress L p =
     res_bind (if pw_status p = ''succeed'' \<or> pw_status p = ''succeeded'' then Inr ProgressSucceeded
               else if pw_status p = ''failed'' then Inr ProgressFailed else Inl UnknownProgressStatus) (\<lambda>st.
     res_bind (ok_or (base64_decode L (pw_bin_data p)) NotBase64) (\<lambda>bytes.
     Inr \<lparr>cp_branch_id = pw_branch_id p, cp_operation = pw_op p, cp_status = st, cp_data = bytes\<rparr>))"

definition decode_callback_workflow :: "libs \<Rightarrow> client_response \<Rightarrow> client_error + callback_workflow_snapshot" where
  "decode_callback_workflow L r =
     res_bind (ok_or (Option.bind (cs_json r) workflow_wire_of) NotDecodable) (\<lambda>wire.
     res_seq (ensure (status_success (cs_status r)) (StatusFailed (cs_status r)))
     (res_bind (if ww_result wire = [] then Inr [] else ok_or (base64_decode L (ww_result wire)) NotBase64) (\<lambda>result.
      res_bind (res_map (decode_progress L) (ww_progresses wire)) (\<lambda>ps.
      Inr \<lparr>cw_gid = ww_gid wire, cw_status = ww_status wire, cw_rollback_reason = ww_rollback_reason wire,
           cw_result = result, cw_progresses = ps\<rparr>))))"

text \<open>\<^verbatim>\<open>KvEntry\<close> (\<^verbatim>\<open>src/kv.rs\<close>) with the names and aliases of its fields; a field given under both names is refused.\<close>

definition alias_field :: "(string \<times> json) list \<Rightarrow> string \<Rightarrow> string \<Rightarrow> (json \<Rightarrow> 'a option) \<Rightarrow> 'a option" where
  "alias_field fs k k' d =
     (if map_of fs k \<noteq> None \<and> map_of fs k' \<noteq> None then None
      else case map_of fs k of Some v \<Rightarrow> d v | None \<Rightarrow> req_field fs k' d)"

definition kv_entry_of_json :: "json \<Rightarrow> kv_entry option" where
  "kv_entry_of_json v = (case v of JObject fs \<Rightarrow>
     Option.bind (alias_field fs ''cat'' ''category'' as_str) (\<lambda>cat.
     Option.bind (alias_field fs ''k'' ''key'' as_str) (\<lambda>key.
     Option.bind (alias_field fs ''v'' ''value'' as_str) (\<lambda>val.
     Option.bind (req_field fs ''version'' as_u64) (\<lambda>version.
     Option.bind (req_field fs ''created_at_millis'' as_u64) (\<lambda>created.
     Option.bind (req_field fs ''updated_at_millis'' as_u64) (\<lambda>updated.
     Some \<lparr>kv_category = cat, kv_key = key, kv_value = val, kv_version = version,
           kv_created_at_millis = created, kv_updated_at_millis = updated\<rparr>)))))) | _ \<Rightarrow> None)"

definition decode_kv :: "client_response \<Rightarrow> client_error + kv_entry list" where
  "decode_kv r =
     res_bind (json_of_response r) (\<lambda>v.
     res_seq (ensure (status_success (cs_status r)) (StatusFailed (cs_status r)))
     (res_bind (ok_or (json_get v ''kv'') (FieldMissing ''kv'')) (\<lambda>kv. ok_or (as_list kv_entry_of_json kv) NotDecodable)))"

definition decode_new_gid :: "client_response \<Rightarrow> client_error + string" where
  "decode_new_gid r =
     res_bind (json_of_response r) (\<lambda>v.
     res_seq (ensure (status_success (cs_status r)) (StatusFailed (cs_status r)))
     (ok_or (Option.bind (json_get v ''gid'') as_str) (FieldMissing ''gid'')))"


section \<open>The HTTP client\<close>

fun submit_path :: "transaction_kind \<Rightarrow> string" where
  "submit_path Tcc = ''/v1/tcc''"
| "submit_path Saga = ''/v1/saga''"
| "submit_path Workflow = ''/v1/workflows''"
| "submit_path Message = ''/v1/messages''"
| "submit_path Xa = ''/v1/xa''"

definition post_transaction ::
  "libs \<Rightarrow> (json \<Rightarrow> transaction option) \<Rightarrow> 'w http_wire \<Rightarrow> http_client \<Rightarrow> string \<Rightarrow> json option \<Rightarrow> ('w, transaction) client_act" where
  "post_transaction L from_value W cl p body =
     then_ok (send_authorized L W cl ''POST'' (base_url cl @ p) [] body) (\<lambda>r. lift_res (client_decode_transaction from_value r))"

text \<open>The request of \<^verbatim>\<open>submit\<close> has the fields of the service's own structure; its serialisation is the parameter \<open>to_value\<close>.\<close>

definition client_submit ::
  "libs \<Rightarrow> (submit_transaction_request \<Rightarrow> json) \<Rightarrow> (json \<Rightarrow> transaction option) \<Rightarrow> 'w http_wire \<Rightarrow> http_client
    \<Rightarrow> transaction_kind \<Rightarrow> submit_transaction_request \<Rightarrow> ('w, transaction) client_act" where
  "client_submit L to_value from_value W cl k rq = post_transaction L from_value W cl (submit_path k) (Some (to_value rq))"

definition client_transition ::
  "libs \<Rightarrow> (json \<Rightarrow> transaction option) \<Rightarrow> 'w http_wire \<Rightarrow> http_client \<Rightarrow> string \<Rightarrow> ('w, transaction) client_act" where
  "client_transition L from_value W cl p = post_transaction L from_value W cl p None"

definition client_get ::
  "libs \<Rightarrow> (json \<Rightarrow> transaction option) \<Rightarrow> 'w http_wire \<Rightarrow> http_client \<Rightarrow> string \<Rightarrow> ('w, transaction) client_act" where
  "client_get L from_value W cl g =
     then_ok (send_authorized L W cl ''GET'' (base_url cl @ ''/v1/transactions/'' @ g) [] None)
       (\<lambda>r. lift_res (client_decode_transaction from_value r))"

definition client_new_gid :: "libs \<Rightarrow> 'w http_wire \<Rightarrow> http_client \<Rightarrow> ('w, string) client_act" where
  "client_new_gid L W cl =
     then_ok (send_authorized L W cl ''GET'' (base_url cl @ ''/api/dtmsvr/newGid'') [] None) (\<lambda>r. lift_res (decode_new_gid r))"

text \<open>A request of the compatible API that is answered by success or not.\<close>

definition compat_post :: "libs \<Rightarrow> 'w http_wire \<Rightarrow> http_client \<Rightarrow> string \<Rightarrow> json \<Rightarrow> ('w, unit) client_act" where
  "compat_post L W cl p body =
     then_ok (send_authorized L W cl ''POST'' (base_url cl @ p) [] (Some body)) (\<lambda>r. lift_res (decode_compat_success r))"

subsection \<open>XA\<close>

definition compat_xa_operation :: "libs \<Rightarrow> 'w http_wire \<Rightarrow> http_client \<Rightarrow> string \<Rightarrow> string \<Rightarrow> ('w, unit) client_act" where
  "compat_xa_operation L W cl p g =
     then_ok (lift_res (ensure (g \<noteq> [] \<and> length g \<le> 128) InvalidXaGid)) (\<lambda>_.
     compat_post L W cl p (JObject [(''gid'', JString g), (''trans_type'', JString ''xa''), (''wait_result'', JBool True)]))"

definition client_prepare_xa :: "libs \<Rightarrow> 'w http_wire \<Rightarrow> http_client \<Rightarrow> string \<Rightarrow> ('w, unit) client_act" where
  "client_prepare_xa L W cl g = compat_xa_operation L W cl ''/api/dtmsvr/prepare'' g"

definition client_commit_xa :: "libs \<Rightarrow> 'w http_wire \<Rightarrow> http_client \<Rightarrow> string \<Rightarrow> ('w, unit) client_act" where
  "client_commit_xa L W cl g = compat_xa_operation L W cl ''/api/dtmsvr/submit'' g"

definition client_rollback_xa :: "libs \<Rightarrow> 'w http_wire \<Rightarrow> http_client \<Rightarrow> string \<Rightarrow> ('w, unit) client_act" where
  "client_rollback_xa L W cl g = compat_xa_operation L W cl ''/api/dtmsvr/abort'' g"

text \<open>The business closure runs in the same world; it may call the services, and the services the coordinator.\<close>

definition xa_global_transaction ::
  "libs \<Rightarrow> 'w http_wire \<Rightarrow> http_client \<Rightarrow> string \<Rightarrow> ('w, string, 'v) act \<Rightarrow> ('w, 'v) client_act" where
  "xa_global_transaction L W cl g work =
     then_ok (client_prepare_xa L W cl g) (\<lambda>_ w.
       case work w of
         (Inr v, w') \<Rightarrow> then_ok (client_commit_xa L W cl g) (\<lambda>_. ok v) w'
       | (Inl e, w') \<Rightarrow>
           (case client_rollback_xa L W cl g w' of
              (Inl e', w'') \<Rightarrow> (Inl (RollbackNotPersisted e'), w'')
            | (Inr _, w'') \<Rightarrow> (Inl (BusinessFailed e), w'')))"

definition xa_phase2_url_ok :: "url \<Rightarrow> bool" where
  "xa_phase2_url_ok u \<longleftrightarrow> scheme u \<in> {''http'', ''https''} \<and> host u \<noteq> None \<and> username u = [] \<and> password u = None \<and> fragment u = None"

definition client_register_xa_branch ::
  "libs \<Rightarrow> 'w http_wire \<Rightarrow> http_client \<Rightarrow> string \<Rightarrow> string \<Rightarrow> string \<Rightarrow> ('w, unit) client_act" where
  "client_register_xa_branch L W cl g b phase2_url =
     then_ok (lift_res (ensure (g \<noteq> [] \<and> length g \<le> 128) InvalidXaGid)) (\<lambda>_.
     then_ok (lift_res (ensure (b \<noteq> [] \<and> length b \<le> 128) InvalidXaBranchId)) (\<lambda>_.
     then_ok (lift_res (ok_or (parse_url L phase2_url) InvalidXaUrl)) (\<lambda>u.
     then_ok (lift_res (ensure (xa_phase2_url_ok u) InvalidXaUrl)) (\<lambda>_.
     compat_post L W cl ''/api/dtmsvr/registerXaBranch''
       (JObject [(''gid'', JString g), (''trans_type'', JString ''xa''), (''branch_id'', JString b), (''url'', JString phase2_url)])))))"

subsection \<open>Callback workflows\<close>

definition client_prepare_callback_workflow ::
  "libs \<Rightarrow> 'w http_wire \<Rightarrow> http_client \<Rightarrow> string \<Rightarrow> string \<Rightarrow> string \<Rightarrow> ('w, callback_workflow_snapshot) client_act" where
  "client_prepare_callback_workflow L W cl g query_prepared custom_data =
     then_ok (send_authorized L W cl ''POST'' (base_url cl @ ''/api/dtmsvr/prepareWorkflow'') []
       (Some (JObject [(''gid'', JString g), (''trans_type'', JString ''workflow''), (''query_prepared'', JString query_prepared),
          (''custom_data'', JString custom_data)])))
     (\<lambda>r. lift_res (decode_callback_workflow L r))"

text \<open>What a named workflow keeps of its name and data.\<close>

definition named_workflow_data :: "codecs \<Rightarrow> string \<Rightarrow> u8 list \<Rightarrow> client_error + string" where
  "named_workflow_data C nm bytes =
     res_seq (ensure (nm \<noteq> [] \<and> length nm \<le> 128) InvalidWorkflowName)
     (res_seq (ensure (length bytes \<le> 2 * 1024 * 1024) WorkflowDataTooLong)
     (Inr (print_json C (JObject [(''name'', JString nm), (''data'', JString (base64_encode C bytes))]))))"

definition client_prepare_named_callback_workflow ::
  "libs \<Rightarrow> codecs \<Rightarrow> 'w http_wire \<Rightarrow> http_client \<Rightarrow> string \<Rightarrow> string \<Rightarrow> string \<Rightarrow> u8 list
    \<Rightarrow> ('w, callback_workflow_snapshot) client_act" where
  "client_prepare_named_callback_workflow L C W cl g query_prepared nm bytes =
     then_ok (lift_res (named_workflow_data C nm bytes)) (\<lambda>custom_data.
       client_prepare_callback_workflow L W cl g query_prepared custom_data)"

text \<open>\<^verbatim>\<open>std::str::from_utf8\<close>.\<close>

function from_utf8 :: "u8 list \<Rightarrow> string option" where
  "from_utf8 [] = Some []"
| "from_utf8 (b # bs) =
     (case utf8_first b bs of (k, full) \<Rightarrow>
        if full then map_option (\<lambda>s. map byte_char (b # take k bs) @ s) (from_utf8 (drop k bs)) else None)"
  by pat_completeness auto
termination by (relation "measure length") (auto simp: le_imp_less_Suc)

fun wire_status :: "workflow_progress_status \<Rightarrow> string" where
  "wire_status ProgressSucceeded = ''succeed''"
| "wire_status ProgressFailed = ''failed''"

definition progress_body :: "string \<Rightarrow> string \<Rightarrow> string \<Rightarrow> workflow_progress_status \<Rightarrow> string \<Rightarrow> json" where
  "progress_body g b oper st s =
     JObject [(''gid'', JString g), (''trans_type'', JString ''workflow''), (''branch_id'', JString b), (''op'', JString oper),
       (''status'', JString (wire_status st)), (''data'', JString s)]"

definition client_record_callback_workflow_progress ::
  "libs \<Rightarrow> 'w http_wire \<Rightarrow> http_client \<Rightarrow> string \<Rightarrow> string \<Rightarrow> string \<Rightarrow> workflow_progress_status \<Rightarrow> u8 list \<Rightarrow> ('w, unit) client_act" where
  "client_record_callback_workflow_progress L W cl g b oper st bytes =
     then_ok (lift_res (ok_or (from_utf8 bytes) NotUtf8)) (\<lambda>s.
       compat_post L W cl ''/api/dtmsvr/registerBranch'' (progress_body g b oper st s))"

definition client_finish_callback_workflow ::
  "libs \<Rightarrow> codecs \<Rightarrow> 'w http_wire \<Rightarrow> http_client \<Rightarrow> string \<Rightarrow> workflow_progress_status \<Rightarrow> string \<Rightarrow> u8 list \<Rightarrow> ('w, unit) client_act" where
  "client_finish_callback_workflow L C W cl g st reason result =
     compat_post L W cl ''/api/dtmsvr/submit''
       (JObject [(''gid'', JString g), (''trans_type'', JString ''workflow''),
          (''req_extra'', JObject [(''status'', JString (wire_status st)), (''rollback_reason'', JString reason),
             (''result'', JString (base64_encode C result))])])"

subsection \<open>Topics and the key-value store\<close>

definition compat_topic_operation ::
  "libs \<Rightarrow> 'w http_wire \<Rightarrow> http_client \<Rightarrow> string \<Rightarrow> (string \<times> string) list \<Rightarrow> ('w, unit) client_act" where
  "compat_topic_operation L W cl p params =
     then_ok (send_authorized L W cl ''GET'' (base_url cl @ p) params None) (\<lambda>r. lift_res (decode_compat_success r))"

definition client_subscribe_topic :: "libs \<Rightarrow> 'w http_wire \<Rightarrow> http_client \<Rightarrow> string \<Rightarrow> string \<Rightarrow> string \<Rightarrow> ('w, unit) client_act" where
  "client_subscribe_topic L W cl t url remark =
     compat_topic_operation L W cl ''/api/dtmsvr/subscribe'' [(''topic'', t), (''url'', url), (''remark'', remark)]"

definition client_unsubscribe_topic :: "libs \<Rightarrow> 'w http_wire \<Rightarrow> http_client \<Rightarrow> string \<Rightarrow> string \<Rightarrow> ('w, unit) client_act" where
  "client_unsubscribe_topic L W cl t url =
     compat_topic_operation L W cl ''/api/dtmsvr/unsubscribe'' [(''topic'', t), (''url'', url)]"

text \<open>\<^verbatim>\<open>path_segments_mut().push(topic)\<close> appends the topic as one encoded segment; that is \<open>push_segment\<close>, absent when the URL cannot be a base.\<close>

definition client_delete_topic ::
  "libs \<Rightarrow> (string \<Rightarrow> string \<Rightarrow> string option) \<Rightarrow> 'w http_wire \<Rightarrow> http_client \<Rightarrow> string \<Rightarrow> ('w, unit) client_act" where
  "client_delete_topic L push_segment W cl t =
     (let base = base_url cl @ ''/api/dtmsvr/topic/'' in
      then_ok (lift_res (ensure (parse_url L base \<noteq> None) SendingFailed)) (\<lambda>_.
      then_ok (lift_res (ok_or (push_segment base t) InvalidBaseUrl)) (\<lambda>url.
      then_ok (send_authorized L W cl ''DELETE'' url [] None) (\<lambda>r. lift_res (decode_compat_success r)))))"

definition client_query_kv ::
  "libs \<Rightarrow> 'w http_wire \<Rightarrow> http_client \<Rightarrow> string option \<Rightarrow> string option \<Rightarrow> ('w, kv_entry list) client_act" where
  "client_query_kv L W cl category key =
     then_ok (send_authorized L W cl ''GET'' (base_url cl @ ''/api/dtmsvr/queryKV'')
       ((case category of None \<Rightarrow> [] | Some c \<Rightarrow> [(''cat'', c)]) @ (case key of None \<Rightarrow> [] | Some k \<Rightarrow> [(''key'', k)])) None)
     (\<lambda>r. lift_res (decode_kv r))"

section \<open>The gRPC client\<close>

type_synonym 'w grpc_wire = "string option \<Rightarrow> grpc_call \<Rightarrow> 'w \<Rightarrow> grpc_result option \<times> 'w"

record grpc_client =
  gc_bearer_token :: "string option"

definition grpc_client_new :: grpc_client where
  "grpc_client_new = \<lparr>gc_bearer_token = None\<rparr>"

definition grpc_with_bearer_token :: "string \<Rightarrow> grpc_client \<Rightarrow> grpc_client" where
  "grpc_with_bearer_token token cl = cl\<lparr>gc_bearer_token := Some token\<rparr>"

text \<open>\<^verbatim>\<open>request\<close> and the call: the token becomes the metadata \<^verbatim>\<open>authorization\<close>, if its characters are allowed there.\<close>

definition grpc_send :: "libs \<Rightarrow> 'w grpc_wire \<Rightarrow> grpc_client \<Rightarrow> grpc_call \<Rightarrow> ('w, grpc_reply) client_act" where
  "grpc_send L W cl call =
     then_ok (lift_res (ensure (opt_all (header_value_ok L) (bearer (gc_bearer_token cl))) InvalidToken)) (\<lambda>_ w.
       case W (bearer (gc_bearer_token cl)) call w of
         (None, w') \<Rightarrow> (Inl (GrpcFailed None), w')
       | (Some (Inl st), w') \<Rightarrow> (Inl (GrpcFailed (Some st)), w')
       | (Some (Inr reply), w') \<Rightarrow> (Inr reply, w'))"

definition grpc_send_unit :: "libs \<Rightarrow> 'w grpc_wire \<Rightarrow> grpc_client \<Rightarrow> grpc_call \<Rightarrow> ('w, unit) client_act" where
  "grpc_send_unit L W cl call = then_ok (grpc_send L W cl call) (\<lambda>_. ok ())"

definition grpc_client_new_gid :: "libs \<Rightarrow> 'w grpc_wire \<Rightarrow> grpc_client \<Rightarrow> ('w, string) client_act" where
  "grpc_client_new_gid L W cl =
     then_ok (grpc_send L W cl GrpcNewGid) (\<lambda>reply. case reply of GrpcGid g \<Rightarrow> ok g | _ \<Rightarrow> fail NotDecodable)"

definition grpc_client_submit :: "libs \<Rightarrow> 'w grpc_wire \<Rightarrow> grpc_client \<Rightarrow> dtm_request \<Rightarrow> ('w, unit) client_act" where
  "grpc_client_submit L W cl rq = grpc_send_unit L W cl (GrpcApply OpSubmit rq)"

definition grpc_client_prepare :: "libs \<Rightarrow> 'w grpc_wire \<Rightarrow> grpc_client \<Rightarrow> dtm_request \<Rightarrow> ('w, unit) client_act" where
  "grpc_client_prepare L W cl rq = grpc_send_unit L W cl (GrpcApply OpPrepare rq)"

definition grpc_client_abort :: "libs \<Rightarrow> 'w grpc_wire \<Rightarrow> grpc_client \<Rightarrow> dtm_request \<Rightarrow> ('w, unit) client_act" where
  "grpc_client_abort L W cl rq = grpc_send_unit L W cl (GrpcApply OpAbort rq)"

definition grpc_client_register_branch :: "libs \<Rightarrow> 'w grpc_wire \<Rightarrow> grpc_client \<Rightarrow> dtm_branch_request \<Rightarrow> ('w, unit) client_act" where
  "grpc_client_register_branch L W cl rq = grpc_send_unit L W cl (GrpcRegisterBranch rq)"

definition grpc_progress_request :: "string \<Rightarrow> string \<Rightarrow> string \<Rightarrow> workflow_progress_status \<Rightarrow> u8 list \<Rightarrow> dtm_branch_request" where
  "grpc_progress_request g b oper st bytes =
     \<lparr>gb_gid = g, gb_trans_type = ''workflow'', gb_branch_id = b, gb_op = oper,
      gb_data = bt_insert ''status'' (wire_status st) [], gb_busi_payload = bytes\<rparr>"

definition grpc_client_record_progress ::
  "libs \<Rightarrow> 'w grpc_wire \<Rightarrow> grpc_client \<Rightarrow> string \<Rightarrow> string \<Rightarrow> string \<Rightarrow> workflow_progress_status \<Rightarrow> u8 list \<Rightarrow> ('w, unit) client_act" where
  "grpc_client_record_progress L W cl g b oper st bytes =
     grpc_client_register_branch L W cl (grpc_progress_request g b oper st bytes)"

definition default_dtm_request :: dtm_request where
  "default_dtm_request = \<lparr>gr_gid = [], gr_trans_type = [], gr_trans_options = None, gr_customed_data = [], gr_bin_payloads = [],
     gr_query_prepared = [], gr_steps = [], gr_req_extra = [], gr_rollback_reason = []\<rparr>"

definition grpc_finish_request :: "codecs \<Rightarrow> string \<Rightarrow> workflow_progress_status \<Rightarrow> string \<Rightarrow> u8 list \<Rightarrow> dtm_request" where
  "grpc_finish_request C g st reason result =
     default_dtm_request\<lparr>gr_gid := g, gr_trans_type := ''workflow'',
       gr_req_extra := bt_insert ''result'' (base64_encode C result)
         (bt_insert ''rollback_reason'' reason (bt_insert ''status'' (wire_status st) []))\<rparr>"

definition grpc_client_finish_callback_workflow ::
  "libs \<Rightarrow> codecs \<Rightarrow> 'w grpc_wire \<Rightarrow> grpc_client \<Rightarrow> string \<Rightarrow> workflow_progress_status \<Rightarrow> string \<Rightarrow> u8 list \<Rightarrow> ('w, unit) client_act" where
  "grpc_client_finish_callback_workflow L C W cl g st reason result =
     grpc_client_submit L W cl (grpc_finish_request C g st reason result)"

definition grpc_client_prepare_workflow :: "libs \<Rightarrow> 'w grpc_wire \<Rightarrow> grpc_client \<Rightarrow> dtm_request \<Rightarrow> ('w, grpc_progresses) client_act" where
  "grpc_client_prepare_workflow L W cl rq =
     then_ok (grpc_send L W cl (GrpcPrepareWorkflow rq)) (\<lambda>reply. case reply of GrpcProgresses ps \<Rightarrow> ok ps | _ \<Rightarrow> fail NotDecodable)"

definition grpc_client_query_callback_workflow ::
  "libs \<Rightarrow> 'w grpc_wire \<Rightarrow> grpc_client \<Rightarrow> string \<Rightarrow> string \<Rightarrow> string \<Rightarrow> ('w, grpc_progresses) client_act" where
  "grpc_client_query_callback_workflow L W cl g query_prepared custom_data =
     grpc_client_prepare_workflow L W cl (default_dtm_request\<lparr>gr_gid := g, gr_trans_type := ''workflow'',
       gr_customed_data := custom_data, gr_query_prepared := query_prepared\<rparr>)"

definition grpc_client_prepare_named_callback_workflow ::
  "libs \<Rightarrow> codecs \<Rightarrow> 'w grpc_wire \<Rightarrow> grpc_client \<Rightarrow> string \<Rightarrow> string \<Rightarrow> string \<Rightarrow> u8 list \<Rightarrow> ('w, grpc_progresses) client_act" where
  "grpc_client_prepare_named_callback_workflow L C W cl g query_prepared nm bytes =
     then_ok (lift_res (named_workflow_data C nm bytes)) (\<lambda>custom_data.
       grpc_client_query_callback_workflow L W cl g query_prepared custom_data)"

definition grpc_client_subscribe :: "libs \<Rightarrow> 'w grpc_wire \<Rightarrow> grpc_client \<Rightarrow> topic_query \<Rightarrow> ('w, unit) client_act" where
  "grpc_client_subscribe L W cl q = grpc_send_unit L W cl (GrpcSubscribe q)"

definition grpc_client_unsubscribe :: "libs \<Rightarrow> 'w grpc_wire \<Rightarrow> grpc_client \<Rightarrow> topic_query \<Rightarrow> ('w, unit) client_act" where
  "grpc_client_unsubscribe L W cl q = grpc_send_unit L W cl (GrpcUnsubscribe q)"

definition grpc_client_delete_topic :: "libs \<Rightarrow> 'w grpc_wire \<Rightarrow> grpc_client \<Rightarrow> topic_query \<Rightarrow> ('w, unit) client_act" where
  "grpc_client_delete_topic L W cl q = grpc_send_unit L W cl (GrpcDeleteTopic (tp_topic q))"

end
