(* ===== verification/Shared_Store.thy ===== *)
theory Shared_Store
  imports Lifecycle
begin

text \<open>
  A coordinator on a store that others write to at the same time: what every step of a handler leaves, whatever others do and
  whichever requests or replies are lost, as pre- and postconditions for every store with the contract of \<open>transaction_store\<close>. Then
  retention (\<^verbatim>\<open>purge_expired_transactions\<close> of \<^verbatim>\<open>src/lib.rs\<close>): what it deletes.
\<close>

section \<open>Steps on a shared store\<close>

locale shared_store = transaction_store ops good view same
  for ops :: "'s store_ops" and good view same +
  fixes D :: "'s dtm"
  assumes store: "dtm_store D = ops"
    and interference: "good s \<Longrightarrow> good (interfere D n s)"
begin

abbreviation G :: "'s world \<Rightarrow> bool" where "G \<equiv> \<lambda>w. good (w_store w)"

lemma store_op_hoare:
  assumes "\<And>now s r s'. good s \<Longrightarrow> m now s = (r, s') \<Longrightarrow> good s' \<and> (\<forall>x. r = Inr x \<longrightarrow> Q x s')"
  shows "hoare G (store_op D m) (\<lambda>x w. G w \<and> Q x (w_store w)) G"
  unfolding hoare_def
proof (intro allI impI)
  fix w assume "G w"
  then have start: "good (interfere D (w_step w) (w_store w))" (is "good ?s") by (rule interference)
  obtain r s' where run: "m (clock D (w_step w)) ?s = (r, s')" by fastforce
  from assms [OF start run] start run
  show "res_post (\<lambda>x w. G w \<and> Q x (w_store w)) G (store_op D m w)"
    by (cases "faults D (w_step w)"; cases r) (simp_all add: store_op_def Let_def)
qed

lemma implements_good: "implements good view m spec \<Longrightarrow> good s \<Longrightarrow> m s = (r, s') \<Longrightarrow> good s'"
  by (erule (2) implements_cases)

lemma get_hoare:
  "hoare G (store_op D (\<lambda>_. get_transaction (dtm_store D) g))
     (\<lambda>found w. G w \<and> (\<forall>tx. found = Some tx \<longrightarrow> gid tx = g \<and> a_txs (view (w_store w)) g = Some tx)) G"
  by (rule store_op_hoare) (use faithful_run [OF get_law] own_gid in \<open>fastforce simp: store spec_get_def\<close>)

lemma insert_hoare: "hoare G (store_op D (\<lambda>_. insert_transaction (dtm_store D) tx)) (\<lambda>_ w. G w \<and> True) G"
  by (rule store_op_hoare) (use implements_good [OF insert_law] store in auto)

lemma claim_hoare: "hoare G (claim D b) (\<lambda>_ w. G w \<and> True) G"
  unfolding claim_def by (rule store_op_hoare) (use implements_good [OF barrier_law] store in auto)

lemma release_hoare: "hoare G (release D b) (\<lambda>_ w. G w \<and> True) G"
  unfolding release_def by (rule store_op_hoare) (use implements_good [OF release_law] store in auto)

lemma persist_hoare:
  "hoare G (persist_transaction D tx)
     (\<lambda>_ w. G w \<and> (\<exists>now. a_txs (view (w_store w)) (gid tx) = Some (bump_transaction_revision now tx))) G"
  unfolding persist_transaction_def
proof (rule hoare_then_ok)
  show "hoare G (store_op D (\<lambda>now. update_transaction (dtm_store D) now tx))
     (\<lambda>_ w. G w \<and> (\<exists>now. a_txs (view (w_store w)) (gid tx) = Some (bump_transaction_revision now tx))) G"
  proof (rule store_op_hoare)
    fix now s r s' assume "good s" and "update_transaction (dtm_store D) now tx s = (r, s')"
    then show "good s' \<and> (\<forall>x. r = Inr x \<longrightarrow> (\<exists>now. a_txs (view s') (gid tx) = Some (bump_transaction_revision now tx)))"
      unfolding store by (cases rule: implements_cases [OF update_law]) (auto simp: spec_update_def dest!: sym [where t = "view s'"])
  qed
qed (rule hoare_ok, simp)

lemma emit_hoare: "hoare G (emit e) (\<lambda>_ w. G w \<and> True) G"
  by (simp add: hoare_def emit_def)

lemma millis_hoare: "hoare G (current_millis D) (\<lambda>_ w. G w \<and> True) G"
  by (simp add: hoare_def current_millis_def)

lemma invoke_hoare: "hoare G (invoke_branch D opts g st b u) (\<lambda>_ w. G w \<and> True) G"
  by (simp add: hoare_def invoke_branch_def emit_def current_millis_def notify_branch_failure_def act_simps Let_def)

text \<open>After a step of which only the invariant matters.\<close>

lemma step_then: "hoare G m (\<lambda>_ w. G w \<and> True) G \<Longrightarrow> (\<And>x. hoare G (k x) Q G) \<Longrightarrow> hoare G (then_ok m k) Q G"
  by (erule hoare_then_ok) simp

lemma lift_then: "(\<And>x. r = Inr x \<Longrightarrow> hoare G (k x) Q G) \<Longrightarrow> hoare G (then_ok (lift_res r) k) Q G"
  by (cases r) (simp_all add: hoare_fail)

lemma fetched_kind:
  "hoare G (transaction_of_kind D g kd) (\<lambda>tx w. G w \<and> gid tx = g \<and> tkind tx = kd \<and> a_txs (view (w_store w)) g = Some tx) G"
  unfolding transaction_of_kind_def fetch_def
proof (rule hoare_then_ok, rule hoare_then_ok [OF get_hoare])
  show "hoare (\<lambda>w. G w \<and> (\<forall>tx. found = Some tx \<longrightarrow> gid tx = g \<and> a_txs (view (w_store w)) g = Some tx))
      (lift_res (ok_or found (TransactionNotFound g))) (\<lambda>tx w. G w \<and> gid tx = g \<and> a_txs (view (w_store w)) g = Some tx) G" for found
    by (rule hoare_lift_res) auto
  show "hoare (\<lambda>w. G w \<and> gid tx = g \<and> a_txs (view (w_store w)) g = Some tx)
      (then_ok (lift_res (ensure_kind tx kd)) (\<lambda>_. ok tx))
      (\<lambda>tx w. G w \<and> gid tx = g \<and> tkind tx = kd \<and> a_txs (view (w_store w)) g = Some tx) G" for tx
    by (auto simp: hoare_def act_simps ensure_kind_def)
qed

end

text \<open>The in-memory store, with no other coordinator beside this one.\<close>

interpretation shared_mem: shared_store mem_ops mem_good mem_view "(=)" "alone D mem_ops" for D
  by unfold_locales (simp_all add: alone_def)

section \<open>Retention\<close>

definition unexpired :: "retention_policy \<Rightarrow> u64 \<Rightarrow> string \<Rightarrow> abs_store \<Rightarrow> bool" where
  "unexpired policy now g a \<longleftrightarrow> (\<exists>tx. a_txs a g = Some tx \<and> \<not> transaction_expired tx now policy)"

definition victims :: "retention_policy \<Rightarrow> u64 \<Rightarrow> transaction list \<Rightarrow> transaction list" where
  "victims policy now ts =
     take (batch_size policy) (filter (\<lambda>tx. transaction_expired tx now policy) (sort_key (\<lambda>tx. (updated_at_millis tx, gid tx)) ts))"

context shared_store
begin

lemma purge_loop_spares:
  assumes "\<And>n s. good s \<Longrightarrow> unexpired policy now g (view s) \<Longrightarrow> unexpired policy now g (view (interfere D n s))"
    and "\<forall>tx \<in> set ts. transaction_expired tx now policy" and "G w" and "unexpired policy now g (view (w_store w))"
  shows "unexpired policy now g (view (w_store (snd (purge_loop D ts report w))))"
  using assms(2-4)
proof (induction ts arbitrary: report w)
  case (Cons tx ts)
  let ?s = "interfere D (w_step w) (w_store w)"
  obtain r s' where del: "delete_if_unchanged ops tx ?s = (r, s')" by fastforce
  have start: "good ?s" "unexpired policy now g (view ?s)" using Cons.prems interference assms(1) by auto
  have spec: "good s'" "spec_delete same tx (view ?s) r (view s')" using delete_law [OF start(1) del] by auto
  have kept: "unexpired policy now g (view s')"
    using spec(2) start(2) Cons.prems(1) by (auto simp: spec_delete_def unexpired_def split: if_splits)
  let ?w = "\<lambda>s. w\<lparr>w_store := s, w_step := Suc (w_step w)\<rparr>"
  show ?case
  proof (cases "faults D (w_step w)")
    case NoFault
    have "r = Inr (a_txs (view ?s) (gid tx) = Some tx)" using spec(2) by (simp add: spec_delete_def)
    then show ?thesis using NoFault del Cons.IH [of "?w s'"] Cons.prems(1) kept spec(1)
      by (simp add: then_ok_def store_op_def store Let_def)
  qed (use del kept start(2) in \<open>simp_all add: then_ok_def store_op_def store Let_def\<close>)
qed (simp add: ok_apply)

text \<open>A purge under a valid policy, past the check of the policy and the reading of the clock.\<close>

lemma purge_unfold:
  assumes "retention_validate policy = Inr policy"
  shows "purge_expired_transactions D policy w =
    then_ok (store_op D (\<lambda>_. list_transactions ops))
      (\<lambda>ts. purge_loop D (victims policy (clock D (w_step w)) ts) \<lparr>scanned = length ts, eligible = 0, deleted = 0, conflicts = 0\<rparr>)
      (w\<lparr>w_step := Suc (w_step w)\<rparr>)"
  unfolding purge_expired_transactions_def assms then_ok_lift_Inr
  by (subst then_ok_eq(1) [where m = "current_millis D"]) (simp_all add: current_millis_def store victims_def Let_def)

lemma store_op_cases:
  assumes "m (clock D (w_step w)) (interfere D (w_step w) (w_store w)) = (r, s')"
  obtains "faults D (w_step w) = NoFault" "store_op D m w = (r, w\<lparr>w_store := s', w_step := Suc (w_step w)\<rparr>)"
    | e u where "store_op D m w = (Inl e, u)" "w_store u = interfere D (w_step w) (w_store w) \<or> w_store u = s'"
  using assms that by (cases "faults D (w_step w)") (simp_all add: store_op_def Let_def)

lemma purge_spares:
  assumes others: "\<And>n s. good s \<Longrightarrow> unexpired policy (clock D (w_step w)) g (view s)
      \<Longrightarrow> unexpired policy (clock D (w_step w)) g (view (interfere D n s))"
    and "G w" and kept: "unexpired policy (clock D (w_step w)) g (view (w_store w))"
  shows "unexpired policy (clock D (w_step w)) g (view (w_store (snd (purge_expired_transactions D policy w))))"
proof (cases "retention_validate policy")
  case (Inl e)
  then show ?thesis using kept by (simp add: purge_expired_transactions_def fail_apply)
next
  case (Inr q)
  then have valid: "retention_validate policy = Inr policy" by (simp add: retention_validate_ok)
  let ?now = "clock D (w_step w)" and ?s = "interfere D (Suc (w_step w)) (w_store w)" and ?u = "w\<lparr>w_step := Suc (w_step w)\<rparr>"
  have start: "good ?s" "unexpired policy ?now g (view ?s)"
    using interference others [OF \<open>G w\<close> kept] \<open>G w\<close> by auto
  obtain listed where listed: "list_transactions ops ?s = (listed, ?s)" using list_law [OF start(1)] by blast
  let ?w = "w\<lparr>w_store := ?s, w_step := Suc (Suc (w_step w))\<rparr>"
  have step: "(\<lambda>_. list_transactions ops) (clock D (w_step ?u)) (interfere D (w_step ?u) (w_store ?u)) = (listed, ?s)"
    using listed by simp
  have loop: "unexpired policy ?now g (view (w_store (snd (purge_loop D (victims policy ?now ts) report ?w))))" for ts report
  proof (rule purge_loop_spares [OF others])
    show "\<forall>tx \<in> set (victims policy ?now ts). transaction_expired tx ?now policy" by (auto simp: victims_def dest: in_set_takeD)
  qed (use start in simp_all)
  show ?thesis
  proof (cases rule: store_op_cases [of "\<lambda>_. list_transactions ops", OF step])
    case 1
    then show ?thesis using loop start(2) unfolding purge_unfold [OF valid] by (cases listed) (simp_all add: then_ok_eq)
  next
    case (2 e u)
    then show ?thesis using start(2) unfolding purge_unfold [OF valid] by (auto simp: then_ok_eq)
  qed
qed

text \<open>The transactions of a list are deleted one after the other.\<close>

lemma store_op_alone:
  assumes "interfere D (w_step w) (w_store w) = w_store w" and "faults D (w_step w) = NoFault"
    and "m (clock D (w_step w)) (w_store w) = (r, s')"
  shows "store_op D m w = (r, w\<lparr>w_store := s', w_step := Suc (w_step w)\<rparr>)"
  using assms by (simp add: store_op_def Let_def)

lemma deletes:
  assumes "delete_if_unchanged ops tx s = (r, s')" and "good s" and "a_txs (view s) (gid tx) = Some tx"
  shows "good s'" and "r = Inr True" and "a_txs (view s') = (a_txs (view s))(gid tx := None)"
  using delete_law [OF assms(2,1)] assms(3) by (auto simp: spec_delete_def)

lemma purge_loop_exact:
  assumes alone: "\<And>n s. interfere D n s = s" "\<And>n. faults D n = NoFault"
    and "distinct (map gid ts)" and "\<forall>tx \<in> set ts. a_txs (view (w_store w)) (gid tx) = Some tx" and "G w"
  shows "\<exists>w'. purge_loop D ts report w =
       (Inr (report\<lparr>eligible := eligible report + length ts, deleted := deleted report + length ts\<rparr>), w')
     \<and> (\<forall>h. a_txs (view (w_store w')) h = (if h \<in> gid ` set ts then None else a_txs (view (w_store w)) h))"
  using assms(3-5)
proof (induction ts arbitrary: report w)
  case Nil
  then show ?case by (simp add: ok_apply)
next
  case (Cons tx ts)
  obtain r s' where del: "delete_if_unchanged ops tx (w_store w) = (r, s')" by fastforce
  have spec: "good s'" "r = Inr True" "a_txs (view s') = (a_txs (view (w_store w)))(gid tx := None)"
    by (rule deletes [OF del Cons.prems(3)], use Cons.prems(2) in simp)+
  let ?w = "w\<lparr>w_store := s', w_step := Suc (w_step w)\<rparr>" and ?rep = "report\<lparr>eligible := eligible report + 1, deleted := deleted report + 1\<rparr>"
  have step: "store_op D (\<lambda>_. delete_if_unchanged (dtm_store D) tx) w = (Inr True, ?w)"
    by (rule store_op_alone [OF alone]) (simp add: store del spec(2))
  have "gid t \<noteq> gid tx" if "t \<in> set ts" for t using Cons.prems(1) imageI [OF that, of gid] by (auto simp del: imageI)
  then have held: "\<forall>t \<in> set ts. a_txs (view (w_store ?w)) (gid t) = Some t" using Cons.prems(2) by (simp add: spec(3))
  have "distinct (map gid ts)" "G ?w" using Cons.prems(1) spec(1) by simp_all
  from Cons.IH [OF this(1) held this(2), of ?rep] obtain w' where rest: "purge_loop D ts ?rep ?w =
       (Inr (?rep\<lparr>eligible := eligible ?rep + length ts, deleted := deleted ?rep + length ts\<rparr>), w')"
     "\<forall>h. a_txs (view (w_store w')) h = (if h \<in> gid ` set ts then None else a_txs (view (w_store ?w)) h)"
    by blast
  have unfold: "purge_loop D (tx # ts) report w = purge_loop D ts ?rep ?w"
    unfolding purge_loop.simps by (subst then_ok_eq(1), rule step) simp
  show ?case
  proof (intro exI [of _ w'] conjI allI)
    show "purge_loop D (tx # ts) report w =
        (Inr (report\<lparr>eligible := eligible report + length (tx # ts), deleted := deleted report + length (tx # ts)\<rparr>), w')"
      unfolding unfold rest(1) by simp
    show "a_txs (view (w_store w')) h = (if h \<in> gid ` set (tx # ts) then None else a_txs (view (w_store w)) h)" for h
      unfolding rest(2) [rule_format] by (simp add: spec(3))
  qed
qed

lemma purge_exact:
  assumes alone: "\<And>n s. interfere D n s = s" "\<And>n. faults D n = NoFault" and "G w"
    and valid: "retention_validate policy = Inr policy" and listed: "list_transactions ops (w_store w) = (Inr ts, w_store w)"
  shows "\<exists>w'. purge_expired_transactions D policy w =
       (Inr \<lparr>scanned = length ts, eligible = length (victims policy (clock D (w_step w)) ts),
          deleted = length (victims policy (clock D (w_step w)) ts), conflicts = 0\<rparr>, w')
     \<and> (\<forall>h. a_txs (view (w_store w')) h =
          (if h \<in> gid ` set (victims policy (clock D (w_step w)) ts) then None else a_txs (view (w_store w)) h))"
proof -
  let ?now = "clock D (w_step w)" and ?w = "w\<lparr>w_step := Suc (Suc (w_step w))\<rparr>"
  let ?vs = "victims policy ?now ts" and ?rep = "\<lparr>scanned = length ts, eligible = 0, deleted = 0, conflicts = 0\<rparr>"
  have all: "set ts = ran (a_txs (view (w_store w)))" "distinct (map gid ts)"
    using list_law [OF \<open>G w\<close>] listed by auto
  have stored: "a_txs (view (w_store w)) (gid tx) = Some tx" if "tx \<in> set ts" for tx
    using that own_gid [OF \<open>G w\<close>] by (auto simp: all(1) ran_def)
  have sub: "set ?vs \<subseteq> set ts" by (auto simp: victims_def dest: in_set_takeD)
  have "distinct (map gid (sort_key (\<lambda>tx. (updated_at_millis tx, gid tx)) ts))"
    using all(2) by (simp add: distinct_map)
  then have dist: "distinct (map gid ?vs)" unfolding victims_def by (simp add: take_map [symmetric] distinct_map_filter)
  have held: "\<forall>tx \<in> set ?vs. a_txs (view (w_store ?w)) (gid tx) = Some tx" using stored sub by auto
  have "G ?w" using \<open>G w\<close> by simp
  from purge_loop_exact [OF alone dist held this, of ?rep]
  obtain w' where loop: "purge_loop D ?vs ?rep ?w = (Inr (?rep\<lparr>eligible := eligible ?rep + length ?vs, deleted := deleted ?rep + length ?vs\<rparr>), w')"
     "\<forall>h. a_txs (view (w_store w')) h = (if h \<in> gid ` set ?vs then None else a_txs (view (w_store ?w)) h)"
    by blast
  have "store_op D (\<lambda>_. list_transactions ops) (w\<lparr>w_step := Suc (w_step w)\<rparr>) = (Inr ts, ?w)"
    using store_op_alone [OF alone, of "\<lambda>_. list_transactions ops" "w\<lparr>w_step := Suc (w_step w)\<rparr>"] listed by simp
  then have "purge_expired_transactions D policy w = purge_loop D ?vs ?rep ?w"
    unfolding purge_unfold [OF valid] by (rule then_ok_eq(1))
  then show ?thesis using loop by simp
qed

end

text \<open>
  C24: Retention deletes what has expired, and nothing else. On every store with the contract of \<open>transaction_store\<close>, whatever others do to the store at the same time
  and whichever requests are lost, a transaction that is stored and not expired at the time of the purge, and that others keep so,
  is still stored and not expired afterwards: a transaction is never deleted on the strength of a reading that is out of date. Left alone, a purge
  under a valid policy deletes exactly the first expired transactions, ordered by the time of their last update and their gid, up to the size of
  the batch; it reports how many it scanned and deleted, and no conflict.
\<close>

theorem retention_deletes_expired:
  assumes "transaction_store ops good view same" and "dtm_store D = ops"
    and "\<And>n s. good s \<Longrightarrow> good (interfere D n s)" and "good (w_store w)" and "now = clock D (w_step w)"
  shows "((\<forall>n s. good s \<and> unexpired policy now g (view s) \<longrightarrow> unexpired policy now g (view (interfere D n s)))
        \<and> unexpired policy now g (view (w_store w))
      \<longrightarrow> unexpired policy now g (view (w_store (snd (purge_expired_transactions D policy w)))))
    \<and> ((\<forall>n s. interfere D n s = s) \<and> (\<forall>n. faults D n = NoFault) \<and> retention_validate policy = Inr policy
        \<and> list_transactions ops (w_store w) = (Inr ts, w_store w)
      \<longrightarrow> (\<exists>w'. purge_expired_transactions D policy w = (Inr \<lparr>scanned = length ts, eligible = length (victims policy now ts),
              deleted = length (victims policy now ts), conflicts = 0\<rparr>, w')
          \<and> (\<forall>h. a_txs (view (w_store w')) h = (if h \<in> gid ` set (victims policy now ts) then None else a_txs (view (w_store w)) h))))"
proof -
  have prov: "shared_store ops good view same D" using assms(1-3) by (simp add: shared_store_def shared_store_axioms_def)
  show ?thesis
    using shared_store.purge_spares [OF prov, of policy w g] shared_store.purge_exact [OF prov, of w policy ts] assms(4,5) by blast
qed

text \<open>Two transactions of which one was finished long ago.\<close>

definition short_policy :: retention_policy where
  "short_policy = \<lparr>data_expire_millis = 1000, finished_data_expire_millis = 500, batch_size = 10\<rparr>"

definition old_tx :: transaction where
  "old_tx = set_status Succeeded (transaction_tcc 100 ''g1'' [])"

definition young_tx :: transaction where
  "young_tx = set_status Succeeded (transaction_tcc 1900 ''g2'' [])"

definition aged_world :: "mem_store world" where
  "aged_world = \<lparr>w_store = mem_new\<lparr>txs := [(''g1'', old_tx), (''g2'', young_tx)]\<rparr>, w_step = 0, w_events = []\<rparr>"

theorem retention_deletes_expired_witness:
  "\<exists>w'. purge_expired_transactions sample_dtm short_policy aged_world = (Inr \<lparr>scanned = 2, eligible = 1, deleted = 1, conflicts = 0\<rparr>, w')
    \<and> bt_get (txs (w_store w')) ''g1'' = None \<and> bt_get (txs (w_store w')) ''g2'' = Some young_tx
    \<and> unexpired short_policy 2000 ''g2'' (mem_view (w_store w'))"
proof -
  have old: "gid old_tx = ''g1''" "transaction_expired old_tx 2000 short_policy" "updated_at_millis old_tx = 100"
    and young: "gid young_tx = ''g2''" "\<not> transaction_expired young_tx 2000 short_policy" "updated_at_millis young_tx = 1900"
    by (simp_all add: old_tx_def young_tx_def transaction_tcc_def transaction_new_def transaction_expired_def short_policy_def sat_sub_def set_status_def)
  have good: "mem_good (w_store aged_world)"
    using old(1) young(1) by (auto simp: aged_world_def mem_good_def mem_new_def bt_wf_def bt_get_def)
  have listed: "list_transactions mem_ops (w_store aged_world) = (Inr [old_tx, young_tx], w_store aged_world)"
    by (simp add: mem_list_transactions_def aged_world_def bt_values_def)
  have vs: "victims short_policy 2000 [old_tx, young_tx] = [old_tx]"
    using old young by (simp add: victims_def short_policy_def)
  have valid: "retention_validate short_policy = Inr short_policy" by (simp add: retention_validate_ok short_policy_def)
  have now: "2000 = clock sample_dtm (w_step aged_world)" by (simp add: sample_dtm_def)
  have calm: "(\<forall>n s. interfere sample_dtm n s = s) \<and> (\<forall>n. faults sample_dtm n = NoFault)" "dtm_store sample_dtm = mem_ops" "\<And>n s. mem_good s \<Longrightarrow> mem_good (interfere sample_dtm n s)"
    by (simp_all add: sample_dtm_def)
  have fresh: "unexpired short_policy 2000 ''g2'' (mem_view (w_store aged_world))"
    using young(2) by (simp add: unexpired_def mem_view_def aged_world_def bt_get_def mem_new_def)
  from retention_deletes_expired [OF mem.transaction_store_axioms calm(2,3) good now, of short_policy "''g2''" "[old_tx, young_tx]"] calm(1) valid listed fresh
  obtain w' where run: "purge_expired_transactions sample_dtm short_policy aged_world = (Inr \<lparr>scanned = 2, eligible = 1, deleted = 1, conflicts = 0\<rparr>, w')"
    and left: "\<forall>h. a_txs (mem_view (w_store w')) h = (if h \<in> gid ` set [old_tx] then None else a_txs (mem_view (w_store aged_world)) h)"
    and kept: "unexpired short_policy 2000 ''g2'' (mem_view (w_store w'))"
    unfolding vs by (auto simp: numeral_2_eq_2)
  show ?thesis
    using run kept left [rule_format, of "''g1''"] left [rule_format, of "''g2''"] old(1)
    by (auto simp: mem_view_def aged_world_def bt_get_def mem_new_def)
qed

end
