(* ===== verification/Client_Service.thy ===== *)
theory Client_Service
  imports Client_Sdk Service_Orphans Shared_Store
begin

text \<open>
  The client libraries talking to the service: how the service reads the requests the HTTP client sends
  (its routes, and the structures it declares for the bodies) and writes the replies the client reads, with a network that loses
  requests and replies. What follows for a client: when a global XA operation returns, the decision it reports is stored; what
  it records of a callback workflow is what it reads back; and what it can never read.
\<close>

section \<open>From the client to the service\<close>

text \<open>
  \<open>CompatTransactionRequest\<close> and \<open>CompatBranchRequest\<close> are read from the fields of an object: every field has a default,
  one has an alias.
\<close>

definition alias_opt_field :: "(string \<times> json) list \<Rightarrow> string \<Rightarrow> string \<Rightarrow> (json \<Rightarrow> 'a option) \<Rightarrow> 'a option option" where
  "alias_opt_field fs k k' d =
     (if map_of fs k \<noteq> None \<and> map_of fs k' \<noteq> None then None
      else if map_of fs k \<noteq> None then opt_field fs k d else opt_field fs k' d)"

definition decode_compat_transaction :: "(string \<times> json) list \<Rightarrow> compat_transaction_request option" where
  "decode_compat_transaction fs =
     Option.bind (def_field fs ''gid'' [] as_str) (\<lambda>g.
     Option.bind (def_field fs ''trans_type'' [] as_str) (\<lambda>kind.
     Option.bind (def_field fs ''steps'' [] (as_list as_string_map)) (\<lambda>steps.
     Option.bind (def_field fs ''payloads'' [] (as_list Some)) (\<lambda>payloads.
     Option.bind (opt_field fs ''timeout_to_fail'' as_u64) (\<lambda>timeout_to_fail.
     Option.bind (opt_field fs ''rollback_reason'' as_str) (\<lambda>reason.
     Option.bind (alias_opt_field fs ''custom_data'' ''customed_data'' as_str) (\<lambda>custom.
     Option.bind (opt_field fs ''query_prepared'' as_str) (\<lambda>prepared.
     Option.bind (def_field fs ''wait_result'' False as_bool) (\<lambda>wait.
     Option.bind (def_field fs ''concurrent'' False as_bool) (\<lambda>conc.
     Option.bind (opt_field fs ''retry_interval'' as_u64) (\<lambda>interval.
     Option.bind (opt_field fs ''request_timeout'' as_u64) (\<lambda>timeout.
     Option.bind (opt_field fs ''retry_limit'' as_u64) (\<lambda>limit.
     Option.bind (def_field fs ''branch_headers'' [] as_string_map) (\<lambda>headers.
     Option.bind (def_field fs ''req_extra'' [] as_string_map) (\<lambda>extra.
     Some \<lparr>cr_gid = g, cr_trans_type = kind, cr_steps = steps, cr_payloads = payloads, cr_timeout_to_fail = timeout_to_fail,
       cr_rollback_reason = reason, cr_custom_data = custom, cr_query_prepared = prepared, cr_wait_result = wait,
       cr_concurrent = conc, cr_retry_interval = interval, cr_request_timeout = timeout, cr_retry_limit = limit,
       cr_branch_headers = headers, cr_req_extra = extra, cr_protocol = ViaHttp\<rparr>)))))))))))))))"

definition decode_compat_branch :: "(string \<times> json) list \<Rightarrow> compat_branch_request option" where
  "decode_compat_branch fs =
     Option.bind (def_field fs ''gid'' [] as_str) (\<lambda>g.
     Option.bind (def_field fs ''trans_type'' [] as_str) (\<lambda>kind.
     Option.bind (def_field fs ''branch_id'' [] as_str) (\<lambda>b.
     Option.bind (opt_field fs ''data'' as_str) (\<lambda>txt.
     Option.bind (opt_field fs ''op'' as_str) (\<lambda>oper.
     Option.bind (opt_field fs ''status'' as_str) (\<lambda>st.
     Option.bind (opt_field fs ''confirm'' as_str) (\<lambda>confirm_url.
     Option.bind (opt_field fs ''cancel'' as_str) (\<lambda>cancel_url.
     Option.bind (opt_field fs ''url'' as_str) (\<lambda>url2.
     Some \<lparr>cb_req_gid = g, cb_trans_type = kind, cb_branch_id = b, cb_text = txt, cb_op = oper, cb_status = st,
       cb_confirm = confirm_url, cb_cancel = cancel_url, cb_url2 = url2, cb_binary = None\<rparr>)))))))))"

text \<open>The query strings of the routes the client uses, every name given once; a missing text is empty, a missing option absent.\<close>

definition topic_query_of :: "(string \<times> string) list \<Rightarrow> topic_query" where
  "topic_query_of ps = \<lparr>tp_topic = unwrap_or_default (map_of ps ''topic''), tp_url = unwrap_or_default (map_of ps ''url''),
     tp_remark = unwrap_or_default (map_of ps ''remark'')\<rparr>"

definition kv_query_of :: "(string \<times> string) list \<Rightarrow> kv_query option" where
  "kv_query_of ps =
     Option.bind (case map_of ps ''limit'' of None \<Rightarrow> Some None
       | Some v \<Rightarrow> (case parse_uint v of None \<Rightarrow> None | Some n \<Rightarrow> if n < 2 ^ 64 then Some (Some n) else None)) (\<lambda>limit.
     Some \<lparr>kq_cat = map_of ps ''cat'', kq_key = map_of ps ''key'', kq_position = map_of ps ''position'', kq_limit = limit\<rparr>)"

text \<open>
  What the HTTP framework does where the routes below do not say it: other routes, the answer to a request it rejects, and the
  JSON of other replies.
\<close>

record framework =
  fw_route :: "client_request \<Rightarrow> http_call option"
  fw_reject :: "client_request \<Rightarrow> client_response"
  fw_reply :: "reply_body \<Rightarrow> json option"

definition post_routes :: "(string \<times> ((string \<times> json) list \<Rightarrow> http_call option)) list" where
  "post_routes =
     [(''/api/dtmsvr/prepare'', \<lambda>fs. map_option (CompatWrite OpPrepare) (decode_compat_transaction fs)),
      (''/api/dtmsvr/submit'', \<lambda>fs. map_option (CompatWrite OpSubmit) (decode_compat_transaction fs)),
      (''/api/dtmsvr/abort'', \<lambda>fs. map_option (CompatWrite OpAbort) (decode_compat_transaction fs)),
      (''/api/dtmsvr/registerBranch'', \<lambda>fs. map_option CompatRegisterBranch (decode_compat_branch fs)),
      (''/api/dtmsvr/registerTccBranch'', \<lambda>fs. map_option CompatRegisterBranch (decode_compat_branch fs)),
      (''/api/dtmsvr/registerXaBranch'', \<lambda>fs. map_option CompatRegisterBranch (decode_compat_branch fs)),
      (''/api/dtmsvr/prepareWorkflow'', \<lambda>fs. map_option CompatPrepareWorkflow (decode_compat_transaction fs)),
      (''/api/dtmsvr/forceStop'', \<lambda>fs. map_option CompatForceStop (decode_compat_transaction fs)),
      (''/api/dtmsvr/resetNextCronTime'', \<lambda>fs. map_option CompatResetRetry (decode_compat_transaction fs))]"

definition get_routes :: "(string \<times> ((string \<times> string) list \<Rightarrow> http_call option)) list" where
  "get_routes =
     [(''/api/dtmsvr/newGid'', \<lambda>_. Some CompatNewGid),
      (''/api/dtmsvr/subscribe'', \<lambda>ps. Some (CompatSubscribe (topic_query_of ps))),
      (''/api/dtmsvr/unsubscribe'', \<lambda>ps. Some (CompatUnsubscribe (topic_query_of ps))),
      (''/api/dtmsvr/scanKV'', \<lambda>ps. map_option CompatScanKv (kv_query_of ps)),
      (''/api/dtmsvr/queryKV'', \<lambda>ps. map_option CompatQueryKv (kv_query_of ps))]"

definition route_call :: "framework \<Rightarrow> string \<Rightarrow> client_request \<Rightarrow> http_call option" where
  "route_call F base rq =
     (case strip_prefix base (sq_url rq) of None \<Rightarrow> fw_route F rq
      | Some p \<Rightarrow>
          if sq_method rq = ''POST''
          then (case (map_of post_routes p, sq_json rq) of (Some decode, Some (JObject fs)) \<Rightarrow> decode fs | _ \<Rightarrow> fw_route F rq)
          else if sq_method rq = ''GET''
          then (case map_of get_routes p of Some decode \<Rightarrow> decode (sq_params rq) | None \<Rightarrow> fw_route F rq)
          else fw_route F rq)"

section \<open>From the service to the client\<close>

definition workflow_json :: "compat_workflow_reply \<Rightarrow> json" where
  "workflow_json r =
     JObject [(''transaction'', JObject [(''gid'', JString (rp_gid r)), (''status'', JString (rp_status r)),
         (''rollback_reason'', JString (rp_rollback_reason r)), (''result'', JString (rp_result r))]),
       (''progresses'', JArray (map (\<lambda>p. JObject [(''status'', JString (pr_status p)), (''bin_data'', JString (pr_bin_data p)),
         (''branch_id'', JString (pr_branch_id p)), (''op'', JString (pr_op p))]) (rp_progresses r))),
       (''dtm_result'', JString ''SUCCESS'')]"

definition kv_json :: "compat_kv_entry \<Rightarrow> json" where
  "kv_json e =
     JObject [(''id'', JInt 0), (''create_time'', JString (ck_create_time e)), (''update_time'', JString (ck_update_time e)),
       (''cat'', JString (ck_cat e)), (''k'', JString (ck_k e)), (''v'', JString (ck_v e)), (''version'', JInt (uint (ck_version e)))]"

fun reply_json :: "framework \<Rightarrow> reply_body \<Rightarrow> json option" where
  "reply_json F CompatSuccess = Some (JObject [(''dtm_result'', JString ''SUCCESS'')])"
| "reply_json F (CompatFailure m) = Some (JObject [(''dtm_result'', JString ''FAILURE''), (''message'', JString m)])"
| "reply_json F (CompatGid g) = Some (JObject [(''gid'', JString g), (''dtm_result'', JString ''SUCCESS'')])"
| "reply_json F (CompatWorkflowBody r) = Some (workflow_json r)"
| "reply_json F (CompatKv es None) = Some (JObject [(''kv'', JArray (map kv_json es)), (''dtm_result'', JString ''SUCCESS'')])"
| "reply_json F (CompatKv es (Some position)) = Some (JObject [(''next_position'', JString position),
     (''kv'', JArray (map kv_json es)), (''dtm_result'', JString ''SUCCESS'')])"
| "reply_json F b = fw_reply F b"

definition response_of :: "framework \<Rightarrow> http_reply \<Rightarrow> client_response" where
  "response_of F r = \<lparr>cs_status = reply_status r, cs_json = reply_json F (reply_body_of r)\<rparr>"

text \<open>The service at a base URL as the wire of a client, with a network that loses requests or replies.\<close>

definition over_service :: "framework \<Rightarrow> string \<Rightarrow> 's service \<Rightarrow> ('s control \<Rightarrow> fault) \<Rightarrow> 's control http_wire" where
  "over_service F base S loss rq c =
     (if loss c = LostRequest then (None, c)
      else case route_call F base rq of
        None \<Rightarrow> (Some (fw_reject F rq), c)
      | Some call \<Rightarrow>
          (case control_router S (sq_authorization rq) call c of
             (Inl _, c') \<Rightarrow> (None, c')
           | (Inr reply, c') \<Rightarrow> (if loss c = LostReply then None else Some (response_of F reply), c')))"

definition over_grpc_service :: "'s service \<Rightarrow> ('s control \<Rightarrow> fault) \<Rightarrow> 's control grpc_wire" where
  "over_grpc_service S loss header call c =
     (if loss c = LostRequest then (None, c)
      else case grpc_service S header call c of
        (Inl _, c') \<Rightarrow> (None, c')
      | (Inr result, c') \<Rightarrow> (if loss c = LostReply then None else Some result, c'))"


section \<open>Key-value entries\<close>

lemma kv_json_unreadable: "kv_entry_of_json (kv_json e) = None"
  by (simp add: kv_entry_of_json_def kv_json_def alias_field_def req_field_def del: as_u64.simps)

lemma decode_kv_reply:
  "decode_kv (response_of F (ok_response (CompatKv es None))) = (if es = [] then Inr [] else Inl NotDecodable)"
  by (cases es) (simp_all add: decode_kv_def response_of_def ok_response_def json_of_response_def status_success_def
      json_get_def kv_json_unreadable)

lemma strip_prefix_self [simp]: "strip_prefix base (base @ p) = Some p"
  by (simp add: strip_prefix_def)

lemma send_over_service:
  assumes "send_authorized L (over_service F base S loss) cl method url params body c = (Inr r, c')"
  shows "(\<exists>call reply. route_call F base \<lparr>sq_method = method, sq_url = url, sq_params = params, sq_json = body,
         sq_authorization = bearer (bearer_token cl)\<rparr> = Some call
       \<and> control_router S (bearer (bearer_token cl)) call c = (Inr reply, c') \<and> r = response_of F reply)
    \<or> route_call F base \<lparr>sq_method = method, sq_url = url, sq_params = params, sq_json = body,
         sq_authorization = bearer (bearer_token cl)\<rparr> = None"
  using assms
  by (auto simp: send_authorized_def over_service_def act_simps ensure_def split: if_splits option.splits prod.splits sum.splits)

definition kv_params :: "string option \<Rightarrow> string option \<Rightarrow> (string \<times> string) list" where
  "kv_params category key = (case category of None \<Rightarrow> [] | Some c \<Rightarrow> [(''cat'', c)]) @ (case key of None \<Rightarrow> [] | Some k \<Rightarrow> [(''key'', k)])"

lemma kv_route:
  "route_call F base \<lparr>sq_method = ''GET'', sq_url = base @ ''/api/dtmsvr/queryKV'', sq_params = kv_params category key, sq_json = None,
     sq_authorization = h\<rparr> = Some (CompatQueryKv \<lparr>kq_cat = category, kq_key = key, kq_position = None, kq_limit = None\<rparr>)"
  by (auto simp: route_call_def get_routes_def kv_query_of_def kv_params_def split: option.splits)

lemma compat_query_kv_replies:
  assumes "compat_query_kv S h q c = (Inr reply, c')"
  shows "(\<exists>es. reply = ok_response (CompatKv es None)) \<or> \<not> status_success (reply_status reply)"
  using assms
  by (auto simp: compat_query_kv_def guarded_def branch_on_def act_simps unauthorized_response_def error_response_def
      compat_failure_def status_success_def split: if_splits prod.splits sum.splits)

lemma decode_kv_failed: "\<not> status_success (cs_status r) \<Longrightarrow> \<exists>e. decode_kv r = Inl e"
  by (auto simp: decode_kv_def json_of_response_def ok_or_def split: option.splits)

text \<open>
  C37: The HTTP client never reads a key-value entry. The service writes an entry with the times as text, as the compatible API
  demands, while the client insists on the fields with milliseconds of the coordinator's own structure: a query that finds
  entries is reported as an error, and a query that returns has returned nothing.
\<close>

theorem client_never_reads_kv:
  assumes "parse_url L (base_url cl @ ''/api/dtmsvr/queryKV'') \<noteq> None" and "opt_all (header_value_ok L) (bearer (bearer_token cl))"
    and "authorize S (bearer (bearer_token cl))" and "loss c = NoFault"
    and "list_kv_entries S (nonempty category) (nonempty key) 0 200 c = (Inr entries, c1)"
  shows "client_query_kv L (over_service F (base_url cl) S loss) cl category key c
      = (if entries = [] then Inr [] else Inl NotDecodable, c1)"
proof -
  have "compat_query_kv S (bearer (bearer_token cl)) \<lparr>kq_cat = category, kq_key = key, kq_position = None, kq_limit = None\<rparr> c
      = (Inr (ok_response (CompatKv (map compat_kv_entry_of entries) None)), c1)"
    using assms(3,5) by (simp add: compat_query_kv_def guarded_def branch_on_def act_simps)
  then have "send_authorized L (over_service F (base_url cl) S loss) cl ''GET'' (base_url cl @ ''/api/dtmsvr/queryKV'')
      (kv_params category key) None c = (Inr (response_of F (ok_response (CompatKv (map compat_kv_entry_of entries) None))), c1)"
    using assms(1,2,4) by (simp add: send_authorized_def over_service_def kv_route)
  then show ?thesis by (simp add: client_query_kv_def kv_params_def [symmetric] then_ok_eq decode_kv_reply lift_res_apply)
qed

section \<open>The decision of a global XA operation\<close>

context shared_store
begin

text \<open>The decision is stored when the handler returns: it is the status it started the loop with, or the final one.\<close>

abbreviation decided :: "string \<Rightarrow> transaction_status set \<Rightarrow> 's world \<Rightarrow> bool" where
  "decided g sts \<equiv> \<lambda>w. \<exists>tx. a_txs (view (w_store w)) g = Some tx \<and> tkind tx = Xa \<and> tstatus tx \<in> sts"

lemma persist_decides:
  "gid tx = g \<Longrightarrow> tkind tx = Xa \<Longrightarrow> tstatus tx \<in> sts \<Longrightarrow> hoare G (persist_transaction D tx) (\<lambda>_ w. G w \<and> decided g sts w) G"
  by (rule hoare_weaken [OF persist_hoare]) (auto simp: bump_transaction_revision_def)

lemma xa_loop_decides:
  assumes "gid tx = g" and "tkind tx = Xa" and "tstatus tx \<in> sts" and "final \<in> sts"
  shows "hoare G (xa_loop D oper url_of fin_b final is tx) (\<lambda>_ w. G w \<and> decided g sts w) G"
  using assms
proof (induction "is" arbitrary: tx)
  case (Cons i "is")
  then show ?case
    by (auto simp: Let_def intro!: step_then [OF claim_hoare] step_then [OF invoke_hoare] step_then [OF release_hoare]
        lift_then persist_decides hoare_fail split: option.split)
qed (simp add: persist_decides)

lemma xa_handler_decides:
  assumes "final \<in> sts" and "st \<in> sts"
  shows "hoare G (then_ok (transaction_of_kind D g Xa) (\<lambda>tx. if tstatus tx = final then ok tx
     else then_ok (lift_res (ensure_status tx allowed)) (\<lambda>_. xa_loop D oper url_of fin_b final (is tx) (set_status st tx))))
     (\<lambda>_ w. G w \<and> decided g sts w) G"
proof (rule hoare_then_ok [OF fetched_kind])
  fix tx
  have loop: "hoare G (then_ok (lift_res (ensure_status tx allowed)) (\<lambda>_. xa_loop D oper url_of fin_b final (is tx) (set_status st tx)))
      (\<lambda>_ w. G w \<and> decided g sts w) G" if "gid tx = g" "tkind tx = Xa"
    using that assms by (intro lift_then xa_loop_decides) simp_all
  show "hoare (\<lambda>w. G w \<and> gid tx = g \<and> tkind tx = Xa \<and> a_txs (view (w_store w)) g = Some tx)
     (if tstatus tx = final then ok tx
      else then_ok (lift_res (ensure_status tx allowed)) (\<lambda>_. xa_loop D oper url_of fin_b final (is tx) (set_status st tx)))
     (\<lambda>_ w. G w \<and> decided g sts w) G"
    using assms(1) loop by (auto simp: hoare_def ok_apply)
qed

lemma commit_decides: "hoare G (commit_xa D g) (\<lambda>_ w. G w \<and> decided g {Succeeding, Succeeded} w) G"
  unfolding commit_xa_def by (rule xa_handler_decides) simp_all

lemma rollback_decides: "hoare G (rollback_xa D g) (\<lambda>_ w. G w \<and> decided g {Aborting, Aborted} w) G"
  unfolding rollback_xa_def by (rule xa_handler_decides) simp_all

lemma prepare_decides: "hoare G (prepare_xa D g) (\<lambda>_ w. G w \<and> decided g {Prepared} w) G"
  unfolding prepare_xa_def
proof (rule hoare_then_ok [OF fetched_kind])
  fix tx
  have "hoare G (then_ok (lift_res (ensure_status tx [Submitted])) (\<lambda>_. persist_transaction D (set_status Prepared tx)))
      (\<lambda>_ w. G w \<and> decided g {Prepared} w) G" if "gid tx = g" "tkind tx = Xa"
    using that by (intro lift_then persist_decides) simp_all
  then show "hoare (\<lambda>w. G w \<and> gid tx = g \<and> tkind tx = Xa \<and> a_txs (view (w_store w)) g = Some tx)
     (if tstatus tx = Prepared then ok tx
      else then_ok (lift_res (ensure_status tx [Submitted])) (\<lambda>_. persist_transaction D (set_status Prepared tx)))
     (\<lambda>_ w. G w \<and> decided g {Prepared} w) G"
    by (auto simp: hoare_def ok_apply)
qed

end

text \<open>What each operation of the compatible API decides about an XA transaction.\<close>

fun decision :: "compat_operation \<Rightarrow> transaction_status set" where
  "decision OpPrepare = {Prepared}"
| "decision OpSubmit = {Succeeding, Succeeded}"
| "decision OpAbort = {Aborting, Aborted}"

text \<open>The same store behind the service.\<close>

lemma prepared_xa_kind: "compat_prepared now S Xa rq = Inr tx \<Longrightarrow> tkind tx = Xa"
  by (auto simp: compat_prepared_def compat_transaction_def res_bind_eq_Inr Let_def preserve_compat_metadata_def transaction_xa_def
      transaction_new_def split: option.splits)

locale shared_service = shared_store ops good view same "sv_dtm S"
  for ops :: "'s store_ops" and good view same and S :: "'s service"
begin

abbreviation GC :: "'s control \<Rightarrow> bool" where "GC \<equiv> \<lambda>c. good (w_store (c_world c))"

lemma on_dtm_hoare:
  assumes "hoare G m (\<lambda>x w. G w \<and> P w) G"
  shows "hoare GC (on_dtm m) (\<lambda>_ c. GC c \<and> P (c_world c)) GC"
  unfolding hoare_def
proof (intro allI impI)
  fix c assume "GC c"
  obtain r w where run: "m (c_world c) = (r, w)" by fastforce
  with hoareD [OF assms \<open>GC c\<close>] show "res_post (\<lambda>_ c. GC c \<and> P (c_world c)) GC (on_dtm m c)"
    by (cases r) (simp_all add: on_dtm_def map_err_def)
qed

lemma control_then: "hoare GC m (\<lambda>_ c. GC c \<and> True) GC \<Longrightarrow> (\<And>x. hoare GC (k x) Q GC) \<Longrightarrow> hoare GC (then_ok m k) Q GC"
  by (erule hoare_then_ok) simp

lemma control_lift: "(\<And>x. r = Inr x \<Longrightarrow> hoare GC (k x) Q GC) \<Longrightarrow> hoare GC (then_ok (lift_res r) k) Q GC"
  by (cases r) (simp_all add: hoare_fail)

lemma submit_hoare: "tkind tx = Xa \<Longrightarrow> hoare G (submit (sv_dtm S) tx) (\<lambda>_ w. G w \<and> True) G"
  unfolding submit_def Let_def
  by (auto intro!: lift_then step_then [OF insert_hoare] step_then [of "ok _"] hoare_ok)

lemma lookup_hoare: "hoare GC (lookup S g) (\<lambda>_ c. GC c \<and> True) GC"
  unfolding lookup_def by (rule on_dtm_hoare, rule hoare_weaken [OF get_hoare]) auto

lemma compat_create_hoare: "hoare GC (compat_create S Xa rq) (\<lambda>_ c. GC c \<and> True) GC"
  unfolding compat_create_def unix_millis_def
  by (intro control_then [OF on_dtm_hoare [OF millis_hoare]] control_lift on_dtm_hoare submit_hoare) (rule prepared_xa_kind)

lemma dispatch_decides:
  "hoare GC (compat_dispatch S Xa oper True g) (\<lambda>_ c. GC c \<and> decided g (decision oper) (c_world c)) GC"
  using on_dtm_hoare [OF prepare_decides, of g] on_dtm_hoare [OF commit_decides, of g] on_dtm_hoare [OF rollback_decides, of g]
  by (cases oper) (simp_all add: compat_dispatch_def)

lemma compat_apply_decides:
  assumes "parse_kind (cr_trans_type rq) = Inr Xa" and "cr_wait_result rq"
  shows "hoare GC (compat_apply S rq oper) (\<lambda>_ c. GC c \<and> decided (trim (cr_gid rq)) (decision oper) (c_world c)) GC"
proof -
  have created: "hoare GC (case existing of None \<Rightarrow> then_ok (compat_create S Xa rq) (\<lambda>_. ok ()) | Some _ \<Rightarrow> ok ()) (\<lambda>_ c. GC c \<and> True) GC"
    for existing by (cases existing) (auto intro: hoare_ok control_then [OF compat_create_hoare])
  show ?thesis
    using assms unfolding compat_apply_def Let_def
    by (auto simp: callback_workflow_completion_of_def map_err_def dispatch_decides
        intro!: control_lift control_then [OF lookup_hoare] control_then [OF created])
qed

end

section \<open>What a successful reply means\<close>

lemma audit_record_effect: "\<exists>c'. audit_record S event oc resource status c = (Inr (), c') \<and> w_store (c_world c') = w_store (c_world c)"
  by (simp add: audit_record_def unix_millis_def on_dtm_def current_millis_def act_simps map_err_def)

lemma audited_run:
  assumes "m c = (Inr tx, c1)"
  shows "\<exists>c'. audited S event g m c = (Inr tx, c') \<and> w_store (c_world c') = w_store (c_world c1)"
proof -
  let ?oc = "if list_ex (\<lambda>b. bstatus b \<in> {BFailed, BCompensating}) (branches tx) then ''pending_retry'' else ''success''"
  obtain c2 where "audit_record S event ?oc (Some (gid tx)) (Some (status_name (tstatus tx)))
      (c1\<lparr>c_metrics := record_dtm_transition event tx (c_metrics c1)\<rparr>) = (Inr (), c2)" "w_store (c_world c2) = w_store (c_world c1)"
    using audit_record_effect [of S event ?oc _ _ "c1\<lparr>c_metrics := record_dtm_transition event tx (c_metrics c1)\<rparr>"] by auto
  then show ?thesis
    using assms by (simp add: audited_def branch_on_def audit_transition_def metrics_record_def act_simps)
qed

lemma audited_success:
  assumes "audited S event g m c = (Inr tx, c')"
  shows "\<exists>c1. m c = (Inr tx, c1) \<and> w_store (c_world c') = w_store (c_world c1)"
proof -
  obtain r c1 where run: "m c = (r, c1)" by fastforce
  show ?thesis
  proof (cases r)
    case (Inl e)
    obtain c2 where "audit_record S event ''failed'' (Some g) None c1 = (Inr (), c2)" using audit_record_effect by blast
    then show ?thesis using assms run Inl by (simp add: audited_def branch_on_def audit_compat_failure_def act_simps)
  next
    case (Inr x)
    then show ?thesis using audited_run [of m c x c1 S event g] run assms by auto
  qed
qed

lemma compat_reply_success:
  assumes "compat_reply m message c = (Inr reply, c')" and "decode_compat_success (response_of F reply) = Inr ()"
  shows "\<exists>tx. m c = (Inr tx, c')"
  using assms by (auto simp: compat_reply_def branch_on_def act_simps compat_failure_def decode_compat_success_def response_of_def
      json_of_response_def status_success_def split: prod.splits sum.splits)

lemma guarded_success:
  assumes "guarded S h m c = (Inr reply, c')" and "decode_compat_success (response_of F reply) = Inr ()"
  shows "m c = (Inr reply, c')"
  using assms by (auto simp: guarded_def act_simps unauthorized_response_def error_response_def decode_compat_success_def
      response_of_def json_of_response_def status_success_def res_bind_eq_Inr split: if_splits)

lemma compat_post_success:
  assumes "compat_post L (over_service F (base_url cl) S loss) cl p (JObject fs) c = (Inr (), c')"
    and "map_of post_routes p = Some decode" and "decode fs = Some call"
  shows "\<exists>reply. control_router S (bearer (bearer_token cl)) call c = (Inr reply, c')
    \<and> decode_compat_success (response_of F reply) = Inr ()"
proof -
  obtain r where r: "send_authorized L (over_service F (base_url cl) S loss) cl ''POST'' (base_url cl @ p) [] (Some (JObject fs)) c = (Inr r, c')"
      "decode_compat_success r = Inr ()"
    using assms(1) by (auto simp: compat_post_def act_simps split: prod.splits sum.splits)
  have "route_call F (base_url cl) \<lparr>sq_method = ''POST'', sq_url = base_url cl @ p, sq_params = [], sq_json = Some (JObject fs),
      sq_authorization = bearer (bearer_token cl)\<rparr> = Some call"
    using assms(2,3) by (simp add: route_call_def)
  then show ?thesis using send_over_service [OF r(1)] r(2) by auto
qed

lemma compat_write_success:
  assumes "compat_write S h oper rq c = (Inr reply, c')" and "decode_compat_success (response_of F reply) = Inr ()"
  shows "\<exists>tx c1. compat_apply S rq oper c = (Inr tx, c1) \<and> w_store (c_world c') = w_store (c_world c1)"
  using guarded_success [OF assms(1) [unfolded compat_write_def] assms(2)] compat_reply_success [OF _ assms(2)] audited_success
  by metis

section \<open>Global XA operations\<close>

lemma xa_request_decoded:
  "\<exists>rq. decode_compat_transaction [(''gid'', JString g), (''trans_type'', JString ''xa''), (''wait_result'', JBool True)] = Some rq
    \<and> cr_gid rq = g \<and> parse_kind (cr_trans_type rq) = Inr Xa \<and> cr_wait_result rq"
  by (simp add: decode_compat_transaction_def def_field_def opt_field_def alias_opt_field_def parse_kind_def to_ascii_lowercase_def)

context shared_service
begin

lemma xa_operation_decides:
  assumes "GC c" and "compat_xa_operation L (over_service F (base_url cl) S loss) cl p g c = (Inr (), c')"
    and "map_of post_routes p = Some (\<lambda>fs. map_option (CompatWrite oper) (decode_compat_transaction fs))"
  shows "GC c' \<and> decided (trim g) (decision oper) (c_world c')"
proof -
  let ?fs = "[(''gid'', JString g), (''trans_type'', JString ''xa''), (''wait_result'', JBool True)]"
  obtain rq where rq: "decode_compat_transaction ?fs = Some rq" "cr_gid rq = g" "parse_kind (cr_trans_type rq) = Inr Xa" "cr_wait_result rq"
    using xa_request_decoded by blast
  have "compat_post L (over_service F (base_url cl) S loss) cl p (JObject ?fs) c = (Inr (), c')"
    using assms(2) by (auto simp: compat_xa_operation_def act_simps ensure_def split: if_splits)
  then obtain reply where "control_router S (bearer (bearer_token cl)) (CompatWrite oper rq) c = (Inr reply, c')"
      "decode_compat_success (response_of F reply) = Inr ()"
    using compat_post_success [OF _ assms(3)] rq(1) by fastforce
  then obtain tx c1 where "compat_apply S rq oper c = (Inr tx, c1)" "w_store (c_world c') = w_store (c_world c1)"
    using compat_write_success [of S "bearer (bearer_token cl)" oper rq c reply c' F] by auto
  then show ?thesis using hoare_Inr [OF compat_apply_decides [OF rq(3,4)] assms(1)] rq(2) by auto
qed

lemma xa_operations_decide:
  assumes "GC c"
  shows "client_prepare_xa L (over_service F (base_url cl) S loss) cl g c = (Inr (), c') \<Longrightarrow> GC c' \<and> decided (trim g) {Prepared} (c_world c')"
    and "client_commit_xa L (over_service F (base_url cl) S loss) cl g c = (Inr (), c') \<Longrightarrow>
      GC c' \<and> decided (trim g) {Succeeding, Succeeded} (c_world c')"
    and "client_rollback_xa L (over_service F (base_url cl) S loss) cl g c = (Inr (), c') \<Longrightarrow>
      GC c' \<and> decided (trim g) {Aborting, Aborted} (c_world c')"
  using xa_operation_decides [OF assms, of L F cl loss _ g c' OpPrepare] xa_operation_decides [OF assms, of L F cl loss _ g c' OpSubmit]
    xa_operation_decides [OF assms, of L F cl loss _ g c' OpAbort]
  by (auto simp: client_prepare_xa_def client_commit_xa_def client_rollback_xa_def post_routes_def)

end

lemma xa_operation_errors: "fst (compat_xa_operation L W cl p g c) \<noteq> Inl (BusinessFailed e)"
  by (auto simp: compat_xa_operation_def compat_post_def send_authorized_def decode_compat_success_def json_of_response_def ensure_def
      ok_or_def act_simps split: prod.splits sum.splits option.splits if_splits)

lemma xa_operations_errors:
  "client_prepare_xa L W cl g c \<noteq> (Inl (BusinessFailed e), c')"
  "client_commit_xa L W cl g c \<noteq> (Inl (BusinessFailed e), c')"
  unfolding client_prepare_xa_def client_commit_xa_def using xa_operation_errors by (metis fst_conv)+

definition xa_stored :: "('s \<Rightarrow> abs_store) \<Rightarrow> string \<Rightarrow> transaction_status set \<Rightarrow> 's control \<Rightarrow> bool" where
  "xa_stored view g sts c \<longleftrightarrow> (\<exists>tx. a_txs (view (w_store (c_world c))) g = Some tx \<and> tkind tx = Xa \<and> tstatus tx \<in> sts)"

text \<open>
  C13: A global XA operation reports the decision that is stored. The client prepares the transaction, runs the business closure
  and asks for the commit or the rollback, over a network that may lose every request and every reply, on any store
  with the contract of \<open>transaction_store\<close> that other coordinators write to at the same time, with any failures. When it returns a value, the closure
  returned that value, after the transaction had been prepared, and the stored transaction is committing or committed; when it returns
  the error of the closure, the stored transaction is aborting or aborted.
\<close>

theorem client_xa_decision:
  assumes "transaction_store ops good view same" and "dtm_store (sv_dtm S) = ops"
    and "\<And>n s. good s \<Longrightarrow> good (interfere (sv_dtm S) n s)"
    and "\<And>c. good (w_store (c_world c)) \<Longrightarrow> good (w_store (c_world (snd (work c))))"
    and "good (w_store (c_world c))"
    and "xa_global_transaction L (over_service F (base_url cl) S loss) cl g work c = (r, c')"
  shows "(\<forall>v. r = Inr v \<longrightarrow> xa_stored view (trim g) {Succeeding, Succeeded} c'
        \<and> (\<exists>c1 c2. xa_stored view (trim g) {Prepared} c1 \<and> work c1 = (Inr v, c2)))
    \<and> (\<forall>e. r = Inl (BusinessFailed e) \<longrightarrow> xa_stored view (trim g) {Aborting, Aborted} c'
        \<and> (\<exists>c1 c2. xa_stored view (trim g) {Prepared} c1 \<and> work c1 = (Inl e, c2)))"
proof -
  have prov: "shared_service ops good view same S"
    using assms(1-3) by (simp add: shared_service_def shared_store_def shared_store_axioms_def)
  let ?W = "over_service F (base_url cl) S loss"
  obtain p c1 x c2 where p: "client_prepare_xa L ?W cl g c = (p, c1)" and x: "work c1 = (x, c2)" by (metis surj_pair)
  have prepared: "xa_stored view (trim g) {Prepared} c1" "good (w_store (c_world c2))" if "p = Inr ()"
    using shared_service.xa_operations_decide(1) [OF prov assms(5)] p that assms(4) [of c1] x by (auto simp: xa_stored_def)
  note decides = shared_service.xa_operations_decide(2,3) [OF prov prepared(2), of L F cl loss g c']
  show ?thesis
    using assms(6) p x prepared(1) decides
    by (auto simp: xa_global_transaction_def act_simps xa_operations_errors xa_stored_def split: prod.splits sum.splits)
qed

text \<open>The in-memory store, with no other coordinator beside this one.\<close>

interpretation service_mem: shared_service mem_ops mem_good mem_view "(=)" "S\<lparr>sv_dtm := alone D mem_ops\<rparr>" for S D
  by unfold_locales (simp_all add: alone_def)

definition sample_framework :: framework where
  "sample_framework = \<lparr>fw_route = (\<lambda>_. None), fw_reject = (\<lambda>_. \<lparr>cs_status = 404, cs_json = None\<rparr>), fw_reply = (\<lambda>_. None)\<rparr>"

definition sample_client :: http_client where
  "sample_client = \<lparr>base_url = ''http://h'', bearer_token = Some ''secret''\<rparr>"

lemma compat_post_run:
  assumes "map_of post_routes p = Some decode" and "decode fs = Some call"
    and "control_router S (bearer (bearer_token cl)) call c = (Inr (ok_response CompatSuccess), c')"
    and "parse_url L (base_url cl @ p) \<noteq> None" and "opt_all (header_value_ok L) (bearer (bearer_token cl))"
  shows "compat_post L (over_service F (base_url cl) S (\<lambda>_. NoFault)) cl p (JObject fs) c = (Inr (), c')"
proof -
  have "route_call F (base_url cl) \<lparr>sq_method = ''POST'', sq_url = base_url cl @ p, sq_params = [], sq_json = Some (JObject fs),
      sq_authorization = bearer (bearer_token cl)\<rparr> = Some call"
    using assms(1,2) by (simp add: route_call_def)
  then show ?thesis
    using assms(3-5) by (simp add: compat_post_def send_authorized_def over_service_def act_simps decode_compat_success_def
        response_of_def json_of_response_def ok_response_def status_success_def json_get_def)
qed

definition prepared_xa :: transaction where
  "prepared_xa = set_status Prepared (transaction_xa 0 ''g1'' [])"

lemma trim_g1: "trim ''g1'' = ''g1''"
  by (simp add: trim_def trim_start.simps trim_end.simps starts_with_def ends_with_def white_spaces_def)

lemma sample_apply:
  assumes "bt_get (txs (w_store (c_world c))) ''g1'' = Some prepared_xa"
    and "cr_gid rq = ''g1''" "parse_kind (cr_trans_type rq) = Inr Xa" "cr_wait_result rq"
  shows "\<exists>tx c1. compat_apply sample_service rq OpPrepare c = (Inr tx, c1) \<and> w_store (c_world c1) = w_store (c_world c)"
    and "\<exists>tx c1. compat_apply sample_service rq OpSubmit c = (Inr tx, c1)"
proof -
  let ?D = "sample_dtm\<lparr>dtm_libs := open_libs\<rparr>"
  have D: "sv_dtm sample_service = quiet ?D mem_ops" by (simp add: sample_service_def)
  note run = compat_apply_def callback_workflow_completion_of_def is_callback_target_def compat_dispatch_def lookup_def on_dtm_def
    quiet_store_op mem_get_transaction_def D map_err_def transaction_of_kind_def fetch_def ensure_kind_def act_simps
  have xa: "tkind prepared_xa = Xa" "tstatus prepared_xa = Prepared" "branches prepared_xa = []" "gid prepared_xa = ''g1''"
    by (simp_all add: prepared_xa_def transaction_xa_def transaction_new_def)
  show "\<exists>tx c1. compat_apply sample_service rq OpPrepare c = (Inr tx, c1) \<and> w_store (c_world c1) = w_store (c_world c)"
    using assms by (simp add: run trim_g1 prepare_xa_def xa Let_def)
  show "\<exists>tx c1. compat_apply sample_service rq OpSubmit c = (Inr tx, c1)"
    using assms by (simp add: run trim_g1 commit_xa_def xa Let_def ensure_status_def persist_transaction_def mem_update_transaction_def)
qed

lemma sample_operation:
  assumes "bt_get (txs (w_store (c_world c))) ''g1'' = Some prepared_xa"
  shows "\<exists>c'. client_prepare_xa open_libs (over_service sample_framework (base_url sample_client) sample_service (\<lambda>_. NoFault))
        sample_client ''g1'' c = (Inr (), c') \<and> w_store (c_world c') = w_store (c_world c)"
    and "\<exists>c'. client_commit_xa open_libs (over_service sample_framework (base_url sample_client) sample_service (\<lambda>_. NoFault))
        sample_client ''g1'' c = (Inr (), c')"
proof -
  let ?fs = "[(''gid'', JString ''g1''), (''trans_type'', JString ''xa''), (''wait_result'', JBool True)]"
  obtain rq where rq: "decode_compat_transaction ?fs = Some rq" "cr_gid rq = ''g1''" "parse_kind (cr_trans_type rq) = Inr Xa" "cr_wait_result rq"
    using xa_request_decoded by blast
  have allowed: "authorize sample_service (bearer (bearer_token sample_client))"
    by (simp add: authorize_def sample_service_def bearer_def sample_client_def strip_prefix_def constant_time_eq_iff)
  have sent: "\<exists>c'. compat_xa_operation open_libs (over_service sample_framework (base_url sample_client) sample_service (\<lambda>_. NoFault))
      sample_client p ''g1'' c = (Inr (), c') \<and> w_store (c_world c') = w_store (c_world c1)"
    if route: "map_of post_routes p = Some (\<lambda>fs. map_option (CompatWrite oper) (decode_compat_transaction fs))"
      and applied: "compat_apply sample_service rq oper c = (Inr tx, c1)" for p oper tx c1
  proof -
    obtain c' where c': "audited sample_service (operation_event oper (cr_protocol rq)) (cr_gid rq) (compat_apply sample_service rq oper) c = (Inr tx, c')"
        "w_store (c_world c') = w_store (c_world c1)"
      using audited_run [of "compat_apply sample_service rq oper" c tx c1] applied by blast
    have "control_router sample_service (bearer (bearer_token sample_client)) (CompatWrite oper rq) c = (Inr (ok_response CompatSuccess), c')"
      using c'(1) allowed by (simp add: compat_write_def guarded_def compat_reply_def branch_on_def act_simps)
    from compat_post_run [OF route _ this, of ?fs open_libs sample_framework] rq(1) c'(2) show ?thesis
      by (simp add: compat_xa_operation_def sample_client_def bearer_def open_libs_def sample_url_libs_def strip_prefix_def)
  qed
  show "\<exists>c'. client_prepare_xa open_libs (over_service sample_framework (base_url sample_client) sample_service (\<lambda>_. NoFault))
        sample_client ''g1'' c = (Inr (), c') \<and> w_store (c_world c') = w_store (c_world c)"
    using sample_apply(1) [OF assms rq(2-4)] sent [of "''/api/dtmsvr/prepare''" OpPrepare] unfolding client_prepare_xa_def
    by (force simp: post_routes_def)
  show "\<exists>c'. client_commit_xa open_libs (over_service sample_framework (base_url sample_client) sample_service (\<lambda>_. NoFault))
        sample_client ''g1'' c = (Inr (), c')"
    using sample_apply(2) [OF assms rq(2-4)] sent [of "''/api/dtmsvr/submit''" OpSubmit] unfolding client_commit_xa_def
    by (force simp: post_routes_def)
qed

theorem client_xa_decision_witness:
  "\<exists>c'. xa_global_transaction open_libs (over_service sample_framework (base_url sample_client) sample_service (\<lambda>_. NoFault)) sample_client
      ''g1'' (ok (7 :: nat)) (started_control (sample_world prepared_xa)) = (Inr 7, c')
    \<and> xa_stored mem_view ''g1'' {Succeeding, Succeeded} c'"
proof -
  let ?W = "over_service sample_framework (base_url sample_client) sample_service (\<lambda>_. NoFault)" and ?c = "started_control (sample_world prepared_xa)"
  have g: "gid prepared_xa = ''g1''" by (simp add: prepared_xa_def transaction_xa_def transaction_new_def)
  have stored: "bt_get (txs (w_store (c_world ?c))) ''g1'' = Some prepared_xa"
    using sample_world_get [of prepared_xa] g by (simp add: started_control_def)
  obtain c1 where c1: "client_prepare_xa open_libs ?W sample_client ''g1'' ?c = (Inr (), c1)" "w_store (c_world c1) = w_store (c_world ?c)"
    using sample_operation(1) [OF stored] by blast
  obtain c' where c': "client_commit_xa open_libs ?W sample_client ''g1'' c1 = (Inr (), c')"
    using sample_operation(2) [of c1] stored c1(2) by auto
  have run: "xa_global_transaction open_libs ?W sample_client ''g1'' (ok (7 :: nat)) ?c = (Inr 7, c')"
    using c1(1) c' by (simp add: xa_global_transaction_def act_simps)
  have "mem_good (w_store (c_world ?c))" using sample_world_good by (simp add: started_control_def)
  from client_xa_decision [OF mem.transaction_store_axioms _ _ _ this run] run show ?thesis
    by (auto simp: trim_g1 sample_service_def ok_apply quiet_def alone_def)
qed

section \<open>A query that cannot be read\<close>

definition sample_kv :: kv_entry where
  "sample_kv = \<lparr>kv_category = ''topics'', kv_key = ''t'', kv_value = ''[]'', kv_version = 1, kv_created_at_millis = 5, kv_updated_at_millis = 5\<rparr>"

theorem client_never_reads_kv_witness:
  "fst (client_query_kv open_libs (over_service sample_framework (base_url sample_client) sample_service (\<lambda>_. NoFault)) sample_client
      (Some ''topics'') None (started_control \<lparr>w_store = mem_new\<lparr>kv := [((''topics'', ''t''), sample_kv)]\<rparr>, w_step = 0, w_events = []\<rparr>))
    = Inl NotDecodable"
proof -
  let ?c = "started_control \<lparr>w_store = mem_new\<lparr>kv := [((''topics'', ''t''), sample_kv)]\<rparr>, w_step = 0, w_events = []\<rparr>"
  have "\<exists>c1. list_kv_entries sample_service (nonempty (Some ''topics'')) (nonempty None) 0 200 ?c = (Inr [sample_kv], c1)"
    by (simp add: list_kv_entries_def on_dtm_def sample_service_def quiet_store_op mem_list_kv_def started_control_def map_err_def
        nonempty_def kv_matches_def sample_kv_def bt_values_def)
  then obtain c1 where listed: "list_kv_entries sample_service (nonempty (Some ''topics'')) (nonempty None) 0 200 ?c = (Inr [sample_kv], c1)" ..
  have "authorize sample_service (bearer (bearer_token sample_client))"
    by (simp add: authorize_def sample_service_def bearer_def sample_client_def strip_prefix_def constant_time_eq_iff)
  from client_never_reads_kv [OF _ _ this _ listed, of open_libs "\<lambda>_. NoFault" sample_framework] show ?thesis
    by (simp add: sample_client_def bearer_def open_libs_def sample_url_libs_def strip_prefix_def)
qed

end
