(* ===== verification/Client_Workflow.thy ===== *)
theory Client_Workflow
  imports Client_Service
begin

text \<open>
  Callback workflows from the side of their client: what a client has recorded, over HTTP or gRPC, is what a client reads
  back, byte by byte, through the JSON and base64 of the compatible API.
\<close>

section \<open>Bytes and text\<close>

lemma string_bytes_append: "string_bytes (s @ t) = string_bytes s @ string_bytes t"
  by (simp add: string_bytes_def)

lemma string_bytes_chars [simp]: "string_bytes (map byte_char bs) = bs"
proof -
  have "of_nat (of_char (byte_char b)) = b" for b :: u8
    using unat_bound [of b] by (simp add: byte_char_def)
  then show ?thesis by (simp add: string_bytes_def comp_def)
qed

lemma from_utf8_bytes: "from_utf8 bs = Some s \<Longrightarrow> string_bytes s = bs"
proof (induction bs arbitrary: s rule: from_utf8.induct)
  case (2 b bs)
  obtain k full where first: "utf8_first b bs = (k, full)" by fastforce
  with "2.prems" obtain t where t: "full" "from_utf8 (drop k bs) = Some t" "s = map byte_char (b # take k bs) @ t"
    by (auto split: if_splits)
  from "2.IH" [OF first [symmetric] t(1,2)] show ?case
    unfolding t(3) string_bytes_append string_bytes_chars by simp
qed (simp add: string_bytes_def)

section \<open>What is sent\<close>

definition the_progress :: "string \<Rightarrow> string \<Rightarrow> workflow_progress_status \<Rightarrow> u8 list \<Rightarrow> workflow_progress" where
  "the_progress b oper st bytes = \<lparr>wp_branch_id = b, wp_operation = oper, wp_status = st, wp_data = bytes\<rparr>"

lemma workflow_kind: "parse_kind ''workflow'' = Inr Workflow"
  by (simp add: parse_kind_def to_ascii_lowercase_def)

lemma http_progress_decoded:
  "\<exists>rq. decode_compat_branch [(''gid'', JString g), (''trans_type'', JString ''workflow''), (''branch_id'', JString b), (''op'', JString oper),
       (''status'', JString (wire_status st)), (''data'', JString s)] = Some rq \<and> cb_req_gid rq = g
    \<and> compat_registration_from_request L P rq =
        res_seq (map_err FromDtm (progress_validate (the_progress b oper st (string_bytes s)))) (Inr (RegisterProgress (the_progress b oper st (string_bytes s))))"
  by (cases st) (simp_all add: decode_compat_branch_def def_field_def opt_field_def as_option_def compat_registration_from_request_def
      workflow_kind registration_progress_def map_err_def the_progress_def Let_def)

lemma grpc_progress_decoded:
  "compat_registration_from_request L P (grpc_branch_request L C (grpc_progress_request g b oper st bytes)) =
     (if oper = [] then Inl (Refused ''workflow progress operation is required'')
      else res_seq (map_err FromDtm (progress_validate (the_progress b oper st bytes))) (Inr (RegisterProgress (the_progress b oper st bytes))))"
  by (cases st) (simp_all add: grpc_branch_request_def grpc_progress_request_def compat_registration_from_request_def workflow_kind
      registration_progress_def the_progress_def bt_get_def some_nonempty_def map_err_def Let_def)

lemma validated_registration:
  "res_seq (map_err FromDtm (progress_validate p)) (Inr (RegisterProgress p)) = Inr r \<Longrightarrow> r = RegisterProgress p"
  by (simp add: res_bind_eq_Inr)

lemma finish_decoded:
  "\<exists>rq. decode_compat_transaction [(''gid'', JString g), (''trans_type'', JString ''workflow''),
       (''req_extra'', JObject [(''status'', JString (wire_status st)), (''rollback_reason'', JString reason), (''result'', JString result)])] = Some rq
    \<and> cr_gid rq = g \<and> parse_kind (cr_trans_type rq) = Inr Workflow
    \<and> callback_workflow_completion_of Workflow OpSubmit rq = Inr (Some \<lparr>cc_status = (if st = ProgressSucceeded then Succeeded else Failed),
         cc_rollback_reason = Some reason, cc_result = Some result\<rparr>)"
  by (cases st) (simp_all add: decode_compat_transaction_def def_field_def opt_field_def alias_opt_field_def workflow_kind
      callback_workflow_completion_of_def bt_get_def)

lemma prepare_decoded:
  "\<exists>rq. decode_compat_transaction [(''gid'', JString g), (''trans_type'', JString ''workflow''), (''query_prepared'', JString q),
       (''custom_data'', JString custom)] = Some rq \<and> cr_gid rq = g"
  by (simp add: decode_compat_transaction_def def_field_def opt_field_def alias_opt_field_def as_option_def)

section \<open>What is read\<close>

definition snapshot_of :: "transaction \<Rightarrow> u8 list \<Rightarrow> callback_workflow_snapshot" where
  "snapshot_of tx result =
     \<lparr>cw_gid = gid tx, cw_status = compat_workflow_status_name (tstatus tx), cw_rollback_reason = meta_or_empty tx ''rollback_reason'',
      cw_result = result,
      cw_progresses = map (\<lambda>p. \<lparr>cp_branch_id = wp_branch_id p, cp_operation = wp_operation p, cp_status = wp_status p, cp_data = wp_data p\<rparr>)
        (workflow_progresses tx)\<rparr>"

lemma progress_json_read:
  "progress_wire_of (JObject [(''status'', JString st), (''bin_data'', JString d), (''branch_id'', JString b), (''op'', JString oper)])
     = Some \<lparr>pw_status = st, pw_bin_data = d, pw_branch_id = b, pw_op = oper\<rparr>"
  by (simp add: progress_wire_of_def req_field_def def_field_def)

lemma those_map_Some: "those (map (\<lambda>x. Some (f x)) xs) = Some (map f xs)"
  by (induction xs) simp_all

lemma decode_progress_read:
  assumes "base64_decode L (base64_encode C (wp_data p)) = Some (wp_data p)"
  shows "decode_progress L \<lparr>pw_status = workflow_progress_status_name (wp_status p), pw_bin_data = base64_encode C (wp_data p),
       pw_branch_id = wp_branch_id p, pw_op = wp_operation p\<rparr>
     = Inr \<lparr>cp_branch_id = wp_branch_id p, cp_operation = wp_operation p, cp_status = wp_status p, cp_data = wp_data p\<rparr>"
  using assms by (cases "wp_status p") (simp_all add: decode_progress_def)

lemma snapshot_read:
  assumes "\<And>bs. base64_decode L (base64_encode C bs) = Some bs"
  shows "decode_callback_workflow L (response_of F (ok_response (CompatWorkflowBody (compat_workflow_response C tx))))
     = res_bind (if meta_or_empty tx ''dtm.workflow.result'' = [] then Inr []
         else ok_or (base64_decode L (meta_or_empty tx ''dtm.workflow.result'')) NotBase64) (\<lambda>result. Inr (snapshot_of tx result))"
proof -
  let ?wire = "\<lambda>p :: workflow_progress. \<lparr>pw_status = workflow_progress_status_name (wp_status p), pw_bin_data = base64_encode C (wp_data p),
      pw_branch_id = wp_branch_id p, pw_op = wp_operation p\<rparr>"
  have wire: "workflow_wire_of (workflow_json (compat_workflow_response C tx)) =
      Some \<lparr>ww_gid = gid tx, ww_status = compat_workflow_status_name (tstatus tx), ww_rollback_reason = meta_or_empty tx ''rollback_reason'',
        ww_result = meta_or_empty tx ''dtm.workflow.result'', ww_progresses = map ?wire (workflow_progresses tx)\<rparr>"
    by (simp add: workflow_wire_of_def workflow_json_def compat_workflow_response_def req_field_def def_field_def comp_def
        progress_json_read those_map_Some)
  have "res_map (decode_progress L) (map ?wire ps) =
      Inr (map (\<lambda>p. \<lparr>cp_branch_id = wp_branch_id p, cp_operation = wp_operation p, cp_status = wp_status p, cp_data = wp_data p\<rparr>) ps)" for ps
    by (induction ps) (simp_all add: decode_progress_read assms)
  then show ?thesis
    by (simp add: decode_callback_workflow_def response_of_def ok_response_def wire status_success_def snapshot_of_def)
qed

section \<open>The store behind it\<close>

context shared_store
begin

text \<open>What a mutation that succeeds has stored.\<close>

lemma mutation_hoare:
  assumes "\<And>now. implements good view (m now) (spec_mutate g (f now))"
    and "\<And>now tx tx'. f now tx = Inr tx' \<Longrightarrow> P tx'"
  shows "hoare G (store_op D m) (\<lambda>_ w. G w \<and> (\<exists>tx. a_txs (view (w_store w)) g = Some tx \<and> P tx)) G"
proof (rule store_op_hoare)
  fix now s r s' assume "good s" and "m now s = (r, s')"
  then show "good s' \<and> (\<forall>x. r = Inr x \<longrightarrow> (\<exists>tx. a_txs (view s') g = Some tx \<and> P tx))"
    by (cases rule: implements_cases [OF assms(1)])
      (auto simp: spec_mutate_def dest: assms(2) dest!: sym [where t = "view s'"] split: option.splits sum.splits)
qed

lemma progress_stored:
  "hoare G (record_workflow_progress D g p)
     (\<lambda>_ w. G w \<and> (\<exists>tx. a_txs (view (w_store w)) g = Some tx \<and> is_callback_workflow tx \<and> tstatus tx = Prepared
        \<and> p \<in> set (workflow_progresses tx))) G"
  unfolding record_workflow_progress_def store
proof (rule mutation_hoare [OF progress_law])
  fix now tx tx' assume run: "append_workflow_progress now tx p = Inr tx'"
  have "p \<in> set (workflow_progresses tx')"
    using run by (cases rule: append_workflow_progress_cases) (auto simp: bump_transaction_revision_def find_Some_iff)
  then show "is_callback_workflow tx' \<and> tstatus tx' = Prepared \<and> p \<in> set (workflow_progresses tx')"
    using append_workflow_progress_guards [OF run] append_workflow_progress_frame [OF run] by (simp add: is_callback_workflow_def)
qed

lemma completion_stored:
  "hoare G (finish_callback_workflow D g st rr rs)
     (\<lambda>_ w. G w \<and> (\<exists>tx. a_txs (view (w_store w)) g = Some tx \<and> is_callback_workflow tx \<and> tstatus tx = st \<and> is_terminal st
        \<and> meta_or_empty tx ''rollback_reason'' = unwrap_or_default rr \<and> meta_or_empty tx ''dtm.workflow.result'' = unwrap_or_default rs)) G"
  unfolding finish_callback_workflow_def store
  by (rule mutation_hoare [OF finish_law]) (use completion_frame completion_guards completion_records in fastforce)

text \<open>A workflow that others leave alone and that is prepared or finished is returned as it is stored.\<close>

abbreviation holds :: "string \<Rightarrow> transaction \<Rightarrow> 's world \<Rightarrow> bool" where
  "holds g tx \<equiv> \<lambda>w. G w \<and> a_txs (view (w_store w)) g = Some tx"

lemma get_held:
  assumes "\<And>n s. good s \<Longrightarrow> a_txs (view (interfere D n s)) g = a_txs (view s) g"
  shows "hoare (holds g tx) (store_op D (\<lambda>_. get_transaction (dtm_store D) g)) (\<lambda>found w. holds g tx w \<and> found = Some tx) (\<lambda>_. True)"
  unfolding hoare_def
proof (intro allI impI)
  fix w assume w: "holds g tx w"
  let ?s = "interfere D (w_step w) (w_store w)"
  have "good ?s" "a_txs (view ?s) g = Some tx" using w interference assms by auto
  moreover obtain r s' where run: "get_transaction ops g ?s = (r, s')" by fastforce
  ultimately have "good s'" "r = Inr (Some tx)" "a_txs (view s') g = Some tx"
    using faithful_run [OF get_law, of ?s g r s'] by (auto simp: spec_get_def)
  then show "res_post (\<lambda>found w. holds g tx w \<and> found = Some tx) (\<lambda>_. True) (store_op D (\<lambda>_. get_transaction (dtm_store D) g) w)"
    using run by (cases "faults D (w_step w)") (simp_all add: store_op_def Let_def store)
qed

lemma prepare_held:
  assumes "\<And>n s. good s \<Longrightarrow> a_txs (view (interfere D n s)) g = a_txs (view s) g"
    and "tkind tx = Workflow" and "tstatus tx = Prepared \<or> is_terminal (tstatus tx)"
  shows "hoare (holds g tx) (prepare_workflow D g) (\<lambda>tx' w. holds g tx w \<and> tx' = tx) (\<lambda>_. True)"
proof -
  have "hoare (holds g tx) (transaction_of_kind D g Workflow) (\<lambda>tx' w. holds g tx w \<and> tx' = tx) (\<lambda>_. True)"
    unfolding transaction_of_kind_def fetch_def
    by (rule hoare_then_ok [where R = "\<lambda>tx' w. holds g tx w \<and> tx' = tx"], rule hoare_then_ok [OF get_held [OF assms(1)]])
      (use assms(2) in \<open>auto simp: hoare_def act_simps ensure_kind_def\<close>)
  then show ?thesis
    unfolding prepare_workflow_def by (rule hoare_then_ok) (use assms(3) in \<open>auto simp: hoare_def act_simps\<close>)
qed

end

lemma on_dtm_lift:
  fixes m :: "('s, 'a) run"
  assumes "hoare P m Q E"
  shows "hoare (\<lambda>c. P (c_world c)) (on_dtm m) (\<lambda>x c. Q x (c_world c)) (\<lambda>c. E (c_world c))"
  unfolding hoare_def
proof (intro allI impI)
  fix c :: "'s control" assume "P (c_world c)"
  obtain r w where run: "m (c_world c) = (r, w)" by fastforce
  with hoareD [OF assms \<open>P (c_world c)\<close>] show "res_post (\<lambda>x c. Q x (c_world c)) (\<lambda>c. E (c_world c)) (on_dtm m c)"
    by (cases r) (simp_all add: on_dtm_def map_err_def)
qed

definition workflow_stored :: "('s \<Rightarrow> abs_store) \<Rightarrow> string \<Rightarrow> (transaction \<Rightarrow> bool) \<Rightarrow> 's control \<Rightarrow> bool" where
  "workflow_stored view g P c \<longleftrightarrow> (\<exists>tx. a_txs (view (w_store (c_world c))) g = Some tx \<and> tkind tx = Workflow
     \<and> (tstatus tx = Prepared \<or> is_terminal (tstatus tx)) \<and> P tx)"

definition completed_with :: "workflow_progress_status \<Rightarrow> string \<Rightarrow> string \<Rightarrow> transaction \<Rightarrow> bool" where
  "completed_with st reason result tx \<longleftrightarrow> tstatus tx = (if st = ProgressSucceeded then Succeeded else Failed)
     \<and> meta_or_empty tx ''rollback_reason'' = reason \<and> meta_or_empty tx ''dtm.workflow.result'' = result"

context shared_service
begin

lemma registration_stored:
  "hoare GC (apply_compat_registration S g (RegisterProgress p))
     (\<lambda>_ c. GC c \<and> workflow_stored view g (\<lambda>tx. p \<in> set (workflow_progresses tx)) c) GC"
  unfolding apply_compat_registration_def
  by (rule control_lift) (simp, rule hoare_weaken [OF on_dtm_hoare [OF progress_stored]], auto simp: workflow_stored_def is_callback_workflow_def)

lemma finish_applied:
  assumes "parse_kind (cr_trans_type rq) = Inr Workflow"
    and "callback_workflow_completion_of Workflow OpSubmit rq = Inr (Some \<lparr>cc_status = (if st = ProgressSucceeded then Succeeded else Failed),
         cc_rollback_reason = Some reason, cc_result = Some result\<rparr>)"
  shows "hoare GC (compat_apply S rq OpSubmit) (\<lambda>_ c. GC c \<and> workflow_stored view (trim (cr_gid rq)) (completed_with st reason result) c) GC"
proof -
  have finish: "hoare GC (on_dtm (finish_callback_workflow (sv_dtm S) (trim (cr_gid rq)) (if st = ProgressSucceeded then Succeeded else Failed)
      (Some reason) (Some result))) (\<lambda>_ c. GC c \<and> workflow_stored view (trim (cr_gid rq)) (completed_with st reason result) c) GC"
    by (rule hoare_weaken [OF on_dtm_hoare [OF completion_stored]])
      (auto simp: workflow_stored_def completed_with_def is_callback_workflow_def)
  show ?thesis
    using assms finish unfolding compat_apply_def Let_def
    by (auto simp: map_err_def intro!: control_lift control_then [OF lookup_hoare])
qed

lemma prepare_applied:
  assumes "\<And>n s. good s \<Longrightarrow> a_txs (view (interfere (sv_dtm S) n s)) g = a_txs (view s) g"
    and "tkind tx = Workflow" and "tstatus tx = Prepared \<or> is_terminal (tstatus tx)"
    and "trim (cr_gid rq) = g" and "cr_trans_type rq = ''workflow''" and "holds g tx (c_world c)"
    and run: "compat_apply S rq OpPrepare c = (Inr tx', c')"
  shows "tx' = tx"
proof -
  note held = on_dtm_lift [OF get_held [OF assms(1)], of tx] and prep = on_dtm_lift [OF prepare_held [OF assms(1-3)]]
  obtain found c1 where look: "lookup S g c = (Inr found, c1)"
    using run assms(4,5) by (auto simp: compat_apply_def workflow_kind map_err_def callback_workflow_completion_of_def act_simps
        ensure_def Let_def split: prod.splits sum.splits if_splits)
  then have c1: "found = Some tx" "holds g tx (c_world c1)"
    using hoare_Inr [OF held assms(6), of found c1] by (simp_all add: lookup_def)
  have "compat_dispatch S Workflow OpPrepare (cr_wait_result rq) g c1 = (Inr tx', c')"
    using run look c1(1) assms(4,5) by (auto simp: compat_apply_def workflow_kind map_err_def callback_workflow_completion_of_def act_simps
        ensure_def Let_def split: if_splits)
  then show ?thesis using hoare_Inr [OF prep c1(2)] by (simp add: compat_dispatch_def)
qed

end

section \<open>What a client reads back\<close>

lemma compat_register_success:
  assumes "compat_register_branch S h rq c = (Inr reply, c')" and "decode_compat_success (response_of F reply) = Inr ()"
    and "compat_registration_from_request (dtm_libs (sv_dtm S)) (sv_policy S) rq = res_seq (map_err FromDtm (progress_validate p)) (Inr (RegisterProgress p))"
  shows "\<exists>tx c1. apply_compat_registration S (cb_req_gid rq) (RegisterProgress p) c = (Inr tx, c1) \<and> w_store (c_world c') = w_store (c_world c1)"
proof -
  note opened = guarded_success [OF assms(1) [unfolded compat_register_branch_def] assms(2)]
  show ?thesis
  proof (cases "compat_registration_from_request (dtm_libs (sv_dtm S)) (sv_policy S) rq")
    case (Inl e)
    then show ?thesis using opened assms(2) by (auto simp: act_simps compat_failure_def decode_compat_success_def response_of_def
        json_of_response_def status_success_def)
  next
    case (Inr r)
    then have "r = RegisterProgress p" using assms(3) validated_registration by metis
    with opened Inr obtain tx where "audited S ''dtm.compat.http.register_branch'' (cb_req_gid rq)
        (apply_compat_registration S (cb_req_gid rq) (RegisterProgress p)) c = (Inr tx, c')"
      using compat_reply_success [OF _ assms(2)] by fastforce
    then show ?thesis using audited_success by blast
  qed
qed

lemma grpc_register_success:
  assumes "grpc_client_record_progress L (over_grpc_service S loss) gcl g b oper st bytes c = (Inr (), c')"
  shows "\<exists>tx c1. apply_compat_registration S g (RegisterProgress (the_progress b oper st bytes)) c = (Inr tx, c1)
    \<and> w_store (c_world c') = w_store (c_world c1)"
proof -
  let ?rq = "grpc_progress_request g b oper st bytes" and ?p = "the_progress b oper st bytes"
  obtain header reply where call: "grpc_register_branch S header ?rq c = (Inr (Inr reply), c')"
    using assms by (auto simp: grpc_client_record_progress_def grpc_client_register_branch_def grpc_send_unit_def grpc_send_def
        over_grpc_service_def act_simps split: prod.splits sum.splits option.splits if_splits)
  have "\<exists>tx. audited S ''dtm.compat.grpc.register_branch'' g (apply_compat_registration S g (RegisterProgress ?p)) c = (Inr tx, c')"
  proof (cases "compat_registration_from_request (dtm_libs (sv_dtm S)) (sv_policy S) (grpc_branch_request (dtm_libs (sv_dtm S)) (sv_codecs S) ?rq)")
    case (Inl e)
    then show ?thesis using call by (simp add: grpc_register_branch_def grpc_guarded_def act_simps split: if_splits)
  next
    case (Inr r)
    then have "r = RegisterProgress ?p" by (auto simp: grpc_progress_decoded validated_registration split: if_splits)
    moreover have "gb_gid ?rq = g" by (simp add: grpc_progress_request_def)
    ultimately show ?thesis using call Inr
      by (auto simp: grpc_register_branch_def grpc_guarded_def grpc_done_def branch_on_def act_simps split: if_splits prod.splits sum.splits)
  qed
  then show ?thesis using audited_success by blast
qed

lemma prepare_workflow_success:
  assumes "client_prepare_callback_workflow L (over_service F (base_url cl) S loss) cl g q custom c = (Inr snap, c')"
  shows "\<exists>rq tx c1. cr_gid rq = g \<and> cr_trans_type rq = ''workflow'' \<and> compat_apply S rq OpPrepare c = (Inr tx, c1)
    \<and> decode_callback_workflow L (response_of F (ok_response (CompatWorkflowBody (compat_workflow_response (sv_codecs S) tx)))) = Inr snap"
proof -
  let ?fs = "[(''gid'', JString g), (''trans_type'', JString ''workflow''), (''query_prepared'', JString q), (''custom_data'', JString custom)]"
  obtain rq where rq: "decode_compat_transaction ?fs = Some rq" "cr_gid rq = g" using prepare_decoded by blast
  obtain r where r: "send_authorized L (over_service F (base_url cl) S loss) cl ''POST'' (base_url cl @ ''/api/dtmsvr/prepareWorkflow'') []
      (Some (JObject ?fs)) c = (Inr r, c')" "decode_callback_workflow L r = Inr snap"
    using assms by (auto simp: client_prepare_callback_workflow_def act_simps split: prod.splits sum.splits)
  have "route_call F (base_url cl) \<lparr>sq_method = ''POST'', sq_url = base_url cl @ ''/api/dtmsvr/prepareWorkflow'', sq_params = [],
      sq_json = Some (JObject ?fs), sq_authorization = bearer (bearer_token cl)\<rparr> = Some (CompatPrepareWorkflow rq)"
    using rq(1) by (simp add: route_call_def post_routes_def)
  then obtain reply where reply: "compat_prepare_workflow S (bearer (bearer_token cl)) rq c = (Inr reply, c')" "r = response_of F reply"
    using send_over_service [OF r(1)] by auto
  let ?rq = "rq\<lparr>cr_trans_type := ''workflow''\<rparr>"
  obtain tx where "audited S ''dtm.compat.http.prepare_workflow'' g (compat_apply S ?rq OpPrepare) c = (Inr tx, c')"
      "reply = ok_response (CompatWorkflowBody (compat_workflow_response (sv_codecs S) tx))"
    using reply r(2) rq(2)
    by (auto simp: compat_prepare_workflow_def guarded_def branch_on_def act_simps unauthorized_response_def error_response_def
        compat_failure_def decode_callback_workflow_def response_of_def status_success_def workflow_wire_of_def res_bind_eq_Inr
        split: if_splits prod.splits sum.splits)
  then show ?thesis using audited_success [of S _ g "compat_apply S ?rq OpPrepare" c tx c'] reply(2) r(2) rq(2)
    by (intro exI [of _ ?rq] exI [of _ tx]) auto
qed

context shared_service
begin

lemma http_recorded:
  assumes "GC c" and "client_record_callback_workflow_progress L (over_service F (base_url cl) S loss) cl g b oper st bytes c = (Inr (), c')"
  shows "GC c' \<and> workflow_stored view g (\<lambda>tx. the_progress b oper st bytes \<in> set (workflow_progresses tx)) c'"
proof -
  obtain s where s: "from_utf8 bytes = Some s"
      "compat_post L (over_service F (base_url cl) S loss) cl ''/api/dtmsvr/registerBranch'' (progress_body g b oper st s) c = (Inr (), c')"
    using assms(2) by (auto simp: client_record_callback_workflow_progress_def ok_or_def act_simps split: option.splits)
  obtain rq where rq: "decode_compat_branch [(''gid'', JString g), (''trans_type'', JString ''workflow''), (''branch_id'', JString b),
       (''op'', JString oper), (''status'', JString (wire_status st)), (''data'', JString s)] = Some rq" "cb_req_gid rq = g"
      "compat_registration_from_request (dtm_libs (sv_dtm S)) (sv_policy S) rq =
        res_seq (map_err FromDtm (progress_validate (the_progress b oper st bytes))) (Inr (RegisterProgress (the_progress b oper st bytes)))"
    using http_progress_decoded [of g b oper st s "dtm_libs (sv_dtm S)" "sv_policy S"] unfolding from_utf8_bytes [OF s(1)] by blast
  have "map_of post_routes ''/api/dtmsvr/registerBranch'' = Some (\<lambda>fs. map_option CompatRegisterBranch (decode_compat_branch fs))"
    by (simp add: post_routes_def)
  from compat_post_success [OF s(2) [unfolded progress_body_def] this] rq(1)
  obtain reply where "compat_register_branch S (bearer (bearer_token cl)) rq c = (Inr reply, c')" "decode_compat_success (response_of F reply) = Inr ()"
    by auto
  from compat_register_success [OF this rq(3)] show ?thesis
    using hoare_Inr [OF registration_stored assms(1)] rq(2) by (fastforce simp: workflow_stored_def)
qed

lemma grpc_recorded:
  assumes "GC c" and "grpc_client_record_progress L (over_grpc_service S loss) gcl g b oper st bytes c = (Inr (), c')"
  shows "GC c' \<and> workflow_stored view g (\<lambda>tx. the_progress b oper st bytes \<in> set (workflow_progresses tx)) c'"
  using grpc_register_success [OF assms(2)] hoare_Inr [OF registration_stored assms(1)] by (fastforce simp: workflow_stored_def)

lemma http_finished:
  assumes "GC c" and "client_finish_callback_workflow L C (over_service F (base_url cl) S loss) cl g st reason result c = (Inr (), c')"
  shows "GC c' \<and> workflow_stored view (trim g) (completed_with st reason (base64_encode C result)) c'"
proof -
  obtain rq where rq: "decode_compat_transaction [(''gid'', JString g), (''trans_type'', JString ''workflow''),
       (''req_extra'', JObject [(''status'', JString (wire_status st)), (''rollback_reason'', JString reason), (''result'', JString (base64_encode C result))])] = Some rq"
      "cr_gid rq = g" "parse_kind (cr_trans_type rq) = Inr Workflow"
      "callback_workflow_completion_of Workflow OpSubmit rq = Inr (Some \<lparr>cc_status = (if st = ProgressSucceeded then Succeeded else Failed),
         cc_rollback_reason = Some reason, cc_result = Some (base64_encode C result)\<rparr>)"
    using finish_decoded by blast
  have "map_of post_routes ''/api/dtmsvr/submit'' = Some (\<lambda>fs. map_option (CompatWrite OpSubmit) (decode_compat_transaction fs))"
    by (simp add: post_routes_def)
  from compat_post_success [OF assms(2) [unfolded client_finish_callback_workflow_def] this] rq(1)
  obtain reply where "compat_write S (bearer (bearer_token cl)) OpSubmit rq c = (Inr reply, c')" "decode_compat_success (response_of F reply) = Inr ()"
    by auto
  from compat_write_success [OF this] show ?thesis
    using hoare_Inr [OF finish_applied [OF rq(3,4)] assms(1)] rq(2) by (fastforce simp: workflow_stored_def)
qed

lemma snapshot_of_stored:
  assumes "\<And>n s. good s \<Longrightarrow> a_txs (view (interfere (sv_dtm S) n s)) (trim g) = a_txs (view s) (trim g)"
    and "\<And>bs. base64_decode L (base64_encode (sv_codecs S) bs) = Some bs"
    and "GC c \<and> workflow_stored view (trim g) P c"
    and "client_prepare_callback_workflow L (over_service F (base_url cl) S loss) cl g q custom c = (Inr snap, c')"
  shows "\<exists>tx result. P tx \<and> snap = snapshot_of tx result \<and> (if meta_or_empty tx ''dtm.workflow.result'' = [] then result = []
      else base64_decode L (meta_or_empty tx ''dtm.workflow.result'') = Some result)"
proof -
  obtain tx where tx: "holds (trim g) tx (c_world c)" "tkind tx = Workflow" "tstatus tx = Prepared \<or> is_terminal (tstatus tx)" "P tx"
    using assms(3) by (auto simp: workflow_stored_def)
  obtain rq tx' c1 where rq: "cr_gid rq = g" "cr_trans_type rq = ''workflow''" "compat_apply S rq OpPrepare c = (Inr tx', c1)"
      "decode_callback_workflow L (response_of F (ok_response (CompatWorkflowBody (compat_workflow_response (sv_codecs S) tx')))) = Inr snap"
    using prepare_workflow_success [OF assms(4)] by blast
  have "tx' = tx" using prepare_applied [OF assms(1) tx(2,3) _ rq(2) tx(1) rq(3)] rq(1) by simp
  then show ?thesis using rq(4) tx(4) unfolding snapshot_read [OF assms(2)] by (auto simp: res_bind_eq_Inr split: if_splits)
qed

end

text \<open>
  C14: What a client of a callback workflow has written is what a client reads. When the service has confirmed a progress recorded over
  HTTP or gRPC, or the completion of the workflow, a client that then prepares the workflow again over HTTP gets a snapshot with exactly that
  progress, data included, or with the status, the reason and the bytes of the result. This holds on every store with the contract of
  \<open>transaction_store\<close> as long as others leave the transaction alone, for a gid without white space around it; base64 is assumed to be decoded
  to what was encoded.
\<close>

theorem client_workflow_read_back:
  assumes "transaction_store ops good view same" and "dtm_store (sv_dtm S) = ops"
    and "\<And>n s. good s \<Longrightarrow> good (interfere (sv_dtm S) n s) \<and> a_txs (view (interfere (sv_dtm S) n s)) g = a_txs (view s) g"
    and "\<And>bs. base64_decode L (base64_encode (sv_codecs S) bs) = Some bs" and "base64_encode (sv_codecs S) [] = []"
    and "trim g = g" and "good (w_store (c_world c))"
    and "client_prepare_callback_workflow L (over_service F (base_url cl) S loss) cl g q custom c1 = (Inr snap, c2)"
  shows "(client_record_callback_workflow_progress L (over_service F (base_url cl) S loss) cl g b oper st bytes c = (Inr (), c1)
        \<or> grpc_client_record_progress L (over_grpc_service S loss) gcl g b oper st bytes c = (Inr (), c1)
      \<longrightarrow> \<lparr>cp_branch_id = b, cp_operation = oper, cp_status = st, cp_data = bytes\<rparr> \<in> set (cw_progresses snap))
    \<and> (client_finish_callback_workflow L (sv_codecs S) (over_service F (base_url cl) S loss) cl g st reason result c = (Inr (), c1)
      \<longrightarrow> cw_status snap = wire_status st \<and> cw_rollback_reason snap = reason \<and> cw_result snap = result)"
proof -
  have prov: "shared_service ops good view same S"
    using assms(1-3) by (simp add: shared_service_def shared_store_def shared_store_axioms_def)
  have alone: "a_txs (view (interfere (sv_dtm S) n s)) (trim g) = a_txs (view s) (trim g)" if "good s" for n s
    using assms(3) [OF that] assms(6) by simp
  note snapshot = shared_service.snapshot_of_stored [OF prov alone assms(4) _ assms(8)]
    and recorded = shared_service.http_recorded [OF prov assms(7)] shared_service.grpc_recorded [OF prov assms(7)]
    and finished = shared_service.http_finished [OF prov assms(7)]
  have "\<lparr>cp_branch_id = b, cp_operation = oper, cp_status = st, cp_data = bytes\<rparr> \<in> set (cw_progresses snap)"
    if "good (w_store (c_world c1)) \<and> workflow_stored view g (\<lambda>tx. the_progress b oper st bytes \<in> set (workflow_progresses tx)) c1"
    using snapshot [of "\<lambda>tx. the_progress b oper st bytes \<in> set (workflow_progresses tx)"] that assms(6)
    by (force simp: snapshot_of_def the_progress_def)
  moreover have "cw_status snap = wire_status st \<and> cw_rollback_reason snap = reason \<and> cw_result snap = result"
    if "good (w_store (c_world c1)) \<and> workflow_stored view (trim g) (completed_with st reason (base64_encode (sv_codecs S) result)) c1"
  proof -
    have "result = []" if "base64_encode (sv_codecs S) result = []" using that assms(4) [of result] assms(4) [of "[]"] assms(5) by simp
    then show ?thesis using snapshot [OF _ that] assms(4) [of result] by (cases st) (auto simp: snapshot_of_def completed_with_def split: if_splits)
  qed
  ultimately show ?thesis
    using recorded(1) [of L F cl loss g b oper st bytes c1] recorded(2) [of L loss gcl g b oper st bytes c1]
      finished [of L "sv_codecs S" F cl loss g st reason result c1] by argo
qed

text \<open>A byte that is not UTF-8, recorded over gRPC and read over HTTP.\<close>

definition byte_codecs :: codecs where
  "byte_codecs = sample_codecs\<lparr>base64_encode := map byte_char\<rparr>"

definition byte_service :: "mem_store service" where
  "byte_service = sample_service\<lparr>sv_codecs := byte_codecs\<rparr>"

definition byte_libs :: libs where
  "byte_libs = open_libs\<lparr>base64_decode := (\<lambda>s. Some (string_bytes s))\<rparr>"

definition sample_recorded :: transaction where
  "sample_recorded = bump_transaction_revision 2000 (sample_callback\<lparr>workflow_progresses := [the_progress ''b'' ''op'' ProgressSucceeded [255]]\<rparr>)"

lemma byte_service_dtm: "sv_dtm byte_service = quiet (sample_dtm\<lparr>dtm_libs := open_libs\<rparr>) mem_ops"
  by (simp add: byte_service_def sample_service_def)

lemma sample_callback_facts: "gid sample_callback = ''w1''" "tstatus sample_callback = Prepared" "tkind sample_callback = Workflow"
    "workflow_progresses sample_callback = []" "branches sample_callback = []"
  by (simp_all add: sample_defs)

lemma sample_recording:
  assumes "bt_get (txs (w_store (c_world c))) ''w1'' = Some sample_callback"
  shows "\<exists>c1. apply_compat_registration byte_service ''w1'' (RegisterProgress (the_progress ''b'' ''op'' ProgressSucceeded [255])) c
      = (Inr sample_recorded, c1) \<and> bt_get (txs (w_store (c_world c1))) ''w1'' = Some sample_recorded"
proof -
  have "append_workflow_progress 2000 sample_callback (the_progress ''b'' ''op'' ProgressSucceeded [255]) = Inr sample_recorded"
    using sample_callback_is_callback sample_callback_facts
    by (simp add: append_workflow_progress_def progress_validate_def the_progress_def two_mib_def sample_recorded_def)
  then show ?thesis
    using assms by (simp add: apply_compat_registration_def record_workflow_progress_def on_dtm_def byte_service_dtm quiet_store_op
        mem_record_progress_def mem_mutate_def map_err_def sample_dtm_def)
qed

lemma sample_reading:
  assumes "bt_get (txs (w_store (c_world c))) ''w1'' = Some sample_recorded" and "cr_gid rq = ''w1''" and "cr_trans_type rq = ''workflow''"
  shows "\<exists>c1. compat_apply byte_service rq OpPrepare c = (Inr sample_recorded, c1)"
proof -
  have "trim ''w1'' = ''w1''"
    by (simp add: trim_def trim_start.simps trim_end.simps starts_with_def ends_with_def white_spaces_def)
  moreover have "tkind sample_recorded = Workflow" "tstatus sample_recorded = Prepared"
    by (simp_all add: sample_recorded_def bump_transaction_revision_def sample_callback_facts)
  ultimately show ?thesis
    using assms by (simp add: compat_apply_def workflow_kind callback_workflow_completion_of_def compat_dispatch_def lookup_def on_dtm_def
        byte_service_dtm quiet_store_op mem_get_transaction_def map_err_def transaction_of_kind_def fetch_def ensure_kind_def act_simps
        prepare_workflow_def Let_def)
qed

lemma byte_service_open: "authorize byte_service (bearer (Some ''secret''))"
  by (simp add: authorize_def byte_service_def sample_service_def bearer_def strip_prefix_def constant_time_eq_iff)

lemma sample_grpc_recording:
  assumes "bt_get (txs (w_store (c_world c))) ''w1'' = Some sample_callback"
  shows "\<exists>c1. grpc_client_record_progress byte_libs (over_grpc_service byte_service (\<lambda>_. NoFault)) \<lparr>gc_bearer_token = Some ''secret''\<rparr>
      ''w1'' ''b'' ''op'' ProgressSucceeded [255] c = (Inr (), c1) \<and> bt_get (txs (w_store (c_world c1))) ''w1'' = Some sample_recorded"
proof -
  let ?p = "the_progress ''b'' ''op'' ProgressSucceeded [255]"
  obtain c0 where c0: "apply_compat_registration byte_service ''w1'' (RegisterProgress ?p) c = (Inr sample_recorded, c0)"
      "bt_get (txs (w_store (c_world c0))) ''w1'' = Some sample_recorded"
    using sample_recording [OF assms] by blast
  obtain c1 where c1: "audited byte_service ''dtm.compat.grpc.register_branch'' ''w1''
      (apply_compat_registration byte_service ''w1'' (RegisterProgress ?p)) c = (Inr sample_recorded, c1)"
      "w_store (c_world c1) = w_store (c_world c0)"
    using audited_run [of "apply_compat_registration byte_service ''w1'' (RegisterProgress ?p)" c sample_recorded c0] c0(1) by blast
  have "progress_validate ?p = Inr ()" by (simp add: progress_validate_def the_progress_def two_mib_def)
  then have "grpc_register_branch byte_service (bearer (Some ''secret'')) (grpc_progress_request ''w1'' ''b'' ''op'' ProgressSucceeded [255]) c
      = (Inr (Inr GrpcEmpty), c1)"
    using c1(1) byte_service_open
    by (simp add: grpc_register_branch_def grpc_guarded_def grpc_progress_decoded map_err_def grpc_done_def branch_on_def act_simps)
      (simp add: grpc_progress_request_def ok_apply)
  then show ?thesis
    using c0(2) c1(2) by (simp add: grpc_client_record_progress_def grpc_client_register_branch_def grpc_send_unit_def grpc_send_def
        over_grpc_service_def act_simps byte_libs_def open_libs_def sample_url_libs_def bearer_def)
qed

lemma sample_http_reading:
  assumes "bt_get (txs (w_store (c_world c))) ''w1'' = Some sample_recorded"
  shows "\<exists>snap c1. client_prepare_callback_workflow byte_libs (over_service sample_framework (base_url sample_client) byte_service (\<lambda>_. NoFault))
      sample_client ''w1'' ''http://h/q'' [] c = (Inr snap, c1)"
proof -
  let ?fs = "[(''gid'', JString ''w1''), (''trans_type'', JString ''workflow''), (''query_prepared'', JString ''http://h/q''), (''custom_data'', JString [])]"
  obtain rq where rq: "decode_compat_transaction ?fs = Some rq" "cr_gid rq = ''w1''" using prepare_decoded by blast
  let ?rq = "rq\<lparr>cr_trans_type := ''workflow''\<rparr>"
  obtain c0 where "compat_apply byte_service ?rq OpPrepare c = (Inr sample_recorded, c0)"
    using sample_reading [OF assms, of ?rq] rq(2) by auto
  then obtain c1 where c1: "audited byte_service ''dtm.compat.http.prepare_workflow'' ''w1'' (compat_apply byte_service ?rq OpPrepare) c = (Inr sample_recorded, c1)"
    using audited_run [of "compat_apply byte_service ?rq OpPrepare" c sample_recorded c0] by blast
  have "route_call sample_framework (base_url sample_client) \<lparr>sq_method = ''POST'', sq_url = base_url sample_client @ ''/api/dtmsvr/prepareWorkflow'',
      sq_params = [], sq_json = Some (JObject ?fs), sq_authorization = bearer (bearer_token sample_client)\<rparr> = Some (CompatPrepareWorkflow rq)"
    using rq(1) by (simp add: route_call_def post_routes_def)
  moreover have "compat_prepare_workflow byte_service (bearer (bearer_token sample_client)) rq c
      = (Inr (ok_response (CompatWorkflowBody (compat_workflow_response (sv_codecs byte_service) sample_recorded))), c1)"
    using c1 rq(2) byte_service_open by (simp add: compat_prepare_workflow_def guarded_def branch_on_def act_simps sample_client_def)
  ultimately have sent: "send_authorized byte_libs (over_service sample_framework (base_url sample_client) byte_service (\<lambda>_. NoFault)) sample_client
      ''POST'' (base_url sample_client @ ''/api/dtmsvr/prepareWorkflow'') [] (Some (JObject ?fs)) c
      = (Inr (response_of sample_framework (ok_response (CompatWorkflowBody (compat_workflow_response (sv_codecs byte_service) sample_recorded)))), c1)"
    by (simp add: send_authorized_def over_service_def byte_libs_def open_libs_def sample_url_libs_def bearer_def sample_client_def strip_prefix_def)
  have "base64_decode byte_libs (base64_encode (sv_codecs byte_service) bs) = Some bs" for bs
    by (simp add: byte_libs_def byte_service_def byte_codecs_def)
  note read = snapshot_read [OF this, of sample_framework sample_recorded]
  have "meta_or_empty sample_recorded ''dtm.workflow.result'' = []"
    by (simp add: meta_or_empty_def sample_recorded_def bump_transaction_revision_def sample_defs bt_get_def)
  then show ?thesis using sent read by (simp add: client_prepare_callback_workflow_def then_ok_eq lift_res_apply)
qed

theorem client_workflow_read_back_witness:
  "\<exists>snap c1 c2. grpc_client_record_progress byte_libs (over_grpc_service byte_service (\<lambda>_. NoFault)) \<lparr>gc_bearer_token = Some ''secret''\<rparr>
      ''w1'' ''b'' ''op'' ProgressSucceeded [255] (started_control (sample_world sample_callback)) = (Inr (), c1)
    \<and> client_prepare_callback_workflow byte_libs (over_service sample_framework (base_url sample_client) byte_service (\<lambda>_. NoFault))
      sample_client ''w1'' ''http://h/q'' [] c1 = (Inr snap, c2)
    \<and> \<lparr>cp_branch_id = ''b'', cp_operation = ''op'', cp_status = ProgressSucceeded, cp_data = [255]\<rparr> \<in> set (cw_progresses snap)"
proof -
  let ?c = "started_control (sample_world sample_callback)"
  have "bt_get (txs (w_store (c_world ?c))) ''w1'' = Some sample_callback"
    using sample_world_get [of sample_callback] sample_callback_facts by (simp add: started_control_def)
  from sample_grpc_recording [OF this] obtain c1 where c1: "grpc_client_record_progress byte_libs (over_grpc_service byte_service (\<lambda>_. NoFault))
      \<lparr>gc_bearer_token = Some ''secret''\<rparr> ''w1'' ''b'' ''op'' ProgressSucceeded [255] ?c = (Inr (), c1)"
      "bt_get (txs (w_store (c_world c1))) ''w1'' = Some sample_recorded" by blast
  obtain snap c2 where read: "client_prepare_callback_workflow byte_libs (over_service sample_framework (base_url sample_client) byte_service (\<lambda>_. NoFault))
      sample_client ''w1'' ''http://h/q'' [] c1 = (Inr snap, c2)"
    using sample_http_reading [OF c1(2)] by blast
  have good: "mem_good (w_store (c_world ?c))" using sample_world_good by (simp add: started_control_def)
  have trimmed: "trim ''w1'' = ''w1''"
    by (simp add: trim_def trim_start.simps trim_end.simps starts_with_def ends_with_def white_spaces_def)
  have store: "dtm_store (sv_dtm byte_service) = mem_ops" by (simp add: byte_service_dtm)
  have idle: "mem_good (interfere (sv_dtm byte_service) n s) \<and> a_txs (mem_view (interfere (sv_dtm byte_service) n s)) ''w1'' = a_txs (mem_view s) ''w1''"
    if "mem_good s" for n s using that by (simp add: byte_service_dtm quiet_def alone_def)
  have codec: "base64_decode byte_libs (base64_encode (sv_codecs byte_service) bs) = Some bs" "base64_encode (sv_codecs byte_service) [] = []" for bs
    by (simp_all add: byte_libs_def byte_service_def byte_codecs_def)
  show ?thesis
    using client_workflow_read_back [OF mem.transaction_store_axioms store idle codec trimmed good read, of "''b''" "''op''" ProgressSucceeded "[255]"
        "\<lparr>gc_bearer_token = Some ''secret''\<rparr>" "[]" "[]"] c1(1) read
    by blast
qed

end
