(* ===== verification/Sql_Servers.thy ===== *)
theory Sql_Servers
  imports Sql_Store Http_Invoker
begin

text \<open>
  \<^verbatim>\<open>PostgresTransactionStore\<close> and \<^verbatim>\<open>MySqlTransactionStore\<close> of \<^verbatim>\<open>src/lib.rs\<close> with the tables their
  \<^verbatim>\<open>migrate\<close> creates: text columns have a bounded length, and texts are compared and sorted by a collation. What the servers
  do with a value that does not fit follows their documentation: an \<^verbatim>\<open>INSERT\<close> or \<^verbatim>\<open>UPDATE\<close> fails, unless
  only blanks exceed the length, which are cut off; MySQL's \<^verbatim>\<open>INSERT IGNORE\<close> cuts off whatever exceeds it. A
  \<^verbatim>\<open>SELECT\<close> or \<^verbatim>\<open>DELETE\<close> compares with the whole value. Postgres accepts no text with a zero byte
  and compares exactly, whatever order its collation has; MySQL compares by the weights of the database's collation, which the statements do
  not choose: it is a parameter. The database is assumed to hold text as UTF-8 and, on MySQL, to be in its default strict mode.
\<close>

section \<open>Columns and collations\<close>

text \<open>Lengths of columns count characters; the model's strings are UTF-8 bytes.\<close>

definition char_length :: "string \<Rightarrow> nat" where
  "char_length s = length (filter (\<lambda>c. \<not> continuation_byte c) s)"

fun take_chars :: "nat \<Rightarrow> string \<Rightarrow> string" where
  "take_chars n [] = []"
| "take_chars n (c # s) =
     (if continuation_byte c then c # take_chars n s
      else case n of 0 \<Rightarrow> [] | Suc m \<Rightarrow> c # take_chars m s)"

text \<open>A value for a column \<^verbatim>\<open>VARCHAR(n)\<close>; the flag stands for \<^verbatim>\<open>INSERT IGNORE\<close>.\<close>

definition varchar :: "bool \<Rightarrow> nat \<Rightarrow> string \<Rightarrow> string res" where
  "varchar ignore n s =
     (let kept = take_chars n s in
      if char_length s \<le> n then Inr s
      else if ignore \<or> list_all (\<lambda>c. c = CHR '' '') (drop (length kept) s) then Inr kept
      else Inl (StoreError StoreFault))"

record 'p server =
  text_key :: "string \<Rightarrow> string"
  order_key :: "string \<Rightarrow> string \<times> string"
  same_payload :: "'p \<Rightarrow> 'p \<Rightarrow> bool"
  insert_ignores :: bool
  refuses_text :: "string \<Rightarrow> bool"

text \<open>Postgres breaks ties of its collation by the bytes; MySQL identifies texts of equal weight, payloads too.\<close>

definition postgres :: "(string \<Rightarrow> string) \<Rightarrow> 'p server" where
  "postgres weight = \<lparr>text_key = id, order_key = (\<lambda>s. (weight s, s)), same_payload = (=), insert_ignores = False,
     refuses_text = (\<lambda>s. char_of (0 :: nat) \<in> set s)\<rparr>"

definition mysql :: "(string \<Rightarrow> string) \<Rightarrow> ('p \<Rightarrow> string) \<Rightarrow> 'p server" where
  "mysql weight payload_weight = \<lparr>text_key = weight, order_key = (\<lambda>s. (weight s, [])),
     same_payload = (\<lambda>p q. payload_weight p = payload_weight q), insert_ignores = True, refuses_text = (\<lambda>_. False)\<rparr>"

text \<open>The key of the row that a comparison with \<open>k\<close> finds, or \<open>k\<close> itself if there is none.\<close>

definition stored_key :: "('k \<Rightarrow> 'w) \<Rightarrow> ('k, 'v) btree_map \<Rightarrow> 'k \<Rightarrow> 'k" where
  "stored_key w t k = (case find (\<lambda>(k', _). w k' = w k) t of Some (k', _) \<Rightarrow> k' | None \<Rightarrow> k)"

definition pair_key :: "'p server \<Rightarrow> string \<times> string \<Rightarrow> string \<times> string" where
  "pair_key E = (\<lambda>(c, k). (text_key E c, text_key E k))"

text \<open>The parameters of a statement are sent before anything of it happens.\<close>

definition bound :: "'p server \<Rightarrow> string list \<Rightarrow> ('w, dtm_error, 'a) act \<Rightarrow> ('w, dtm_error, 'a) act" where
  "bound E texts m = (if list_ex (refuses_text E) texts then fail (StoreError StoreFault) else m)"

section \<open>Transactions\<close>

definition server_insert_transaction :: "'p server \<Rightarrow> 'p codec \<Rightarrow> transaction \<Rightarrow> ('p sql_db, dtm_error, unit) act" where
  "server_insert_transaction E C tx =
     bound E [gid tx] (then_ok (lift_res (varchar (insert_ignores E) 128 (gid tx))) (\<lambda>g db.
       let k = stored_key (text_key E) (t_transactions db) g in
       case insert_ignore k (transaction_row C tx) (t_transactions db) of
         (changed, t) \<Rightarrow>
           if \<not> changed then (Inl (TransactionAlreadyExists (gid tx)), db)
           else (Inr (), db\<lparr>t_transactions := t\<rparr>)))"

definition server_get_transaction ::
  "'p server \<Rightarrow> 'p codec \<Rightarrow> string \<Rightarrow> ('p sql_db, dtm_error, transaction option) act" where
  "server_get_transaction E C g =
     bound E [g] (\<lambda>db. sql_get_transaction C (stored_key (text_key E) (t_transactions db) g) db)"

text \<open>\<^verbatim>\<open>ON CONFLICT .. DO UPDATE\<close> and \<^verbatim>\<open>ON DUPLICATE KEY UPDATE\<close> keep the key of the row.\<close>

definition server_update_transaction ::
  "'p server \<Rightarrow> 'p codec \<Rightarrow> u64 \<Rightarrow> transaction \<Rightarrow> ('p sql_db, dtm_error, unit) act" where
  "server_update_transaction E C now tx =
     (let tx = bump_transaction_revision now tx in
      bound E [gid tx] (then_ok (lift_res (varchar False 128 (gid tx))) (\<lambda>g db.
        (Inr (), db\<lparr>t_transactions :=
          bt_insert (stored_key (text_key E) (t_transactions db) g) (transaction_row C tx) (t_transactions db)\<rparr>))))"

definition server_mutate ::
  "'p server \<Rightarrow> 'p codec \<Rightarrow> string \<Rightarrow> (transaction \<Rightarrow> transaction res) \<Rightarrow> ('p sql_db, dtm_error, transaction) act" where
  "server_mutate E C g f =
     bound E [g] (\<lambda>db. locked_mutate C (stored_key (text_key E) (t_transactions db) g) f db)"

definition server_delete_if_unchanged ::
  "'p server \<Rightarrow> 'p codec \<Rightarrow> ('p sql_db \<Rightarrow> 'p sql_db) \<Rightarrow> transaction \<Rightarrow> ('p sql_db, dtm_error, bool) act" where
  "server_delete_if_unchanged E C mid tx =
     bound E [gid tx] (\<lambda>db.
       case bt_get (t_transactions db) (stored_key (text_key E) (t_transactions db) (gid tx)) of
         None \<Rightarrow> (Inr False, db)
       | Some (p, _) \<Rightarrow>
           (case decode_payload C p of
              Inl e \<Rightarrow> (Inl e, db)
            | Inr current \<Rightarrow>
                if current \<noteq> tx then (Inr False, db)
                else (let db = mid db; k = stored_key (text_key E) (t_transactions db) (gid tx) in
                  if (case bt_get (t_transactions db) k of None \<Rightarrow> False | Some (q, _) \<Rightarrow> same_payload E q p)
                  then (Inr True, db\<lparr>t_transactions := bt_remove k (t_transactions db),
                         t_barriers := filter (\<lambda>(_, row). text_key E (br_gid row) \<noteq> text_key E (gid tx)) (t_barriers db)\<rparr>)
                  else (Inr False, db))))"

section \<open>Key-value entries\<close>

definition server_get_kv :: "'p server \<Rightarrow> string \<Rightarrow> string \<Rightarrow> ('p sql_db, dtm_error, kv_entry option) act" where
  "server_get_kv E cat k =
     bound E [cat, k] (\<lambda>db. case stored_key (pair_key E) (t_kv db) (cat, k) of (c, i) \<Rightarrow> sql_get_kv c i db)"

text \<open>Neither server accepts a negative limit or offset.\<close>

definition server_list_kv ::
  "'p server \<Rightarrow> string option \<Rightarrow> string option \<Rightarrow> nat \<Rightarrow> nat \<Rightarrow> ('p sql_db, dtm_error, kv_entry list) act" where
  "server_list_kv E cat k offset limit =
     bound E (case_option [] (\<lambda>x. [x]) cat @ case_option [] (\<lambda>x. [x]) k) (\<lambda>db.
       (let rows = sort_key (\<lambda>((c, i), _). (order_key E c, order_key E i))
              (filter (\<lambda>((c, i), _). opt_all (\<lambda>x. text_key E c = text_key E x) cat
                 \<and> opt_all (\<lambda>x. text_key E i = text_key E x) k) (t_kv db)) in
        if as_i64 (of_nat offset) < 0 \<or> as_i64 (of_nat limit) < 0 then Inl (StoreError StoreFault)
        else res_map (\<lambda>((c, i), row). kv_entry_from_values c i row) (sql_page offset limit rows), db))"

definition server_create_kv :: "'p server \<Rightarrow> kv_entry \<Rightarrow> ('p sql_db, dtm_error, bool) act" where
  "server_create_kv E e =
     bound E [kv_category e, kv_key e, kv_value e]
       (then_ok (lift_res (varchar (insert_ignores E) 191 (kv_category e))) (\<lambda>c.
        then_ok (lift_res (varchar (insert_ignores E) 191 (kv_key e))) (\<lambda>i db.
          case insert_ignore (stored_key (pair_key E) (t_kv db) (c, i)) (kv_row_of e) (t_kv db) of
            (changed, t) \<Rightarrow> (Inr changed, db\<lparr>t_kv := t\<rparr>))))"

definition server_update_kv :: "'p server \<Rightarrow> kv_entry \<Rightarrow> u64 \<Rightarrow> ('p sql_db, dtm_error, bool) act" where
  "server_update_kv E e expected_version =
     (if kv_version e \<noteq> sat_add expected_version 1 then fail (StoreError InvalidKvVersion)
      else bound E [kv_value e, kv_category e, kv_key e] (\<lambda>db.
        case stored_key (pair_key E) (t_kv db) (kv_category e, kv_key e) of
          (c, i) \<Rightarrow> sql_update_kv (e\<lparr>kv_category := c, kv_key := i\<rparr>) expected_version db))"

definition server_delete_kv :: "'p server \<Rightarrow> string \<Rightarrow> string \<Rightarrow> ('p sql_db, dtm_error, bool) act" where
  "server_delete_kv E cat k =
     bound E [cat, k] (\<lambda>db. case stored_key (pair_key E) (t_kv db) (cat, k) of (c, i) \<Rightarrow> sql_delete_kv c i db)"

section \<open>Barriers and leases\<close>

text \<open>
  The values of a new row of the table of barriers, then the transaction around it: a statement sees what others
  have committed and its own transaction's row. \<open>before\<close> is what others commit between the \<^verbatim>\<open>INSERT\<close> and the \<^verbatim>\<open>SELECT\<close>,
  \<open>after\<close> what they commit between the \<^verbatim>\<open>SELECT\<close> and the \<^verbatim>\<open>COMMIT\<close>.
\<close>

definition server_barrier_row :: "'p server \<Rightarrow> u64 \<Rightarrow> branch_barrier \<Rightarrow> (string \<times> barrier_row) res" where
  "server_barrier_row E now b =
     res_bind (varchar (insert_ignores E) 512 (barrier_key b)) (\<lambda>key.
     res_bind (varchar (insert_ignores E) 128 (bb_gid b)) (\<lambda>g.
     res_bind (varchar (insert_ignores E) 128 (bb_branch_id b)) (\<lambda>i.
     res_bind (varchar (insert_ignores E) 32 (bb_op b)) (\<lambda>oper.
       Inr (key, \<lparr>br_gid = g, br_branch_id = i, br_op = oper, br_created_at_millis = as_i64 now\<rparr>)))))"

definition barrier_stored :: "'p server \<Rightarrow> string \<Rightarrow> 'p sql_db \<Rightarrow> bool" where
  "barrier_stored E key db \<longleftrightarrow> bt_get (t_barriers db) (stored_key (text_key E) (t_barriers db) key) \<noteq> None"

definition drop_barrier :: "'p server \<Rightarrow> string \<Rightarrow> 'p sql_db \<Rightarrow> 'p sql_db" where
  "drop_barrier E key db = db\<lparr>t_barriers := bt_remove (stored_key (text_key E) (t_barriers db) key) (t_barriers db)\<rparr>"

definition server_barrier ::
  "'p server \<Rightarrow> ('p sql_db \<Rightarrow> 'p sql_db) \<Rightarrow> ('p sql_db \<Rightarrow> 'p sql_db) \<Rightarrow> u64 \<Rightarrow> branch_barrier
    \<Rightarrow> ('p sql_db, dtm_error, barrier_decision) act" where
  "server_barrier E before after now b =
     (let cancel_key = bb_gid b @ '':'' @ bb_branch_id b @ '':cancel'';
          try_key = bb_gid b @ '':'' @ bb_branch_id b @ '':try'' in
      bound E [barrier_key b, bb_gid b, bb_branch_id b, bb_op b]
        (then_ok (lift_res (server_barrier_row E now b)) (\<lambda>(key, row) db.
           let own = (\<lambda>db. db\<lparr>t_barriers := bt_insert key row (t_barriers db)\<rparr>); seen = before db in
           if barrier_stored E key db then (Inr SkipDuplicate, db)
           else if bb_op b = ''try'' \<and> barrier_stored E cancel_key (own seen)
             then (Inr SkipCancelledTry, drop_barrier E (barrier_key b) (own (after seen)))
           else if bb_op b = ''cancel'' \<and> \<not> barrier_stored E try_key (own seen)
             then (Inr SkipNullCompensation, own (after seen))
           else (Inr Execute, own (after seen)))))"

definition server_release_barrier :: "'p server \<Rightarrow> branch_barrier \<Rightarrow> ('p sql_db, dtm_error, unit) act" where
  "server_release_barrier E b = bound E [barrier_key b] (\<lambda>db. (Inr (), drop_barrier E (barrier_key b) db))"

definition server_try_acquire_lease ::
  "'p server \<Rightarrow> ('p sql_db \<Rightarrow> 'p sql_db) \<Rightarrow> u64 \<Rightarrow> string \<Rightarrow> string \<Rightarrow> u64 \<Rightarrow> ('p sql_db, dtm_error, bool) act" where
  "server_try_acquire_lease E mid now name owner ttl_millis =
     bound E [owner, name] (\<lambda>db.
       let expires = as_i64 (sat_add now ttl_millis);
           k = stored_key (text_key E) (t_leases db) name;
           renewable = (case bt_get (t_leases db) k of None \<Rightarrow> False
             | Some l \<Rightarrow> text_key E (lr_owner l) = text_key E owner \<or> lr_expires_at_millis l \<le> as_i64 now) in
       if renewable then
         then_ok (lift_res (varchar False 128 owner)) (\<lambda>who db.
           (Inr True, db\<lparr>t_leases := bt_insert k \<lparr>lr_owner = who, lr_expires_at_millis = expires\<rparr> (t_leases db)\<rparr>)) db
       else
         then_ok (lift_res (varchar (insert_ignores E) 191 name)) (\<lambda>n.
         then_ok (lift_res (varchar (insert_ignores E) 128 owner)) (\<lambda>who db.
           case insert_ignore (stored_key (text_key E) (t_leases db) n) \<lparr>lr_owner = who, lr_expires_at_millis = expires\<rparr> (t_leases db) of
             (inserted, t) \<Rightarrow> (Inr inserted, db\<lparr>t_leases := t\<rparr>))) (mid db))"

section \<open>The two stores\<close>

definition server_ops :: "'p server \<Rightarrow> 'p codec \<Rightarrow> 'p sql_db store_ops" where
  "server_ops E C = (sql_ops C (\<lambda>what. server_mutate E C) (server_barrier E id id))
     \<lparr>insert_transaction := server_insert_transaction E C,
      get_transaction := server_get_transaction E C,
      update_transaction := server_update_transaction E C,
      update_transaction_fenced := (\<lambda>now tx f. server_update_transaction E C now tx),
      delete_if_unchanged := server_delete_if_unchanged E C id,
      get_kv := server_get_kv E,
      list_kv := server_list_kv E,
      create_kv := server_create_kv E,
      update_kv := server_update_kv E,
      delete_kv := server_delete_kv E,
      release_barrier := server_release_barrier E,
      release_barrier_fenced := (\<lambda>b f. server_release_barrier E b),
      try_acquire_lease := server_try_acquire_lease E id,
      acquire_lease := default_acquire_lease (server_try_acquire_lease E id)\<rparr>"

definition postgres_ops :: "'p codec \<Rightarrow> (string \<Rightarrow> string) \<Rightarrow> 'p sql_db store_ops" where
  "postgres_ops C weight = server_ops (postgres weight) C"

definition mysql_ops :: "'p codec \<Rightarrow> (string \<Rightarrow> string) \<Rightarrow> ('p \<Rightarrow> string) \<Rightarrow> 'p sql_db store_ops" where
  "mysql_ops C weight payload_weight = server_ops (mysql weight payload_weight) C"

section \<open>Sequences of operations\<close>

text \<open>The operations of the contract as data, and what a sequence of them does to a store and to the abstract store.\<close>

datatype store_call =
    InsertCall transaction
  | GetCall string
  | UpdateCall u64 transaction
  | RegisterCall u64 string branch
  | ProgressCall u64 string workflow_progress
  | FinishCall u64 string transaction_status "string option" "string option"
  | DeferCall u64 string workflow_recovery_delay
  | BarrierCall u64 branch_barrier
  | ReleaseCall branch_barrier
  | ListCall
  | DeleteCall transaction

datatype store_reply =
    Acknowledged
  | Found "transaction option"
  | Changed transaction
  | Decided barrier_decision
  | Listed "transaction list"
  | Removed bool

definition replying :: "('a \<Rightarrow> store_reply) \<Rightarrow> ('s, dtm_error, 'a) act \<Rightarrow> ('s, dtm_error, store_reply) act" where
  "replying f m = then_ok m (\<lambda>x. ok (f x))"

fun call_store :: "'s store_ops \<Rightarrow> store_call \<Rightarrow> ('s, dtm_error, store_reply) act" where
  "call_store ops (InsertCall tx) = replying (\<lambda>_. Acknowledged) (insert_transaction ops tx)"
| "call_store ops (GetCall g) = replying Found (get_transaction ops g)"
| "call_store ops (UpdateCall now tx) = replying (\<lambda>_. Acknowledged) (update_transaction ops now tx)"
| "call_store ops (RegisterCall now g br) = replying Changed (register_branch ops now g br)"
| "call_store ops (ProgressCall now g p) = replying Changed (record_progress ops now g p)"
| "call_store ops (FinishCall now g st rr rs) = replying Changed (finish_workflow ops now g st rr rs)"
| "call_store ops (DeferCall now g d) = replying Changed (defer_recovery ops now g d)"
| "call_store ops (BarrierCall now b) = replying Decided (barrier ops now b)"
| "call_store ops (ReleaseCall b) = replying (\<lambda>_. Acknowledged) (release_barrier ops b)"
| "call_store ops ListCall = replying Listed (list_transactions ops)"
| "call_store ops (DeleteCall tx) = replying Removed (delete_if_unchanged ops tx)"

primrec run_calls :: "'s store_ops \<Rightarrow> store_call list \<Rightarrow> 's \<Rightarrow> (dtm_error + store_reply) list \<times> 's" where
  "run_calls ops [] s = ([], s)"
| "run_calls ops (c # cs) s =
     (case call_store ops c s of (r, s') \<Rightarrow> case run_calls ops cs s' of (rs, s'') \<Rightarrow> (r # rs, s''))"

fun spec_call :: "store_call \<Rightarrow> abs_store \<Rightarrow> dtm_error + store_reply \<Rightarrow> abs_store \<Rightarrow> bool" where
  "spec_call (InsertCall tx) a r a' \<longleftrightarrow> replying (\<lambda>_. Acknowledged) (spec_insert tx) a = (r, a')"
| "spec_call (GetCall g) a r a' \<longleftrightarrow> replying Found (spec_get g) a = (r, a')"
| "spec_call (UpdateCall now tx) a r a' \<longleftrightarrow> replying (\<lambda>_. Acknowledged) (spec_update now tx) a = (r, a')"
| "spec_call (RegisterCall now g br) a r a' \<longleftrightarrow> replying Changed (spec_mutate g (\<lambda>tx. append_dynamic_branch now tx br)) a = (r, a')"
| "spec_call (ProgressCall now g p) a r a' \<longleftrightarrow> replying Changed (spec_mutate g (\<lambda>tx. append_workflow_progress now tx p)) a = (r, a')"
| "spec_call (FinishCall now g st rr rs) a r a' \<longleftrightarrow>
     replying Changed (spec_mutate g (\<lambda>tx. apply_workflow_completion now tx st rr rs)) a = (r, a')"
| "spec_call (DeferCall now g d) a r a' \<longleftrightarrow> replying Changed (spec_mutate g (\<lambda>tx. defer_workflow_recovery now tx d)) a = (r, a')"
| "spec_call (BarrierCall now b) a r a' \<longleftrightarrow> replying Decided (spec_barrier same_key b) a = (r, a')"
| "spec_call (ReleaseCall b) a r a' \<longleftrightarrow> replying (\<lambda>_. Acknowledged) (spec_release same_key b) a = (r, a')"
| "spec_call ListCall a r a' \<longleftrightarrow>
     a' = a \<and> (\<exists>ts. r = Inr (Listed ts) \<and> set ts = ran (a_txs a) \<and> distinct (map gid ts))"
| "spec_call (DeleteCall tx) a r a' \<longleftrightarrow>
     (\<exists>gone. r = Inr (Removed gone) \<and> spec_delete same_key tx a (Inr gone) a')"

fun spec_calls :: "store_call list \<Rightarrow> abs_store \<Rightarrow> (dtm_error + store_reply) list \<Rightarrow> abs_store \<Rightarrow> bool" where
  "spec_calls [] a rs a' \<longleftrightarrow> rs = [] \<and> a' = a"
| "spec_calls (c # cs) a [] a' \<longleftrightarrow> False"
| "spec_calls (c # cs) a (r # rs) a' \<longleftrightarrow> (\<exists>a1. spec_call c a r a1 \<and> spec_calls cs a1 rs a')"

text \<open>The texts a call compares with the column \<^verbatim>\<open>gid\<close> and with the column \<^verbatim>\<open>barrier_key\<close>, and all it sends.\<close>

fun call_gids :: "store_call \<Rightarrow> string set" where
  "call_gids (InsertCall tx) = {gid tx}"
| "call_gids (GetCall g) = {g}"
| "call_gids (UpdateCall now tx) = {gid tx}"
| "call_gids (RegisterCall now g br) = {g}"
| "call_gids (ProgressCall now g p) = {g}"
| "call_gids (FinishCall now g st rr rs) = {g}"
| "call_gids (DeferCall now g d) = {g}"
| "call_gids (BarrierCall now b) = {bb_gid b}"
| "call_gids (ReleaseCall b) = {}"
| "call_gids ListCall = {}"
| "call_gids (DeleteCall tx) = {gid tx}"

fun call_keys :: "store_call \<Rightarrow> string set" where
  "call_keys (BarrierCall now b) = barrier_key ` {b, sibling b ''cancel'', sibling b ''try''}"
| "call_keys (ReleaseCall b) = {barrier_key b}"
| "call_keys _ = {}"

fun call_texts :: "store_call \<Rightarrow> string set" where
  "call_texts (BarrierCall now b) = {barrier_key b, bb_gid b, bb_branch_id b, bb_op b}"
| "call_texts c = call_gids c \<union> call_keys c"

fun call_fits :: "store_call \<Rightarrow> bool" where
  "call_fits (InsertCall tx) \<longleftrightarrow> char_length (gid tx) \<le> 128"
| "call_fits (UpdateCall now tx) \<longleftrightarrow> char_length (gid tx) \<le> 128"
| "call_fits (BarrierCall now b) \<longleftrightarrow> char_length (bb_gid b) \<le> 128 \<and> char_length (bb_branch_id b) \<le> 128 \<and> char_length (bb_op b) \<le> 32"
| "call_fits _ \<longleftrightarrow> True"

definition db_gids :: "'p sql_db \<Rightarrow> string set" where
  "db_gids db = fst ` set (t_transactions db) \<union> (\<lambda>(_, row). br_gid row) ` set (t_barriers db)"

definition db_keys :: "'p sql_db \<Rightarrow> string set" where
  "db_keys db = fst ` set (t_barriers db)"

text \<open>
  A server stores and tells apart the texts of a sequence of calls: they fit their columns, it takes them as
  parameters, and its collation keeps different ones apart from each other and from those in the tables.
\<close>

definition accepted :: "'p server \<Rightarrow> store_call list \<Rightarrow> 'p sql_db \<Rightarrow> bool" where
  "accepted E cs db \<longleftrightarrow> list_all call_fits cs
     \<and> (\<forall>c \<in> set cs. \<forall>s \<in> call_texts c. \<not> refuses_text E s)
     \<and> inj_on (text_key E) (db_gids db \<union> \<Union> (call_gids ` set cs))
     \<and> inj_on (text_key E) (db_keys db \<union> \<Union> (call_keys ` set cs))"

section \<open>On accepted texts a server does what unbounded, exactly compared columns do\<close>

lemma char_length_append [simp]: "char_length (s @ t) = char_length s + char_length t"
  by (simp add: char_length_def)

lemma barrier_key_fits:
  assumes "char_length (bb_gid b) \<le> 128" and "char_length (bb_branch_id b) \<le> 128" and "char_length (bb_op b) \<le> 32"
  shows "char_length (barrier_key b) \<le> 512"
proof -
  have "char_length '':'' = 1" by (simp add: char_length_def continuation_byte_def)
  then show ?thesis using assms by (simp add: barrier_key_def del: append_Cons)
qed

lemma varchar_fits: "char_length s \<le> n \<Longrightarrow> varchar ignore n s = Inr s"
  by (simp add: varchar_def Let_def)

lemma stored_key_inj:
  assumes "inj_on w (insert k (fst ` set t))"
  shows "stored_key w t k = k"
proof (cases "find (\<lambda>(k', _). w k' = w k) t")
  case (Some row)
  then have found: "row \<in> set t" "w (fst row) = w k" by (auto simp: find_Some_iff case_prod_beta)
  then have "fst row = k" using inj_onD [OF assms, of "fst row" k] by simp
  then show ?thesis using Some by (cases row) (simp add: stored_key_def)
qed (simp add: stored_key_def)

lemma bound_ok: "\<not> list_ex (refuses_text E) texts \<Longrightarrow> bound E texts m = m"
  by (simp add: bound_def)

lemma server_row_fits:
  assumes "char_length (bb_gid b) \<le> 128" and "char_length (bb_branch_id b) \<le> 128" and "char_length (bb_op b) \<le> 32"
  shows "server_barrier_row E now b = Inr (barrier_key b, barrier_row_of now b)"
  using assms barrier_key_fits [OF assms] by (simp add: server_barrier_row_def varchar_fits barrier_row_of_def)

lemma set_bt_insert: "set (bt_insert k v t) \<subseteq> insert (k, v) (set t)"
  by (induction k v t rule: bt_insert.induct) auto

text \<open>The texts of one call and the tables.\<close>

lemma accepted_parts:
  assumes "accepted E (c # cs) db"
  shows "call_fits c" and "\<And>s. s \<in> call_texts c \<Longrightarrow> \<not> refuses_text E s"
    and "inj_on (text_key E) (db_gids db \<union> call_gids c)" and "inj_on (text_key E) (db_keys db \<union> call_keys c)"
  using assms unfolding accepted_def by (auto elim: inj_on_subset)

lemma stored_gid:
  assumes "inj_on w (db_gids db \<union> G)" and "g \<in> G"
  shows "stored_key w (t_transactions db) g = g"
  using assms by (intro stored_key_inj, elim inj_on_subset) (auto simp: db_gids_def)

lemma stored_barrier:
  assumes "inj_on w (db_keys db \<union> K)" and "k \<in> K"
  shows "stored_key w (t_barriers db) k = k"
  using assms by (intro stored_key_inj, elim inj_on_subset) (auto simp: db_keys_def)

lemma server_insert_same:
  assumes "accepted E (InsertCall tx # cs) db"
  shows "server_insert_transaction E C tx db = sql_insert_transaction C tx db"
  using accepted_parts [OF assms] stored_gid [of "text_key E" db "{gid tx}" "gid tx"]
  by (simp add: server_insert_transaction_def bound_ok varchar_fits sql_insert_transaction_def)

lemma server_update_same:
  assumes "accepted E (UpdateCall now tx # cs) db"
  shows "server_update_transaction E C now tx db = sql_update_transaction C now tx db"
  using accepted_parts [OF assms] stored_gid [of "text_key E" db "{gid tx}" "gid tx"]
  by (simp add: server_update_transaction_def bound_ok varchar_fits sql_update_transaction_def bump_transaction_revision_def Let_def)

lemma server_gid_same:
  assumes "inj_on (text_key E) (db_gids db \<union> {g})" and "\<not> refuses_text E g"
  shows "server_get_transaction E C g db = sql_get_transaction C g db"
    and "server_mutate E C g f db = locked_mutate C g f db"
  using assms stored_gid [OF assms(1), of g]
  by (simp_all add: server_get_transaction_def server_mutate_def bound_ok)

lemma server_delete_same:
  assumes "accepted E (DeleteCall tx # cs) db" and "\<And>p. same_payload E p p"
  shows "server_delete_if_unchanged E C id tx db = sql_delete_if_unchanged C id tx db"
proof -
  note parts = accepted_parts [OF assms(1)]
  have "text_key E (br_gid row) = text_key E (gid tx) \<longleftrightarrow> br_gid row = gid tx" if "(k, row) \<in> set (t_barriers db)" for k row
    using that parts(3) by (intro inj_on_eq_iff [of _ "db_gids db \<union> {gid tx}"]) (force simp: db_gids_def)+
  then have "filter (\<lambda>(_, row). text_key E (br_gid row) \<noteq> text_key E (gid tx)) (t_barriers db)
      = filter (\<lambda>(_, row). br_gid row \<noteq> gid tx) (t_barriers db)"
    by (intro filter_cong) auto
  then show ?thesis
    using parts(2) stored_gid [of "text_key E" db "{gid tx}" "gid tx"] parts(3) assms(2)
    by (auto simp: server_delete_if_unchanged_def bound_ok sql_delete_if_unchanged_def Let_def split: option.split sum.split)
qed

lemma stored_own:
  assumes "inj_on w (db_keys db \<union> K)" and "k \<in> K" and "key \<in> K"
  shows "stored_key w (bt_insert key row (t_barriers db)) k = k"
  using assms by (intro stored_key_inj, elim inj_on_subset) (auto simp: db_keys_def)

lemma opposite_key:
  "bb_op b = ''try'' \<Longrightarrow> barrier_key b \<noteq> bb_gid b @ '':'' @ bb_branch_id b @ '':cancel''"
  "bb_op b = ''cancel'' \<Longrightarrow> barrier_key b \<noteq> bb_gid b @ '':'' @ bb_branch_id b @ '':try''"
  by (simp_all add: barrier_key_def)

lemma server_barrier_same:
  assumes "accepted E (BarrierCall now b # cs) db" and "bt_wf (t_barriers db)"
  shows "server_barrier E id id now b db = mvcc_barrier id id now b db"
proof -
  let ?K = "barrier_key ` {b, sibling b ''cancel'', sibling b ''try''}" and ?w = "text_key E"
  note parts = accepted_parts [OF assms(1), simplified]
  have inj: "inj_on ?w (db_keys db \<union> ?K)" using accepted_parts(4) [OF assms(1)] by simp
  have keys: "barrier_key (sibling b ''cancel'') = bb_gid b @ '':'' @ bb_branch_id b @ '':cancel''"
    "barrier_key (sibling b ''try'') = bb_gid b @ '':'' @ bb_branch_id b @ '':try''"
    by (simp_all add: barrier_key_def)
  have row: "server_barrier_row E now b = Inr (barrier_key b, barrier_row_of now b)" using parts(1) by (simp add: server_row_fits)
  have stored: "stored_key ?w (t_barriers db) (barrier_key b) = barrier_key b" using stored_barrier [OF inj] by simp
  have own: "stored_key ?w (bt_insert (barrier_key b) (barrier_row_of now b) (t_barriers db)) k = k" if "k \<in> ?K" for k
    using stored_own [OF inj that] by simp
  have own_keys: "stored_key ?w (bt_insert (barrier_key b) (barrier_row_of now b) (t_barriers db)) (barrier_key b) = barrier_key b"
    "stored_key ?w (bt_insert (barrier_key b) (barrier_row_of now b) (t_barriers db)) (bb_gid b @ '':'' @ bb_branch_id b @ '':cancel'')
       = bb_gid b @ '':'' @ bb_branch_id b @ '':cancel''"
    "stored_key ?w (bt_insert (barrier_key b) (barrier_row_of now b) (t_barriers db)) (bb_gid b @ '':'' @ bb_branch_id b @ '':try'')
       = bb_gid b @ '':'' @ bb_branch_id b @ '':try''"
    using own unfolding keys [symmetric] by blast+
  have bound: "bound E [barrier_key b, bb_gid b, bb_branch_id b, bb_op b] m = m" for m :: "('b sql_db, dtm_error, barrier_decision) act"
    using parts(2) by (intro bound_ok) auto
  show ?thesis
    unfolding server_barrier_def Let_def bound row then_ok_lift_Inr prod.case
    using own_keys opposite_key [of b] stored btree.remove_insert [OF assms(2), of "barrier_key b" "barrier_row_of now b"]
    by (auto simp: mvcc_barrier_def Let_def barrier_stored_def drop_barrier_def)
qed

lemma server_release_same:
  assumes "accepted E (ReleaseCall b # cs) db"
  shows "server_release_barrier E b db = sql_release_barrier b db"
  using accepted_parts [OF assms] stored_barrier [of "text_key E" db "{barrier_key b}" "barrier_key b"]
  by (simp add: server_release_barrier_def bound_ok sql_release_barrier_def drop_barrier_def)

text \<open>The store with unbounded columns and exact comparison that the two are compared with.\<close>

definition exact_ops :: "'p codec \<Rightarrow> 'p sql_db store_ops" where
  "exact_ops C = sql_ops C (\<lambda>what. locked_mutate C) (mvcc_barrier id id)"

lemmas call_simps = server_ops_def exact_ops_def sql_ops_def replying_def then_ok_def

lemma call_same:
  assumes acc: "accepted E (c # cs) db" and "bt_wf (t_barriers db)" and "\<And>p. same_payload E p p"
  shows "call_store (server_ops E C) c db = call_store (exact_ops C) c db"
proof -
  note parts = accepted_parts [OF acc]
  show ?thesis
  proof (cases c)
    case (InsertCall tx)
    then show ?thesis using server_insert_same [of E tx cs db C] acc by (simp add: call_simps)
  next
    case (UpdateCall now tx)
    then show ?thesis using server_update_same [of E now tx cs db C] acc by (simp add: call_simps)
  next
    case (BarrierCall now b)
    then show ?thesis using server_barrier_same [of E now b cs db] acc assms(2) by (simp add: call_simps)
  next
    case (ReleaseCall b)
    then show ?thesis using server_release_same [of E b cs db] acc by (simp add: call_simps)
  next
    case (DeleteCall tx)
    then show ?thesis using server_delete_same [of E tx cs db C] acc assms(3) by (simp add: call_simps)
  qed (use parts server_gid_same [of E db] in \<open>simp_all add: call_simps Let_def\<close>)
qed

text \<open>A call adds no other texts to the tables than its own.\<close>

lemma write_frame [simp]:
  "db_gids (db\<lparr>t_transactions := bt_insert g row (t_transactions db)\<rparr>) = insert g (db_gids db)"
  "db_keys (db\<lparr>t_transactions := t\<rparr>) = db_keys db"
  "db_keys (db\<lparr>t_barriers := bt_insert k b (t_barriers db)\<rparr>) = insert k (db_keys db)"
  by (simp_all add: db_gids_def db_keys_def)

lemma own_frame: "db_gids (db\<lparr>t_barriers := bt_insert k b (t_barriers db)\<rparr>) \<subseteq> insert (br_gid b) (db_gids db)"
  using image_mono [OF set_bt_insert, of "\<lambda>(_, row). br_gid row" k b "t_barriers db"] by (auto simp: db_gids_def)

lemma fewer_frame:
  "set (t_transactions db') \<subseteq> set (t_transactions db) \<Longrightarrow> set (t_barriers db') \<subseteq> set (t_barriers db) \<Longrightarrow>
     db_gids db' \<subseteq> db_gids db \<and> db_keys db' \<subseteq> db_keys db"
  unfolding db_gids_def db_keys_def by blast

lemma mutate_frame:
  "locked_mutate C g f db = (r, db') \<Longrightarrow> db_gids db' \<subseteq> insert g (db_gids db) \<and> db_keys db' = db_keys db"
  by (auto simp: locked_mutate_def split: option.splits prod.splits sum.splits)

lemma barrier_frame:
  assumes "mvcc_barrier id id now b db = (r, db')"
  shows "db_gids db' \<subseteq> insert (bb_gid b) (db_gids db) \<and> db_keys db' \<subseteq> insert (barrier_key b) (db_keys db)"
proof -
  have "db' = db \<or> db' = db\<lparr>t_barriers := bt_insert (barrier_key b) (barrier_row_of now b) (t_barriers db)\<rparr>"
    using assms by (auto simp: mvcc_barrier_def Let_def split: if_splits)
  then show ?thesis using own_frame [where db = db and k = "barrier_key b" and b = "barrier_row_of now b"] by (auto simp: barrier_row_of_def)
qed

lemma delete_frame:
  assumes "sql_delete_if_unchanged C id tx db = (r, db')"
  shows "db_gids db' \<subseteq> db_gids db \<and> db_keys db' \<subseteq> db_keys db"
  using assms
  by (intro fewer_frame) (auto simp: sql_delete_if_unchanged_def bt_remove_def Let_def split: option.splits prod.splits sum.splits if_splits)

lemma release_frame: "sql_release_barrier b db = (r, db') \<Longrightarrow> db_gids db' \<subseteq> db_gids db \<and> db_keys db' \<subseteq> db_keys db"
  by (intro fewer_frame) (auto simp: sql_release_barrier_def bt_remove_def)

lemma insert_frame: "sql_insert_transaction C tx db = (r, db') \<Longrightarrow> db_gids db' \<subseteq> insert (gid tx) (db_gids db) \<and> db_keys db' = db_keys db"
  by (auto simp: sql_insert_transaction_def insert_ignore_simps split: if_splits)

lemma update_frame: "sql_update_transaction C now tx db = (r, db') \<Longrightarrow> db_gids db' \<subseteq> insert (gid tx) (db_gids db) \<and> db_keys db' = db_keys db"
  by (auto simp: sql_update_transaction_def Let_def bump_transaction_revision_def)

lemma read_frame: "sql_get_transaction C g db = (r, db') \<Longrightarrow> db' = db" "sql_list_transactions C db = (r', db') \<Longrightarrow> db' = db"
  by (auto simp: sql_get_transaction_def sql_list_transactions_def split: option.splits)

lemma replying_cases:
  assumes "replying f m s = (r, s')"
  obtains r' where "m s = (r', s')"
  using assms by (auto simp: replying_def then_ok_def ok_apply split: prod.splits sum.splits)

lemma call_frame:
  assumes "call_store (exact_ops C) c db = (r, db')"
  shows "db_gids db' \<subseteq> db_gids db \<union> call_gids c \<and> db_keys db' \<subseteq> db_keys db \<union> call_keys c"
  using assms
  by (cases c)
    (simp_all add: exact_ops_def sql_ops_def Let_def,
     (erule replying_cases,
      (drule insert_frame | drule update_frame | drule mutate_frame | drule barrier_frame | drule release_frame
        | drule delete_frame | drule read_frame(1) | drule read_frame(2)), blast)+)

lemma accepted_step:
  assumes "accepted E (c # cs) db" and "call_store (exact_ops C) c db = (r, db')"
  shows "accepted E cs db'"
proof -
  have "db_gids db' \<union> \<Union> (call_gids ` set cs) \<subseteq> db_gids db \<union> \<Union> (call_gids ` set (c # cs))"
    "db_keys db' \<union> \<Union> (call_keys ` set cs) \<subseteq> db_keys db \<union> \<Union> (call_keys ` set (c # cs))"
    using call_frame [OF assms(2)] by auto
  then show ?thesis using assms(1) unfolding accepted_def by (auto intro: inj_on_subset)
qed

context payload_codec
begin

lemma replying_faithful:
  "faithful good view m spec \<Longrightarrow> good s \<Longrightarrow> replying f m s = (r, s') \<Longrightarrow> good s' \<and> replying f spec (view s) = (r, view s')"
  by (auto simp: replying_def then_ok_def ok_apply dest: faithful_run split: prod.splits sum.splits)

lemma call_exact:
  assumes "good db" and "call_store (exact_ops C) c db = (r, db')"
  shows "good db' \<and> spec_call c (view db) r (view db')"
proof (cases c)
  case ListCall
  then show ?thesis using assms list_exact [OF assms(1)] by (auto simp: exact_ops_def sql_ops_def replying_def then_ok_def ok_apply)
next
  case (DeleteCall tx)
  then obtain r' where "sql_delete_if_unchanged C id tx db = (r', db')" "replying Removed (sql_delete_if_unchanged C id tx) db = (r, db')"
    using assms(2) by (auto simp: exact_ops_def sql_ops_def Let_def dest: replying_cases)
  then show ?thesis using delete_law [OF assms(1)] DeleteCall
    by (fastforce simp: replying_def then_ok_def ok_apply spec_delete_def)
qed (use assms(2) in \<open>simp_all add: exact_ops_def sql_ops_def Let_def\<close>,
  (rule replying_faithful [OF _ assms(1)], rule sql_faithful transitions_faithful mvcc_faithful, assumption)+)

lemma exact_calls:
  "good db \<Longrightarrow> run_calls (exact_ops C) cs db = (rs, db') \<Longrightarrow> good db' \<and> spec_calls cs (view db) rs (view db')"
proof (induction cs arbitrary: db rs)
  case (Cons c cs)
  then show ?case using call_exact [of db c] by (fastforce split: prod.splits)
qed simp

lemma server_calls:
  assumes "\<And>p. same_payload E p p" and "good db" and "accepted E cs db"
  shows "run_calls (server_ops E C) cs db = run_calls (exact_ops C) cs db"
  using assms(2,3)
proof (induction cs arbitrary: db)
  case (Cons c cs)
  obtain r db1 where step: "call_store (exact_ops C) c db = (r, db1)" by fastforce
  have "call_store (server_ops E C) c db = (r, db1)"
    using call_same [OF Cons.prems(2) _ assms(1), of C] Cons.prems(1) step by (simp add: sql_good_def)
  moreover have "run_calls (server_ops E C) cs db1 = run_calls (exact_ops C) cs db1"
    using Cons.IH call_exact [OF Cons.prems(1) step] accepted_step [OF Cons.prems(2) step] by blast
  ultimately show ?case using step by simp
qed simp

lemma sqlite_calls: "good db \<Longrightarrow> run_calls (sqlite_ops C) cs db = run_calls (exact_ops C) cs db"
proof (induction cs arbitrary: db)
  case (Cons c cs)
  have "call_store (sqlite_ops C) c db = call_store (exact_ops C) c db"
    using sqlite_is_mvcc [OF Cons.prems]
    by (cases c) (simp_all add: sqlite_ops_def exact_ops_def sql_ops_def sqlite_mutate_undisturbed replying_def then_ok_def)
  then show ?case using Cons call_exact [OF Cons.prems, of c] by (auto split: prod.splits)
qed simp

end

section \<open>Concurrent barriers and leases on Postgres\<close>

text \<open>
  What is shown of \<open>mvcc_barrier\<close> and \<open>sql_try_acquire_lease\<close> under interference holds of Postgres for values that fit.
\<close>

lemma stored_key_id [simp]: "stored_key id t k = k"
  by (rule stored_key_inj) simp

lemma postgres_bound: "char_of (0 :: nat) \<notin> set (concat texts) \<Longrightarrow> bound (postgres weight) texts m = m"
  by (intro bound_ok) (auto simp: postgres_def list_ex_iff)

lemma postgres_barrier:
  assumes "call_fits (BarrierCall now b)" and "char_of (0 :: nat) \<notin> set (barrier_key b)"
    and "bt_wf (t_barriers (after (before db)))" and "bt_get (t_barriers (after (before db))) (barrier_key b) = None"
  shows "server_barrier (postgres weight) before after now b db = mvcc_barrier before after now b db"
proof -
  have bound: "bound (postgres weight) [barrier_key b, bb_gid b, bb_branch_id b, bb_op b] m = m" for m :: "('b sql_db, dtm_error, barrier_decision) act"
    using assms(2) by (intro postgres_bound) (auto simp: barrier_key_def)
  have row: "server_barrier_row (postgres weight) now b = Inr (barrier_key b, barrier_row_of now b)"
    using assms(1) by (simp add: server_row_fits)
  have key: "text_key (postgres weight) = id" by (simp add: postgres_def)
  show ?thesis
    unfolding server_barrier_def Let_def bound row then_ok_lift_Inr prod.case
    using opposite_key [of b] btree.remove_insert [OF assms(3,4), of "barrier_row_of now b"]
    by (auto simp: mvcc_barrier_def Let_def barrier_stored_def drop_barrier_def key)
qed

lemma postgres_lease:
  assumes "char_length name \<le> 191" and "char_length owner \<le> 128" and "char_of (0 :: nat) \<notin> set (owner @ name)"
  shows "server_try_acquire_lease (postgres weight) mid now name owner ttl db = sql_try_acquire_lease mid now name owner ttl db"
proof -
  have bound: "bound (postgres weight) [owner, name] m = m" for m :: "('b sql_db, dtm_error, bool) act"
    using assms(3) by (intro postgres_bound) simp
  have key: "text_key (postgres weight) = id" by (simp add: postgres_def)
  show ?thesis
    unfolding server_try_acquire_lease_def bound key
    using assms(1,2)
    by (cases "bt_get (t_leases db) name") (simp_all add: sql_try_acquire_lease_def varchar_fits insert_ignore_simps Let_def)
qed

section \<open>Values that do not fit\<close>

text \<open>Postgres refuses a transaction whose gid is too long.\<close>

lemma postgres_refuses_long_gid:
  assumes "128 < char_length (gid tx)" and "\<not> list_all (\<lambda>c. c = CHR '' '') (drop (length (take_chars 128 (gid tx))) (gid tx))"
  shows "insert_transaction (postgres_ops C weight) tx db = (Inl (StoreError StoreFault), db)"
  using assms by (simp add: postgres_ops_def server_ops_def server_insert_transaction_def bound_def varchar_def postgres_def fail_apply Let_def)

lemma stored_key_none: "w k \<notin> w ` fst ` set t \<Longrightarrow> stored_key w t k = k"
  by (auto simp: stored_key_def find_None_iff split: option.split dest!: find_Some_iff [THEN iffD1])
    (metis (no_types, lifting) fst_conv image_eqI nth_mem)

lemma stored_key_inserted:
  assumes "w k \<notin> w ` fst ` set t" and "w h = w k"
  shows "stored_key w (bt_insert k v t) h = k"
proof -
  have "\<exists>v'. find (\<lambda>(k', _). w k' = w h) (bt_insert k v t) = Some (k, v')"
    using assms by (induction k v t rule: bt_insert.induct) auto
  then show ?thesis by (auto simp: stored_key_def)
qed

text \<open>
  MySQL reports the insertion of such a transaction as a success and stores it under the first 128 characters of
  its gid: under its own gid it cannot be found.
\<close>

lemma mysql_loses_long_gid:
  assumes "128 < char_length (gid tx)" and "weight (take_chars 128 (gid tx)) \<noteq> weight (gid tx)"
    and "weight ` {take_chars 128 (gid tx), gid tx} \<inter> weight ` fst ` set (t_transactions db) = {}"
  shows "\<exists>db'. insert_transaction (mysql_ops C weight pw) tx db = (Inr (), db')
    \<and> get_transaction (mysql_ops C weight pw) (gid tx) db' = (Inr None, db')"
proof -
  let ?t = "t_transactions db" and ?k = "take_chars 128 (gid tx)"
  have absent: "weight ?k \<notin> weight ` fst ` set ?t" "weight (gid tx) \<notin> weight ` fst ` set ?t" using assms(3) by auto
  then have none: "bt_get ?t ?k = None" "bt_get ?t (gid tx) = None" by (auto simp: bt_get_None_notin)
  have key: "stored_key weight ?t ?k = ?k" using stored_key_none [OF absent(1)] .
  have lost: "stored_key weight (bt_insert ?k row ?t) (gid tx) = gid tx" for row
    using absent(2) assms(2) by (intro stored_key_none) (simp add: image_image [symmetric])
  have "?k \<noteq> gid tx" using assms(2) by auto
  then show ?thesis
    using assms(1) key lost none
    by (simp add: mysql_ops_def server_ops_def server_insert_transaction_def server_get_transaction_def bound_def varchar_def mysql_def
        insert_ignore_simps sql_get_transaction_def Let_def)
qed

text \<open>Under a collation that ignores case, a reader of one gid gets the transaction of another.\<close>

lemma mysql_mixes_gids:
  assumes "from_json C (to_json C tx) = Some tx" and "char_length (gid tx) \<le> 128" and "weight h = weight (gid tx)"
    and "weight (gid tx) \<notin> weight ` fst ` set (t_transactions db)"
  shows "\<exists>db'. insert_transaction (mysql_ops C weight pw) tx db = (Inr (), db')
    \<and> get_transaction (mysql_ops C weight pw) h db' = (Inr (Some tx), db')"
proof -
  let ?t = "t_transactions db"
  have "bt_get ?t (gid tx) = None" using assms(4) by (auto simp: bt_get_None_notin)
  then show ?thesis
    using assms(1,2) stored_key_none [OF assms(4)] stored_key_inserted [OF assms(4,3)]
    by (simp add: mysql_ops_def server_ops_def server_insert_transaction_def server_get_transaction_def bound_def mysql_def
        varchar_fits insert_ignore_simps sql_get_transaction_def transaction_row_def decode_payload_def ok_or_def Let_def)
qed

section \<open>Properties\<close>

text \<open>
  C20: The relational stores refine the abstract store, as far as their columns and collations allow. Take any sequence of insertions, lookups, overwriting
  updates, branch registrations, workflow progresses, completions and deferrals, barriers and their releases, listings and deletions, on a
  consistent database that nobody else uses, with a serialiser that decodes what it encodes. On SQLite, whatever the texts, and on
  Postgres and MySQL when the gids, branch ids and operations fit their columns (128, 128 and 32 characters), the
  server takes the texts as parameters (Postgres: no zero byte) and its collation tells different ones apart, every call has the result and the effect
  of the abstract store: a listing returns each stored transaction once in some order, and a deletion may take barriers of that transaction with it. The database stays consistent.
\<close>

theorem sql_stores_refine:
  assumes "\<And>tx. from_json C (to_json C tx) = Some tx" and "sql_good C db"
    and "ops = sqlite_ops C \<or> ops = postgres_ops C weight \<and> accepted (postgres weight) cs db
      \<or> ops = mysql_ops C weight payload_weight \<and> accepted (mysql weight payload_weight) cs db"
    and "run_calls ops cs db = (rs, db')"
  shows "spec_calls cs (sql_view C db) rs (sql_view C db') \<and> sql_good C db'"
proof -
  have codec: "payload_codec C" using assms(1) by unfold_locales
  have "same_payload (postgres weight) p p" "same_payload (mysql weight payload_weight) p p" for p :: 'a
    by (simp_all add: postgres_def mysql_def)
  then have "run_calls ops cs db = run_calls (exact_ops C) cs db"
    using assms(3) payload_codec.server_calls [OF codec _ assms(2)] payload_codec.sqlite_calls [OF codec assms(2)]
    by (auto simp: postgres_ops_def mysql_ops_def)
  then show ?thesis using payload_codec.exact_calls [OF codec assms(2), of cs rs db'] assms(4) by metis
qed

text \<open>A collation that does not distinguish \<open>G\<close> from \<open>g\<close>, and four calls it can serve.\<close>

definition sample_weight :: "string \<Rightarrow> string" where
  "sample_weight s = map (\<lambda>c. if c = CHR ''G'' then CHR ''g'' else c) s"

definition sample_calls :: "store_call list" where
  "sample_calls = [InsertCall sample_tcc, BarrierCall 5 (barrier_new ''g1'' ''b1'' ''cancel''),
     BarrierCall 6 (barrier_new ''g1'' ''b1'' ''try''), GetCall ''g1'']"

theorem sql_stores_refine_witness:
  "fst (run_calls (mysql_ops plain_codec sample_weight (\<lambda>tx. gid tx)) sample_calls migrated)
     = [Inr Acknowledged, Inr (Decided SkipNullCompensation), Inr (Decided SkipCancelledTry), Inr (Found (Some sample_tcc))]"
proof -
  let ?ops = "mysql_ops plain_codec sample_weight (\<lambda>tx. gid tx)"
  obtain rs db' where run: "run_calls ?ops sample_calls migrated = (rs, db')" by fastforce
  have g: "gid sample_tcc = ''g1''" by (simp add: sample_defs)
  have start: "sql_good plain_codec migrated" by (simp add: sql_good_def migrated_def)
  have acc: "accepted (mysql sample_weight (\<lambda>tx. gid tx)) sample_calls migrated"
    using g by (simp add: accepted_def sample_calls_def mysql_def sample_weight_def db_gids_def db_keys_def migrated_def
        char_length_def continuation_byte_def barrier_new_def barrier_key_def insert_Diff_if)
  have codec: "from_json plain_codec (to_json plain_codec tx) = Some tx" for tx by (simp add: plain_codec_def)
  have refined: "spec_calls sample_calls (sql_view plain_codec migrated) rs (sql_view plain_codec db')"
    using sql_stores_refine [OF codec start _ run, of sample_weight "\<lambda>tx. gid tx"] acc by blast
  have view: "sql_view plain_codec migrated = \<lparr>a_txs = (\<lambda>_. None), a_claims = {}\<rparr>"
    by (simp add: sql_view_def migrated_def)
  have "length rs = 4" using run by (auto simp: sample_calls_def split: prod.splits)
  then obtain r1 r2 r3 r4 where rs: "rs = [r1, r2, r3, r4]" by (auto simp: numeral_eq_Suc length_Suc_conv)
  have "rs = [Inr Acknowledged, Inr (Decided SkipNullCompensation), Inr (Decided SkipCancelledTry), Inr (Found (Some sample_tcc))]"
    using refined g unfolding rs view sample_calls_def
    by (auto simp: replying_def act_simps spec_insert_def spec_barrier_def spec_get_def same_key_def barrier_new_def barrier_key_def Let_def
        dest!: sym [where t = "sql_view plain_codec db'"])
  then show ?thesis using run by simp
qed

end
