(* ===== verification/Spec2Isabelle.thy ===== *)
theory Spec2Isabelle
  imports Xa_Safety Concurrent_Progress Two_Phase_Trace Service_Orphans Service_Admission Service_Paging Service_Time Client_Workflow Sql_Servers
begin

text \<open>
  Verification of the distributed transaction manager \<^verbatim>\<open>roze-dtm\<close>.

  \<^bold>\<open>The program.\<close> A coordinator (\<^verbatim>\<open>Dtm\<close>, \<^verbatim>\<open>src/lib.rs\<close>) drives global transactions of five kinds
  (Saga, TCC, XA, Message, Workflow) by calling the services that own their branches, and keeps every decision in
  a store shared by several coordinators: in memory, SQLite, Postgres, MySQL (\<^verbatim>\<open>src/lib.rs\<close>) or Redis
  (\<^verbatim>\<open>src/redis_store.rs\<close>). Topics (\<^verbatim>\<open>src/kv.rs\<close>) live in the key-value part of the same store.
  Branch services are called through an HTTP and gRPC invoker under a policy on URLs (\<^verbatim>\<open>src/lib.rs\<close>). Participants
  in XA use the resource managers of \<^verbatim>\<open>src/xa.rs\<close>. A service process (\<^verbatim>\<open>service/src/main.rs\<close>,
  \<^verbatim>\<open>service/src/grpc.rs\<close>) exposes the coordinator over HTTP, JSON-RPC and gRPC and runs the recovery
  and retention workers. Applications talk to it through the clients of \<^verbatim>\<open>src/client.rs\<close> (HTTP) and
  \<^verbatim>\<open>src/grpc_client.rs\<close> (gRPC).

  \<^bold>\<open>How it is modelled.\<close> Every operation is a HOL function from a state to a result and a state
  (\<open>act\<close>, theory \<open>Prelude\<close>); a result is \<open>Inl\<close> an error or \<open>Inr\<close> a value. What is outside the program is a parameter: the clock, the answers of
  the services, what other processes do to a shared store between two of our statements, faults of a connection before
  or after a statement takes effect, which of several concurrent calls finishes next, and third-party code (JSON, URLs, base64, protobuf).
  Strings are byte strings; numbers have the width of the source, with Rust's saturating operations.

  \<^item> \<open>Prelude\<close>, \<open>Ordered_Map\<close>: machine integers, fallible values, actions, decimal text; \<^verbatim>\<open>BTreeMap\<close> as an
    association list in key order, with a locale of its laws.
  \<^item> \<open>Dtm_Types\<close>: the enumerations, records, constructors and validators of \<^verbatim>\<open>src/lib.rs\<close>.
  \<^item> \<open>Transitions\<close>: the pure changes of one transaction record that every store applies (dynamic registration,
    workflow progress and completion, deferral), retry delays, due times, the phase-two URL of XA. Shown: progress
    stays bounded and is never rewritten, a workflow is completed once, the phase-two URL cannot be forged.
  \<^item> \<open>Dependencies\<close>: \<^verbatim>\<open>validate_transaction_dependencies\<close>. Shown: it accepts exactly the acyclic well-formed
    graphs, and its search never exhausts its fuel.
  \<^item> \<open>Store\<close>: the trait \<^verbatim>\<open>TransactionStore\<close> as a record of operations, an abstract specification, the locale
    \<open>transaction_store\<close> that relates the two, the in-memory store and \<^verbatim>\<open>RecoveryFencedStore\<close>. Shown: both keep the contract;
    a barrier executes each operation at most once.
  \<^item> \<open>Sql_Store\<close>, \<open>Sql_Servers\<close>: tables and statements of the three relational stores; the second adds the bounded columns, the truncation by
    \<^verbatim>\<open>INSERT IGNORE\<close> and the collations of Postgres and MySQL. Shown: SQLite refines the abstract store
    when undisturbed, and so do the servers on texts that fit and that the collation tells apart (and what goes wrong on others); a SQLite update is linearizable under any interference; where the dialects differ (barrier races,
    barrier keys, leases beyond 63 bits) the exact difference.
  \<^item> \<open>Redis_Store\<close>: commands and Lua scripts. Shown: refinement, no lost update under interference, a stale fence has no effect.
  \<^item> \<open>Coordinator\<close>: the environment and the operations all handlers are built from.
  \<^item> \<open>Saga_Handler\<close>, \<open>Tcc_Handler\<close>, \<open>Workflow_Handler\<close>, \<open>Topics\<close>, \<open>Recovery\<close>: one definition per handler of
    \<^verbatim>\<open>Dtm\<close>, and all requests to it as the datatype \<open>request\<close>.
  \<^item> \<open>Lifecycle\<close>: a state machine per kind of transaction; every sequence of requests, on every store with the
    contract, refines it.
  \<^item> \<open>Shared_Store\<close>: what each step of a handler guarantees on a store that others write to (locale
    \<open>shared_store\<close>), and retention. Shown: a purge deletes exactly expired transactions, and never one that others have renewed meanwhile.
  \<^item> \<open>Saga_Trace\<close>, \<open>Two_Phase_Trace\<close>: the exact calls and final state of sequential Sagas, TCC and XA, and two
    defects of recovery. \<open>Concurrent_Saga\<close>, \<open>Concurrent_Progress\<close>: concurrent Sagas call in dependency order under any interference,
    their loops end, and they succeed when the services answer.
  \<^item> \<open>Xa_Resource\<close>, \<open>Xa_Safety\<close>: the resource managers for MySQL and Postgres. Shown: the work of a branch is
    committed at most once, heuristic decisions are final, a prepared branch can be resolved either way exactly once, the reconciliation report is exact.
  \<^item> \<open>Http_Invoker\<close>: the URL policy, the requests that are built and how replies are read. Shown: no request leaves
    the configured origins.
  \<^item> \<open>Service_Config\<close>, \<open>Service_Requests\<close>, \<open>Service_Views\<close>, \<open>Service_Control\<close>: configuration, the reading of requests,
    what is shown of transactions, every handler with audit and metrics, the router, the ticks of the workers.
  \<^item> \<open>Service_Safety\<close>, \<open>Service_Admission\<close>, \<open>Service_Paging\<close>, \<open>Service_Time\<close>, \<open>Service_Orphans\<close>: without the token
    nothing happens; everything the service does is a sequence of requests to the coordinator, so that the life cycle holds for it;
    its memory is bounded; what it accepts the coordinator accepts; cursors visit everything once; dates are Gregorian; and a defect
    in the handling of padded identifiers.
  \<^item> \<open>Client_Sdk\<close>: every method of the two clients over a transport that is a parameter: the requests they build, how they read
    replies, and \<^verbatim>\<open>xa_global_transaction\<close>. \<open>Client_Service\<close>, \<open>Client_Workflow\<close>: the transport that is the modelled service itself, so
    that a call of a client runs the handler, the coordinator and the store. Shown: a global XA operation over the client is stored as decided
    by its closure; what clients record of a callback workflow is what a client reads back; a client can never read the key-value part, a defect.

  \<^bold>\<open>Bounds and fuel.\<close> The search of \<open>Dependencies\<close> takes one unit more than there are branches, proved enough
  (\<open>dependency_graph_decided\<close>). The two loops of concurrent Sagas and the loop of workflows take one unit more than there are
  branches; \<open>saga_loops_end\<close> proves that no run exhausts it. The 16 attempts of the SQLite compare-and-swap and the
  64 of topic updates are bounds of the source. All other recursion is structural or has a
  termination proof.

  \<^bold>\<open>Not modelled.\<close> Network I/O, TLS, connection pools, timers and the async runtime; the SQL and Redis engines beyond
  the statements used (among them Lua's limit on \<^verbatim>\<open>unpack\<close>, which the deletion of a transaction with thousands of claimed barriers would
  meet, and failures of the statements on the table of heuristic decisions); serialisation by serde and protobuf beyond what the program reads of the values (between client and service
  the path routing of the framework is written out, and the encoding of a whole transaction is a parameter); loading of configuration files, start and shutdown of
  the process, its listeners and static pages; the build script and the
  example programs. Two statements of one transaction of a database are interleaved with others only where the
  engine's isolation permits it.
\<close>

end
